(* ===== verification/Prelude.thy ===== *)
theory Prelude
  imports Main "HOL-Library.Word"
begin

text \<open>
  Shared foundations: the types that stand for Go values, the parts of Go's \<open>strings\<close>, \<open>strconv\<close>
  and \<open>time\<close> packages the runtime calls, and the generic lemmas the component theories reuse.

  A Go string is a byte sequence, so it is a HOL \<^typ>\<open>string\<close> (a \<^typ>\<open>char\<close> is one byte); a
  \<open>[]byte\<close> is a list of 8-bit words.  \<open>int\<close> and \<open>time.Duration\<close> are 64-bit signed integers and are
  kept as 64-bit words where the code's arithmetic can wrap.  A \<open>time.Time\<close> is an integer count of
  nanoseconds since Go's zero time (1 January of year 1, UTC), which is why \<open>IsZero\<close> is equality with
  0; monotonic clock readings are not modelled.  A call that can fail returns a sum whose left side is
  the error.
\<close>

section \<open>Collections for the simplifier\<close>

named_theorems go_str \<open>equations of Go string operations\<close>
named_theorems go_time \<open>equations of Go time operations\<close>
named_theorems codec_laws \<open>round-trip laws of the byte encodings\<close>

lemmas result_splits = if_splits option.splits sum.splits prod.splits list.splits

section \<open>Lists\<close>

lemma filter_by_key: "distinct (map f xs) \<Longrightarrow> x \<in> set xs \<Longrightarrow> filter (\<lambda>y. f y = f x) xs = [x]"
  by (induction xs) (auto simp: filter_empty_conv image_iff)

lemma find_by_key: "distinct (map f xs) \<Longrightarrow> x \<in> set xs \<Longrightarrow> List.find (\<lambda>y. f y = f x) xs = Some x"
  by (induction xs) (auto simp: image_iff)

section \<open>Bytes and characters\<close>

type_synonym byte = "8 word"
type_synonym bytes = "8 word list"
type_synonym int64 = "64 word"

definition byte_of_char :: "char \<Rightarrow> byte" where
  "byte_of_char c = word_of_nat (of_char c)"

definition char_of_byte :: "byte \<Rightarrow> char" where
  "char_of_byte b = char_of (unat b)"

lemma char_of_byte_of_char [simp]: "char_of_byte (byte_of_char c) = c"
proof -
  have "(of_char c :: nat) < 256"
    using nat_of_char_less_256 [of c] by simp
  then have "unat (byte_of_char c) = of_char c"
    by (simp add: byte_of_char_def unat_of_nat take_bit_nat_eq_self)
  then show ?thesis
    by (simp add: char_of_byte_def)
qed

lemma byte_of_char_of_byte [simp]: "byte_of_char (char_of_byte b) = b"
proof -
  have "unat b < 256"
    using unsigned_less [of b, where 'a = nat] by simp
  then show ?thesis
    by (simp add: byte_of_char_def char_of_byte_def)
qed

text \<open>The conversions \<open>[]byte(s)\<close> and \<open>string(b)\<close>.\<close>

definition bytes_of_string :: "string \<Rightarrow> bytes" where
  "bytes_of_string s = map byte_of_char s"

definition string_of_bytes :: "bytes \<Rightarrow> string" where
  "string_of_bytes bs = map char_of_byte bs"

lemma string_of_bytes_of_string [simp]: "string_of_bytes (bytes_of_string s) = s"
  by (simp add: bytes_of_string_def string_of_bytes_def comp_def)

lemma bytes_of_string_of_bytes [simp]: "bytes_of_string (string_of_bytes b) = b"
  by (simp add: bytes_of_string_def string_of_bytes_def comp_def)

lemma length_bytes_of_string [simp]: "length (bytes_of_string s) = length s"
  by (simp add: bytes_of_string_def)

lemma length_string_of_bytes [simp]: "length (string_of_bytes b) = length b"
  by (simp add: string_of_bytes_def)

lemma bytes_of_string_inject [simp]: "bytes_of_string s = bytes_of_string t \<longleftrightarrow> s = t"
  by (metis string_of_bytes_of_string)

lemma bytes_of_string_append [simp]: "bytes_of_string (s @ t) = bytes_of_string s @ bytes_of_string t"
  by (simp add: bytes_of_string_def)

lemma byte_bound [simp]: "unat (b :: byte) < 256"
  using unsigned_less [of b, where 'a = nat] by simp

lemma byte_of_unat: "word_of_nat (unat b) = (b :: byte)"
  by simp

lemma unat_byte: "n < 256 \<Longrightarrow> unat (word_of_nat n :: byte) = n"
  by (simp add: unat_of_nat take_bit_nat_eq_self)

text \<open>
  Randomness is an argument of the code that reads it: \<open>rand n\<close> is what \<open>rand.Read\<close> delivers for an
  \<open>n\<close>-byte buffer, \<open>None\<close> when it fails; its documented contract is that it fills the buffer.
\<close>

type_synonym rand_source = "nat \<Rightarrow> bytes option"

definition fills :: "rand_source \<Rightarrow> bool" where
  "fills rand \<longleftrightarrow> (\<forall>n bs. rand n = Some bs \<longrightarrow> length bs = n)"

text \<open>Comparing a byte with a character range, as the source's \<open>switch\<close> cases do.\<close>

definition code :: "char \<Rightarrow> nat" where
  "code c = of_char c"

definition is_lower :: "char \<Rightarrow> bool" where
  "is_lower c \<longleftrightarrow> 97 \<le> code c \<and> code c \<le> 122"

definition is_upper :: "char \<Rightarrow> bool" where
  "is_upper c \<longleftrightarrow> 65 \<le> code c \<and> code c \<le> 90"

definition is_digit :: "char \<Rightarrow> bool" where
  "is_digit c \<longleftrightarrow> 48 \<le> code c \<and> code c \<le> 57"

definition is_ascii :: "char \<Rightarrow> bool" where
  "is_ascii c \<longleftrightarrow> code c < 128"

lemmas char_class_defs = is_lower_def is_upper_def is_digit_def is_ascii_def code_def

lemma code_less [simp]: "code c < 256"
  unfolding code_def by (rule nat_of_char_less_256)

lemma code_inject [simp]: "code c = code d \<longleftrightarrow> c = d"
  by (simp add: code_def)

section \<open>Go strings\<close>

text \<open>\<open>strings.HasPrefix\<close>, \<open>strings.HasSuffix\<close>, \<open>strings.CutPrefix\<close>.\<close>

definition has_prefix :: "string \<Rightarrow> string \<Rightarrow> bool" where
  "has_prefix s p \<longleftrightarrow> take (length p) s = p"

definition has_suffix :: "string \<Rightarrow> string \<Rightarrow> bool" where
  "has_suffix s p \<longleftrightarrow> length p \<le> length s \<and> drop (length s - length p) s = p"

definition cut_prefix :: "string \<Rightarrow> string \<Rightarrow> string option" where
  "cut_prefix s p = (if has_prefix s p then Some (drop (length p) s) else None)"

lemma has_prefix_iff: "has_prefix s p \<longleftrightarrow> (\<exists>r. s = p @ r)"
  by (metis append_eq_conv_conj append_take_drop_id has_prefix_def)

lemma has_prefix_append [simp, go_str]: "has_prefix (p @ r) p"
  by (simp add: has_prefix_def)

lemma cut_prefix_append [simp, go_str]: "cut_prefix (p @ r) p = Some r"
  by (simp add: cut_prefix_def)

lemma cut_prefix_Some: "cut_prefix s p = Some r \<longleftrightarrow> s = p @ r"
  by (auto simp: cut_prefix_def has_prefix_iff)

text \<open>\<open>strings.Cut\<close> and \<open>strings.Split\<close>, at the one-character separators the runtime uses.\<close>

fun cut :: "char \<Rightarrow> string \<Rightarrow> (string \<times> string) option" where
  "cut sep [] = None"
| "cut sep (x # xs) =
     (if x = sep then Some ([], xs)
      else map_option (\<lambda>(a, b). (x # a, b)) (cut sep xs))"

fun split_on :: "char \<Rightarrow> string \<Rightarrow> string list" where
  "split_on sep [] = [[]]"
| "split_on sep (x # xs) =
     (if x = sep then [] # split_on sep xs
      else (case split_on sep xs of
              [] \<Rightarrow> [[x]]
            | w # ws \<Rightarrow> (x # w) # ws))"

fun join :: "string \<Rightarrow> string list \<Rightarrow> string" where
  "join sep [] = []"
| "join sep [s] = s"
| "join sep (s # t # ts) = s @ sep @ join sep (t # ts)"

lemma cut_Some: "cut sep s = Some (a, b) \<longleftrightarrow> s = a @ sep # b \<and> sep \<notin> set a"
proof (induction s arbitrary: a b)
  case (Cons x xs)
  show ?case
  proof (cases "x = sep")
    case True
    then show ?thesis by (cases a) auto
  next
    case False
    then show ?thesis
      using Cons.IH by (cases a) auto
  qed
qed simp

lemma cut_None: "cut sep s = None \<longleftrightarrow> sep \<notin> set s"
  by (induction s) auto

lemma cut_append [go_str]: "sep \<notin> set a \<Longrightarrow> cut sep (a @ sep # b) = Some (a, b)"
  by (simp add: cut_Some)

lemma split_on_not_Nil [simp]: "split_on sep s \<noteq> []"
  by (cases s) (auto split: list.splits)

lemma join_Cons: "join sep (w # ws) = (if ws = [] then w else w @ sep @ join sep ws)"
  by (cases ws) auto

lemma join_split_on [simp]: "join [sep] (split_on sep s) = s"
proof (induction s)
  case (Cons x xs)
  obtain w ws where "split_on sep xs = w # ws"
    by (cases "split_on sep xs") auto
  with Cons.IH show ?case by (auto simp: join_Cons)
qed simp

lemma split_on_no_sep [go_str]: "sep \<notin> set s \<Longrightarrow> split_on sep s = [s]"
  by (induction s) auto

lemma split_on_append [go_str]: "sep \<notin> set a \<Longrightarrow> split_on sep (a @ sep # b) = a # split_on sep b"
  by (induction a) auto

lemma split_on_join:
  "ws \<noteq> [] \<Longrightarrow> \<forall>w\<in>set ws. sep \<notin> set w \<Longrightarrow> split_on sep (join [sep] ws) = ws"
  by (induction "[sep]" ws rule: join.induct) (simp_all add: split_on_no_sep split_on_append)

lemma split_on_sep_free: "w \<in> set (split_on sep s) \<Longrightarrow> sep \<notin> set w"
proof (induction s arbitrary: w)
  case (Cons x xs)
  show ?case
  proof (cases "split_on sep xs")
    case (Cons v vs)
    then show ?thesis
      using Cons.prems Cons.IH by (auto split: if_splits)
  qed simp
qed simp

text \<open>The number of fields is one more than the number of separators.\<close>

lemma length_split_on: "length (split_on sep s) = Suc (count_list s sep)"
proof (induction s)
  case (Cons x xs)
  then show ?case by (cases "split_on sep xs") auto
qed simp

text \<open>\<open>strings.Contains\<close>.\<close>

fun contains :: "string \<Rightarrow> string \<Rightarrow> bool" where
  "contains [] sub \<longleftrightarrow> sub = []"
| "contains (x # xs) sub \<longleftrightarrow> has_prefix (x # xs) sub \<or> contains xs sub"

lemma contains_iff: "contains s sub \<longleftrightarrow> (\<exists>a b. s = a @ sub @ b)"
proof (induction s)
  case (Cons x xs)
  have "(\<exists>a b. x # xs = a @ sub @ b) \<longleftrightarrow> has_prefix (x # xs) sub \<or> (\<exists>a b. xs = a @ sub @ b)"
    (is "?L \<longleftrightarrow> ?R")
  proof
    assume ?L
    then obtain a b where ab: "x # xs = a @ sub @ b" by blast
    then show ?R by (cases a) (auto simp: has_prefix_iff)
  next
    assume ?R
    then show ?L
    proof
      assume "has_prefix (x # xs) sub"
      then obtain r where "x # xs = [] @ sub @ r" by (auto simp: has_prefix_iff)
      then show ?L by blast
    next
      assume "\<exists>a b. xs = a @ sub @ b"
      then obtain a b where "x # xs = (x # a) @ sub @ b" by auto
      then show ?L by blast
    qed
  qed
  then show ?case by (simp add: Cons.IH)
qed auto

text \<open>
  \<open>strings.TrimSpace\<close> removes leading and trailing Unicode white space.  In UTF-8 the white-space
  code points are the six ASCII ones and these multi-byte sequences; a byte string that starts (ends)
  with one of them is exactly one whose first (last) decoded rune is white space.
\<close>

definition space_encodings :: "string list" where
  "space_encodings =
     [[CHR 0x09], [CHR 0x0A], [CHR 0x0B], [CHR 0x0C], [CHR 0x0D], [CHR 0x20], [CHR 0xC2, CHR 0x85],
      [CHR 0xC2, CHR 0xA0], [CHR 0xE1, CHR 0x9A, CHR 0x80], [CHR 0xE2, CHR 0x80, CHR 0x80],
      [CHR 0xE2, CHR 0x80, CHR 0x81], [CHR 0xE2, CHR 0x80, CHR 0x82], [CHR 0xE2, CHR 0x80, CHR 0x83],
      [CHR 0xE2, CHR 0x80, CHR 0x84], [CHR 0xE2, CHR 0x80, CHR 0x85], [CHR 0xE2, CHR 0x80, CHR 0x86],
      [CHR 0xE2, CHR 0x80, CHR 0x87], [CHR 0xE2, CHR 0x80, CHR 0x88], [CHR 0xE2, CHR 0x80, CHR 0x89],
      [CHR 0xE2, CHR 0x80, CHR 0x8A], [CHR 0xE2, CHR 0x80, CHR 0xA8], [CHR 0xE2, CHR 0x80, CHR 0xA9],
      [CHR 0xE2, CHR 0x80, CHR 0xAF], [CHR 0xE2, CHR 0x81, CHR 0x9F], [CHR 0xE3, CHR 0x80, CHR 0x80]]"

definition leading_space :: "string \<Rightarrow> string option" where
  "leading_space s = List.find (has_prefix s) space_encodings"

lemma leading_space_shorter:
  assumes "leading_space s = Some p"
  shows "length (drop (length p) s) < length s"
proof -
  from assms have pre: "has_prefix s p" and mem: "p \<in> set space_encodings"
    by (auto simp: leading_space_def find_Some_iff)
  from mem have "p \<noteq> []"
    by (auto simp: space_encodings_def)
  moreover from pre have "length p \<le> length s"
    by (auto simp: has_prefix_iff)
  ultimately show ?thesis
    by (cases p) auto
qed

function trim_left :: "string \<Rightarrow> string" where
  "trim_left s = (case leading_space s of
                    None \<Rightarrow> s
                  | Some p \<Rightarrow> trim_left (drop (length p) s))"
  by pat_completeness auto
termination
  by (relation "measure length") (auto dest: leading_space_shorter)

declare trim_left.simps [simp del]

definition trailing_space :: "string \<Rightarrow> string option" where
  "trailing_space s = List.find (has_suffix s) space_encodings"

lemma trailing_space_shorter:
  assumes "trailing_space s = Some p"
  shows "length (take (length s - length p) s) < length s"
proof -
  from assms have suf: "has_suffix s p" and mem: "p \<in> set space_encodings"
    by (auto simp: trailing_space_def find_Some_iff)
  from mem have "p \<noteq> []"
    by (auto simp: space_encodings_def)
  with suf show ?thesis
    by (cases p) (auto simp: has_suffix_def)
qed

function trim_right :: "string \<Rightarrow> string" where
  "trim_right s = (case trailing_space s of
                     None \<Rightarrow> s
                   | Some p \<Rightarrow> trim_right (take (length s - length p) s))"
  by pat_completeness auto
termination
  by (relation "measure length") (auto dest: trailing_space_shorter)

declare trim_right.simps [simp del]

definition trim_space :: "string \<Rightarrow> string" where
  "trim_space s = trim_right (trim_left s)"

text \<open>Visible ASCII text has nothing to trim.\<close>

definition visible_char :: "char \<Rightarrow> bool" where
  "visible_char c \<longleftrightarrow> 32 < code c \<and> code c < 128"

lemma space_not_visible:
  "list_all (\<lambda>p. p \<noteq> [] \<and> \<not> visible_char (hd p) \<and> \<not> visible_char (last p)) space_encodings"
  by (simp add: space_encodings_def visible_char_def code_def)

lemma trim_space_visible:
  assumes "list_all visible_char s"
  shows "trim_space s = s"
proof -
  have no: "\<not> has_prefix s p \<and> \<not> has_suffix s p" if mem: "p \<in> set space_encodings" for p
  proof -
    obtain c cs where p: "p = c # cs" "\<not> visible_char c" "\<not> visible_char (last p)"
      using space_not_visible mem by (cases p) (force simp: list_all_iff)+
    have "c \<notin> set s" "last p \<notin> set s" using p(2,3) assms by (auto simp: list_all_iff)
    moreover have "has_prefix s p \<Longrightarrow> c \<in> set s" using p(1) by (auto simp: has_prefix_iff)
    moreover have "has_suffix s p \<Longrightarrow> last p \<in> set s"
      using last_in_set [of p] set_drop_subset [of "length s - length p" s] p(1) by (auto simp: has_suffix_def)
    ultimately show ?thesis by blast
  qed
  have "leading_space s = None" "trailing_space s = None"
    using no by (auto simp: leading_space_def trailing_space_def find_None_iff)
  then show ?thesis
    by (simp add: trim_space_def trim_left.simps [of s] trim_right.simps [of s])
qed

text \<open>\<open>strings.Trim(s, c)\<close> with a one-character cutset.\<close>

definition trim_char :: "char \<Rightarrow> string \<Rightarrow> string" where
  "trim_char c s = rev (dropWhile (\<lambda>x. x = c) (rev (dropWhile (\<lambda>x. x = c) s)))"

text \<open>
  \<open>strings.ToLower\<close> and \<open>strings.ToUpper\<close>.  On an ASCII string they are the byte-wise maps below; on
  any other string they consult Unicode's case tables, which are an argument of the functions that use
  them.
\<close>

definition lower_char :: "char \<Rightarrow> char" where
  "lower_char c = (if is_upper c then char_of (code c + 32) else c)"

definition upper_char :: "char \<Rightarrow> char" where
  "upper_char c = (if is_lower c then char_of (code c - 32) else c)"

type_synonym case_table = "string \<Rightarrow> string"

definition to_lower :: "case_table \<Rightarrow> string \<Rightarrow> string" where
  "to_lower tbl s = (if list_all is_ascii s then map lower_char s else tbl s)"

definition to_upper :: "case_table \<Rightarrow> string \<Rightarrow> string" where
  "to_upper tbl s = (if list_all is_ascii s then map upper_char s else tbl s)"

section \<open>Decimal numerals\<close>

definition digit_char :: "nat \<Rightarrow> char" where
  "digit_char d = char_of (48 + d)"

definition digit_val :: "char \<Rightarrow> nat" where
  "digit_val c = code c - 48"

fun show_nat :: "nat \<Rightarrow> string" where
  "show_nat n = (if n < 10 then [digit_char n] else show_nat (n div 10) @ [digit_char (n mod 10)])"

declare show_nat.simps [simp del]

definition show_int :: "int \<Rightarrow> string" where
  "show_int i = (if i < 0 then CHR ''-'' # show_nat (nat (- i)) else show_nat (nat i))"

definition digits_val :: "string \<Rightarrow> nat" where
  "digits_val s = foldl (\<lambda>n c. 10 * n + digit_val c) 0 s"

lemma is_digit_digit_char [simp]: "d < 10 \<Longrightarrow> is_digit (digit_char d)"
  by (simp add: char_class_defs digit_char_def take_bit_nat_eq_self)

lemma digit_val_digit_char [simp]: "d < 10 \<Longrightarrow> digit_val (digit_char d) = d"
  by (simp add: digit_val_def digit_char_def code_def take_bit_nat_eq_self)

lemma show_nat_not_Nil [simp]: "show_nat n \<noteq> []" "[] \<noteq> show_nat n"
  using show_nat.simps [of n] by (auto split: if_splits dest: sym)

lemma show_nat_digits: "list_all is_digit (show_nat n)"
proof (induction n rule: show_nat.induct)
  case (1 n)
  then show ?case by (subst show_nat.simps) auto
qed

lemma digits_val_show_nat [simp]: "digits_val (show_nat n) = n"
proof (induction n rule: show_nat.induct)
  case (1 n)
  show ?case
  proof (cases "n < 10")
    case True
    then show ?thesis by (subst show_nat.simps) (simp add: digits_val_def)
  next
    case False
    with 1 have "digits_val (show_nat (n div 10)) = n div 10" by simp
    with False show ?thesis
      by (subst show_nat.simps) (simp add: digits_val_def)
  qed
qed

lemma digits_val_less: "list_all is_digit s \<Longrightarrow> digits_val s < 10 ^ length s"
proof (induction s rule: rev_induct)
  case (snoc c s)
  then have "digits_val s < 10 ^ length s" and "digit_val c \<le> 9"
    by (auto simp: digit_val_def is_digit_def)
  moreover have "digits_val (s @ [c]) = 10 * digits_val s + digit_val c"
    by (simp add: digits_val_def)
  ultimately show ?case by simp
qed (simp add: digits_val_def)

lemma digits_val_snoc: "digits_val (s @ [c]) = 10 * digits_val s + digit_val c"
  by (simp add: digits_val_def)

lemma digit_char_digit_val: "is_digit c \<Longrightarrow> digit_char (digit_val c) = c"
  by (simp add: digit_char_def digit_val_def is_digit_def) (simp add: code_def)

lemma digit_val_le: "is_digit c \<Longrightarrow> digit_val c \<le> 9"
  by (auto simp: digit_val_def is_digit_def)

text \<open>A run of digits with no superfluous leading zero is the numeral of its value.\<close>

definition canonical_digits :: "string \<Rightarrow> bool" where
  "canonical_digits s \<longleftrightarrow> s \<noteq> [] \<and> list_all is_digit s \<and> \<not> (length s > 1 \<and> hd s = CHR ''0'')"

lemma digits_val_pos:
  assumes "list_all is_digit s" and "s \<noteq> []" and "hd s \<noteq> CHR ''0''"
  shows "0 < digits_val s"
  using assms
proof (induction s rule: rev_induct)
  case (snoc c s)
  show ?case
  proof (cases "s = []")
    case True
    have "digit_val c \<noteq> 0"
    proof
      assume "digit_val c = 0"
      with snoc.prems(1) have "c = digit_char 0"
        using digit_char_digit_val [of c] by simp
      moreover have "digit_char 0 = CHR ''0''" by code_simp
      ultimately have "c = CHR ''0''" by simp
      with snoc.prems(3) True show False by simp
    qed
    with True show ?thesis by (simp add: digits_val_def)
  next
    case False
    with snoc have "0 < digits_val s" by simp
    then show ?thesis by (simp add: digits_val_snoc)
  qed
qed simp

lemma show_nat_digits_val: "canonical_digits s \<Longrightarrow> show_nat (digits_val s) = s"
proof (induction s rule: rev_induct)
  case (snoc c s)
  have c: "is_digit c" using snoc.prems by (simp add: canonical_digits_def)
  note dc = digit_val_le [OF c] digit_char_digit_val [OF c]
  show ?case
  proof (cases "s = []")
    case True
    then show ?thesis using dc by (subst show_nat.simps) (simp add: digits_val_def)
  next
    case False
    with snoc.prems have can: "canonical_digits s" and hd: "hd s \<noteq> CHR ''0''"
      by (auto simp: canonical_digits_def)
    have "0 < digits_val s" using digits_val_pos can hd False by (auto simp: canonical_digits_def)
    moreover have "(10 * digits_val s + digit_val c) div 10 = digits_val s"
      "(10 * digits_val s + digit_val c) mod 10 = digit_val c"
      using dc(1) by presburger+
    ultimately show ?thesis
      using snoc.IH [OF can] dc by (subst show_nat.simps) (simp add: digits_val_snoc)
  qed
qed (simp add: canonical_digits_def)

lemma canonical_show_nat: "canonical_digits (show_nat n)"
proof -
  have hd: "hd (show_nat n) = CHR ''0'' \<Longrightarrow> n = 0" for n
  proof (induction n rule: show_nat.induct)
    case (1 n)
    show ?case
    proof (cases "n < 10")
      case True
      then have "digit_val (hd (show_nat n)) = n" by (subst show_nat.simps) simp
      with 1 show ?thesis by (simp add: digit_val_def code_def)
    next
      case False
      then have "hd (show_nat n) = hd (show_nat (n div 10))" by (subst show_nat.simps) simp
      with 1 False show ?thesis by auto
    qed
  qed
  have "length (show_nat 0) = 1" by (subst show_nat.simps) simp
  then show ?thesis
    using hd [of n] show_nat_digits [of n] by (auto simp: canonical_digits_def)
qed

text \<open>
  \<open>strconv.ParseUint(s, 10, bits)\<close> accepts a non-empty run of ASCII digits within range, leading zeros
  included; \<open>strconv.Atoi\<close> additionally accepts one sign and the 64-bit signed range.  (Base 10 is given
  explicitly or fixed, so underscores are refused.)
\<close>

definition parse_uint :: "nat \<Rightarrow> string \<Rightarrow> nat option" where
  "parse_uint bits s =
     (if s \<noteq> [] \<and> list_all is_digit s \<and> digits_val s < 2 ^ bits then Some (digits_val s) else None)"

definition atoi :: "string \<Rightarrow> int option" where
  "atoi s =
     (let neg = (s \<noteq> [] \<and> hd s = CHR ''-'');
          body = (if s \<noteq> [] \<and> (hd s = CHR ''-'' \<or> hd s = CHR ''+'') then tl s else s)
      in if body = [] \<or> \<not> list_all is_digit body then None
         else if neg then (if digits_val body \<le> 2 ^ 63 then Some (- int (digits_val body)) else None)
         else (if digits_val body < 2 ^ 63 then Some (int (digits_val body)) else None))"

lemma parse_uint_show_nat [simp]: "n < 2 ^ bits \<Longrightarrow> parse_uint bits (show_nat n) = Some n"
  by (simp add: parse_uint_def show_nat_digits)

lemma atoi_digits:
  assumes "s \<noteq> []" and "list_all is_digit s" and "digits_val s < 2 ^ 63"
  shows "atoi s = Some (int (digits_val s))"
proof -
  have "is_digit (hd s)"
    using assms(1,2) by (cases s) auto
  then have "hd s \<noteq> CHR ''-''" and "hd s \<noteq> CHR ''+''"
    by (auto simp: char_class_defs)
  with assms show ?thesis by (simp add: atoi_def Let_def)
qed

lemma atoi_show_nat [simp]: "n < 2 ^ 63 \<Longrightarrow> atoi (show_nat n) = Some (int n)"
  by (simp add: atoi_digits show_nat_digits)

section \<open>64-bit arithmetic on values\<close>

text \<open>
  Where the values of a component stay far inside the 64-bit range, Go's \<open>int\<close> and \<open>int64\<close> are HOL
  integers and \<open>wrap64\<close> marks each operation whose result the source does not bound first.
\<close>

definition wrap64 :: "int \<Rightarrow> int" where
  "wrap64 i = sint (word_of_int i :: int64)"

section \<open>Time\<close>

type_synonym time = int
type_synonym duration = int64

definition max_duration :: int where "max_duration = 2 ^ 63 - 1"
definition min_duration :: int where "min_duration = - (2 ^ 63)"

text \<open>\<open>t.Sub(u)\<close> saturates at the ends of the \<open>Duration\<close> range; \<open>t.Add(d)\<close> adds the signed value.\<close>

definition time_sub :: "time \<Rightarrow> time \<Rightarrow> duration" where
  "time_sub t u = word_of_int (max min_duration (min max_duration (t - u)))"

definition time_add :: "time \<Rightarrow> duration \<Rightarrow> time" where
  "time_add t d = t + sint d"

text \<open>Seconds between Go's zero time and the Unix epoch; \<open>t.Unix()\<close> rounds down.\<close>

definition unix_offset :: int where "unix_offset = 62135596800"

definition time_unix :: "time \<Rightarrow> int" where
  "time_unix t = t div 1000000000 - unix_offset"

definition unix_time :: "int \<Rightarrow> time" where
  "unix_time s = (s + unix_offset) * 1000000000"

lemma sint_range: "- (2 ^ 63) \<le> sint (d :: int64)" "sint (d :: int64) < 2 ^ 63"
  using sint_range_size [of d] by (simp_all add: word_size)

lemma sint_word_of_int_id:
  assumes "- (2 ^ 63) \<le> i" and "i < 2 ^ 63"
  shows "sint (word_of_int i :: int64) = i"
  using assms by (simp add: sint_sbintrunc' signed_take_bit_int_eq_self)

lemma wrap64_id: "- (2 ^ 63) \<le> i \<Longrightarrow> i < 2 ^ 63 \<Longrightarrow> wrap64 i = i"
  unfolding wrap64_def by (rule sint_word_of_int_id)

lemma sint_word_of_int_wrap:
  assumes "2 ^ 63 \<le> i" and "i < 2 ^ 63 + 2 ^ 64"
  shows "sint (word_of_int i :: int64) = i - 2 ^ 64"
proof -
  have "(word_of_int i :: int64) = word_of_int (i - 2 ^ 64)"
    by (rule word_of_int_eq_iff [THEN iffD2]) (simp add: take_bit_eq_mod)
  also have "sint \<dots> = i - 2 ^ 64"
    using assms by (intro sint_word_of_int_id) simp_all
  finally show ?thesis .
qed

text \<open>Doubling a positive \<open>int64\<close> either doubles its value or wraps to a negative one.\<close>

lemma sint_double:
  assumes "0 < sint (w :: int64)"
  shows "sint (w * 2) = (if sint w < 2 ^ 62 then 2 * sint w else 2 * sint w - 2 ^ 64)"
proof -
  have w: "w * 2 = word_of_int (2 * sint w)"
    by (simp add: mult.commute)
  show ?thesis
    using assms sint_word_of_int_id [of "2 * sint w"] sint_word_of_int_wrap [of "2 * sint w"]
      sint_range [of w]
    unfolding w by auto
qed

lemma sint_time_sub [go_time]:
  "sint (time_sub t u) = max min_duration (min max_duration (t - u))"
  unfolding time_sub_def
  by (rule sint_word_of_int_id) (auto simp: min_duration_def max_duration_def)

text \<open>Comparing an elapsed time with a duration needs no saturation argument at the call sites.\<close>

lemma duration_le_time_sub [go_time]: "d \<le>s time_sub t u \<longleftrightarrow> sint d \<le> t - u \<or> sint d = min_duration"
  using sint_range [of d]
  by (auto simp: word_sle_eq sint_time_sub min_duration_def max_duration_def)

lemma time_sub_less_duration [go_time]:
  "time_sub t u <s d \<longleftrightarrow> t - u < sint d \<and> sint d \<noteq> min_duration"
  using sint_range [of d]
  by (auto simp: word_sless_alt sint_time_sub min_duration_def max_duration_def)

lemma time_unix_unix_time [simp, go_time]: "time_unix (unix_time s) = s"
  by (simp add: time_unix_def unix_time_def)

text \<open>\<open>time.Unix(x, 0)\<close> counts from year 1 in an \<open>int64\<close> of seconds.\<close>

definition time_Unix :: "int \<Rightarrow> time" where
  "time_Unix x = wrap64 (x + unix_offset) * 1000000000"

end
