(* ===== verification/Encodings.thy ===== *)
theory Encodings
  imports Prelude
begin

text \<open>
  Models of Go's \<open>encoding/base64\<close> and \<open>encoding/base32\<close>, as the runtime uses them: an encoding is an
  alphabet, whether it pads, and whether decoding is strict about trailing bits.  Decoding skips carriage
  returns and line feeds anywhere in the input, as Go's decoders do.  The interface the clients rely on is
  the locale \<open>byte_codec\<close>; it is interpreted for every encoding the program uses.
\<close>

section \<open>Interface\<close>

locale byte_codec =
  fixes enc :: "bytes \<Rightarrow> string"
    and dec :: "string \<Rightarrow> bytes option"
  assumes dec_enc: "dec (enc bs) = Some bs"
begin

lemma enc_inject: "enc xs = enc ys \<longleftrightarrow> xs = ys"
  by (metis dec_enc option.inject)

lemma enc_cong_dec: "dec s = Some bs \<Longrightarrow> dec (enc bs) = dec s"
  by (simp add: dec_enc)

end

text \<open>
  A strict codec also determines its input: among line-break-free strings, only the image of \<open>enc\<close>
  decodes.
\<close>

locale strict_codec = byte_codec +
  fixes clean :: "string \<Rightarrow> bool"
  assumes clean_enc: "clean (enc bs)"
    and enc_dec: "clean s \<Longrightarrow> dec s = Some bs \<Longrightarrow> enc bs = s"
begin

lemma dec_iff: "clean s \<Longrightarrow> dec s = Some bs \<longleftrightarrow> s = enc bs"
  using dec_enc enc_dec by auto

lemma dec_inject: "clean s \<Longrightarrow> clean t \<Longrightarrow> dec s = Some bs \<Longrightarrow> dec t = Some bs \<Longrightarrow> s = t"
  using enc_dec by blast

end

section \<open>Alphabets\<close>

definition value_of :: "string \<Rightarrow> char \<Rightarrow> nat option" where
  "value_of alph c =
     (if c \<in> set alph then Some (length (takeWhile (\<lambda>x. x \<noteq> c) alph)) else None)"

lemma value_of_nth:
  assumes "distinct alph" and "i < length alph"
  shows "value_of alph (alph ! i) = Some i"
proof -
  have "takeWhile (\<lambda>x. x \<noteq> alph ! i) alph = take i alph"
    using assms by (intro takeWhile_eq_take_P_nth) (auto simp: nth_eq_iff_index_eq)
  with assms show ?thesis by (simp add: value_of_def)
qed

lemma value_of_SomeD:
  assumes "value_of alph c = Some i"
  shows "i < length alph" and "alph ! i = c"
proof -
  from assms have c: "c \<in> set alph" and i: "i = length (takeWhile (\<lambda>x. x \<noteq> c) alph)"
    by (auto simp: value_of_def split: if_splits)
  then show "i < length alph"
    by (metis (mono_tags, lifting) length_takeWhile_le linorder_not_le nle_le takeWhile_eq_all_conv
        takeWhile_eq_take take_all_iff)
  with i show "alph ! i = c"
    using nth_length_takeWhile [of "\<lambda>x. x \<noteq> c" alph] by simp
qed

section \<open>Base64\<close>

record encoding =
  alphabet :: string
  padded :: bool
  strict :: bool

definition std_alphabet :: string where
  "std_alphabet = ''ABCDEFGHIJKLMNOPQRSTUVWXYZabcdefghijklmnopqrstuvwxyz0123456789+/''"

definition url_alphabet :: string where
  "url_alphabet = ''ABCDEFGHIJKLMNOPQRSTUVWXYZabcdefghijklmnopqrstuvwxyz0123456789-_''"

definition StdEncoding :: encoding where
  "StdEncoding = \<lparr>alphabet = std_alphabet, padded = True, strict = False\<rparr>"
definition RawStdEncoding :: encoding where
  "RawStdEncoding = StdEncoding\<lparr>padded := False\<rparr>"
definition URLEncoding :: encoding where
  "URLEncoding = \<lparr>alphabet = url_alphabet, padded = True, strict = False\<rparr>"
definition RawURLEncoding :: encoding where
  "RawURLEncoding = URLEncoding\<lparr>padded := False\<rparr>"

definition Strict :: "encoding \<Rightarrow> encoding" where
  "Strict e = e\<lparr>strict := True\<rparr>"

text \<open>The sextets of a three-byte group, and the bytes of a four-sextet group.\<close>

definition sextet0 :: "byte \<Rightarrow> nat" where "sextet0 x = unat x div 4"
definition sextet1 :: "byte \<Rightarrow> byte \<Rightarrow> nat" where "sextet1 x y = unat x mod 4 * 16 + unat y div 16"
definition sextet2 :: "byte \<Rightarrow> byte \<Rightarrow> nat" where "sextet2 y z = unat y mod 16 * 4 + unat z div 64"
definition sextet3 :: "byte \<Rightarrow> nat" where "sextet3 z = unat z mod 64"

definition octet0 :: "nat \<Rightarrow> nat \<Rightarrow> byte" where "octet0 v0 v1 = word_of_nat (v0 * 4 + v1 div 16)"
definition octet1 :: "nat \<Rightarrow> nat \<Rightarrow> byte" where "octet1 v1 v2 = word_of_nat (v1 mod 16 * 16 + v2 div 4)"
definition octet2 :: "nat \<Rightarrow> nat \<Rightarrow> byte" where "octet2 v2 v3 = word_of_nat (v2 mod 4 * 64 + v3)"

fun enc64 :: "encoding \<Rightarrow> bytes \<Rightarrow> string" where
  "enc64 e [] = []"
| "enc64 e [x] =
     [alphabet e ! sextet0 x, alphabet e ! sextet1 x 0] @ (if padded e then ''=='' else [])"
| "enc64 e [x, y] =
     [alphabet e ! sextet0 x, alphabet e ! sextet1 x y, alphabet e ! sextet2 y 0]
     @ (if padded e then ''='' else [])"
| "enc64 e (x # y # z # rest) =
     [alphabet e ! sextet0 x, alphabet e ! sextet1 x y, alphabet e ! sextet2 y z,
      alphabet e ! sextet3 z]
     @ enc64 e rest"

text \<open>Decoding one quantum of two, three or four digits; the first two check the unused low bits.\<close>

definition quantum2 :: "encoding \<Rightarrow> char \<Rightarrow> char \<Rightarrow> bytes option" where
  "quantum2 e a b =
     (case (value_of (alphabet e) a, value_of (alphabet e) b) of
        (Some v0, Some v1) \<Rightarrow>
          if strict e \<and> v1 mod 16 \<noteq> 0 then None else Some [octet0 v0 v1]
      | _ \<Rightarrow> None)"

definition quantum3 :: "encoding \<Rightarrow> char \<Rightarrow> char \<Rightarrow> char \<Rightarrow> bytes option" where
  "quantum3 e a b c =
     (case (value_of (alphabet e) a, value_of (alphabet e) b, value_of (alphabet e) c) of
        (Some v0, Some v1, Some v2) \<Rightarrow>
          if strict e \<and> v2 mod 4 \<noteq> 0 then None else Some [octet0 v0 v1, octet1 v1 v2]
      | _ \<Rightarrow> None)"

definition quantum4 :: "encoding \<Rightarrow> char \<Rightarrow> char \<Rightarrow> char \<Rightarrow> char \<Rightarrow> bytes option" where
  "quantum4 e a b c d =
     (case (value_of (alphabet e) a, value_of (alphabet e) b,
            value_of (alphabet e) c, value_of (alphabet e) d) of
        (Some v0, Some v1, Some v2, Some v3) \<Rightarrow> Some [octet0 v0 v1, octet1 v1 v2, octet2 v2 v3]
      | _ \<Rightarrow> None)"

fun dec64 :: "encoding \<Rightarrow> string \<Rightarrow> bytes option" where
  "dec64 e [] = Some []"
| "dec64 e [a] = None"
| "dec64 e [a, b] = (if padded e then None else quantum2 e a b)"
| "dec64 e [a, b, c] = (if padded e then None else quantum3 e a b c)"
| "dec64 e (a # b # c # d # rest) =
     (if padded e \<and> d = CHR ''=''
      then (if rest \<noteq> [] then None
            else if c = CHR ''='' then quantum2 e a b else quantum3 e a b c)
      else (case quantum4 e a b c d of
              None \<Rightarrow> None
            | Some bs \<Rightarrow> map_option ((@) bs) (dec64 e rest)))"

definition no_breaks :: "string \<Rightarrow> bool" where
  "no_breaks s \<longleftrightarrow> list_all (\<lambda>c. c \<noteq> CHR 0x0A \<and> c \<noteq> CHR 0x0D) s"

definition decode_string :: "encoding \<Rightarrow> string \<Rightarrow> bytes option" where
  "decode_string e s =
     dec64 e (filter (\<lambda>c. c \<noteq> CHR 0x0A \<and> c \<noteq> CHR 0x0D) s)"

text \<open>What the proofs need of an encoding: 64 distinct digits, none of them padding or a line break.\<close>

definition good_encoding :: "encoding \<Rightarrow> bool" where
  "good_encoding e \<longleftrightarrow>
     length (alphabet e) = 64 \<and> distinct (alphabet e) \<and> CHR ''='' \<notin> set (alphabet e) \<and>
     no_breaks (alphabet e)"

lemma good_std: "good_encoding \<lparr>alphabet = std_alphabet, padded = p, strict = s\<rparr>"
  by (simp add: good_encoding_def std_alphabet_def no_breaks_def)

lemma good_url: "good_encoding \<lparr>alphabet = url_alphabet, padded = p, strict = s\<rparr>"
  by (simp add: good_encoding_def url_alphabet_def no_breaks_def)

lemma good_encodings [simp]:
  "good_encoding StdEncoding" "good_encoding RawStdEncoding"
  "good_encoding URLEncoding" "good_encoding RawURLEncoding"
  by (simp_all add: StdEncoding_def RawStdEncoding_def URLEncoding_def RawURLEncoding_def
      good_std good_url)

lemma good_Strict [simp]: "good_encoding (Strict e) \<longleftrightarrow> good_encoding e"
  by (simp add: good_encoding_def Strict_def)

lemma enc64_Strict [simp]: "enc64 (Strict e) bs = enc64 e bs"
  by (induction "Strict e" bs rule: enc64.induct) (simp_all add: Strict_def)

lemma decode_string_clean: "no_breaks s \<Longrightarrow> decode_string e s = dec64 e s"
  by (simp add: decode_string_def no_breaks_def list_all_iff filter_id_conv)

lemma alphabet_nth_not_pad: "good_encoding e \<Longrightarrow> i < 64 \<Longrightarrow> alphabet e ! i \<noteq> CHR ''=''"
  by (metis good_encoding_def nth_mem)

lemma alphabet_value [simp]:
  "good_encoding e \<Longrightarrow> i < 64 \<Longrightarrow> value_of (alphabet e) (alphabet e ! i) = Some i"
  by (simp add: good_encoding_def value_of_nth)

lemma sextet_less [simp]: "sextet0 x < 64" "sextet1 x y < 64" "sextet2 x y < 64" "sextet3 x < 64"
  using byte_bound [of x] byte_bound [of y]
  unfolding sextet0_def sextet1_def sextet2_def sextet3_def by linarith+

lemma octet_sextet [simp]:
  "octet0 (sextet0 x) (sextet1 x y) = x"
  "octet1 (sextet1 x y) (sextet2 y z) = y"
  "octet2 (sextet2 y z) (sextet3 z) = z"
proof -
  have y: "unat y div 16 < 16" and z: "unat z div 64 < 4"
    using byte_bound [of y] byte_bound [of z] by linarith+
  have "(unat x mod 4 * 16 + unat y div 16) div 16 = unat x mod 4"
    using y by simp
  then show "octet0 (sextet0 x) (sextet1 x y) = x"
    by (simp only: octet0_def sextet0_def sextet1_def div_mult_mod_eq byte_of_unat)
  have "(unat x mod 4 * 16 + unat y div 16) mod 16 = unat y div 16"
    using y by simp
  moreover have "(unat y mod 16 * 4 + unat z div 64) div 4 = unat y mod 16"
    using z by simp
  ultimately show "octet1 (sextet1 x y) (sextet2 y z) = y"
    by (simp only: octet1_def sextet1_def sextet2_def div_mult_mod_eq byte_of_unat)
  have "(unat y mod 16 * 4 + unat z div 64) mod 4 = unat z div 64"
    using z by simp
  then show "octet2 (sextet2 y z) (sextet3 z) = z"
    by (simp only: octet2_def sextet2_def sextet3_def div_mult_mod_eq byte_of_unat)
qed

lemma sextet_low_bits [simp]: "sextet1 x 0 mod 16 = 0" "sextet2 x 0 mod 4 = 0"
  by (simp_all add: sextet1_def sextet2_def)

lemma dec64_enc64:
  assumes "good_encoding e"
  shows "dec64 e (enc64 e bs) = Some bs"
  using assms
proof (induction e bs rule: enc64.induct)
  case (4 e x y z rest)
  have "alphabet e ! sextet3 z \<noteq> CHR ''=''"
    using "4.prems" by (simp add: alphabet_nth_not_pad)
  with 4 show ?case by (simp add: quantum4_def)
next
  case (3 e x y)
  have "alphabet e ! sextet2 y 0 \<noteq> CHR ''=''"
    using "3.prems" by (simp add: alphabet_nth_not_pad)
  with 3 show ?case by (simp add: quantum3_def)
qed (simp_all add: quantum2_def)

text \<open>Conversely the sextets of the decoded bytes are the digits read, given zero unused bits.\<close>

lemma unat_octet:
  assumes "v0 < 64" "v1 < 64" "v2 < 64" "v3 < 64"
  shows "unat (octet0 v0 v1) = v0 * 4 + v1 div 16"
    and "unat (octet1 v1 v2) = v1 mod 16 * 16 + v2 div 4"
    and "unat (octet2 v2 v3) = v2 mod 4 * 64 + v3"
proof -
  have "v0 * 4 + v1 div 16 < 256" "v1 mod 16 * 16 + v2 div 4 < 256" "v2 mod 4 * 64 + v3 < 256"
    using assms by linarith+
  then show "unat (octet0 v0 v1) = v0 * 4 + v1 div 16"
    and "unat (octet1 v1 v2) = v1 mod 16 * 16 + v2 div 4"
    and "unat (octet2 v2 v3) = v2 mod 4 * 64 + v3"
    unfolding octet0_def octet1_def octet2_def by (simp_all only: unat_byte)
qed

lemma sextet_octet:
  assumes "v0 < 64" "v1 < 64" "v2 < 64" "v3 < 64"
  shows "sextet0 (octet0 v0 v1) = v0"
    and "sextet1 (octet0 v0 v1) (octet1 v1 v2) = v1"
    and "sextet2 (octet1 v1 v2) (octet2 v2 v3) = v2"
    and "sextet3 (octet2 v2 v3) = v3"
    and "v1 mod 16 = 0 \<Longrightarrow> sextet1 (octet0 v0 v1) 0 = v1"
    and "v2 mod 4 = 0 \<Longrightarrow> sextet2 (octet1 v1 v2) 0 = v2"
  using assms
  unfolding sextet0_def sextet1_def sextet2_def sextet3_def unat_octet [OF assms]
  by (simp_all add: unat_octet) presburger+

lemma quantum2_strict:
  assumes "good_encoding e" "strict e" "quantum2 e a b = Some bs"
  obtains x where "bs = [x]" "alphabet e ! sextet0 x = a" "alphabet e ! sextet1 x 0 = b"
proof -
  from assms obtain v0 v1 where v: "value_of (alphabet e) a = Some v0" "value_of (alphabet e) b = Some v1"
    and z: "v1 mod 16 = 0" and bs: "bs = [octet0 v0 v1]"
    by (auto simp: quantum2_def split: option.splits if_splits)
  from v assms(1) have "v0 < 64" "v1 < 64"
    by (auto dest: value_of_SomeD simp: good_encoding_def)
  with v z bs show thesis
    by (intro that) (auto dest: value_of_SomeD simp: sextet_octet)
qed

lemma quantum3_strict:
  assumes "good_encoding e" "strict e" "quantum3 e a b c = Some bs"
  obtains x y where "bs = [x, y]" "alphabet e ! sextet0 x = a" "alphabet e ! sextet1 x y = b"
    "alphabet e ! sextet2 y 0 = c"
proof -
  from assms obtain v0 v1 v2 where v: "value_of (alphabet e) a = Some v0"
      "value_of (alphabet e) b = Some v1" "value_of (alphabet e) c = Some v2"
    and z: "v2 mod 4 = 0" and bs: "bs = [octet0 v0 v1, octet1 v1 v2]"
    by (auto simp: quantum3_def split: option.splits if_splits)
  from v assms(1) have "v0 < 64" "v1 < 64" "v2 < 64"
    by (auto dest: value_of_SomeD simp: good_encoding_def)
  with v z bs show thesis
    by (intro that) (auto dest: value_of_SomeD simp: sextet_octet)
qed

lemma quantum4_digits:
  assumes "good_encoding e" "quantum4 e a b c d = Some bs"
  obtains x y z where "bs = [x, y, z]" "alphabet e ! sextet0 x = a" "alphabet e ! sextet1 x y = b"
    "alphabet e ! sextet2 y z = c" "alphabet e ! sextet3 z = d"
proof -
  from assms obtain v0 v1 v2 v3 where v: "value_of (alphabet e) a = Some v0"
      "value_of (alphabet e) b = Some v1" "value_of (alphabet e) c = Some v2"
      "value_of (alphabet e) d = Some v3"
    and bs: "bs = [octet0 v0 v1, octet1 v1 v2, octet2 v2 v3]"
    by (auto simp: quantum4_def split: option.splits)
  from v assms(1) have "v0 < 64" "v1 < 64" "v2 < 64" "v3 < 64"
    by (auto dest: value_of_SomeD simp: good_encoding_def)
  with v bs show thesis
    by (intro that) (auto dest: value_of_SomeD simp: sextet_octet)
qed

lemma enc64_dec64:
  assumes "good_encoding e" and "strict e" and "dec64 e s = Some bs"
  shows "enc64 e bs = s"
  using assms
proof (induction e s arbitrary: bs rule: dec64.induct)
  case (5 e a b c d rest)
  show ?case
  proof (cases "padded e \<and> d = CHR ''=''")
    case True
    with "5.prems"(3) have "rest = []"
      by (auto split: if_splits)
    show ?thesis
    proof (cases "c = CHR ''=''")
      case eq: True
      with True "5.prems" \<open>rest = []\<close> have "quantum2 e a b = Some bs" by simp
      with True eq "5.prems"(1,2) \<open>rest = []\<close> show ?thesis
        by (auto elim!: quantum2_strict)
    next
      case False
      with True "5.prems" \<open>rest = []\<close> have "quantum3 e a b c = Some bs" by simp
      with True "5.prems"(1,2) \<open>rest = []\<close> show ?thesis
        by (auto elim!: quantum3_strict)
    qed
  next
    case False
    with "5.prems"(3) obtain q r where q: "quantum4 e a b c d = Some q"
      and r: "dec64 e rest = Some r" and bs: "bs = q @ r"
      by (auto split: option.splits if_splits)
    from 5(1) [OF False q] "5.prems"(1,2) r have "enc64 e r = rest" by blast
    with q bs "5.prems"(1) show ?thesis
      by (auto elim!: quantum4_digits)
  qed
next
  case (3 e a b)
  then show ?case by (auto split: if_splits elim!: quantum2_strict)
next
  case (4 e a b c)
  then show ?case by (auto split: if_splits elim!: quantum3_strict)
qed simp_all

text \<open>Every character written is a digit of the alphabet or padding.\<close>

lemma set_enc64:
  assumes "good_encoding e"
  shows "set (enc64 e bs) \<subseteq> set (alphabet e) \<union> (if padded e then {CHR ''=''} else {})"
  using assms
proof -
  have mem: "i < 64 \<Longrightarrow> alphabet e ! i \<in> set (alphabet e)" for i
    using assms by (simp add: good_encoding_def)
  show ?thesis
    using assms mem by (induction e bs rule: enc64.induct) auto
qed

lemma no_breaks_enc64 [simp]: "good_encoding e \<Longrightarrow> no_breaks (enc64 e bs)"
  using set_enc64 [of e bs] by (auto simp: no_breaks_def good_encoding_def list_all_iff split: if_splits)

lemma decode_encode [simp, codec_laws]: "good_encoding e \<Longrightarrow> decode_string e (enc64 e bs) = Some bs"
  by (simp add: decode_string_clean dec64_enc64)

text \<open>\<open>EncodedLen\<close> of an unpadded encoding.\<close>

definition encoded_len :: "nat \<Rightarrow> nat" where
  "encoded_len n = n div 3 * 4 + (n mod 3 * 8 + 5) div 6"

lemma encoded_len_add3: "encoded_len (3 + n) = 4 + encoded_len n"
  by (simp add: encoded_len_def div_add_self1)

lemma length_enc64_raw: "\<not> padded e \<Longrightarrow> length (enc64 e bs) = encoded_len (length bs)"
proof (induction e bs rule: enc64.induct)
  case (4 e x y z rest)
  from encoded_len_add3 [of "length rest"] 4 show ?case by (simp add: numeral_eq_Suc)
qed (simp_all add: encoded_len_def)

lemma quantum_lengths:
  "quantum2 e a b = Some bs \<Longrightarrow> length bs = 1"
  "quantum3 e a b c = Some bs \<Longrightarrow> length bs = 2"
  "quantum4 e a b c d = Some bs \<Longrightarrow> length bs = 3"
  by (auto simp: quantum2_def quantum3_def quantum4_def split: option.splits if_splits)

lemma length_dec64_raw: "\<not> padded e \<Longrightarrow> dec64 e s = Some bs \<Longrightarrow> length s = encoded_len (length bs)"
proof (induction e s arbitrary: bs rule: dec64.induct)
  case (5 e a b c d rest)
  then obtain q r where "quantum4 e a b c d = Some q" "dec64 e rest = Some r" "bs = q @ r"
    by (auto split: option.splits if_splits)
  with 5 show ?case by (auto simp: quantum_lengths encoded_len_add3)
qed (auto dest!: quantum_lengths simp: encoded_len_def split: if_splits)

text \<open>A decoder that skips line breaks still cannot accept them in an input of the exact length.\<close>

lemma exact_length_no_breaks:
  assumes "\<not> padded e" "decode_string e s = Some bs" "length s = encoded_len (length bs)"
  shows "no_breaks s"
proof -
  let ?ok = "\<lambda>c. c \<noteq> CHR 0x0A \<and> c \<noteq> CHR 0x0D"
  have "length (filter ?ok s) = length s"
    using assms length_dec64_raw [OF assms(1)] by (simp add: decode_string_def)
  then have "filter ?ok s = s"
    by (metis filter_True length_filter_less less_irrefl)
  then show ?thesis by (simp add: no_breaks_def list_all_iff filter_id_conv)
qed

section \<open>The encodings the program uses\<close>

interpretation std64: byte_codec "enc64 StdEncoding" "decode_string StdEncoding"
  by unfold_locales simp

interpretation raw_url64: byte_codec "enc64 RawURLEncoding" "decode_string RawURLEncoding"
  by unfold_locales simp

lemma strict_decode_encode:
  assumes "good_encoding e" "no_breaks s" "decode_string (Strict e) s = Some bs"
  shows "enc64 e bs = s"
proof -
  have "dec64 (Strict e) s = Some bs"
    using assms by (simp add: decode_string_clean)
  then have "enc64 (Strict e) bs = s"
    using assms(1) by (intro enc64_dec64) (simp_all add: Strict_def good_encoding_def)
  then show ?thesis by simp
qed

lemma strict_decode_enc [simp, codec_laws]:
  "good_encoding e \<Longrightarrow> decode_string (Strict e) (enc64 e bs) = Some bs"
  using decode_encode [of "Strict e" bs] by simp

interpretation strict_url64: strict_codec
  "enc64 RawURLEncoding" "decode_string (Strict RawURLEncoding)" no_breaks
  by unfold_locales (auto intro: strict_decode_encode)

interpretation strict_std64: strict_codec
  "enc64 RawStdEncoding" "decode_string (Strict RawStdEncoding)" no_breaks
  by unfold_locales (auto intro: strict_decode_encode)

lemma Strict_padded [simp]: "padded (Strict e) = padded e"
  by (simp add: Strict_def)

lemma raw_not_padded [simp]: "\<not> padded RawURLEncoding" "\<not> padded RawStdEncoding"
  by (simp_all add: RawURLEncoding_def RawStdEncoding_def)

lemma alphabets [simp]:
  "alphabet RawURLEncoding = url_alphabet" "alphabet RawStdEncoding = std_alphabet"
  "alphabet StdEncoding = std_alphabet" "alphabet URLEncoding = url_alphabet"
  by (simp_all add: RawURLEncoding_def RawStdEncoding_def StdEncoding_def URLEncoding_def)

end
