(* ===== verification/Hashes.thy ===== *)
theory Hashes
  imports Prelude
begin

text \<open>
  Models of \<open>crypto/sha256\<close>, \<open>crypto/sha1\<close> and \<open>crypto/hmac\<close> (FIPS 180-4 and RFC 2104), of
  \<open>encoding/binary.BigEndian\<close>, and of the constant-time comparison the program uses.  The locale
  \<open>mac\<close> states what the clients use of a keyed hash: a tag of fixed width, which only an equal tag
  matches.
\<close>

unbundle bit_operations_syntax

section \<open>Big-endian integers\<close>

definition put_uint64 :: "64 word \<Rightarrow> bytes" where
  "put_uint64 w = map (\<lambda>i. ucast (drop_bit (8 * (7 - i)) w)) [0..<8]"

definition put_uint32 :: "32 word \<Rightarrow> bytes" where
  "put_uint32 w = map (\<lambda>i. ucast (drop_bit (8 * (3 - i)) w)) [0..<4]"

definition get_uint32 :: "bytes \<Rightarrow> 32 word" where
  "get_uint32 bs = foldl (\<lambda>acc b. push_bit 8 acc OR ucast b) 0 bs"

lemma length_put_uint64 [simp]: "length (put_uint64 w) = 8"
  by (simp add: put_uint64_def)

lemma length_put_uint32 [simp]: "length (put_uint32 w) = 4"
  by (simp add: put_uint32_def)

text \<open>The eight bytes determine the integer.\<close>

lemma put_uint64_inject: "put_uint64 v = put_uint64 w \<longleftrightarrow> v = w"
proof
  assume eq: "put_uint64 v = put_uint64 w"
  have byte: "(ucast (drop_bit (8 * (7 - i)) v) :: byte) = ucast (drop_bit (8 * (7 - i)) w)"
    if "i < 8" for i
    using arg_cong [OF eq, of "\<lambda>xs. xs ! i"] that by (simp add: put_uint64_def)
  show "v = w"
  proof (rule bit_word_eqI)
    fix n assume n: "n < LENGTH(64)"
    define i where "i = 7 - n div 8"
    have i: "i < 8" "8 * (7 - i) + n mod 8 = n"
      using n by (auto simp: i_def)
    from byte [OF i(1)]
    have "bit (ucast (drop_bit (8 * (7 - i)) v) :: byte) (n mod 8) =
          bit (ucast (drop_bit (8 * (7 - i)) w) :: byte) (n mod 8)" by simp
    then show "bit v n = bit w n"
      using i(2) by (simp add: bit_ucast_iff bit_drop_bit_eq)
  qed
qed simp

section \<open>Message padding and blocks\<close>

definition md_pad :: "bytes \<Rightarrow> bytes" where
  "md_pad m = m @ [128] @ replicate ((119 - length m mod 64) mod 64) 0
              @ put_uint64 (word_of_nat (8 * length m))"

fun chunks :: "nat \<Rightarrow> nat \<Rightarrow> bytes \<Rightarrow> bytes list" where
  "chunks 0 n bs = []"
| "chunks (Suc k) n bs = take n bs # chunks k n (drop n bs)"

definition blocks :: "bytes \<Rightarrow> bytes list" where
  "blocks bs = chunks (length bs div 64) 64 bs"

definition block_words :: "bytes \<Rightarrow> 32 word list" where
  "block_words b = map get_uint32 (chunks 16 4 b)"

section \<open>SHA-256\<close>

definition sha256_k :: "32 word list" where
  "sha256_k =
    [1116352408, 1899447441, 3049323471, 3921009573, 961987163, 1508970993, 2453635748, 2870763221,
     3624381080, 310598401, 607225278, 1426881987, 1925078388, 2162078206, 2614888103, 3248222580,
     3835390401, 4022224774, 264347078, 604807628, 770255983, 1249150122, 1555081692, 1996064986,
     2554220882, 2821834349, 2952996808, 3210313671, 3336571891, 3584528711, 113926993, 338241895,
     666307205, 773529912, 1294757372, 1396182291, 1695183700, 1986661051, 2177026350, 2456956037,
     2730485921, 2820302411, 3259730800, 3345764771, 3516065817, 3600352804, 4094571909, 275423344,
     430227734, 506948616, 659060556, 883997877, 958139571, 1322822218, 1537002063, 1747873779,
     1955562222, 2024104815, 2227730452, 2361852424, 2428436474, 2756734187, 3204031479,
     3329325298]"

datatype sha256_state =
  S256 (sa: "32 word") (sb: "32 word") (sc: "32 word") (sd: "32 word")
       (se: "32 word") (sf: "32 word") (sg: "32 word") (sh: "32 word")

definition sha256_init :: sha256_state where
  "sha256_init =
     S256 1779033703 3144134277 1013904242 2773480762 1359893119 2600822924 528734635 1541459225"

definition sha256_schedule :: "32 word list \<Rightarrow> 32 word list" where
  "sha256_schedule ws =
     foldl (\<lambda>w t.
       let x = w ! (t - 15); y = w ! (t - 2);
           s0 = word_rotr 7 x XOR word_rotr 18 x XOR drop_bit 3 x;
           s1 = word_rotr 17 y XOR word_rotr 19 y XOR drop_bit 10 y
       in w @ [w ! (t - 16) + s0 + w ! (t - 7) + s1]) ws [16..<64]"

fun sha256_round :: "sha256_state \<Rightarrow> 32 word \<times> 32 word \<Rightarrow> sha256_state" where
  "sha256_round (S256 a b c d e f g h) (k, w) =
     (let s1 = word_rotr 6 e XOR word_rotr 11 e XOR word_rotr 25 e;
          ch = (e AND f) XOR (NOT e AND g);
          t1 = h + s1 + ch + k + w;
          s0 = word_rotr 2 a XOR word_rotr 13 a XOR word_rotr 22 a;
          maj = (a AND b) XOR (a AND c) XOR (b AND c);
          t2 = s0 + maj
      in S256 (t1 + t2) a b c (d + t1) e f g)"

fun sha256_add :: "sha256_state \<Rightarrow> sha256_state \<Rightarrow> sha256_state" where
  "sha256_add (S256 a b c d e f g h) (S256 a' b' c' d' e' f' g' h') =
     S256 (a + a') (b + b') (c + c') (d + d') (e + e') (f + f') (g + g') (h + h')"

definition sha256_block :: "sha256_state \<Rightarrow> bytes \<Rightarrow> sha256_state" where
  "sha256_block s b =
     sha256_add s (foldl sha256_round s (zip sha256_k (sha256_schedule (block_words b))))"

definition sha256 :: "bytes \<Rightarrow> bytes" where
  "sha256 m =
     (case foldl sha256_block sha256_init (blocks (md_pad m)) of
        S256 a b c d e f g h \<Rightarrow> concat (map put_uint32 [a, b, c, d, e, f, g, h]))"

lemma length_sha256 [simp]: "length (sha256 m) = 32"
  by (simp add: sha256_def split: sha256_state.splits)

section \<open>SHA-1\<close>

datatype sha1_state = S1 "32 word" "32 word" "32 word" "32 word" "32 word"

definition sha1_init :: sha1_state where
  "sha1_init = S1 0x67452301 0xefcdab89 0x98badcfe 0x10325476 0xc3d2e1f0"

definition sha1_schedule :: "32 word list \<Rightarrow> 32 word list" where
  "sha1_schedule ws =
     foldl (\<lambda>w t. w @ [word_rotl 1 (w ! (t - 3) XOR w ! (t - 8) XOR w ! (t - 14) XOR w ! (t - 16))])
       ws [16..<80]"

fun sha1_round :: "sha1_state \<Rightarrow> nat \<times> 32 word \<Rightarrow> sha1_state" where
  "sha1_round (S1 a b c d e) (t, w) =
     (let (f, k) =
            (if t < 20 then ((b AND c) XOR (NOT b AND d), 0x5a827999)
             else if t < 40 then (b XOR c XOR d, 0x6ed9eba1)
             else if t < 60 then ((b AND c) XOR (b AND d) XOR (c AND d), 0x8f1bbcdc)
             else (b XOR c XOR d, 0xca62c1d6))
      in S1 (word_rotl 5 a + f + e + k + w) a (word_rotl 30 b) c d)"

fun sha1_add :: "sha1_state \<Rightarrow> sha1_state \<Rightarrow> sha1_state" where
  "sha1_add (S1 a b c d e) (S1 a' b' c' d' e') = S1 (a + a') (b + b') (c + c') (d + d') (e + e')"

definition sha1_block :: "sha1_state \<Rightarrow> bytes \<Rightarrow> sha1_state" where
  "sha1_block s b = sha1_add s (foldl sha1_round s (zip [0..<80] (sha1_schedule (block_words b))))"

definition sha1 :: "bytes \<Rightarrow> bytes" where
  "sha1 m =
     (case foldl sha1_block sha1_init (blocks (md_pad m)) of
        S1 a b c d e \<Rightarrow> concat (map put_uint32 [a, b, c, d, e]))"

lemma length_sha1 [simp]: "length (sha1 m) = 20"
  by (simp add: sha1_def split: sha1_state.splits)

section \<open>HMAC\<close>

text \<open>Both hash functions have 64-byte blocks.\<close>

definition hmac_key :: "(bytes \<Rightarrow> bytes) \<Rightarrow> bytes \<Rightarrow> bytes" where
  "hmac_key h key =
     (let k = (if length key > 64 then h key else key) in k @ replicate (64 - length k) 0)"

definition hmac :: "(bytes \<Rightarrow> bytes) \<Rightarrow> bytes \<Rightarrow> bytes \<Rightarrow> bytes" where
  "hmac h key m =
     h (map (\<lambda>b. b XOR 0x5c) (hmac_key h key) @ h (map (\<lambda>b. b XOR 0x36) (hmac_key h key) @ m))"

definition hmac_sha256 :: "bytes \<Rightarrow> bytes \<Rightarrow> bytes" where
  "hmac_sha256 = hmac sha256"

definition hmac_sha1 :: "bytes \<Rightarrow> bytes \<Rightarrow> bytes" where
  "hmac_sha1 = hmac sha1"

section \<open>Constant-time comparison\<close>

text \<open>
  \<open>subtle.ConstantTimeCompare\<close> and \<open>hmac.Equal\<close>: unequal lengths differ, otherwise the exclusive ors of
  the bytes are accumulated and the accumulator compared with zero.
\<close>

definition xor_accumulate :: "bytes \<Rightarrow> bytes \<Rightarrow> byte" where
  "xor_accumulate a b = foldl (\<lambda>acc (x, y). acc OR (x XOR y)) 0 (zip a b)"

definition constant_time_compare :: "bytes \<Rightarrow> bytes \<Rightarrow> bool" where
  "constant_time_compare a b \<longleftrightarrow> length a = length b \<and> xor_accumulate a b = 0"

lemma or_eq_0_byte: "(x OR y = 0) \<longleftrightarrow> x = 0 \<and> y = (0 :: byte)"
  by (auto simp: bit_eq_iff bit_or_iff)

lemma xor_eq_0_byte: "x XOR y = 0 \<longleftrightarrow> x = (y :: byte)"
  by (auto simp: bit_eq_iff bit_xor_iff)

lemma foldl_or_zero:
  "foldl (\<lambda>acc (x, y). acc OR (x XOR y)) (acc :: byte) ps = 0 \<longleftrightarrow>
     acc = 0 \<and> (\<forall>(x, y) \<in> set ps. x = y)"
  by (induction ps arbitrary: acc) (auto simp: or_eq_0_byte xor_eq_0_byte)

lemma xor_accumulate_zero: "length a = length b \<Longrightarrow> xor_accumulate a b = 0 \<longleftrightarrow> a = b"
proof (induction a b rule: list_induct2)
  case (Cons x xs y ys)
  then show ?case by (auto simp: xor_accumulate_def foldl_or_zero xor_eq_0_byte)
qed (simp add: xor_accumulate_def)

lemma constant_time_compare_iff [simp]: "constant_time_compare a b \<longleftrightarrow> a = b"
  by (auto simp: constant_time_compare_def xor_accumulate_zero)

section \<open>Interface\<close>

locale mac =
  fixes tag :: "bytes \<Rightarrow> bytes \<Rightarrow> bytes"
    and width :: nat
  assumes tag_width: "length (tag k m) = width"
begin

text \<open>Verification by recomputing the tag accepts the issued tag and nothing else.\<close>

lemma recompute_accepts: "constant_time_compare (tag k m) (tag k m)"
  by simp

lemma recompute_unique: "constant_time_compare t (tag k m) \<Longrightarrow> t = tag k m"
  by simp

lemma wrong_width: "length t \<noteq> width \<Longrightarrow> \<not> constant_time_compare t (tag k m)"
  using tag_width by auto

end

interpretation hmac256: mac hmac_sha256 32
  by unfold_locales (simp add: hmac_sha256_def hmac_def)

interpretation hmac1: mac hmac_sha1 20
  by unfold_locales (simp add: hmac_sha1_def hmac_def)

end
