(* ===== verification/Session.thy ===== *)
theory Session
  imports Encodings Hashes
begin

text \<open>
  \<open>runtime/session\<close>: opaque session tokens and their digests (\<open>token.go\<close>), the idle, absolute and
  revoked lifecycle of a stored session (\<open>lifetime.go\<close>), reauthentication windows (\<open>freshness.go\<close>), the
  session-bound anti-forgery token (\<open>csrf.go\<close>) and the browser cookie policy (\<open>cookie.go\<close>).
  The random source is an argument of minting.
\<close>

datatype lifetime_fault = IdleBounds | AbsoluteBounds | IdleExceedsAbsolute | TouchNotPositive | TouchTooLong

datatype cookie_fault = NameLength | NameCharacter | NameOnlyPrefix | SecureNeedsPrefix | PrefixNeedsSecure

datatype session_error =
    ErrTokenFormat
  | ErrTokenRandom
  | ErrLifetime lifetime_fault
  | ErrFreshness
  | ErrCookiePolicy cookie_fault
  | ErrCookieOption string

unbundle bit_operations_syntax

section \<open>Tokens\<close>

definition TokenVersion :: string where "TokenVersion = ''ns1''"
definition tokenSeparator :: char where "tokenSeparator = CHR ''_''"
definition SecretBytes :: nat where "SecretBytes = 32"
definition DigestBytes :: nat where "DigestBytes = 32"
definition MaxTokenBytes :: nat where "MaxTokenBytes = 128"

definition encodedSecretLength :: nat where
  "encodedSecretLength = encoded_len SecretBytes"

record token =
  token_value :: string

definition New :: "rand_source \<Rightarrow> session_error + token" where
  "New rand =
     (case rand SecretBytes of
        None \<Rightarrow> Inl ErrTokenRandom
      | Some secret \<Rightarrow>
          Inr \<lparr>token_value = TokenVersion @ [tokenSeparator] @ enc64 RawURLEncoding secret\<rparr>)"

definition Parse :: "string \<Rightarrow> session_error + token" where
  "Parse raw =
     (if length raw > MaxTokenBytes then Inl ErrTokenFormat
      else (case cut tokenSeparator raw of
              None \<Rightarrow> Inl ErrTokenFormat
            | Some (version, secret) \<Rightarrow>
                if version \<noteq> TokenVersion \<or> length secret \<noteq> encodedSecretLength
                then Inl ErrTokenFormat
                else (case decode_string (Strict RawURLEncoding) secret of
                        None \<Rightarrow> Inl ErrTokenFormat
                      | Some decoded \<Rightarrow>
                          if length decoded \<noteq> SecretBytes then Inl ErrTokenFormat
                          else Inr \<lparr>token_value = raw\<rparr>)))"

definition Token_Digest :: "token \<Rightarrow> bytes" where
  "Token_Digest t = sha256 (bytes_of_string (token_value t))"

definition Token_IsZero :: "token \<Rightarrow> bool" where
  "Token_IsZero t \<longleftrightarrow> token_value t = []"

definition Digest :: "string \<Rightarrow> session_error + bytes" where
  "Digest raw = (case Parse raw of Inl err \<Rightarrow> Inl err | Inr t \<Rightarrow> Inr (Token_Digest t))"

text \<open>The comparison loop, as written: an exclusive-or accumulator over the 32 positions.\<close>

definition EqualDigest :: "bytes \<Rightarrow> bytes \<Rightarrow> bool" where
  "EqualDigest a b =
     (if length a \<noteq> DigestBytes \<or> length b \<noteq> DigestBytes then False
      else foldl (\<lambda>difference i. difference OR (a ! i XOR b ! i)) 0 [0..<length a] = 0)"

section \<open>Lifetimes\<close>

definition Second :: duration where "Second = 1000000000"
definition Minute :: duration where "Minute = 60 * Second"
definition Hour :: duration where "Hour = 60 * Minute"

definition MinIdle :: duration where "MinIdle = Minute"
definition MaxIdle :: duration where "MaxIdle = 30 * 24 * Hour"
definition MinAbsolute :: duration where "MinAbsolute = Minute"
definition MaxAbsolute :: duration where "MaxAbsolute = 365 * 24 * Hour"
definition DefaultIdle :: duration where "DefaultIdle = 12 * Hour"
definition DefaultAbsolute :: duration where "DefaultAbsolute = 30 * 24 * Hour"
definition DefaultTouchInterval :: duration where "DefaultTouchInterval = 5 * Minute"

lemmas unit_defs = Second_def Minute_def Hour_def
lemmas lifetime_consts = MinIdle_def MaxIdle_def MinAbsolute_def MaxAbsolute_def DefaultIdle_def
  DefaultAbsolute_def DefaultTouchInterval_def unit_defs

type_synonym session_state = string

definition Active :: session_state where "Active = ''active''"
definition Revoked :: session_state where "Revoked = ''revoked''"
definition Expired :: session_state where "Expired = ''expired''"
definition Idle :: session_state where "Idle = ''idle''"

lemmas state_defs = Active_def Revoked_def Expired_def Idle_def

definition State_Valid :: "session_state \<Rightarrow> bool" where
  "State_Valid s \<longleftrightarrow> s \<in> {Active, Revoked, Expired, Idle}"

record lifetime =
  lt_idle :: duration
  lt_absolute :: duration
  lt_touchInterval :: duration

definition NewLifetime :: "duration \<Rightarrow> duration \<Rightarrow> duration \<Rightarrow> session_error + lifetime" where
  "NewLifetime idle absolute touchInterval =
     (if idle <s MinIdle \<or> MaxIdle <s idle then Inl (ErrLifetime IdleBounds)
      else if absolute <s MinAbsolute \<or> MaxAbsolute <s absolute then Inl (ErrLifetime AbsoluteBounds)
      else if absolute <s idle then Inl (ErrLifetime IdleExceedsAbsolute)
      else if touchInterval \<le>s 0 then Inl (ErrLifetime TouchNotPositive)
      else if idle <s touchInterval * 2 then Inl (ErrLifetime TouchTooLong)
      else Inr \<lparr>lt_idle = idle, lt_absolute = absolute, lt_touchInterval = touchInterval\<rparr>)"

definition DefaultLifetime :: lifetime where
  "DefaultLifetime =
     \<lparr>lt_idle = DefaultIdle, lt_absolute = DefaultAbsolute, lt_touchInterval = DefaultTouchInterval\<rparr>"

definition Lifetime_IsZero :: "lifetime \<Rightarrow> bool" where
  "Lifetime_IsZero l \<longleftrightarrow> lt_idle l = 0"

definition Lifetime_ExpiresAt :: "lifetime \<Rightarrow> time \<Rightarrow> time" where
  "Lifetime_ExpiresAt l issuedAt = time_add issuedAt (lt_absolute l)"

definition NeedsTouch :: "lifetime \<Rightarrow> time \<Rightarrow> time \<Rightarrow> bool" where
  "NeedsTouch l lastSeenAt now \<longleftrightarrow> lt_touchInterval l \<le>s time_sub now lastSeenAt"

record session_record =
  ID :: string
  UserID :: string
  CreatedAt :: time
  LastSeenAt :: time
  ExpiresAt :: time
  RevokedAt :: time
  ProvenAt :: time

definition Evaluate :: "session_record \<Rightarrow> time \<Rightarrow> lifetime \<Rightarrow> session_state" where
  "Evaluate r now l =
     (if RevokedAt r \<noteq> 0 \<and> \<not> now < RevokedAt r then Revoked
      else if ExpiresAt r \<noteq> 0 \<and> \<not> now < ExpiresAt r then Expired
      else if Lifetime_IsZero l then Idle
      else if lt_idle l \<le>s time_sub now (LastSeenAt r) then Idle
      else Active)"

definition IsActive :: "session_record \<Rightarrow> time \<Rightarrow> lifetime \<Rightarrow> bool" where
  "IsActive r now l \<longleftrightarrow> Evaluate r now l = Active"

section \<open>Freshness\<close>

definition MinFreshness :: duration where "MinFreshness = 30 * Second"
definition MaxFreshness :: duration where "MaxFreshness = 24 * Hour"
definition DefaultFreshness :: duration where "DefaultFreshness = 15 * Minute"

record freshness =
  fr_window :: duration

definition NewFreshness :: "duration \<Rightarrow> session_error + freshness" where
  "NewFreshness window =
     (if window <s MinFreshness \<or> MaxFreshness <s window then Inl ErrFreshness
      else Inr \<lparr>fr_window = window\<rparr>)"

definition Freshness_IsZero :: "freshness \<Rightarrow> bool" where
  "Freshness_IsZero f \<longleftrightarrow> fr_window f = 0"

definition Satisfied :: "freshness \<Rightarrow> time \<Rightarrow> time \<Rightarrow> bool" where
  "Satisfied f provenAt now =
     (if Freshness_IsZero f \<or> provenAt = 0 then False
      else let age = time_sub now provenAt;
               age = (if age <s 0 then 0 else age)
           in age <s fr_window f)"

definition StaleAt :: "freshness \<Rightarrow> time \<Rightarrow> time" where
  "StaleAt f provenAt =
     (if Freshness_IsZero f \<or> provenAt = 0 then 0 else time_add provenAt (fr_window f))"

definition ProvenWithin :: "session_record \<Rightarrow> time \<Rightarrow> freshness \<Rightarrow> bool" where
  "ProvenWithin r now f = Satisfied f (ProvenAt r) now"

section \<open>Anti-forgery tokens\<close>

definition CSRFCookieSuffix :: string where "CSRFCookieSuffix = ''_csrf''"
definition csrfContext :: string where "csrfContext = ''nise-csrf-v1''"

definition CSRFToken :: "token \<Rightarrow> string" where
  "CSRFToken t =
     (if Token_IsZero t then []
      else enc64 RawURLEncoding
             (hmac_sha256 (bytes_of_string (token_value t)) (bytes_of_string csrfContext)))"

definition VerifyCSRF :: "token \<Rightarrow> string \<Rightarrow> bool" where
  "VerifyCSRF t presented =
     (if Token_IsZero t \<or> presented = [] \<or> length presented > MaxTokenBytes then False
      else let expected = CSRFToken t
           in if expected = [] then False
              else constant_time_compare (bytes_of_string expected) (bytes_of_string presented))"

definition SafeMethod :: "case_table \<Rightarrow> string \<Rightarrow> bool" where
  "SafeMethod tbl method = (to_upper tbl method \<in> {''GET'', ''HEAD'', ''OPTIONS'', ''TRACE''})"

section \<open>Cookie policy\<close>

definition HostPrefix :: string where "HostPrefix = ''__Host-''"
definition DefaultCookieName :: string where "DefaultCookieName = HostPrefix @ ''session''"
definition InsecureCookieName :: string where "InsecureCookieName = ''session''"
definition MaxCookieNameBytes :: nat where "MaxCookieNameBytes = 64"

datatype same_site = SameSiteDefaultMode | SameSiteLaxMode | SameSiteStrictMode | SameSiteNoneMode

record cookie_policy =
  cp_name :: string
  cp_secure :: bool
  cp_sameSite :: same_site

type_synonym cookie_option = "cookie_policy \<Rightarrow> session_error + cookie_policy"

definition WithCookieName :: "string \<Rightarrow> cookie_option" where
  "WithCookieName name = (\<lambda>p. Inr (p\<lparr>cp_name := name\<rparr>))"

definition cookie_char :: "char \<Rightarrow> bool" where
  "cookie_char c \<longleftrightarrow> is_lower c \<or> is_upper c \<or> is_digit c \<or> c = CHR ''_'' \<or> c = CHR ''-''"

definition cookie_validate :: "cookie_policy \<Rightarrow> cookie_fault option" where
  "cookie_validate p =
     (if length (cp_name p) < 1 \<or> length (cp_name p) > MaxCookieNameBytes then Some NameLength
      else if \<not> list_all cookie_char (cp_name p) then Some NameCharacter
      else if has_prefix (cp_name p) HostPrefix \<and> length (cp_name p) = length HostPrefix
        then Some NameOnlyPrefix
      else if has_prefix (cp_name p) HostPrefix \<noteq> cp_secure p
        then Some (if cp_secure p then SecureNeedsPrefix else PrefixNeedsSecure)
      else None)"

fun apply_cookie_options :: "cookie_option list \<Rightarrow> cookie_policy \<Rightarrow> session_error + cookie_policy" where
  "apply_cookie_options [] p = Inr p"
| "apply_cookie_options (opt # opts) p =
     (case opt p of Inl err \<Rightarrow> Inl err | Inr p' \<Rightarrow> apply_cookie_options opts p')"

definition NewCookiePolicy :: "bool \<Rightarrow> cookie_option list \<Rightarrow> session_error + cookie_policy" where
  "NewCookiePolicy secureTransport options =
     (let policy = \<lparr>cp_name = DefaultCookieName, cp_secure = secureTransport,
                    cp_sameSite = SameSiteLaxMode\<rparr>;
          policy = (if \<not> secureTransport then policy\<lparr>cp_name := InsecureCookieName\<rparr> else policy)
      in case apply_cookie_options options policy of
           Inl err \<Rightarrow> Inl err
         | Inr policy \<Rightarrow>
             (case cookie_validate policy of
                Some fault \<Rightarrow> Inl (ErrCookiePolicy fault)
              | None \<Rightarrow> Inr policy))"

definition CSRFName :: "cookie_policy \<Rightarrow> string" where
  "CSRFName p = (if cp_name p = [] then [] else cp_name p @ CSRFCookieSuffix)"

definition CookiePolicy_IsZero :: "cookie_policy \<Rightarrow> bool" where
  "CookiePolicy_IsZero p \<longleftrightarrow> cp_name p = []"

definition Hardened :: "cookie_policy \<Rightarrow> bool" where
  "Hardened p \<longleftrightarrow> cp_secure p \<and> has_prefix (cp_name p) HostPrefix"

section \<open>Properties of tokens\<close>

lemma encodedSecretLength_val: "encodedSecretLength = 43"
  by (simp add: encodedSecretLength_def SecretBytes_def encoded_len_def)

lemma length_minted: "length secret = 32 \<Longrightarrow> length (enc64 RawURLEncoding secret) = 43"
  by (simp add: length_enc64_raw encoded_len_def)

lemma Parse_minted:
  "length secret = 32 \<Longrightarrow>
   Parse (''ns1_'' @ enc64 RawURLEncoding secret) =
     Inr \<lparr>token_value = ''ns1_'' @ enc64 RawURLEncoding secret\<rparr>"
  by (simp add: Parse_def TokenVersion_def tokenSeparator_def MaxTokenBytes_def SecretBytes_def
      encodedSecretLength_val length_minted)

lemma Parse_InrD:
  assumes "Parse raw = Inr t"
  shows "token_value t = raw \<and> (\<exists>secret. length secret = 32 \<and> raw = ''ns1_'' @ enc64 RawURLEncoding secret)"
proof -
  from assms obtain secret decoded where
    cut: "cut tokenSeparator raw = Some (TokenVersion, secret)" and
    len: "length secret = 43" "length decoded = 32" and
    dec: "decode_string (Strict RawURLEncoding) secret = Some decoded" and
    t: "t = \<lparr>token_value = raw\<rparr>"
    by (auto simp: Parse_def encodedSecretLength_val SecretBytes_def split: if_splits option.splits)
  have "no_breaks secret"
    using dec len by (intro exact_length_no_breaks [OF _ dec]) (simp_all add: encoded_len_def)
  then have "enc64 RawURLEncoding decoded = secret"
    using dec by (rule strict_url64.enc_dec)
  moreover from cut have "raw = ''ns1_'' @ secret"
    by (simp add: cut_Some TokenVersion_def tokenSeparator_def)
  ultimately show ?thesis using t len by auto
qed

text \<open>
  C1: a client-presented value parses exactly when it is one the minting function can produce: the
  version prefix followed by the canonical unpadded base64url form of 32 bytes.  In particular no two
  different strings stand for one secret, although the decoder skips line breaks.
\<close>

theorem Parse_exact:
  "Parse raw = Inr t \<longleftrightarrow>
     token_value t = raw \<and>
     (\<exists>secret. length secret = SecretBytes \<and>
        raw = TokenVersion @ [tokenSeparator] @ enc64 RawURLEncoding secret)"
  (is "?L \<longleftrightarrow> ?R")
proof
  assume ?L
  then show ?R
    using Parse_InrD [of raw t] by (auto simp: SecretBytes_def TokenVersion_def tokenSeparator_def)
next
  assume ?R
  then show ?L
    using Parse_minted by (auto simp: SecretBytes_def TokenVersion_def tokenSeparator_def)
qed

text \<open>
  a token that was minted from a full random buffer parses to itself, and the digest looked up for
  the string the client presents is the digest the server stored.
\<close>

theorem New_roundtrip:
  assumes "fills rand" and "New rand = Inr t"
  shows "Parse (token_value t) = Inr t \<and> Digest (token_value t) = Inr (Token_Digest t)"
proof -
  from assms obtain secret where "rand SecretBytes = Some secret"
    and t: "t = \<lparr>token_value = ''ns1_'' @ enc64 RawURLEncoding secret\<rparr>"
    by (auto simp: New_def TokenVersion_def tokenSeparator_def split: option.splits)
  with assms(1) have "length secret = 32"
    by (auto simp: fills_def SecretBytes_def)
  with t have "Parse (token_value t) = Inr t"
    using Parse_minted [of secret] by simp
  then show ?thesis by (simp add: Digest_def)
qed

theorem New_roundtrip_witness:
  "\<exists>t. fills (\<lambda>n. Some (replicate n 7)) \<and> New (\<lambda>n. Some (replicate n 7)) = Inr t \<and>
       Parse (token_value t) = Inr t"
proof -
  have f: "fills (\<lambda>n. Some (replicate n 7))"
    by (simp add: fills_def)
  moreover have "New (\<lambda>n. Some (replicate n 7)) =
      Inr \<lparr>token_value = TokenVersion @ [tokenSeparator] @ enc64 RawURLEncoding (replicate SecretBytes 7)\<rparr>"
    by (simp add: New_def)
  ultimately show ?thesis
    using New_roundtrip by blast
qed

lemma foldl_index_zip:
  assumes "length a = length b"
  shows "foldl (\<lambda>acc i. f acc (a ! i) (b ! i)) z [0..<length a] = foldl (\<lambda>acc (x, y). f acc x y) z (zip a b)"
proof -
  have "zip a b = map (\<lambda>i. (a ! i, b ! i)) [0..<length a]"
    using assms by (intro nth_equalityI) simp_all
  then show ?thesis by (simp add: foldl_map)
qed

text \<open>
  the constant-time digest comparison decides equality of well-formed digests, and refuses every
  value that is not 32 bytes long, even against itself.
\<close>

theorem EqualDigest_iff: "EqualDigest a b \<longleftrightarrow> a = b \<and> length a = DigestBytes"
proof (cases "length a = DigestBytes \<and> length b = DigestBytes")
  case True
  then have "EqualDigest a b \<longleftrightarrow> xor_accumulate a b = 0"
    unfolding EqualDigest_def xor_accumulate_def
    using foldl_index_zip [of a b "\<lambda>acc x y. acc OR (x XOR y)" 0] by simp
  with True show ?thesis by (simp add: xor_accumulate_zero)
next
  case False
  then show ?thesis by (auto simp: EqualDigest_def)
qed

section \<open>Properties of the lifecycle\<close>

lemma sint_lifetime_consts [simp]:
  "sint MinIdle = 60000000000" "sint MaxIdle = 2592000000000000"
  "sint MinAbsolute = 60000000000" "sint MaxAbsolute = 31536000000000000"
  "sint DefaultIdle = 43200000000000" "sint DefaultAbsolute = 2592000000000000"
  "sint DefaultTouchInterval = 300000000000"
  by (simp_all add: lifetime_consts)

lemmas signed_compare = word_sless_alt word_sle_eq

text \<open>
  C12: what \<open>NewLifetime\<close> accepts.  The bounds on the idle window, the absolute lifetime and their order
  are as documented; the last check holds only up to wrap-around: a touch interval of \<open>2^62\<close> nanoseconds
  or more passes \<open>touchInterval*2 > idle\<close> because the product is negative.
\<close>

theorem NewLifetime_accepts:
  "NewLifetime idle absolute touch = Inr l \<longleftrightarrow>
     l = \<lparr>lt_idle = idle, lt_absolute = absolute, lt_touchInterval = touch\<rparr> \<and>
     sint MinIdle \<le> sint idle \<and> sint idle \<le> sint MaxIdle \<and>
     sint MinAbsolute \<le> sint absolute \<and> sint absolute \<le> sint MaxAbsolute \<and>
     sint idle \<le> sint absolute \<and> 0 < sint touch \<and>
     (2 * sint touch \<le> sint idle \<or> 2 ^ 62 \<le> sint touch)"
proof (cases "0 < sint touch")
  case True
  have "sint touch < 2 ^ 63" by (rule sint_range)
  with True show ?thesis
    by (auto simp: NewLifetime_def signed_compare sint_double)
next
  case False
  then show ?thesis
    by (auto simp: NewLifetime_def signed_compare)
qed

text \<open>How strong a reason against using a session is: the order the source's comment gives.\<close>

definition severity :: "session_state \<Rightarrow> nat" where
  "severity s = (if s = Revoked then 3 else if s = Expired then 2 else if s = Idle then 1 else 0)"

lemma severity_simps [simp]:
  "severity Revoked = 3" "severity Expired = 2" "severity Idle = 1" "severity Active = 0"
  by (simp_all add: severity_def state_defs)

text \<open>
  C6: with the passage of time the verdict on an unchanged session record only gets worse, so a session
  that was refused once is refused ever after; and the verdict is always one of the four defined states.
\<close>

theorem Evaluate_monotone:
  assumes "now \<le> later"
  shows "severity (Evaluate r now l) \<le> severity (Evaluate r later l) \<and>
         (Evaluate r now l \<noteq> Active \<longrightarrow> Evaluate r later l \<noteq> Active) \<and>
         State_Valid (Evaluate r now l)"
proof -
  have "severity (Evaluate r now l) \<le> severity (Evaluate r later l)"
    using assms by (auto simp: Evaluate_def duration_le_time_sub)
  moreover have "Evaluate r now l \<noteq> Active \<longrightarrow> Evaluate r later l \<noteq> Active"
    using assms by (auto simp: Evaluate_def duration_le_time_sub state_defs)
  moreover have "State_Valid (Evaluate r now l)"
    by (simp add: Evaluate_def State_Valid_def)
  ultimately show ?thesis by blast
qed

definition sample_record :: session_record where
  "sample_record = \<lparr>ID = ''s1'', UserID = ''u1'', CreatedAt = 1000, LastSeenAt = 1000,
     ExpiresAt = 1000 + 2592000000000000, RevokedAt = 0, ProvenAt = 1000\<rparr>"

theorem Evaluate_monotone_witness:
  "Evaluate sample_record 2000 DefaultLifetime = Active \<and>
   severity (Evaluate sample_record 2000 DefaultLifetime)
     \<le> severity (Evaluate sample_record 43200000002000 DefaultLifetime)"
proof -
  have "Evaluate sample_record 2000 DefaultLifetime = Active"
    by (simp add: Evaluate_def sample_record_def DefaultLifetime_def Lifetime_IsZero_def
        duration_le_time_sub min_duration_def lifetime_consts)
  then show ?thesis
    using Evaluate_monotone [of 2000 43200000002000 sample_record DefaultLifetime] by simp
qed

text \<open>
  recording activity no more often than the touch interval never logs out a session in use: if the
  last request found the recorded activity recent enough not to be written back, the session is still
  active for at least half the idle window after that request.
\<close>

theorem touch_interval_keeps_session:
  assumes "NewLifetime idle absolute touch = Inr l" and "sint touch < 2 ^ 62"
    and "\<not> NeedsTouch l (LastSeenAt r) request" and "next_request - request \<le> sint idle div 2"
    and "RevokedAt r = 0" and "next_request < ExpiresAt r"
  shows "Evaluate r next_request l = Active"
proof -
  from assms(1,2) have l: "lt_idle l = idle" "lt_touchInterval l = touch"
    and idle: "60000000000 \<le> sint idle" and touch: "2 * sint touch \<le> sint idle"
    by (auto simp: NewLifetime_accepts)
  have "request - LastSeenAt r < sint touch"
    using assms(3) l by (auto simp: NeedsTouch_def duration_le_time_sub)
  with assms(4) touch have "next_request - LastSeenAt r < sint idle"
    by linarith
  moreover have "lt_idle l \<noteq> 0"
    using idle l by auto
  ultimately show ?thesis
    using assms(5,6) idle l
    by (simp add: Evaluate_def Lifetime_IsZero_def duration_le_time_sub min_duration_def)
qed

lemma DefaultLifetime_valid:
  "NewLifetime DefaultIdle DefaultAbsolute DefaultTouchInterval = Inr DefaultLifetime"
  by (simp add: NewLifetime_def DefaultLifetime_def signed_compare sint_double)

theorem touch_interval_keeps_session_witness:
  "Evaluate sample_record 21600000001000 DefaultLifetime = Active"
proof (rule touch_interval_keeps_session [OF DefaultLifetime_valid])
  show "\<not> NeedsTouch DefaultLifetime (LastSeenAt sample_record) 2000"
    by (simp add: NeedsTouch_def DefaultLifetime_def sample_record_def duration_le_time_sub
        min_duration_def)
qed (simp_all add: sample_record_def)

section \<open>Properties of freshness, anti-forgery tokens and cookies\<close>

lemma Satisfied_zero: "\<not> Satisfied \<lparr>fr_window = 0\<rparr> provenAt now"
  by (simp add: Satisfied_def Freshness_IsZero_def)

lemma Satisfied_window:
  assumes "0 < sint (fr_window f)"
  shows "Satisfied f provenAt now \<longleftrightarrow> provenAt \<noteq> 0 \<and> now - provenAt < sint (fr_window f)"
proof -
  have "time_sub now provenAt <s fr_window f \<longleftrightarrow> now - provenAt < sint (fr_window f)"
    using assms by (simp add: time_sub_less_duration min_duration_def)
  moreover have "time_sub now provenAt <s 0 \<longleftrightarrow> now - provenAt < 0"
    by (simp add: time_sub_less_duration min_duration_def)
  moreover have "0 <s fr_window f" and "fr_window f \<noteq> 0"
    using assms by (auto simp: word_sless_alt)
  ultimately show ?thesis
    using assms by (auto simp: Satisfied_def Freshness_IsZero_def Let_def)
qed

text \<open>
  a constructed reauthentication window is satisfied exactly until the moment \<open>StaleAt\<close> reports, that
  moment excluded; a proof that was never given, or a window never constructed, satisfies nothing.
\<close>

theorem Satisfied_until_StaleAt:
  assumes "NewFreshness window = Inr f"
  shows "(Satisfied f provenAt now \<longleftrightarrow> provenAt \<noteq> 0 \<and> now < StaleAt f provenAt) \<and>
         \<not> Satisfied \<lparr>fr_window = 0\<rparr> provenAt now"
proof -
  from assms have f: "fr_window f = window" and w: "30000000000 \<le> sint window"
    by (auto simp: NewFreshness_def signed_compare MinFreshness_def unit_defs split: if_splits)
  have "0 < sint (fr_window f)" and "fr_window f \<noteq> 0"
    using f w by auto
  then show ?thesis
    by (auto simp: Satisfied_window Satisfied_zero StaleAt_def Freshness_IsZero_def time_add_def)
qed

theorem Satisfied_until_StaleAt_witness:
  "NewFreshness DefaultFreshness = Inr \<lparr>fr_window = DefaultFreshness\<rparr> \<and>
   Satisfied \<lparr>fr_window = DefaultFreshness\<rparr> 1000 2000"
proof -
  have n: "NewFreshness DefaultFreshness = Inr \<lparr>fr_window = DefaultFreshness\<rparr>"
    by (simp add: NewFreshness_def signed_compare MinFreshness_def MaxFreshness_def
        DefaultFreshness_def unit_defs)
  moreover have "2000 < StaleAt \<lparr>fr_window = DefaultFreshness\<rparr> 1000"
    by (simp add: StaleAt_def Freshness_IsZero_def time_add_def DefaultFreshness_def unit_defs)
  ultimately show ?thesis
    using Satisfied_until_StaleAt [OF n, of 1000 2000] by simp
qed

lemma length_CSRFToken: "\<not> Token_IsZero t \<Longrightarrow> length (CSRFToken t) = 43"
  by (simp add: CSRFToken_def length_enc64_raw hmac256.tag_width encoded_len_def)

text \<open>
  for every session credential exactly one presented value verifies, the derived token itself; the
  zero token verifies nothing, and no length bound gets in the way of the right value.
\<close>

theorem VerifyCSRF_iff: "VerifyCSRF t presented \<longleftrightarrow> \<not> Token_IsZero t \<and> presented = CSRFToken t"
proof (cases "Token_IsZero t")
  case False
  then have "length (CSRFToken t) = 43" by (rule length_CSRFToken)
  with False show ?thesis
    by (auto simp: VerifyCSRF_def Let_def MaxTokenBytes_def)
qed (simp add: VerifyCSRF_def)

text \<open>Renaming is the only change an option of this package makes.\<close>

lemma apply_names:
  "apply_cookie_options (map WithCookieName names) p =
     Inr (if names = [] then p else p\<lparr>cp_name := last names\<rparr>)"
  by (induction names arbitrary: p) (auto simp: WithCookieName_def)

lemma cookie_validate_None:
  "cookie_validate p = None \<longleftrightarrow>
     1 \<le> length (cp_name p) \<and> length (cp_name p) \<le> 64 \<and> list_all cookie_char (cp_name p) \<and>
     (has_prefix (cp_name p) HostPrefix \<longrightarrow> length (cp_name p) \<noteq> length HostPrefix) \<and>
     (has_prefix (cp_name p) HostPrefix \<longleftrightarrow> cp_secure p)"
  by (auto simp: cookie_validate_def MaxCookieNameBytes_def Suc_le_eq)

text \<open>
  every cookie policy that construction lets through, under any sequence of renames, has the
  transport it was asked for, is hardened (the browser-enforced prefix together with \<open>Secure\<close>) exactly
  when that transport is secure, and has a name of 1 to 64 permitted characters.
\<close>

theorem NewCookiePolicy_hardened:
  assumes "NewCookiePolicy secureTransport (map WithCookieName names) = Inr p"
  shows "cp_secure p = secureTransport \<and> cp_sameSite p = SameSiteLaxMode \<and>
         (Hardened p \<longleftrightarrow> secureTransport) \<and>
         (has_prefix (cp_name p) HostPrefix \<longleftrightarrow> secureTransport) \<and>
         1 \<le> length (cp_name p) \<and> length (cp_name p) \<le> MaxCookieNameBytes \<and>
         list_all cookie_char (cp_name p) \<and> \<not> CookiePolicy_IsZero p"
proof -
  from assms have v: "cookie_validate p = None"
    and sec: "cp_secure p = secureTransport" "cp_sameSite p = SameSiteLaxMode"
    by (auto simp: NewCookiePolicy_def Let_def apply_names split: option.splits if_splits)
  from v [unfolded cookie_validate_None] sec show ?thesis
    by (auto simp: Hardened_def MaxCookieNameBytes_def CookiePolicy_IsZero_def)
qed

theorem NewCookiePolicy_hardened_witness:
  "\<exists>p. NewCookiePolicy True (map WithCookieName [''__Host-app'']) = Inr p \<and> Hardened p"
proof -
  have "NewCookiePolicy True (map WithCookieName [''__Host-app'']) =
      Inr \<lparr>cp_name = ''__Host-app'', cp_secure = True, cp_sameSite = SameSiteLaxMode\<rparr>"
    by (simp add: NewCookiePolicy_def WithCookieName_def cookie_validate_def MaxCookieNameBytes_def
        cookie_char_def HostPrefix_def has_prefix_def char_class_defs)
  then show ?thesis
    using NewCookiePolicy_hardened by blast
qed

end
