(* ===== verification/Authz.thy ===== *)
theory Authz
  imports Prelude "HOL-Library.List_Lexorder" "HOL-Library.Char_ord"
begin

text \<open>
  \<open>runtime/authz\<close>: permission names, permission sets and roles (\<open>permission.go\<close>) and the closed catalog
  that declares them (\<open>catalog.go\<close>).  A Go \<open>map[K]struct{}\<close> is a set and a \<open>map[string]Role\<close> a partial
  function; Go's byte-wise string order is the lexicographic order of \<^typ>\<open>string\<close>.
\<close>

datatype catalog_fault =
    NoPermissions | TooManyPermissions | TooManyRoles | RepeatedPermission string
  | UnconstructedRole | RepeatedRole string | TooManyRolePermissions string

datatype authz_error =
    ErrPermissionName string
  | ErrRoleName string
  | ErrCatalog catalog_fault
  | ErrUndeclared string string

section \<open>Names\<close>

definition MaxPermissionBytes :: nat where "MaxPermissionBytes = 64"
definition MaxRoleBytes :: nat where "MaxRoleBytes = 32"
definition MaxCatalogPermissions :: nat where "MaxCatalogPermissions = 512"
definition MaxCatalogRoles :: nat where "MaxCatalogRoles = 64"
definition MaxRolePermissions :: nat where "MaxRolePermissions = MaxCatalogPermissions"

lemmas authz_bounds = MaxPermissionBytes_def MaxRoleBytes_def MaxCatalogPermissions_def
  MaxCatalogRoles_def MaxRolePermissions_def

definition name_char :: "char \<Rightarrow> bool" where
  "name_char c \<longleftrightarrow> is_lower c \<or> is_digit c \<or> c = CHR ''_''"

definition validName :: "string \<Rightarrow> nat \<Rightarrow> bool" where
  "validName name limit \<longleftrightarrow>
     \<not> (name = [] \<or> length name > limit \<or> \<not> is_lower (hd name)) \<and> list_all name_char name"

definition validDotted :: "string \<Rightarrow> nat \<Rightarrow> bool" where
  "validDotted name limit =
     (if name = [] \<or> length name > limit then False
      else let segments = split_on (CHR ''.'') name
           in if length segments < 2 then False
              else list_all (\<lambda>segment. validName segment limit) segments)"

section \<open>Permissions, sets and roles\<close>

type_synonym permission = string

definition NewPermission :: "string \<Rightarrow> authz_error + permission" where
  "NewPermission name =
     (if \<not> validDotted name MaxPermissionBytes then Inl (ErrPermissionName name) else Inr name)"

definition Permission_Valid :: "permission \<Rightarrow> bool" where
  "Permission_Valid p = validDotted p MaxPermissionBytes"

record perm_set =
  held :: "permission set"

fun hold_all :: "permission list \<Rightarrow> permission set \<Rightarrow> authz_error + permission set" where
  "hold_all [] acc = Inr acc"
| "hold_all (p # ps) acc =
     (if \<not> Permission_Valid p then Inl (ErrPermissionName p) else hold_all ps (insert p acc))"

definition NewSet :: "permission list \<Rightarrow> authz_error + perm_set" where
  "NewSet permissions =
     (case hold_all permissions {} of Inl err \<Rightarrow> Inl err | Inr s \<Rightarrow> Inr \<lparr>held = s\<rparr>)"

definition Has :: "perm_set \<Rightarrow> permission \<Rightarrow> bool" where
  "Has s p = (if \<not> Permission_Valid p then False else p \<in> held s)"

definition HasAll :: "perm_set \<Rightarrow> permission list \<Rightarrow> bool" where
  "HasAll s ps = list_all (Has s) ps"

definition Set_Len :: "perm_set \<Rightarrow> nat" where
  "Set_Len s = card (held s)"

definition All :: "perm_set \<Rightarrow> permission list" where
  "All s = sorted_list_of_set (held s)"

definition Union :: "perm_set \<Rightarrow> perm_set \<Rightarrow> perm_set" where
  "Union s other = \<lparr>held = held s \<union> held other\<rparr>"

record role =
  role_name :: string
  role_permissions :: perm_set

definition NewRole :: "string \<Rightarrow> permission list \<Rightarrow> authz_error + role" where
  "NewRole name permissions =
     (if \<not> validName name MaxRoleBytes then Inl (ErrRoleName name)
      else if length permissions > MaxRolePermissions
        then Inl (ErrCatalog (TooManyRolePermissions name))
      else (case NewSet permissions of
              Inl err \<Rightarrow> Inl err
            | Inr s \<Rightarrow> Inr \<lparr>role_name = name, role_permissions = s\<rparr>))"

definition Role_IsZero :: "role \<Rightarrow> bool" where
  "Role_IsZero r \<longleftrightarrow> role_name r = []"

section \<open>The catalog\<close>

record catalog =
  cat_permissions :: "permission set"
  cat_roles :: "string \<rightharpoonup> role"

fun declare_permissions :: "permission list \<Rightarrow> permission set \<Rightarrow> authz_error + permission set" where
  "declare_permissions [] declared = Inr declared"
| "declare_permissions (p # ps) declared =
     (if \<not> Permission_Valid p then Inl (ErrPermissionName p)
      else if p \<in> declared then Inl (ErrCatalog (RepeatedPermission p))
      else declare_permissions ps (insert p declared))"

fun declare_roles ::
  "permission set \<Rightarrow> role list \<Rightarrow> (string \<rightharpoonup> role) \<Rightarrow> authz_error + (string \<rightharpoonup> role)" where
  "declare_roles declared [] bundles = Inr bundles"
| "declare_roles declared (r # rs) bundles =
     (if Role_IsZero r then Inl (ErrCatalog UnconstructedRole)
      else if bundles (role_name r) \<noteq> None then Inl (ErrCatalog (RepeatedRole (role_name r)))
      else (case List.find (\<lambda>p. p \<notin> declared) (All (role_permissions r)) of
              Some p \<Rightarrow> Inl (ErrUndeclared (role_name r) p)
            | None \<Rightarrow> declare_roles declared rs (bundles(role_name r \<mapsto> r))))"

definition NewCatalog :: "permission list \<Rightarrow> role list \<Rightarrow> authz_error + catalog" where
  "NewCatalog permissions roles =
     (if length permissions = 0 then Inl (ErrCatalog NoPermissions)
      else if length permissions > MaxCatalogPermissions then Inl (ErrCatalog TooManyPermissions)
      else if length roles > MaxCatalogRoles then Inl (ErrCatalog TooManyRoles)
      else (case declare_permissions permissions {} of
              Inl err \<Rightarrow> Inl err
            | Inr declared \<Rightarrow>
                (case declare_roles declared roles Map.empty of
                   Inl err \<Rightarrow> Inl err
                 | Inr bundles \<Rightarrow> Inr \<lparr>cat_permissions = declared, cat_roles = bundles\<rparr>)))"

definition Declares :: "catalog \<Rightarrow> permission \<Rightarrow> bool" where
  "Declares c p \<longleftrightarrow> p \<in> cat_permissions c"

definition Catalog_Permissions :: "catalog \<Rightarrow> permission list" where
  "Catalog_Permissions c = sorted_list_of_set (cat_permissions c)"

definition Catalog_Role :: "catalog \<Rightarrow> string \<Rightarrow> role option" where
  "Catalog_Role c name = cat_roles c name"

definition RoleNames :: "catalog \<Rightarrow> string list" where
  "RoleNames c = sorted_list_of_set (dom (cat_roles c))"

fun grants_loop :: "catalog \<Rightarrow> string list \<Rightarrow> perm_set \<times> string list \<Rightarrow> perm_set \<times> string list" where
  "grants_loop c [] acc = acc"
| "grants_loop c (name # names) (granted, unknown) =
     (case cat_roles c name of
        None \<Rightarrow> grants_loop c names (granted, unknown @ [name])
      | Some r \<Rightarrow> grants_loop c names (Union granted (role_permissions r), unknown))"

definition Grants :: "catalog \<Rightarrow> string list \<Rightarrow> perm_set \<times> string list" where
  "Grants c names =
     (let (granted, unknown) = grants_loop c names (\<lparr>held = {}\<rparr>, [])
      in (granted, remdups_adj (sort unknown)))"

section \<open>Lemmas\<close>

lemma hold_all_Inr:
  "hold_all ps acc = Inr s \<longleftrightarrow> list_all Permission_Valid ps \<and> s = acc \<union> set ps"
  by (induction ps acc rule: hold_all.induct) auto

lemma NewSet_Inr: "NewSet ps = Inr s \<longleftrightarrow> list_all Permission_Valid ps \<and> held s = set ps"
  by (auto simp: NewSet_def hold_all_Inr split: sum.splits)
     (metis Inl_Inr_False hold_all_Inr obj_sumE old.unit.exhaust perm_set.surjective)+

lemma Has_iff: "Has s p \<longleftrightarrow> Permission_Valid p \<and> p \<in> held s"
  by (simp add: Has_def)

lemma Has_Union [simp]: "Has (Union s t) p \<longleftrightarrow> Has s p \<or> Has t p"
  by (auto simp: Has_iff Union_def)

lemma declare_permissions_Inr:
  "declare_permissions ps acc = Inr d \<longleftrightarrow>
     list_all Permission_Valid ps \<and> distinct ps \<and> set ps \<inter> acc = {} \<and> d = acc \<union> set ps"
  by (induction ps acc rule: declare_permissions.induct) auto

lemma find_undeclared_None:
  "finite (held s) \<Longrightarrow> List.find (\<lambda>p. p \<notin> d) (All s) = None \<longleftrightarrow> held s \<subseteq> d"
  by (auto simp: find_None_iff All_def)

text \<open>A role as \<open>NewRole\<close> leaves it.\<close>

definition role_ok :: "role \<Rightarrow> bool" where
  "role_ok r \<longleftrightarrow> validName (role_name r) MaxRoleBytes \<and> finite (held (role_permissions r)) \<and>
     (\<forall>p\<in>held (role_permissions r). Permission_Valid p)"

lemma NewRole_ok: "NewRole name ps = Inr r \<Longrightarrow>
    role_ok r \<and> role_name r = name \<and> held (role_permissions r) = set ps"
  by (auto simp: NewRole_def role_ok_def NewSet_Inr list_all_iff split: if_splits sum.splits)

text \<open>The catalog's invariant: permissions are well formed and every bundle stays inside them.\<close>

definition catalog_ok :: "catalog \<Rightarrow> bool" where
  "catalog_ok c \<longleftrightarrow>
     finite (cat_permissions c) \<and> cat_permissions c \<noteq> {} \<and>
     card (cat_permissions c) \<le> MaxCatalogPermissions \<and>
     (\<forall>p\<in>cat_permissions c. Permission_Valid p) \<and>
     finite (dom (cat_roles c)) \<and> card (dom (cat_roles c)) \<le> MaxCatalogRoles \<and>
     (\<forall>n r. cat_roles c n = Some r \<longrightarrow>
        role_name r = n \<and> n \<noteq> [] \<and> held (role_permissions r) \<subseteq> cat_permissions c)"

lemma declare_roles_Cons_Inr:
  assumes "finite (held (role_permissions r))"
  shows "declare_roles d (r # rs) b = Inr b' \<longleftrightarrow>
     role_name r \<noteq> [] \<and> role_name r \<notin> dom b \<and> held (role_permissions r) \<subseteq> d \<and>
     declare_roles d rs (b(role_name r \<mapsto> r)) = Inr b'"
  using find_undeclared_None [OF assms, of d]
  by (auto simp: Role_IsZero_def split: option.splits)

text \<open>A successful run stores each role under its own name, and nothing else.\<close>

definition bundle_of :: "role list \<Rightarrow> string \<Rightarrow> role option" where
  "bundle_of rs name = List.find (\<lambda>r. role_name r = name) rs"

lemma bundle_of_Cons:
  "bundle_of (r # rs) n = (if role_name r = n then Some r else bundle_of rs n)"
  by (simp add: bundle_of_def)

lemma bundle_of_Nil: "bundle_of [] n = None"
  by (simp add: bundle_of_def)

lemma dom_bundle_of: "dom (bundle_of rs) = role_name ` set rs"
  by (induction rs) (auto simp: bundle_of_Cons bundle_of_Nil dom_def split: if_splits)

lemma bundle_of_SomeD: "bundle_of rs n = Some r \<Longrightarrow> r \<in> set rs \<and> role_name r = n"
  by (auto simp: bundle_of_def find_Some_iff)

lemma bundle_of_distinct:
  "distinct (map role_name rs) \<Longrightarrow> r \<in> set rs \<Longrightarrow> bundle_of rs (role_name r) = Some r"
  by (induction rs) (auto simp: bundle_of_Cons image_iff)

lemma declare_roles_Inr:
  assumes "\<forall>r\<in>set rs. finite (held (role_permissions r))"
  shows "declare_roles d rs b = Inr b' \<longleftrightarrow>
     distinct (map role_name rs) \<and> role_name ` set rs \<inter> dom b = {} \<and>
     (\<forall>r\<in>set rs. role_name r \<noteq> [] \<and> held (role_permissions r) \<subseteq> d) \<and> b' = b ++ bundle_of rs"
  using assms
proof (induction rs arbitrary: b)
  case Nil
  then show ?case by (auto simp: map_add_def bundle_of_Nil)
next
  case (Cons r rs)
  have upd: "b(role_name r \<mapsto> r) ++ bundle_of rs = b ++ bundle_of (r # rs)"
    if "role_name r \<notin> role_name ` set rs"
  proof
    fix n
    have "bundle_of rs (role_name r) = None"
      using that dom_bundle_of [of rs] by (metis domIff)
    then show "(b(role_name r \<mapsto> r) ++ bundle_of rs) n = (b ++ bundle_of (r # rs)) n"
      by (auto simp: map_add_def bundle_of_Cons split: option.splits)
  qed
  have "declare_roles d (r # rs) b = Inr b' \<longleftrightarrow>
     role_name r \<noteq> [] \<and> role_name r \<notin> dom b \<and> held (role_permissions r) \<subseteq> d \<and>
     declare_roles d rs (b(role_name r \<mapsto> r)) = Inr b'"
    using Cons.prems by (intro declare_roles_Cons_Inr) simp
  also have "declare_roles d rs (b(role_name r \<mapsto> r)) = Inr b' \<longleftrightarrow>
     distinct (map role_name rs) \<and> role_name ` set rs \<inter> dom (b(role_name r \<mapsto> r)) = {} \<and>
     (\<forall>r\<in>set rs. role_name r \<noteq> [] \<and> held (role_permissions r) \<subseteq> d) \<and>
     b' = b(role_name r \<mapsto> r) ++ bundle_of rs"
    using Cons.prems by (intro Cons.IH) simp
  finally show ?case using upd by auto
qed

lemma NewCatalog_Inr:
  assumes "\<forall>r\<in>set rs. finite (held (role_permissions r))"
  shows "NewCatalog ps rs = Inr c \<longleftrightarrow>
     ps \<noteq> [] \<and> length ps \<le> MaxCatalogPermissions \<and> length rs \<le> MaxCatalogRoles \<and>
     list_all Permission_Valid ps \<and> distinct ps \<and> distinct (map role_name rs) \<and>
     (\<forall>r\<in>set rs. role_name r \<noteq> [] \<and> held (role_permissions r) \<subseteq> set ps) \<and>
     c = \<lparr>cat_permissions = set ps, cat_roles = bundle_of rs\<rparr>" (is "_ \<longleftrightarrow> ?R")
proof -
  have perms: "declare_permissions ps {} = Inr d \<longleftrightarrow>
      list_all Permission_Valid ps \<and> distinct ps \<and> d = set ps" for d
    by (auto simp: declare_permissions_Inr)
  have roles: "declare_roles d rs Map.empty = Inr b \<longleftrightarrow> distinct (map role_name rs) \<and>
      (\<forall>r\<in>set rs. role_name r \<noteq> [] \<and> held (role_permissions r) \<subseteq> d) \<and> b = bundle_of rs" for d b
    using declare_roles_Inr [OF assms, of d Map.empty b] by auto
  have "NewCatalog ps rs = Inr c \<longleftrightarrow>
     ps \<noteq> [] \<and> length ps \<le> MaxCatalogPermissions \<and> length rs \<le> MaxCatalogRoles \<and>
     (\<exists>d. declare_permissions ps {} = Inr d \<and> (\<exists>b. declare_roles d rs Map.empty = Inr b \<and>
        c = \<lparr>cat_permissions = d, cat_roles = b\<rparr>))"
    by (auto simp: NewCatalog_def split: sum.splits)
  then show ?thesis unfolding perms roles by auto
qed

lemma NewCatalog_catalog_ok:
  assumes "\<forall>r\<in>set rs. role_ok r" and "NewCatalog ps rs = Inr c"
  shows "catalog_ok c"
proof -
  have fin: "\<forall>r\<in>set rs. finite (held (role_permissions r))"
    using assms(1) by (simp add: role_ok_def)
  note c = assms(2) [unfolded NewCatalog_Inr [OF fin]]
  have "card (set ps) = length ps" using c by (simp add: distinct_card)
  moreover have "card (role_name ` set rs) \<le> length rs"
    by (metis card_length list.set_map length_map)
  ultimately show ?thesis
    using c unfolding catalog_ok_def
    by (auto simp: dom_bundle_of list_all_iff dest: bundle_of_SomeD)
qed

section \<open>Permission sets as an algebra\<close>

text \<open>
  What the catalog relies on of a permission set: the empty set answers no to every question, and a
  union answers yes exactly when one of its parts does.
\<close>

locale permission_algebra =
  fixes has :: "'s \<Rightarrow> 'p \<Rightarrow> bool" and union :: "'s \<Rightarrow> 's \<Rightarrow> 's" and none :: 's
  assumes has_none: "\<not> has none p"
    and has_union: "has (union s t) p \<longleftrightarrow> has s p \<or> has t p"
begin

lemma has_foldl: "has (foldl union s ts) p \<longleftrightarrow> has s p \<or> (\<exists>t\<in>set ts. has t p)"
  by (induction ts arbitrary: s) (auto simp: has_union)

lemma has_accumulated: "has (foldl union none ts) p \<longleftrightarrow> (\<exists>t\<in>set ts. has t p)"
  by (simp add: has_foldl has_none)

lemma accumulated_mono: "set ts \<subseteq> set us \<Longrightarrow> has (foldl union none ts) p \<Longrightarrow> has (foldl union none us) p"
  by (auto simp: has_accumulated)

end

interpretation perms: permission_algebra Has Union "\<lparr>held = {}\<rparr>"
  by unfold_locales (auto simp: Has_iff Union_def)

section \<open>Granting\<close>

definition known_bundles :: "catalog \<Rightarrow> string list \<Rightarrow> perm_set list" where
  "known_bundles c names = List.map_filter (\<lambda>n. map_option role_permissions (cat_roles c n)) names"

lemma grants_loop_eq:
  "grants_loop c names (g, u) =
     (foldl Union g (known_bundles c names), u @ filter (\<lambda>n. cat_roles c n = None) names)"
proof (induction names arbitrary: g u)
  case (Cons n ns)
  then show ?case
    by (cases "cat_roles c n") (auto simp: known_bundles_def)
qed (simp add: known_bundles_def)

lemma set_known_bundles:
  "set (known_bundles c names) = {role_permissions r |r n. n \<in> set names \<and> cat_roles c n = Some r}"
  by (induction names) (auto simp: known_bundles_def split: option.splits)

lemma sorted_distinct_remdups_adj:
  "sorted xs \<Longrightarrow> distinct (remdups_adj xs)" for xs :: "'a::linorder list"
  by (induction xs rule: remdups_adj.induct) auto

lemma Grants_eq:
  "Grants c names =
     (foldl Union \<lparr>held = {}\<rparr> (known_bundles c names),
      remdups_adj (sort (filter (\<lambda>n. cat_roles c n = None) names)))"
  by (simp add: Grants_def grants_loop_eq)

lemma Has_Grants:
  "Has (fst (Grants c names)) p \<longleftrightarrow>
     (\<exists>n\<in>set names. \<exists>r. cat_roles c n = Some r \<and> Has (role_permissions r) p)"
  by (auto simp: Grants_eq perms.has_accumulated set_known_bundles)

lemma unknown_Grants:
  "set (snd (Grants c names)) = {n \<in> set names. cat_roles c n = None}"
  "sorted (snd (Grants c names))" "distinct (snd (Grants c names))"
  by (auto simp: Grants_eq sorted_distinct_remdups_adj)

section \<open>Properties\<close>



text \<open>
  C10: granting is sound and complete.  Under a well-formed catalog a caller holds a permission exactly
  when one of the role names it was given is declared and bundles that permission; a role name the
  catalog does not declare grants nothing and is reported, once, in sorted order; and nothing outside
  the catalog's declared permissions is ever held.
\<close>

theorem Grants_exact:
  assumes "catalog_ok c"
  shows "(\<forall>p. Has (fst (Grants c names)) p \<longleftrightarrow>
            (\<exists>n\<in>set names. \<exists>r. Catalog_Role c n = Some r \<and> Has (role_permissions r) p)) \<and>
         (\<forall>p. Has (fst (Grants c names)) p \<longrightarrow> Declares c p) \<and>
         set (snd (Grants c names)) = set names - set (RoleNames c) \<and>
         sorted (snd (Grants c names)) \<and> distinct (snd (Grants c names))"
proof -
  have fin: "finite (dom (cat_roles c))"
    and inside: "\<And>n r. cat_roles c n = Some r \<Longrightarrow> held (role_permissions r) \<subseteq> cat_permissions c"
    using assms by (auto simp: catalog_ok_def)
  have "Declares c p" if "Has (fst (Grants c names)) p" for p
    using that inside unfolding Has_Grants by (auto simp: Has_iff Declares_def)
  moreover have "set names - set (RoleNames c) = {n \<in> set names. cat_roles c n = None}"
    using fin by (auto simp: RoleNames_def)
  ultimately show ?thesis
    by (simp add: Has_Grants unknown_Grants Catalog_Role_def)
qed

theorem Grants_exact_witness:
  "let c = \<lparr>cat_permissions = {''users.read''},
            cat_roles = [''reader'' \<mapsto> \<lparr>role_name = ''reader'', role_permissions = \<lparr>held = {''users.read''}\<rparr>\<rparr>]\<rparr>
   in set (snd (Grants c [''ghost'', ''reader''])) = {''ghost''} \<and>
      Has (fst (Grants c [''ghost'', ''reader''])) ''users.read''"
proof -
  let ?c = "\<lparr>cat_permissions = {''users.read''},
       cat_roles = [''reader'' \<mapsto> \<lparr>role_name = ''reader'', role_permissions = \<lparr>held = {''users.read''}\<rparr>\<rparr>]\<rparr>"
  have valid: "Permission_Valid ''users.read''" by code_simp
  have "catalog_ok ?c" by (simp add: catalog_ok_def authz_bounds valid)
  note exact = Grants_exact [OF this, of "[''ghost'', ''reader'']"]
  have "Has \<lparr>held = {''users.read''}\<rparr> ''users.read''" by (simp add: Has_iff valid)
  with exact have "Has (fst (Grants ?c [''ghost'', ''reader''])) ''users.read''"
    by (simp add: Catalog_Role_def)
  moreover from exact have "set (snd (Grants ?c [''ghost'', ''reader''])) = {''ghost''}"
    by (simp add: RoleNames_def insert_Diff_if)
  ultimately show ?thesis by (simp add: Let_def)
qed

end
