(* ===== verification/Workbench_Authz.thy ===== *)
theory Workbench_Authz
  imports Authz Session
begin

text \<open>
  The reference application's security declarations
  (\<open>examples/reference/app/internal/platform\<close>): the permission catalog with its four roles
  (\<open>authorization/catalog.go\<close>) and the reauthentication matrix (\<open>reauth/matrix.go\<close>).  Both are built
  with the runtime's own constructors, so the theory uses the models of \<open>authz\<close> and \<open>session\<close> directly.
\<close>

section \<open>Permissions and roles\<close>

definition UsersRead :: permission where "UsersRead = ''users.read''"
definition UsersManage :: permission where "UsersManage = ''users.manage''"
definition RolesRead :: permission where "RolesRead = ''roles.read''"
definition RolesManage :: permission where "RolesManage = ''roles.manage''"
definition SessionsRevoke :: permission where "SessionsRevoke = ''sessions.revoke''"
definition AuditRead :: permission where "AuditRead = ''audit.read''"
definition SystemRead :: permission where "SystemRead = ''system.read''"
definition ResourcesRead :: permission where "ResourcesRead = ''resources.read''"
definition ResourcesManage :: permission where "ResourcesManage = ''resources.manage''"
definition ResourcesRetire :: permission where "ResourcesRetire = ''resources.retire''"
definition ReservationsRead :: permission where "ReservationsRead = ''reservations.read''"
definition ReservationsCreate :: permission where "ReservationsCreate = ''reservations.create''"
definition ReservationsManage :: permission where "ReservationsManage = ''reservations.manage''"

lemmas permission_defs = UsersRead_def UsersManage_def RolesRead_def RolesManage_def
  SessionsRevoke_def AuditRead_def SystemRead_def ResourcesRead_def ResourcesManage_def
  ResourcesRetire_def ReservationsRead_def ReservationsCreate_def ReservationsManage_def

definition RoleMember :: string where "RoleMember = ''member''"
definition RoleSteward :: string where "RoleSteward = ''steward''"
definition RoleAdministrator :: string where "RoleAdministrator = ''administrator''"
definition RoleAuditor :: string where "RoleAuditor = ''auditor''"

lemmas role_defs = RoleMember_def RoleSteward_def RoleAdministrator_def RoleAuditor_def

definition permissions :: "permission list" where
  "permissions =
     [UsersRead, UsersManage, RolesRead, RolesManage, SessionsRevoke, AuditRead, SystemRead,
      ResourcesRead, ResourcesManage, ResourcesRetire,
      ReservationsRead, ReservationsCreate, ReservationsManage]"

definition roles :: "authz_error + role list" where
  "roles =
     (case NewRole RoleMember [ResourcesRead, ReservationsRead, ReservationsCreate] of
        Inl err \<Rightarrow> Inl err
      | Inr member \<Rightarrow>
     (case NewRole RoleSteward
             [ResourcesRead, ResourcesManage, ReservationsRead, ReservationsCreate, ReservationsManage] of
        Inl err \<Rightarrow> Inl err
      | Inr steward \<Rightarrow>
     (case NewRole RoleAdministrator
             [UsersRead, UsersManage, RolesRead, RolesManage, SessionsRevoke, AuditRead, SystemRead,
              ResourcesRead, ResourcesManage, ResourcesRetire,
              ReservationsRead, ReservationsCreate, ReservationsManage] of
        Inl err \<Rightarrow> Inl err
      | Inr administrator \<Rightarrow>
     (case NewRole RoleAuditor [UsersRead, RolesRead, AuditRead, ResourcesRead, ReservationsRead] of
        Inl err \<Rightarrow> Inl err
      | Inr auditor \<Rightarrow> Inr [member, steward, administrator, auditor]))))"

definition Catalog :: "authz_error + catalog" where
  "Catalog = (case roles of Inl err \<Rightarrow> Inl err | Inr bundles \<Rightarrow> NewCatalog permissions bundles)"

section \<open>The reauthentication matrix\<close>

definition WindowEscalation :: duration where "WindowEscalation = 5 * Minute"
definition WindowAdministrative :: duration where "WindowAdministrative = 15 * Minute"

type_synonym action = string

definition ActionRolesGrant :: action where "ActionRolesGrant = ''roles.grant''"
definition ActionUsersEnable :: action where "ActionUsersEnable = ''users.enable''"
definition ActionInvitationsCreate :: action where "ActionInvitationsCreate = ''invitations.create''"
definition ActionSecondFactorDisable :: action where "ActionSecondFactorDisable = ''second_factor.disable''"
definition ActionResourcesRetire :: action where "ActionResourcesRetire = ''resources.retire''"

lemmas action_defs = ActionRolesGrant_def ActionUsersEnable_def ActionInvitationsCreate_def
  ActionSecondFactorDisable_def ActionResourcesRetire_def

text \<open>The pattern \<open>^[a-z][a-z0-9_]*(\.[a-z][a-z0-9_]*)+$\<close>: at least two dotted segments.\<close>

definition action_segment :: "string \<Rightarrow> bool" where
  "action_segment s \<longleftrightarrow> s \<noteq> [] \<and> is_lower (hd s) \<and> list_all name_char s"

definition Action_Valid :: "action \<Rightarrow> bool" where
  "Action_Valid a \<longleftrightarrow>
     (let segments = split_on (CHR ''.'') a
      in 2 \<le> length segments \<and> list_all action_segment segments)"

record entry =
  entry_action :: action
  entry_window :: duration

record matrix =
  windows :: "action \<rightharpoonup> freshness"

datatype matrix_error =
    BadAction action
  | DuplicateAction action
  | BadWindow action session_error

fun matrix_loop :: "entry list \<Rightarrow> (action \<rightharpoonup> freshness) \<Rightarrow> matrix_error + (action \<rightharpoonup> freshness)" where
  "matrix_loop [] ws = Inr ws"
| "matrix_loop (e # es) ws =
     (if \<not> Action_Valid (entry_action e) then Inl (BadAction (entry_action e))
      else if ws (entry_action e) \<noteq> None then Inl (DuplicateAction (entry_action e))
      else (case NewFreshness (entry_window e) of
              Inl err \<Rightarrow> Inl (BadWindow (entry_action e) err)
            | Inr f \<Rightarrow> matrix_loop es (ws(entry_action e \<mapsto> f))))"

definition NewMatrix :: "entry list \<Rightarrow> matrix_error + matrix" where
  "NewMatrix entries =
     (case matrix_loop entries Map.empty of Inl err \<Rightarrow> Inl err | Inr ws \<Rightarrow> Inr \<lparr>windows = ws\<rparr>)"

definition DefaultMatrix :: "matrix_error + matrix" where
  "DefaultMatrix =
     NewMatrix
       [\<lparr>entry_action = ActionRolesGrant, entry_window = WindowEscalation\<rparr>,
        \<lparr>entry_action = ActionUsersEnable, entry_window = WindowAdministrative\<rparr>,
        \<lparr>entry_action = ActionInvitationsCreate, entry_window = WindowAdministrative\<rparr>,
        \<lparr>entry_action = ActionSecondFactorDisable, entry_window = WindowEscalation\<rparr>,
        \<lparr>entry_action = ActionResourcesRetire, entry_window = WindowAdministrative\<rparr>]"

definition zero_freshness :: freshness where "zero_freshness = \<lparr>fr_window = 0\<rparr>"

text \<open>A nil matrix, and an undeclared action, report the zero window.\<close>

definition Matrix_Freshness :: "matrix option \<Rightarrow> action \<Rightarrow> freshness \<times> bool" where
  "Matrix_Freshness m a =
     (case m of
        None \<Rightarrow> (zero_freshness, False)
      | Some m \<Rightarrow> (case windows m a of None \<Rightarrow> (zero_freshness, False) | Some f \<Rightarrow> (f, True)))"

definition Matrix_Actions :: "matrix option \<Rightarrow> action list" where
  "Matrix_Actions m = (case m of None \<Rightarrow> [] | Some m \<Rightarrow> sorted_list_of_set (dom (windows m)))"

section \<open>Properties\<close>

lemma permissions_valid: "list_all Permission_Valid permissions"
  by code_simp

definition member_permissions :: "permission set" where
  "member_permissions = {ResourcesRead, ReservationsRead, ReservationsCreate}"

definition steward_permissions :: "permission set" where
  "steward_permissions = member_permissions \<union> {ResourcesManage, ReservationsManage}"

definition auditor_permissions :: "permission set" where
  "auditor_permissions = {UsersRead, RolesRead, AuditRead, ResourcesRead, ReservationsRead}"

lemma NewRole_within:
  assumes "validName name MaxRoleBytes" and "set ps \<subseteq> set permissions" and "length ps \<le> MaxRolePermissions"
  shows "NewRole name ps = Inr \<lparr>role_name = name, role_permissions = \<lparr>held = set ps\<rparr>\<rparr>"
proof -
  have "list_all Permission_Valid ps"
    using permissions_valid assms(2) by (auto simp: list_all_iff)
  then have "NewSet ps = Inr \<lparr>held = set ps\<rparr>" by (simp add: NewSet_Inr)
  then show ?thesis using assms by (simp add: NewRole_def)
qed

lemma role_names_valid: "list_all (\<lambda>n. validName n MaxRoleBytes)
    [RoleMember, RoleSteward, RoleAdministrator, RoleAuditor]"
  by code_simp

definition bundles :: "role list" where
  "bundles =
     [\<lparr>role_name = RoleMember, role_permissions = \<lparr>held = member_permissions\<rparr>\<rparr>,
      \<lparr>role_name = RoleSteward, role_permissions = \<lparr>held = steward_permissions\<rparr>\<rparr>,
      \<lparr>role_name = RoleAdministrator, role_permissions = \<lparr>held = set permissions\<rparr>\<rparr>,
      \<lparr>role_name = RoleAuditor, role_permissions = \<lparr>held = auditor_permissions\<rparr>\<rparr>]"

lemma roles_eq: "roles = Inr bundles"
  using role_names_valid
  by (simp add: roles_def NewRole_within permissions_def authz_bounds bundles_def
      member_permissions_def steward_permissions_def auditor_permissions_def insert_commute)

lemma Catalog_eq: "Catalog = Inr \<lparr>cat_permissions = set permissions, cat_roles = bundle_of bundles\<rparr>"
proof -
  have fin: "\<forall>r\<in>set bundles. finite (held (role_permissions r))"
    by (simp add: bundles_def member_permissions_def steward_permissions_def auditor_permissions_def)
  have dist: "distinct permissions" "distinct (map role_name bundles)"
    by (simp_all add: permissions_def permission_defs bundles_def role_defs)
  have sub: "\<forall>r\<in>set bundles. role_name r \<noteq> [] \<and> held (role_permissions r) \<subseteq> set permissions"
    by (simp add: bundles_def role_defs member_permissions_def steward_permissions_def
        auditor_permissions_def permissions_def)
  have len: "permissions \<noteq> []" "length permissions \<le> MaxCatalogPermissions" "length bundles \<le> MaxCatalogRoles"
    by (simp_all add: permissions_def bundles_def authz_bounds)
  show ?thesis
    unfolding Catalog_def roles_eq sum.case NewCatalog_Inr [OF fin]
    using dist sub len permissions_valid by blast
qed

lemma bundle_simps:
  "bundle_of bundles RoleMember = Some \<lparr>role_name = RoleMember, role_permissions = \<lparr>held = member_permissions\<rparr>\<rparr>"
  "bundle_of bundles RoleSteward = Some \<lparr>role_name = RoleSteward, role_permissions = \<lparr>held = steward_permissions\<rparr>\<rparr>"
  "bundle_of bundles RoleAdministrator =
     Some \<lparr>role_name = RoleAdministrator, role_permissions = \<lparr>held = set permissions\<rparr>\<rparr>"
  "bundle_of bundles RoleAuditor = Some \<lparr>role_name = RoleAuditor, role_permissions = \<lparr>held = auditor_permissions\<rparr>\<rparr>"
  by (simp_all add: bundles_def bundle_of_Cons role_defs)

lemma role_names_distinct: "distinct [RoleMember, RoleSteward, RoleAdministrator, RoleAuditor]"
  by (simp add: role_defs)

lemma valid_among: "p \<in> set permissions \<Longrightarrow> Permission_Valid p"
  using permissions_valid by (auto simp: list_all_iff)

lemma granted_single:
  assumes "bundle_of bundles n = Some \<lparr>role_name = n, role_permissions = \<lparr>held = s\<rparr>\<rparr>" and "s \<subseteq> set permissions"
  shows "Collect (Has (fst (Grants \<lparr>cat_permissions = set permissions, cat_roles = bundle_of bundles\<rparr> [n]))) = s"
  using assms valid_among by (auto simp: Has_Grants) (auto simp: Has_iff)

lemma bundle_subsets:
  "member_permissions \<subseteq> set permissions" "steward_permissions \<subseteq> set permissions"
  "auditor_permissions \<subseteq> set permissions"
  by (auto simp: member_permissions_def steward_permissions_def auditor_permissions_def permissions_def)

lemma only_administrator:
  assumes "p \<in> set permissions - steward_permissions - auditor_permissions"
  shows "Has (fst (Grants \<lparr>cat_permissions = set permissions, cat_roles = bundle_of bundles\<rparr> names)) p
     \<longleftrightarrow> RoleAdministrator \<in> set names"
proof -
  have "Has (role_permissions r) p \<longleftrightarrow> n = RoleAdministrator" if "bundle_of bundles n = Some r" for n r
  proof -
    from that have "r \<in> set bundles" "role_name r = n" by (auto dest: bundle_of_SomeD)
    then show ?thesis
      using assms valid_among [of p] role_names_distinct
      by (auto simp: bundles_def Has_iff steward_permissions_def)
  qed
  then show ?thesis
    unfolding Has_Grants using bundle_simps(3) by fastforce
qed

text \<open>
  the reference application's catalog builds, its roles nest strictly as its comment says (member
  inside steward inside administrator, which holds everything declared), the auditor can only read,
  and the permissions that lead to others (managing roles and users, retiring resources) are held by
  nobody whose role names do not include administrator.
\<close>

theorem Catalog_nests:
  "case Catalog of
     Inl _ \<Rightarrow> False
   | Inr c \<Rightarrow>
      (let may = \<lambda>names. Collect (Has (fst (Grants c names)))
       in catalog_ok c \<and>
          may [RoleMember] \<subset> may [RoleSteward] \<and> may [RoleSteward] \<subset> may [RoleAdministrator] \<and>
          may [RoleAdministrator] = Collect (Declares c) \<and>
          may [RoleAuditor] \<subseteq> {p. has_suffix p ''.read''} \<and>
          (\<forall>names. RolesManage \<in> may names \<longleftrightarrow> RoleAdministrator \<in> set names) \<and>
          (\<forall>names. UsersManage \<in> may names \<longleftrightarrow> RoleAdministrator \<in> set names) \<and>
          (\<forall>names. ResourcesRetire \<in> may names \<longleftrightarrow> RoleAdministrator \<in> set names))"
proof -
  have "ResourcesManage \<in> steward_permissions - member_permissions"
    and "UsersRead \<in> set permissions - steward_permissions"
    by (simp_all add: member_permissions_def steward_permissions_def permissions_def permission_defs)
  then have sub: "member_permissions \<subset> steward_permissions" "steward_permissions \<subset> set permissions"
    using bundle_subsets(2) by (auto simp: steward_permissions_def)
  have adm: "{RolesManage, UsersManage, ResourcesRetire} \<subseteq>
      set permissions - steward_permissions - auditor_permissions"
    by (simp add: member_permissions_def steward_permissions_def auditor_permissions_def
        permissions_def permission_defs)
  have reads: "auditor_permissions \<subseteq> {p. has_suffix p ''.read''}"
    by (simp add: auditor_permissions_def permission_defs has_suffix_def)
  have ok: "\<forall>r\<in>set bundles. role_ok r"
    using role_names_valid bundle_subsets valid_among finite_subset [OF bundle_subsets(1)]
      finite_subset [OF bundle_subsets(2)] finite_subset [OF bundle_subsets(3)]
    by (auto simp: role_ok_def bundles_def)
  have "catalog_ok \<lparr>cat_permissions = set permissions, cat_roles = bundle_of bundles\<rparr>"
    using NewCatalog_catalog_ok [OF ok] Catalog_eq unfolding Catalog_def roles_eq by simp
  then show ?thesis
    using sub reads adm unfolding Catalog_eq sum.case Let_def
    by (simp add: granted_single [OF bundle_simps(1)] granted_single [OF bundle_simps(2)]
        granted_single [OF bundle_simps(3)] granted_single [OF bundle_simps(4)] bundle_subsets
        only_administrator Declares_def [abs_def])
qed

lemma window_values [simp]:
  "sint WindowEscalation = 300000000000" "sint WindowAdministrative = 900000000000"
  by (simp_all add: WindowEscalation_def WindowAdministrative_def unit_defs)

lemma windows_accepted:
  "NewFreshness WindowEscalation = Inr \<lparr>fr_window = WindowEscalation\<rparr>"
  "NewFreshness WindowAdministrative = Inr \<lparr>fr_window = WindowAdministrative\<rparr>"
  by (simp_all add: NewFreshness_def signed_compare MinFreshness_def MaxFreshness_def unit_defs)

lemma actions_valid: "list_all Action_Valid
   [ActionRolesGrant, ActionUsersEnable, ActionInvitationsCreate, ActionSecondFactorDisable, ActionResourcesRetire]"
  by code_simp

definition default_windows :: "action \<rightharpoonup> freshness" where
  "default_windows =
     [ActionRolesGrant \<mapsto> \<lparr>fr_window = WindowEscalation\<rparr>,
      ActionUsersEnable \<mapsto> \<lparr>fr_window = WindowAdministrative\<rparr>,
      ActionInvitationsCreate \<mapsto> \<lparr>fr_window = WindowAdministrative\<rparr>,
      ActionSecondFactorDisable \<mapsto> \<lparr>fr_window = WindowEscalation\<rparr>,
      ActionResourcesRetire \<mapsto> \<lparr>fr_window = WindowAdministrative\<rparr>]"

lemma actions_distinct: "distinct
   [ActionRolesGrant, ActionUsersEnable, ActionInvitationsCreate, ActionSecondFactorDisable, ActionResourcesRetire]"
  by (simp add: action_defs)

lemma default_window:
  "default_windows a =
     (if a \<in> {ActionRolesGrant, ActionSecondFactorDisable} then Some \<lparr>fr_window = WindowEscalation\<rparr>
      else if a \<in> {ActionUsersEnable, ActionInvitationsCreate, ActionResourcesRetire}
        then Some \<lparr>fr_window = WindowAdministrative\<rparr>
      else None)"
  using actions_distinct by (auto simp: default_windows_def)

lemma DefaultMatrix_eq: "DefaultMatrix = Inr \<lparr>windows = default_windows\<rparr>"
  using actions_valid
  using actions_distinct actions_distinct [THEN distinct_rev [THEN iffD2]]
  by (simp add: DefaultMatrix_def NewMatrix_def windows_accepted default_windows_def)

text \<open>
  the shipped reauthentication matrix builds, and decides as declared.  For an action in it, a
  session's proof is accepted exactly while it is younger than five minutes (granting a role, removing
  a second factor) or fifteen (the others); every other action is refused however fresh the proof is.
\<close>

theorem DefaultMatrix_decides:
  "case DefaultMatrix of
     Inl _ \<Rightarrow> False
   | Inr m \<Rightarrow> ProvenWithin r now (fst (Matrix_Freshness (Some m) a)) \<longleftrightarrow>
       ProvenAt r \<noteq> 0 \<and>
       (a \<in> {ActionRolesGrant, ActionSecondFactorDisable} \<and> now - ProvenAt r < 5 * 60 * 10 ^ 9 \<or>
        a \<in> {ActionUsersEnable, ActionInvitationsCreate, ActionResourcesRetire} \<and>
          now - ProvenAt r < 15 * 60 * 10 ^ 9)"
proof -
  let ?adm = "{ActionUsersEnable, ActionInvitationsCreate, ActionResourcesRetire}"
  have "ActionRolesGrant \<notin> ?adm" and "ActionSecondFactorDisable \<notin> ?adm"
    using actions_distinct by auto
  then show ?thesis
    unfolding DefaultMatrix_eq sum.case
    by (auto simp: ProvenWithin_def Matrix_Freshness_def default_window Satisfied_window
        Satisfied_zero zero_freshness_def)
qed

end
