(* ===== verification/Netip.thy ===== *)
theory Netip
  imports Prelude
begin

text \<open>
  The parts of Go's \<open>net/netip\<close> and \<open>net\<close> packages the edge-trust policy calls: addresses, prefixes and
  their parsers.  An address is the zero value, an IPv4 address or an IPv6 address with an optional zone.
  Every parser returns \<open>None\<close> where Go returns an error; which error is not observed by the callers.
\<close>

unbundle bit_operations_syntax

section \<open>Addresses and prefixes\<close>

datatype addr = ZeroAddr | V4 "32 word" | V6 "128 word" string

definition Addr_IsValid :: "addr \<Rightarrow> bool" where
  "Addr_IsValid a \<longleftrightarrow> a \<noteq> ZeroAddr"

fun Is4 :: "addr \<Rightarrow> bool" where
  "Is4 (V4 _) = True" | "Is4 _ = False"

fun Is6 :: "addr \<Rightarrow> bool" where
  "Is6 (V6 _ _) = True" | "Is6 _ = False"

fun BitLen :: "addr \<Rightarrow> nat" where
  "BitLen ZeroAddr = 0" | "BitLen (V4 _) = 32" | "BitLen (V6 _ _) = 128"

text \<open>An IPv4-mapped IPv6 address is \<open>::ffff:a.b.c.d\<close>; unmapping drops its zone with its family.\<close>

fun Unmap :: "addr \<Rightarrow> addr" where
  "Unmap (V6 w z) = (if drop_bit 32 w = 0xFFFF then V4 (ucast w) else V6 w z)"
| "Unmap a = a"

fun withoutZone :: "addr \<Rightarrow> addr" where
  "withoutZone (V6 w _) = V6 w []"
| "withoutZone a = a"

fun hasZone :: "addr \<Rightarrow> bool" where
  "hasZone (V6 _ z) \<longleftrightarrow> z \<noteq> []"
| "hasZone _ \<longleftrightarrow> False"

text \<open>A prefix whose \<open>pfx_bits\<close> is \<open>None\<close> is Go's invalid prefix.\<close>

record ip_prefix =
  pfx_addr :: addr
  pfx_bits :: "nat option"

definition PrefixFrom :: "addr \<Rightarrow> nat \<Rightarrow> ip_prefix" where
  "PrefixFrom a bits =
     \<lparr>pfx_addr = withoutZone a,
      pfx_bits = (if a \<noteq> ZeroAddr \<and> bits \<le> BitLen a then Some bits else None)\<rparr>"

definition Prefix_IsValid :: "ip_prefix \<Rightarrow> bool" where
  "Prefix_IsValid p \<longleftrightarrow> pfx_bits p \<noteq> None"

text \<open>\<open>p.Masked().Addr()\<close>: the address with the bits below the prefix length cleared.\<close>

definition clear_low :: "nat \<Rightarrow> 'a::len word \<Rightarrow> 'a word" where
  "clear_low n w = push_bit n (drop_bit n w)"

definition Masked_Addr :: "ip_prefix \<Rightarrow> addr" where
  "Masked_Addr p =
     (case pfx_bits p of
        None \<Rightarrow> ZeroAddr
      | Some b \<Rightarrow> (case pfx_addr p of
                    ZeroAddr \<Rightarrow> ZeroAddr
                  | V4 w \<Rightarrow> V4 (clear_low (32 - b) w)
                  | V6 w z \<Rightarrow> V6 (clear_low (128 - b) w) []))"

definition Prefix_Contains :: "ip_prefix \<Rightarrow> addr \<Rightarrow> bool" where
  "Prefix_Contains p a =
     (case pfx_bits p of
        None \<Rightarrow> False
      | Some b \<Rightarrow>
          if hasZone a then False
          else (case (pfx_addr p, a) of
                  (V4 v, V4 w) \<Rightarrow> drop_bit (32 - b) v = drop_bit (32 - b) w
                | (V6 v _, V6 w _) \<Rightarrow> drop_bit (128 - b) v = drop_bit (128 - b) w
                | _ \<Rightarrow> False))"

section \<open>Parsing addresses\<close>

text \<open>One dotted-decimal octet: decimal digits, no leading zero, at most 255.\<close>

definition parse_octet :: "string \<Rightarrow> byte option" where
  "parse_octet s =
     (if s = [] \<or> \<not> list_all is_digit s \<or> (length s > 1 \<and> hd s = CHR ''0'') \<or> digits_val s > 255
      then None else Some (word_of_nat (digits_val s)))"

definition parse_ipv4_fields :: "string \<Rightarrow> bytes option" where
  "parse_ipv4_fields s =
     (let octets = map parse_octet (split_on (CHR ''.'') s)
      in if length octets = 4 \<and> None \<notin> set octets then Some (map the octets) else None)"

definition big_endian :: "bytes \<Rightarrow> 'a::len word" where
  "big_endian bs = foldl (\<lambda>w b. 256 * w + ucast b) 0 bs"

definition parse_ipv4 :: "string \<Rightarrow> addr option" where
  "parse_ipv4 s = map_option (\<lambda>bs. V4 (big_endian bs)) (parse_ipv4_fields s)"

definition hex_val :: "char \<Rightarrow> nat option" where
  "hex_val c =
     (if is_digit c then Some (code c - 48)
      else if 97 \<le> code c \<and> code c \<le> 102 then Some (code c - 87)
      else if 65 \<le> code c \<and> code c \<le> 70 then Some (code c - 55)
      else None)"

definition hex_acc :: "string \<Rightarrow> nat" where
  "hex_acc ds = foldl (\<lambda>n c. 16 * n + the (hex_val c)) 0 ds"

text \<open>
  The group loop of the IPv6 parser, on the bytes read so far, the position of the ellipsis and the
  rest of the text; it returns the three at the end of the loop.
\<close>

function v6_groups :: "bytes \<Rightarrow> nat option \<Rightarrow> string \<Rightarrow> (bytes \<times> nat option \<times> string) option" where
  "v6_groups ip ellipsis s =
     (if 16 \<le> length ip then Some (ip, ellipsis, s)
      else
        (let digits = takeWhile (\<lambda>c. hex_val c \<noteq> None) s;
             rest = drop (length digits) s;
             ip' = ip @ [word_of_nat (hex_acc digits div 256), word_of_nat (hex_acc digits mod 256)]
         in if length digits > 4 \<or> digits = [] then None
            else if rest \<noteq> [] \<and> hd rest = CHR ''.'' then
              (if ellipsis = None \<and> length ip \<noteq> 12 \<or> length ip + 4 > 16 then None
               else map_option (\<lambda>fs. (ip @ fs, ellipsis, [])) (parse_ipv4_fields s))
            else if rest = [] then Some (ip', ellipsis, [])
            else if hd rest \<noteq> CHR '':'' \<or> tl rest = [] then None
            else if hd (tl rest) = CHR '':'' then
              (if ellipsis \<noteq> None then None
               else if tl (tl rest) = [] then Some (ip', Some (length ip'), [])
               else v6_groups ip' (Some (length ip')) (tl (tl rest)))
            else v6_groups ip' ellipsis (tl rest)))"
  by pat_completeness auto
termination
  by (relation "measure (\<lambda>(ip, e, s). length s)") (auto simp: Let_def)

declare v6_groups.simps [simp del]

definition parse_ipv6 :: "string \<Rightarrow> addr option" where
  "parse_ipv6 input =
     (let (s, zone, bad) = (case cut (CHR ''%'') input of
                              None \<Rightarrow> (input, [], False)
                            | Some (s, zone) \<Rightarrow> (s, zone, zone = []))
      in if bad then None
         else
           (let lead = has_prefix s ''::'';
                s = (if lead then drop 2 s else s)
            in if lead \<and> s = [] then Some (V6 0 zone)
               else (case v6_groups [] (if lead then Some 0 else None) s of
                       None \<Rightarrow> None
                     | Some (ip, ellipsis, rest) \<Rightarrow>
                         if rest \<noteq> [] then None
                         else if length ip < 16 then
                           (case ellipsis of
                              None \<Rightarrow> None
                            | Some e \<Rightarrow>
                                Some (V6 (big_endian (take e ip @ replicate (16 - length ip) 0 @ drop e ip)) zone))
                         else if ellipsis \<noteq> None then None
                         else Some (V6 (big_endian ip) zone))))"

text \<open>The first of \<open>.\<close>, \<open>:\<close> and \<open>%\<close> in the text decides the family.\<close>

definition ParseAddr :: "string \<Rightarrow> addr option" where
  "ParseAddr s =
     (case List.find (\<lambda>c. c = CHR ''.'' \<or> c = CHR '':'' \<or> c = CHR ''%'') s of
        None \<Rightarrow> None
      | Some c \<Rightarrow> if c = CHR ''.'' then parse_ipv4 s else if c = CHR '':'' then parse_ipv6 s else None)"

section \<open>Ports and prefixes\<close>

text \<open>\<open>strings.LastIndexByte\<close> as a split: the text before and after the last occurrence.\<close>

definition cut_last :: "char \<Rightarrow> string \<Rightarrow> (string \<times> string) option" where
  "cut_last sep s = map_option (\<lambda>(a, b). (rev b, rev a)) (cut sep (rev s))"

definition ParsePrefix :: "string \<Rightarrow> ip_prefix option" where
  "ParsePrefix s =
     (case cut_last (CHR ''/'') s of
        None \<Rightarrow> None
      | Some (ip, bits) \<Rightarrow>
          (case ParseAddr ip of
             None \<Rightarrow> None
           | Some a \<Rightarrow>
               if hasZone a then None
               else if length bits > 1 \<and> (hd bits = CHR ''0'' \<or> \<not> is_digit (hd bits)) then None
               else (case atoi bits of
                       None \<Rightarrow> None
                     | Some b \<Rightarrow> if b < 0 \<or> b > (if Is6 a then 128 else 32) then None
                                 else Some (PrefixFrom a (nat b)))))"

text \<open>\<open>ParseAddrPort\<close> keeps the address; the port is checked and dropped, as its callers drop it.\<close>

definition ParseAddrPort :: "string \<Rightarrow> addr option" where
  "ParseAddrPort s =
     (case cut_last (CHR '':'') s of
        None \<Rightarrow> None
      | Some (ip, port) \<Rightarrow>
          if ip = [] \<or> port = [] then None
          else
            (let v6 = (hd ip = CHR ''['')
             in if v6 \<and> (length ip < 2 \<or> last ip \<noteq> CHR '']'') then None
                else if parse_uint 16 port = None then None
                else (case ParseAddr (if v6 then butlast (tl ip) else ip) of
                        None \<Rightarrow> None
                      | Some a \<Rightarrow> if v6 \<and> Is4 a then None
                                  else if \<not> v6 \<and> Is6 a then None
                                  else Some a)))"

text \<open>\<open>net.SplitHostPort\<close>, returning the host and the port.\<close>

definition SplitHostPort :: "string \<Rightarrow> (string \<times> string) option" where
  "SplitHostPort hostport =
     (case cut_last (CHR '':'') hostport of
        None \<Rightarrow> None
      | Some (host, port) \<Rightarrow>
          if hd hostport = CHR ''['' then
            (case cut (CHR '']'') hostport of
               None \<Rightarrow> None
             | Some (inside, after) \<Rightarrow>
                 if length inside + 1 \<noteq> length host then None
                 else if CHR ''['' \<in> set (tl hostport) then None
                 else if CHR '']'' \<in> set after then None
                 else Some (tl inside, port))
          else if CHR '':'' \<in> set host then None
          else if CHR ''['' \<in> set hostport then None
          else if CHR '']'' \<in> set hostport then None
          else Some (host, port))"

section \<open>Lemmas\<close>

lemma drop_bit_clear_low: "drop_bit n (clear_low n w) = drop_bit n (w :: 'a::len word)"
proof (rule bit_word_eqI)
  fix i
  assume "i < LENGTH('a)"
  show "bit (drop_bit n (clear_low n w)) i = bit (drop_bit n w) i"
    by (auto simp: clear_low_def bit_simps dest: bit_imp_le_length)
qed

text \<open>A prefix contains its own masked address, and exactly the addresses that mask to it.\<close>

lemma Contains_iff_masked:
  assumes "Masked_Addr \<lparr>pfx_addr = V4 v, pfx_bits = Some b\<rparr> = V4 v"
  shows "Prefix_Contains \<lparr>pfx_addr = V4 v, pfx_bits = Some b\<rparr> (V4 w) \<longleftrightarrow> clear_low (32 - b) w = v"
proof -
  have v: "clear_low (32 - b) v = v" using assms by (simp add: Masked_Addr_def)
  show ?thesis
    using v drop_bit_clear_low [of "32 - b" w] by (auto simp: Prefix_Contains_def) (metis clear_low_def)
qed

lemma withoutZone_zoned [simp]: "BitLen (withoutZone a) = BitLen a" "withoutZone a = ZeroAddr \<longleftrightarrow> a = ZeroAddr"
  by (cases a; simp)+

lemma PrefixFrom_host:
  assumes "a \<noteq> ZeroAddr"
  shows "Prefix_IsValid (PrefixFrom a (BitLen a))" and "Masked_Addr (PrefixFrom a (BitLen a)) = pfx_addr (PrefixFrom a (BitLen a))"
  using assms by (cases a; simp add: PrefixFrom_def Prefix_IsValid_def Masked_Addr_def clear_low_def)+

lemma parse_ipv6_Is6: "parse_ipv6 s = Some a \<Longrightarrow> Is6 a"
  unfolding parse_ipv6_def Let_def by (auto split: option.splits if_splits prod.splits)

lemma parse_ipv4_Is4: "parse_ipv4 s = Some a \<Longrightarrow> Is4 a"
  by (auto simp: parse_ipv4_def)

lemma ParseAddr_not_zero: "ParseAddr s = Some a \<Longrightarrow> a \<noteq> ZeroAddr"
  using parse_ipv6_Is6 [of s a] parse_ipv4_Is4 [of s a]
  by (auto simp: ParseAddr_def split: option.splits if_splits)

lemma Unmap_zero [simp]: "Unmap a = ZeroAddr \<longleftrightarrow> a = ZeroAddr"
  by (cases a) auto

lemma Unmap_idem [simp]: "Unmap (Unmap a) = Unmap a"
  by (cases a) auto

end
