(* ===== verification/Forwarded.thy ===== *)
theory Forwarded
  imports Netip
begin

text \<open>
  \<open>runtime/forwarded\<close>: which of a request's forwarded headers the deployment's proxy chain lets the
  application believe (\<open>policy.go\<close>), and the context the resolved view is stored in
  (\<open>middleware.go\<close>).  The Unicode case table of \<open>strings.ToLower\<close> is an argument of the functions that
  reach it.
\<close>

section \<open>Policy\<close>

definition HeaderFor :: string where "HeaderFor = ''X-Forwarded-For''"
definition HeaderProto :: string where "HeaderProto = ''X-Forwarded-Proto''"
definition HeaderHost :: string where "HeaderHost = ''X-Forwarded-Host''"

definition MaxHops :: int where "MaxHops = 8"
definition MaxForwardedEntries :: nat where "MaxForwardedEntries = 64"
definition MaxHeaderBytes :: nat where "MaxHeaderBytes = 4096"
definition MaxHostBytes :: nat where "MaxHostBytes = 255"

lemmas forwarded_bounds = MaxHops_def MaxForwardedEntries_def MaxHeaderBytes_def MaxHostBytes_def

datatype networks_fault =
    InvalidPrefix | HostBits ip_prefix | NoProxyDeclared
  | EmptyEntry nat | NotCIDR nat | NotAddress nat | EntryHostBits nat ip_prefix

datatype forwarded_error = ErrHops int | ErrNetworks networks_fault

record policy =
  hops :: int
  networks :: "ip_prefix list"

fun check_networks :: "ip_prefix list \<Rightarrow> forwarded_error option" where
  "check_networks [] = None"
| "check_networks (network # rest) =
     (if \<not> Prefix_IsValid network then Some (ErrNetworks InvalidPrefix)
      else if pfx_addr network \<noteq> Masked_Addr network then Some (ErrNetworks (HostBits network))
      else check_networks rest)"

definition NewPolicy :: "int \<Rightarrow> ip_prefix list \<Rightarrow> forwarded_error + policy" where
  "NewPolicy h nets =
     (if h < 0 \<or> h > MaxHops then Inl (ErrHops h)
      else (case check_networks nets of
              Some err \<Rightarrow> Inl err
            | None \<Rightarrow>
                if h = 0 \<and> length nets > 0 then Inl (ErrNetworks NoProxyDeclared)
                else Inr \<lparr>hops = h, networks = nets\<rparr>))"

fun parse_entries :: "nat \<Rightarrow> string list \<Rightarrow> ip_prefix list \<Rightarrow> forwarded_error + ip_prefix list" where
  "parse_entries i [] acc = Inr acc"
| "parse_entries i (raw # rest) acc =
     (let entry = trim_space raw
      in if entry = [] then Inl (ErrNetworks (EmptyEntry (i + 1)))
         else if contains entry ''/'' then
           (case ParsePrefix entry of
              None \<Rightarrow> Inl (ErrNetworks (NotCIDR (i + 1)))
            | Some prefix \<Rightarrow>
                if pfx_addr prefix \<noteq> Masked_Addr prefix
                then Inl (ErrNetworks (EntryHostBits (i + 1) prefix))
                else parse_entries (i + 1) rest (acc @ [prefix]))
         else
           (case ParseAddr entry of
              None \<Rightarrow> Inl (ErrNetworks (NotAddress (i + 1)))
            | Some address \<Rightarrow>
                parse_entries (i + 1) rest (acc @ [PrefixFrom address (BitLen address)])))"

definition ParseNetworks :: "string \<Rightarrow> forwarded_error + ip_prefix list" where
  "ParseNetworks value =
     (let trimmed = trim_space value
      in if trimmed = [] then Inr [] else parse_entries 0 (split_on (CHR '','') trimmed) [])"

definition TrustsForwardedHeaders :: "policy \<Rightarrow> bool" where
  "TrustsForwardedHeaders p \<longleftrightarrow> hops p > 0"

section \<open>Reading a request\<close>

text \<open>What the policy reads of an \<open>*http.Request\<close>; header values are listed per canonical name.\<close>

record http_request =
  RemoteAddr :: string
  hasTLS :: bool
  Host :: string
  Header :: "string \<Rightarrow> string list"

record edge =
  edge_ClientIP :: addr
  edge_Scheme :: string
  edge_Host :: string
  edge_Trusted :: bool

definition permitsPeer :: "policy \<Rightarrow> addr \<Rightarrow> bool" where
  "permitsPeer p peer =
     (if networks p = [] then True
      else if \<not> Addr_IsValid peer then False
      else list_ex (\<lambda>network. Prefix_Contains network (Unmap peer)) (networks p))"

text \<open>The inner loop appends the trimmed entries of one value, refusing when 64 are already there.\<close>

fun append_entries :: "string list \<Rightarrow> string list \<Rightarrow> string list option" where
  "append_entries entries [] = Some entries"
| "append_entries entries (e # es) =
     (if length entries = MaxForwardedEntries then None
      else append_entries (entries @ [trim_space e]) es)"

fun flatten_values :: "string list \<Rightarrow> string list \<Rightarrow> string list option" where
  "flatten_values entries [] = Some entries"
| "flatten_values entries (value # rest) =
     (if length value > MaxHeaderBytes then None
      else (case append_entries entries (split_on (CHR '','') value) of
              None \<Rightarrow> None
            | Some entries' \<Rightarrow> flatten_values entries' rest))"

definition nthFromRightOf :: "string list \<Rightarrow> int \<Rightarrow> (string \<Rightarrow> 'a option) \<Rightarrow> 'a option" where
  "nthFromRightOf values h parse =
     (case flatten_values [] values of
        None \<Rightarrow> None
      | Some entries \<Rightarrow>
          (let index = int (length entries) - h
           in if index < 0 \<or> index \<ge> int (length entries) then None
              else parse (entries ! nat index)))"

definition parseForwardedAddress :: "string \<Rightarrow> addr option" where
  "parseForwardedAddress entry =
     (if entry = [] \<or> length entry > MaxHostBytes then None
      else (case ParseAddr entry of
              Some address \<Rightarrow> Some (Unmap address)
            | None \<Rightarrow>
                (case ParseAddrPort entry of
                   Some address \<Rightarrow> Some (Unmap address)
                 | None \<Rightarrow>
                     (case SplitHostPort entry of
                        Some (host, _) \<Rightarrow> map_option Unmap (ParseAddr host)
                      | None \<Rightarrow> None))))"

definition parseScheme :: "case_table \<Rightarrow> string \<Rightarrow> string option" where
  "parseScheme tbl entry =
     (let lower = to_lower tbl entry
      in if lower = ''https'' then Some ''https''
         else if lower = ''http'' then Some ''http''
         else None)"

definition host_char :: "char \<Rightarrow> bool" where
  "host_char c \<longleftrightarrow> is_lower c \<or> is_upper c \<or> is_digit c \<or> c \<in> set ''.-:[]''"

definition parseHost :: "string \<Rightarrow> string option" where
  "parseHost entry =
     (if entry = [] \<or> length entry > MaxHostBytes then None
      else if list_all host_char entry then Some entry else None)"

definition peerAddress :: "string \<Rightarrow> addr" where
  "peerAddress remoteAddr =
     (case ParseAddrPort remoteAddr of
        Some address \<Rightarrow> Unmap address
      | None \<Rightarrow>
          (case ParseAddr remoteAddr of
             Some address \<Rightarrow> Unmap address
           | None \<Rightarrow>
               (case SplitHostPort remoteAddr of
                  Some (host, _) \<Rightarrow>
                    (case ParseAddr host of Some address \<Rightarrow> Unmap address | None \<Rightarrow> ZeroAddr)
                | None \<Rightarrow> ZeroAddr)))"

definition directScheme :: "http_request \<Rightarrow> string" where
  "directScheme r = (if hasTLS r then ''https'' else ''http'')"

definition direct_view :: "http_request \<Rightarrow> edge" where
  "direct_view r =
     \<lparr>edge_ClientIP = peerAddress (RemoteAddr r), edge_Scheme = directScheme r,
      edge_Host = Host r, edge_Trusted = False\<rparr>"

definition Resolve :: "case_table \<Rightarrow> policy \<Rightarrow> http_request \<Rightarrow> edge" where
  "Resolve tbl p r =
     (let direct = direct_view r
      in if hops p = 0 \<or> \<not> permitsPeer p (edge_ClientIP direct) then direct
         else (case nthFromRightOf (Header r HeaderFor) (hops p) parseForwardedAddress of
                 None \<Rightarrow> direct
               | Some client \<Rightarrow>
                   (let scheme = (case nthFromRightOf (Header r HeaderProto) (hops p) (parseScheme tbl) of
                                    Some s \<Rightarrow> s | None \<Rightarrow> edge_Scheme direct);
                        host = (case nthFromRightOf (Header r HeaderHost) (hops p) parseHost of
                                  Some h \<Rightarrow> h | None \<Rightarrow> edge_Host direct)
                    in \<lparr>edge_ClientIP = client, edge_Scheme = scheme, edge_Host = host,
                        edge_Trusted = True\<rparr>)))"

section \<open>The request context\<close>

text \<open>
  The context as this package sees it: the value stored under its private key.  The handler is the
  continuation the middleware calls.
\<close>

record request_context =
  ctx_edge :: "edge option"

definition Middleware ::
  "case_table \<Rightarrow> policy \<Rightarrow> (request_context \<Rightarrow> http_request \<Rightarrow> 'w) \<Rightarrow> request_context \<Rightarrow> http_request \<Rightarrow> 'w" where
  "Middleware tbl p handle ctx r = handle (ctx\<lparr>ctx_edge := Some (Resolve tbl p r)\<rparr>) r"

definition FromContext :: "request_context \<Rightarrow> edge option" where
  "FromContext ctx = ctx_edge ctx"

definition ClientIP :: "request_context \<Rightarrow> addr" where
  "ClientIP ctx = (case FromContext ctx of None \<Rightarrow> ZeroAddr | Some e \<Rightarrow> edge_ClientIP e)"

section \<open>Lemmas\<close>

text \<open>The reference reading of a header: all comma-separated entries of all its values, in order.\<close>

definition header_entries :: "string list \<Rightarrow> string list" where
  "header_entries values = map trim_space (concat (map (split_on (CHR '','')) values))"

lemma append_entries_eq:
  assumes "length entries \<le> MaxForwardedEntries"
  shows "append_entries entries es =
     (if length entries + length es \<le> MaxForwardedEntries then Some (entries @ map trim_space es) else None)"
  using assms by (induction entries es rule: append_entries.induct) auto

lemma flatten_values_eq:
  assumes "length entries \<le> MaxForwardedEntries"
  shows "flatten_values entries values =
     (if (\<forall>v\<in>set values. length v \<le> MaxHeaderBytes) \<and>
         length entries + length (header_entries values) \<le> MaxForwardedEntries
      then Some (entries @ header_entries values) else None)"
  using assms
proof (induction entries "values" rule: flatten_values.induct)
  case (1 entries)
  then show ?case by (simp add: header_entries_def)
next
  case (2 entries v rest)
  then show ?case
    by (auto simp: append_entries_eq header_entries_def)
qed

lemma nthFromRightOf_eq:
  "nthFromRightOf values h parse =
     (if (\<forall>v\<in>set values. length v \<le> MaxHeaderBytes) \<and>
         length (header_entries values) \<le> MaxForwardedEntries \<and>
         0 < h \<and> h \<le> int (length (header_entries values))
      then parse (header_entries values ! nat (int (length (header_entries values)) - h)) else None)"
  by (auto simp: nthFromRightOf_def flatten_values_eq Let_def)

text \<open>Counting from the right reads the first of the entries the trusted proxies appended.\<close>

lemma nthFromRightOf_suffix:
  assumes "header_entries values = forged @ trusted" and "int (length trusted) = h" and "0 < h"
  shows "nthFromRightOf values h parse \<in> {None, parse (hd trusted)}"
proof -
  from assms have "trusted \<noteq> []" and "nat (int (length (forged @ trusted)) - h) = length forged" by auto
  then show ?thesis
    by (simp add: nthFromRightOf_eq assms(1) nth_append hd_conv_nth)
qed

lemma check_networks_None:
  "check_networks nets = None \<longleftrightarrow>
     (\<forall>n\<in>set nets. Prefix_IsValid n \<and> pfx_addr n = Masked_Addr n)"
  by (induction nets) auto

lemma BitLen_cases: "a \<noteq> ZeroAddr \<Longrightarrow> BitLen a = (if Is6 a then 128 else 32)"
  by (cases a) auto

lemma PrefixFrom_valid: "a \<noteq> ZeroAddr \<Longrightarrow> b \<le> BitLen a \<Longrightarrow> Prefix_IsValid (PrefixFrom a b)"
  by (simp add: PrefixFrom_def Prefix_IsValid_def)

lemma ParsePrefix_valid:
  assumes "ParsePrefix s = Some p"
  shows "Prefix_IsValid p"
proof -
  obtain ip bits where "cut_last (CHR ''/'') s = Some (ip, bits)"
    using assms by (cases "cut_last (CHR ''/'') s") (auto simp: ParsePrefix_def)
  moreover obtain a where a: "ParseAddr ip = Some a"
    using assms calculation by (cases "ParseAddr ip") (auto simp: ParsePrefix_def)
  moreover obtain b where "atoi bits = Some b"
    using assms calculation by (cases "atoi bits") (auto simp: ParsePrefix_def split: if_splits)
  ultimately have "p = PrefixFrom a (nat b)" "b \<le> (if Is6 a then 128 else 32)"
    using assms by (auto simp: ParsePrefix_def not_less split: if_splits)
  moreover have "a \<noteq> ZeroAddr" using a by (rule ParseAddr_not_zero)
  ultimately show ?thesis
    by (auto simp: BitLen_cases nat_le_iff intro!: PrefixFrom_valid split: if_splits)
qed

lemma parse_entries_ok:
  assumes "parse_entries i es acc = Inr nets" and "check_networks acc = None"
  shows "check_networks nets = None"
  using assms
proof (induction i es acc rule: parse_entries.induct)
  case (2 i raw rest acc)
  show ?case
  proof (cases "contains (trim_space raw) ''/''")
    case True
    with "2.prems"(1) obtain p where p: "ParsePrefix (trim_space raw) = Some p"
      "pfx_addr p = Masked_Addr p" "parse_entries (i + 1) rest (acc @ [p]) = Inr nets"
      "trim_space raw \<noteq> []"
      by (auto simp: Let_def split: if_splits option.splits)
    moreover have "check_networks (acc @ [p]) = None"
      using "2.prems"(2) p ParsePrefix_valid by (auto simp: check_networks_None)
    ultimately show ?thesis
      using "2.IH"(1) [OF refl _ True, of p] by simp
  next
    case False
    with "2.prems"(1) obtain a where a: "ParseAddr (trim_space raw) = Some a"
      "parse_entries (i + 1) rest (acc @ [PrefixFrom a (BitLen a)]) = Inr nets" "trim_space raw \<noteq> []"
      by (auto simp: Let_def split: if_splits option.splits)
    moreover have "check_networks (acc @ [PrefixFrom a (BitLen a)]) = None"
      using "2.prems"(2) PrefixFrom_host [OF ParseAddr_not_zero [OF a(1)]]
      by (auto simp: check_networks_None)
    ultimately show ?thesis
      using "2.IH"(2) [OF refl _ False, of a] by simp
  qed
qed simp

lemma parsed_address:
  assumes "parseForwardedAddress e = Some a"
  shows "Addr_IsValid a \<and> Unmap a = a"
proof -
  have port: "ParseAddrPort t = Some b \<Longrightarrow> b \<noteq> ZeroAddr" for t b
    by (auto simp: ParseAddrPort_def Let_def dest: ParseAddr_not_zero split: option.splits if_splits prod.splits)
  from assms show ?thesis
    by (auto simp: parseForwardedAddress_def Addr_IsValid_def dest: ParseAddr_not_zero port
        split: option.splits if_splits)
qed

lemma nthFromRightOf_parsed:
  "nthFromRightOf values h parse = Some x \<Longrightarrow> \<exists>e. parse e = Some x"
  by (auto simp: nthFromRightOf_eq split: if_splits)

lemma parseScheme_cases: "parseScheme tbl e = Some s \<Longrightarrow> s \<in> {''http'', ''https''}"
  by (auto simp: parseScheme_def Let_def split: if_splits)

lemma parseHost_cases: "parseHost e = Some h \<Longrightarrow> list_all host_char h \<and> length h \<le> MaxHostBytes"
  by (auto simp: parseHost_def split: if_splits)

section \<open>Properties\<close>

text \<open>
  C2: a client cannot choose the address it is attributed to.  However the entries of
  \<open>X-Forwarded-For\<close> split into what the client sent (\<open>forged\<close>) and the entries the declared proxies
  appended (\<open>trusted\<close>, as many as there are hops), the resolved address is either the connection's own
  peer or the one address the outermost trusted proxy recorded; and the scheme and host, read from
  headers split the same way, are the direct ones or those the proxies recorded.
\<close>

theorem Resolve_unforgeable:
  assumes "header_entries (Header r HeaderFor) = forged @ trusted"
    and "header_entries (Header r HeaderProto) = forgedProto @ trustedProto"
    and "header_entries (Header r HeaderHost) = forgedHost @ trustedHost"
    and "int (length trusted) = hops p" and "length trustedProto = length trusted"
    and "length trustedHost = length trusted" and "trusted \<noteq> []"
  shows "let e = Resolve tbl p r in
     edge_ClientIP e \<in> {peerAddress (RemoteAddr r)} \<union> set_option (parseForwardedAddress (hd trusted)) \<and>
     edge_Scheme e \<in> {directScheme r} \<union> set_option (parseScheme tbl (hd trustedProto)) \<and>
     edge_Host e \<in> {Host r} \<union> set_option (parseHost (hd trustedHost))"
proof -
  have h: "0 < hops p" using assms(4,7) by (cases trusted) auto
  note suffixes = nthFromRightOf_suffix [OF assms(1), of "hops p" parseForwardedAddress]
    nthFromRightOf_suffix [OF assms(2), of "hops p" "parseScheme tbl"]
    nthFromRightOf_suffix [OF assms(3), of "hops p" parseHost]
  show ?thesis
    using h suffixes assms(4-6)
    by (auto simp: Resolve_def direct_view_def Let_def split: option.splits)
qed

definition sample_request :: http_request where
  "sample_request =
     \<lparr>RemoteAddr = ''10.0.0.7:4711'', hasTLS = False, Host = ''app.internal'',
      Header = (\<lambda>name. if name = HeaderFor then [''6.6.6.6, 203.0.113.9'']
                       else if name = HeaderProto then [''https''] else [''example.org''])\<rparr>"

theorem Resolve_unforgeable_witness:
  "edge_ClientIP (Resolve id \<lparr>hops = 1, networks = []\<rparr> sample_request) \<in>
     {peerAddress ''10.0.0.7:4711''} \<union> set_option (parseForwardedAddress ''203.0.113.9'')"
proof -
  have "header_entries (Header sample_request HeaderFor) = [''6.6.6.6''] @ [''203.0.113.9'']"
    "header_entries (Header sample_request HeaderProto) = [] @ [''https'']"
    "header_entries (Header sample_request HeaderHost) = [] @ [''example.org'']"
    by code_simp+
  from Resolve_unforgeable [OF this, of "\<lparr>hops = 1, networks = []\<rparr>" id] show ?thesis
    by (simp add: Let_def sample_request_def)
qed

text \<open>
  forwarded headers are honoured only when the policy declares a proxy, the connection's peer is
  permitted to be it, and the chain is as long as declared with a parseable client entry; in every
  other case the view is the direct one, whatever the headers hold.  A trusted view always carries a
  valid, unmapped address, and in every view the scheme is http or https and a host taken from a
  header consists of host characters only.
\<close>

theorem Resolve_trust:
  "let e = Resolve tbl p r in
     (edge_Trusted e \<longleftrightarrow> hops p \<noteq> 0 \<and> permitsPeer p (peerAddress (RemoteAddr r)) \<and>
        nthFromRightOf (Header r HeaderFor) (hops p) parseForwardedAddress \<noteq> None) \<and>
     (edge_Trusted e \<or> e = direct_view r) \<and>
     (edge_Trusted e \<longrightarrow> Addr_IsValid (edge_ClientIP e) \<and> Unmap (edge_ClientIP e) = edge_ClientIP e) \<and>
     edge_Scheme e \<in> {''http'', ''https''} \<and>
     (edge_Host e = Host r \<or> list_all host_char (edge_Host e) \<and> length (edge_Host e) \<le> 255)"
  using parsed_address nthFromRightOf_parsed [of "Header r HeaderFor" "hops p" parseForwardedAddress]
    parseScheme_cases nthFromRightOf_parsed [of "Header r HeaderProto" "hops p" "parseScheme tbl"]
    parseHost_cases nthFromRightOf_parsed [of "Header r HeaderHost" "hops p" parseHost]
  unfolding MaxHostBytes_def
  by (auto simp: Resolve_def Let_def direct_view_def directScheme_def split: option.splits; blast)

theorem Resolve_trust_witness:
  "edge_Trusted (Resolve id \<lparr>hops = 1, networks = []\<rparr> sample_request) \<and>
   Addr_IsValid (edge_ClientIP (Resolve id \<lparr>hops = 1, networks = []\<rparr> sample_request))"
proof -
  have "nthFromRightOf (Header sample_request HeaderFor) 1 parseForwardedAddress = Some (V4 3405803785)"
    by code_simp
  then show ?thesis
    using Resolve_trust [of id "\<lparr>hops = 1, networks = []\<rparr>" sample_request]
    by (simp add: Let_def permitsPeer_def)
qed

text \<open>
  the network list an operator writes and the policy constructor agree: whatever
  \<open>ParseNetworks\<close> accepts, \<open>NewPolicy\<close> accepts for every declared chain of one to eight proxies, and
  keeps unchanged; with no proxy declared only the empty list is accepted.
\<close>

theorem ParseNetworks_accepted:
  assumes "ParseNetworks v = Inr nets"
  shows "(1 \<le> h \<and> h \<le> 8 \<longrightarrow> NewPolicy h nets = Inr \<lparr>hops = h, networks = nets\<rparr>) \<and>
         ((\<exists>p. NewPolicy 0 nets = Inr p) \<longleftrightarrow> nets = [])"
proof -
  have "check_networks nets = None"
    using assms parse_entries_ok [of 0 _ "[]" nets]
    by (auto simp: ParseNetworks_def Let_def split: if_splits)
  then show ?thesis by (auto simp: NewPolicy_def forwarded_bounds)
qed

theorem ParseNetworks_accepted_witness:
  "ParseNetworks '' 10.0.0.7, ::1'' =
     Inr [\<lparr>pfx_addr = V4 167772167, pfx_bits = Some 32\<rparr>, \<lparr>pfx_addr = V6 1 [], pfx_bits = Some 128\<rparr>] \<and>
   NewPolicy 2 [\<lparr>pfx_addr = V4 167772167, pfx_bits = Some 32\<rparr>, \<lparr>pfx_addr = V6 1 [], pfx_bits = Some 128\<rparr>] =
     Inr \<lparr>hops = 2, networks =
       [\<lparr>pfx_addr = V4 167772167, pfx_bits = Some 32\<rparr>, \<lparr>pfx_addr = V6 1 [], pfx_bits = Some 128\<rparr>]\<rparr>"
proof -
  have p: "ParseNetworks '' 10.0.0.7, ::1'' =
     Inr [\<lparr>pfx_addr = V4 167772167, pfx_bits = Some 32\<rparr>, \<lparr>pfx_addr = V6 1 [], pfx_bits = Some 128\<rparr>]"
    by code_simp
  from ParseNetworks_accepted [OF p, of 2] p show ?thesis by simp
qed

end
