(* ===== verification/Report.thy ===== *)
theory Report
  imports Prelude
begin

text \<open>
  Offset pagination: \<open>runtime/pagination/report.go\<close>, with the parameter readers it shares with cursor
  pagination (\<open>single\<close> and \<open>decimalValue\<close> of \<open>request.go\<close>) and the page-size policy of that file.
  \<open>url.Values\<close> is a partial function from parameter names to the list of their values.
\<close>

type_synonym url_values = "string \<rightharpoonup> string list"

datatype bound_fault = DefaultNotPositive | MaxNotPositive | MaxTooLarge | DefaultExceedsMax
  | OffsetNegative | OffsetTooLarge | NotConstructed

datatype param_error =
    ErrLimits bound_fault
  | ErrInvalidLimit
  | ErrRepeatedParameter string nat
  | ErrEmptyParameter string
  | ErrReportLimits bound_fault
  | ErrInvalidPage
  | ErrInvalidSize
  | ErrReportTooDeep int
  | ErrMixedPagination string
  | ErrNegativeTotal int
  | ErrUnboundedReport int

section \<open>Parameters\<close>

definition LimitParam :: string where "LimitParam = ''limit''"
definition AfterParam :: string where "AfterParam = ''after''"
definition BeforeParam :: string where "BeforeParam = ''before''"
definition PageParam :: string where "PageParam = ''page''"
definition SizeParam :: string where "SizeParam = ''size''"

definition MaxPageLimit :: int where "MaxPageLimit = 200"
definition MaxReportPage :: int where "MaxReportPage = 100000"
definition MaxReportOffset :: int where "MaxReportOffset = 1000000"

lemmas page_bounds = MaxPageLimit_def MaxReportPage_def MaxReportOffset_def

text \<open>The value of a parameter and whether it was present, or the refusal.\<close>

definition single :: "url_values \<Rightarrow> string \<Rightarrow> param_error + (string \<times> bool)" where
  "single query name =
     (case (case query name of None \<Rightarrow> [] | Some vs \<Rightarrow> vs) of
        [] \<Rightarrow> Inr ([], False)
      | [v] \<Rightarrow> if v = [] then Inl (ErrEmptyParameter name) else Inr (v, True)
      | vs \<Rightarrow> Inl (ErrRepeatedParameter name (length vs)))"

definition decimalValue :: "string \<Rightarrow> nat \<Rightarrow> int option" where
  "decimalValue raw maxDigits =
     (if raw = [] \<or> length raw > maxDigits \<or> (length raw > 1 \<and> hd raw = CHR ''0'') then None
      else if \<not> list_all is_digit raw then None
      else atoi raw)"

section \<open>Page sizes\<close>

record limits =
  defaultSize :: int
  maxSize :: int

definition NewLimits :: "int \<Rightarrow> int \<Rightarrow> param_error + limits" where
  "NewLimits d m =
     (if d \<le> 0 then Inl (ErrLimits DefaultNotPositive)
      else if m \<le> 0 then Inl (ErrLimits MaxNotPositive)
      else if m > MaxPageLimit then Inl (ErrLimits MaxTooLarge)
      else if d > m then Inl (ErrLimits DefaultExceedsMax)
      else Inr \<lparr>defaultSize = d, maxSize = m\<rparr>)"

definition parseLimit :: "url_values \<Rightarrow> limits \<Rightarrow> param_error + int" where
  "parseLimit query lim =
     (case single query LimitParam of
        Inl err \<Rightarrow> Inl err
      | Inr (raw, present) \<Rightarrow>
          if \<not> present then Inr (defaultSize lim)
          else (case decimalValue raw 4 of
                  None \<Rightarrow> Inl ErrInvalidLimit
                | Some limit \<Rightarrow>
                    if limit < 1 \<or> limit > maxSize lim then Inl ErrInvalidLimit else Inr limit))"

section \<open>Reports\<close>

record report_limits =
  rl_defaultSize :: int
  rl_maxSize :: int
  rl_maxOffset :: int

definition NewReportLimits :: "int \<Rightarrow> int \<Rightarrow> int \<Rightarrow> param_error + report_limits" where
  "NewReportLimits d m off =
     (if d \<le> 0 then Inl (ErrReportLimits DefaultNotPositive)
      else if m \<le> 0 then Inl (ErrReportLimits MaxNotPositive)
      else if m > MaxPageLimit then Inl (ErrReportLimits MaxTooLarge)
      else if d > m then Inl (ErrReportLimits DefaultExceedsMax)
      else if off < 0 then Inl (ErrReportLimits OffsetNegative)
      else if off > MaxReportOffset then Inl (ErrReportLimits OffsetTooLarge)
      else Inr \<lparr>rl_defaultSize = d, rl_maxSize = m, rl_maxOffset = off\<rparr>)"

record report =
  Number :: int
  Size :: int

definition Offset :: "report \<Rightarrow> int" where
  "Offset r = wrap64 (wrap64 (Number r - 1) * Size r)"

record totals =
  tot_Page :: int
  tot_Size :: int
  tot_Total :: int
  TotalPages :: int
  HasMore :: bool

text \<open>Go's division truncates; both operands are non-negative here, where it agrees with \<open>div\<close>.\<close>

definition Totals :: "report \<Rightarrow> int \<Rightarrow> param_error + totals" where
  "Totals r rows =
     (if rows < 0 then Inl (ErrNegativeTotal rows)
      else if Number r < 1 \<or> Number r > MaxReportPage then Inl (ErrUnboundedReport (Number r))
      else if Size r < 1 \<or> Size r > MaxPageLimit then Inl (ErrUnboundedReport (Size r))
      else
        (let size = Size r;
             pages = rows div size;
             pages = (if rows mod size \<noteq> 0 then pages + 1 else pages)
         in Inr \<lparr>tot_Page = Number r, tot_Size = Size r, tot_Total = rows, TotalPages = pages,
                 HasMore = (Number r < pages)\<rparr>))"

function digitsIn_loop :: "int \<Rightarrow> nat \<Rightarrow> nat" where
  "digitsIn_loop value digits = (if value \<ge> 10 then digitsIn_loop (value div 10) (digits + 1) else digits)"
  by pat_completeness auto
termination
  by (relation "measure (\<lambda>(v, d). nat v)") auto

declare digitsIn_loop.simps [simp del]

definition digitsIn :: "int \<Rightarrow> nat" where
  "digitsIn value = digitsIn_loop value 1"

definition parseBoundedParameter ::
  "url_values \<Rightarrow> string \<Rightarrow> int \<Rightarrow> int \<Rightarrow> int \<Rightarrow> param_error \<Rightarrow> param_error + int" where
  "parseBoundedParameter query name fallback low high sentinel =
     (case single query name of
        Inl err \<Rightarrow> Inl err
      | Inr (raw, present) \<Rightarrow>
          if \<not> present then Inr fallback
          else (case decimalValue raw (digitsIn high) of
                  None \<Rightarrow> Inl sentinel
                | Some v \<Rightarrow> if v < low \<or> v > high then Inl sentinel else Inr v))"

definition ParseReport :: "url_values \<Rightarrow> report_limits \<Rightarrow> param_error + report" where
  "ParseReport query lim =
     (if rl_defaultSize lim = 0 then Inl (ErrReportLimits NotConstructed)
      else (case List.find (\<lambda>name. query name \<noteq> None) [LimitParam, AfterParam, BeforeParam] of
              Some name \<Rightarrow> Inl (ErrMixedPagination name)
            | None \<Rightarrow>
                (case parseBoundedParameter query PageParam 1 1 MaxReportPage ErrInvalidPage of
                   Inl err \<Rightarrow> Inl err
                 | Inr number \<Rightarrow>
                     (case parseBoundedParameter query SizeParam (rl_defaultSize lim) 1 (rl_maxSize lim)
                             ErrInvalidSize of
                        Inl err \<Rightarrow> Inl err
                      | Inr n \<Rightarrow>
                          (let r = \<lparr>Number = number, Size = n\<rparr>
                           in if Offset r > rl_maxOffset lim then Inl (ErrReportTooDeep (Offset r))
                              else Inr r)))))"

section \<open>Lemmas\<close>

lemma decimalValue_canonical:
  assumes "n \<le> 18"
  shows "decimalValue raw n = Some v \<longleftrightarrow> 0 \<le> v \<and> raw = show_nat (nat v) \<and> length raw \<le> n"
proof
  assume "decimalValue raw n = Some v"
  then have can: "canonical_digits raw" and len: "length raw \<le> n" and v: "atoi raw = Some v"
    by (auto simp: decimalValue_def canonical_digits_def split: if_splits)
  have "digits_val raw < 10 ^ length raw" using can by (simp add: digits_val_less canonical_digits_def)
  also have "\<dots> \<le> 10 ^ 18" using len assms by (intro power_increasing) auto
  finally have "digits_val raw < 2 ^ 63" by simp
  then have "v = int (digits_val raw)"
    using v can by (simp add: atoi_digits canonical_digits_def)
  then show "0 \<le> v \<and> raw = show_nat (nat v) \<and> length raw \<le> n"
    using show_nat_digits_val [OF can] len by simp
next
  assume v: "0 \<le> v \<and> raw = show_nat (nat v) \<and> length raw \<le> n"
  then have can: "canonical_digits raw" by (simp add: canonical_show_nat)
  have "digits_val raw < 10 ^ length raw" using can by (simp add: digits_val_less canonical_digits_def)
  also have "\<dots> \<le> 10 ^ 18" using v assms by (intro power_increasing) auto
  finally have "nat v < 2 ^ 63" using v by simp
  then show "decimalValue raw n = Some v"
    using v can by (auto simp: decimalValue_def canonical_digits_def)
qed

text \<open>\<open>digitsIn\<close> counts the digits of the numeral, so the length guard never refuses a value in range.\<close>

lemma digitsIn_loop_eq:
  "0 \<le> v \<Longrightarrow> digitsIn_loop v d = d + length (show_nat (nat v)) - 1"
proof (induction v d rule: digitsIn_loop.induct)
  case (1 v d)
  show ?case
  proof (cases "v \<ge> 10")
    case True
    then have "nat (v div 10) = nat v div 10" by (simp add: nat_div_distrib)
    with 1 True show ?thesis
      by (simp add: digitsIn_loop.simps [of v d] show_nat.simps [of "nat v"])
  next
    case False
    with 1 show ?thesis by (simp add: digitsIn_loop.simps [of v d] show_nat.simps [of "nat v"])
  qed
qed

lemma digitsIn_eq: "0 \<le> v \<Longrightarrow> digitsIn v = length (show_nat (nat v))"
  by (simp add: digitsIn_def digitsIn_loop_eq)

lemma length_show_nat_mono: "m \<le> n \<Longrightarrow> length (show_nat m) \<le> length (show_nat n)"
proof (induction n arbitrary: m rule: show_nat.induct)
  case (1 n)
  show ?case
  proof (cases "n < 10")
    case True
    with 1 show ?thesis by (simp add: show_nat.simps [of n] show_nat.simps [of m])
  next
    case False
    have "m div 10 \<le> n div 10" using 1(2) by (rule div_le_mono)
    with 1 False have "length (show_nat (m div 10)) \<le> length (show_nat (n div 10))" by simp
    with False show ?thesis
      by (simp add: show_nat.simps [of n] show_nat.simps [of m])
  qed
qed

lemma length_show_nat_le:
  assumes "n < 10 ^ k" and "0 < k"
  shows "length (show_nat n) \<le> k"
proof (rule ccontr)
  assume "\<not> length (show_nat n) \<le> k"
  then have len: "k < length (show_nat n)" by simp
  have "canonical_digits (show_nat n)" by (rule canonical_show_nat)
  then obtain c cs where c: "show_nat n = c # cs" "is_digit c" "c \<noteq> CHR ''0''" "list_all is_digit cs"
    using len assms(2) by (cases "show_nat n") (auto simp: canonical_digits_def)
  have "1 \<le> digits_val [c]" using digits_val_pos [of "[c]"] c by simp
  then have "1 \<le> digit_val c" by (simp add: digits_val_def)
  have split: "digits_val (c # ds) = digit_val c * 10 ^ length ds + digits_val ds" for ds
    by (induction ds rule: rev_induct) (simp_all add: digits_val_def algebra_simps)
  have "10 ^ k \<le> (10 :: nat) ^ length cs" using len c by (intro power_increasing) auto
  also have "\<dots> \<le> digit_val c * 10 ^ length cs" using \<open>1 \<le> digit_val c\<close> by simp
  also have "\<dots> \<le> digits_val (show_nat n)" by (simp add: c split)
  finally show False using assms(1) by simp
qed

text \<open>
  The one fact every bounded parameter reader rests on: a present value is accepted exactly when it is
  the plain decimal numeral of a number in range.
\<close>

lemma parseBoundedParameter_Inr:
  assumes "0 \<le> low" and "high \<le> 999999999"
  shows "parseBoundedParameter q name fb low high s = Inr v \<longleftrightarrow>
     (q name \<in> {None, Some []} \<and> v = fb) \<or>
     (low \<le> v \<and> v \<le> high \<and> q name = Some [show_nat (nat v)])"
proof (cases "single q name")
  case (Inl e)
  then show ?thesis
    by (auto simp: parseBoundedParameter_def single_def split: option.splits list.splits if_splits)
next
  case (Inr rp)
  obtain raw present where rp: "rp = (raw, present)" by (cases rp)
  show ?thesis
  proof (cases present)
    case False
    then show ?thesis
      using Inr rp by (auto simp: parseBoundedParameter_def single_def split: option.splits list.splits if_splits)
  next
    case True
    then have q: "q name = Some [raw]" "raw \<noteq> []"
      using Inr rp by (auto simp: single_def split: option.splits list.splits if_splits)
    have len: "length (show_nat (nat v)) \<le> digitsIn high" if "0 \<le> v" "v \<le> high" for v
      using that by (simp add: digitsIn_eq length_show_nat_mono nat_mono)
    have small: "digitsIn high \<le> 18"
    proof (cases "0 \<le> high")
      case True
      then have "length (show_nat (nat high)) \<le> 9" using assms(2) by (intro length_show_nat_le) auto
      with True show ?thesis by (simp add: digitsIn_eq)
    next
      case False
      then show ?thesis by (simp add: digitsIn_def digitsIn_loop.simps)
    qed
    have "parseBoundedParameter q name fb low high s = Inr v \<longleftrightarrow>
        decimalValue raw (digitsIn high) = Some v \<and> low \<le> v \<and> v \<le> high"
      using Inr rp True by (auto simp: parseBoundedParameter_def split: option.splits if_splits)
    then show ?thesis
      unfolding decimalValue_canonical [OF small] using q assms(1) len by auto
  qed
qed

section \<open>Properties\<close>

text \<open>
  C33: a report request that is accepted under validated limits names a page between 1 and 100000 and a
  size within the configured maximum, its offset is the exact product (no 64-bit wrap) and within the
  configured ceiling, no cursor parameter was present, and the totals of such a report are always
  defined for a non-negative row count.
\<close>

theorem ParseReport_bounds:
  assumes "NewReportLimits d m off = Inr lim" and "ParseReport q lim = Inr r"
  shows "1 \<le> Number r \<and> Number r \<le> 100000 \<and> 1 \<le> Size r \<and> Size r \<le> m \<and> m \<le> 200 \<and>
     Offset r = (Number r - 1) * Size r \<and> 0 \<le> Offset r \<and> Offset r \<le> off \<and> off \<le> 1000000 \<and>
     (\<forall>name\<in>{LimitParam, AfterParam, BeforeParam}. q name = None) \<and>
     (0 \<le> rows \<longrightarrow> (\<exists>t. Totals r rows = Inr t))"
proof -
  have lim: "lim = \<lparr>rl_defaultSize = d, rl_maxSize = m, rl_maxOffset = off\<rparr>"
    "0 < d" "d \<le> m" "m \<le> 200" "0 \<le> off" "off \<le> 1000000"
    using assms(1) by (auto simp: NewReportLimits_def page_bounds split: if_splits)
  have none: "\<forall>name\<in>{LimitParam, AfterParam, BeforeParam}. q name = None"
    using assms(2) by (auto simp: ParseReport_def split: option.splits if_splits)
  from assms(2) none have page: "parseBoundedParameter q PageParam 1 1 100000 ErrInvalidPage = Inr (Number r)"
    and size: "parseBoundedParameter q SizeParam d 1 m ErrInvalidSize = Inr (Size r)"
    and off: "Offset r \<le> off"
    by (auto simp: ParseReport_def lim page_bounds Let_def split: option.splits if_splits sum.splits)
  have n: "1 \<le> Number r" "Number r \<le> 100000"
    using page [unfolded parseBoundedParameter_Inr [of 1 100000, simplified]] by auto
  have "m \<le> 999999999" using lim by simp
  then have s: "1 \<le> Size r" "Size r \<le> m"
    using size lim by (auto simp: parseBoundedParameter_Inr)
  have prod: "(Number r - 1) * Size r \<le> 100000 * 200"
    using n s lim by (intro mult_mono) auto
  moreover have pos: "0 \<le> (Number r - 1) * Size r" using n s by simp
  ultimately have "Offset r = (Number r - 1) * Size r"
    using n by (simp add: Offset_def wrap64_id)
  then show ?thesis
    using n s lim off pos none by (auto simp: Totals_def page_bounds Let_def)
qed

theorem ParseReport_bounds_witness:
  "ParseReport [''page'' \<mapsto> [''3''], ''size'' \<mapsto> [''20'']]
     \<lparr>rl_defaultSize = 10, rl_maxSize = 50, rl_maxOffset = 1000\<rparr> = Inr \<lparr>Number = 3, Size = 20\<rparr> \<and>
   Offset \<lparr>Number = 3, Size = 20\<rparr> = 40"
proof -
  have l: "NewReportLimits 10 50 1000 = Inr \<lparr>rl_defaultSize = 10, rl_maxSize = 50, rl_maxOffset = 1000\<rparr>"
    by (simp add: NewReportLimits_def page_bounds)
  moreover have p: "ParseReport [''page'' \<mapsto> [''3''], ''size'' \<mapsto> [''20'']]
     \<lparr>rl_defaultSize = 10, rl_maxSize = 50, rl_maxOffset = 1000\<rparr> = Inr \<lparr>Number = 3, Size = 20\<rparr>"
    (is "ParseReport ?q _ = _")
  proof -
    have "show_nat 3 = ''3''" "show_nat 20 = ''20''" by code_simp+
    then have "parseBoundedParameter ?q PageParam 1 1 MaxReportPage ErrInvalidPage = Inr 3"
      "parseBoundedParameter ?q SizeParam 10 1 50 ErrInvalidSize = Inr 20"
      by (simp_all add: parseBoundedParameter_Inr page_bounds PageParam_def SizeParam_def)
    then show ?thesis
      by (simp add: ParseReport_def LimitParam_def AfterParam_def BeforeParam_def Offset_def Let_def wrap64_id)
  qed
  ultimately show ?thesis using ParseReport_bounds [OF l p] by simp
qed

text \<open>Rounding a division up counts the pages that hold every row.\<close>

lemma pages_up:
  assumes "0 \<le> rows" and "1 \<le> n"
    and pages: "pages = (if rows mod n \<noteq> 0 then rows div n + 1 else rows div n)"
  shows "rows \<le> pages * n" and "(pages - 1) * n < max 1 rows" and "pages = 0 \<longleftrightarrow> rows = (0 :: int)"
proof -
  define k m where "k = rows div n" and "m = rows mod n"
  have eq: "rows = k * n + m" by (simp add: k_def m_def)
  have lt: "m < n" "0 \<le> m" "0 \<le> k"
    using assms by (auto simp: k_def m_def pos_imp_zdiv_nonneg_iff)
  note pages = pages [folded k_def m_def]
  show "rows \<le> pages * n" using eq lt by (auto simp: pages distrib_right)
  show "(pages - 1) * n < max 1 rows"
    using eq lt assms(2) by (auto simp: pages left_diff_distrib distrib_right max_def)
  show "pages = 0 \<longleftrightarrow> rows = 0"
  proof (cases "k = 0")
    case True
    then show ?thesis using eq lt by (auto simp: pages)
  next
    case False
    then have "1 * 1 \<le> k * n" using lt assms by (intro mult_mono) auto
    then show ?thesis using eq lt False by (auto simp: pages)
  qed
qed

text \<open>
  the totals are exact.  The page count is the least number of pages of the given size that hold
  every row, so the last page is never empty, and a following page is reported exactly when a row lies
  beyond the end of the current one.
\<close>

theorem Totals_exact:
  assumes "Totals r rows = Inr t"
  shows "rows \<le> TotalPages t * Size r \<and> (TotalPages t - 1) * Size r < max 1 rows \<and>
         (TotalPages t = 0 \<longleftrightarrow> rows = 0) \<and> (HasMore t \<longleftrightarrow> Number r * Size r < rows)"
proof -
  let ?n = "Size r"
  have pos: "0 \<le> rows" "1 \<le> ?n" "1 \<le> Number r"
    and pages: "TotalPages t = (if rows mod ?n \<noteq> 0 then rows div ?n + 1 else rows div ?n)"
    and more: "HasMore t \<longleftrightarrow> Number r < TotalPages t"
    using assms by (auto simp: Totals_def Let_def split: if_splits)
  note up = pages_up [OF pos(1,2) pages]
  have "Number r * ?n < rows" if "Number r < TotalPages t"
  proof -
    have "Number r * ?n \<le> (TotalPages t - 1) * ?n" using that pos by (intro mult_right_mono) auto
    moreover have "rows \<noteq> 0" using up(3) that pos by auto
    ultimately show ?thesis using up(2) pos by linarith
  qed
  moreover have "Number r < TotalPages t" if "Number r * ?n < rows"
  proof (rule ccontr)
    assume "\<not> Number r < TotalPages t"
    then have "TotalPages t * ?n \<le> Number r * ?n" using pos by (intro mult_right_mono) auto
    with up(1) that show False by simp
  qed
  ultimately show ?thesis using up more by blast
qed

theorem Totals_exact_witness:
  "Totals \<lparr>Number = 3, Size = 20\<rparr> 61 =
     Inr \<lparr>tot_Page = 3, tot_Size = 20, tot_Total = 61, TotalPages = 4, HasMore = True\<rparr> \<and> (3 :: int) * 20 < 61"
proof -
  have t: "Totals \<lparr>Number = 3, Size = 20\<rparr> 61 =
      Inr \<lparr>tot_Page = 3, tot_Size = 20, tot_Total = 61, TotalPages = 4, HasMore = True\<rparr>"
    by (simp add: Totals_def page_bounds Let_def)
  then show ?thesis using Totals_exact [OF t] by simp
qed

end
