(* ===== verification/Password.thy ===== *)
theory Password
  imports Encodings Hashes
begin

text \<open>
  \<open>runtime/password\<close>: Argon2id parameter sets (\<open>params.go\<close>), hashing and verification of stored PHC
  strings (\<open>policy.go\<close>) and the common-password list (\<open>compromised.go\<close>).

  Argon2 itself is a third-party function and is the argument \<open>idkey\<close> of the definitions that call it:
  password, salt, iterations, memory, parallelism and tag length to the tag.  What the code relies on is
  that the tag has the requested length (\<open>kdf_length\<close>).
\<close>

type_synonym kdf = "bytes \<Rightarrow> bytes \<Rightarrow> 32 word \<Rightarrow> 32 word \<Rightarrow> byte \<Rightarrow> nat \<Rightarrow> bytes"

definition kdf_length :: "kdf \<Rightarrow> bool" where
  "kdf_length idkey \<longleftrightarrow> (\<forall>pw salt t m p n. length (idkey pw salt t m p n) = n)"

datatype params_fault = VersionBounds | MemoryBounds | IterationsBounds | ParallelismBounds | Unconstructed

datatype password_error =
    ErrParams params_fault
  | ErrDuplicateVersion
  | ErrPasswordLength nat
  | ErrEncoding string
  | ErrUnsupportedParams
  | ErrAlgorithm
  | ErrRandom
  | ErrCompromisedList

section \<open>Parameter sets\<close>

definition MinMemoryKiB :: nat where "MinMemoryKiB = 19 * 1024"
definition MaxMemoryKiB :: nat where "MaxMemoryKiB = 4 * 1024 * 1024"
definition MinIterations :: nat where "MinIterations = 1"
definition MaxIterations :: nat where "MaxIterations = 64"
definition MinParallelism :: nat where "MinParallelism = 1"
definition MaxParallelism :: nat where "MaxParallelism = 64"
definition MaxVersion :: int where "MaxVersion = 1000"
definition SaltBytes :: nat where "SaltBytes = 16"
definition KeyBytes :: nat where "KeyBytes = 32"
definition MinTagBytes :: nat where "MinTagBytes = 16"
definition MaxTagBytes :: nat where "MaxTagBytes = 1024"
definition MaxSaltBytes :: nat where "MaxSaltBytes = 1024"
definition MaxPasswordBytes :: nat where "MaxPasswordBytes = 1024"

lemmas cost_bounds = MinMemoryKiB_def MaxMemoryKiB_def MinIterations_def MaxIterations_def
  MinParallelism_def MaxParallelism_def MaxVersion_def
lemmas size_bounds = SaltBytes_def KeyBytes_def MinTagBytes_def MaxTagBytes_def MaxSaltBytes_def
  MaxPasswordBytes_def

record params =
  version :: int
  memoryKiB :: "32 word"
  iterations :: "32 word"
  parallelism :: byte

definition NewParams :: "int \<Rightarrow> 32 word \<Rightarrow> 32 word \<Rightarrow> byte \<Rightarrow> password_error + params" where
  "NewParams v m t p =
     (if v < 1 \<or> v > MaxVersion then Inl (ErrParams VersionBounds)
      else if unat m < MinMemoryKiB \<or> unat m > MaxMemoryKiB then Inl (ErrParams MemoryBounds)
      else if unat t < MinIterations \<or> unat t > MaxIterations then Inl (ErrParams IterationsBounds)
      else if unat p < MinParallelism \<or> unat p > MaxParallelism then Inl (ErrParams ParallelismBounds)
      else Inr \<lparr>version = v, memoryKiB = m, iterations = t, parallelism = p\<rparr>)"

definition Default :: params where
  "Default = \<lparr>version = 1, memoryKiB = 47104, iterations = 3, parallelism = 1\<rparr>"

definition Params_IsZero :: "params \<Rightarrow> bool" where
  "Params_IsZero p \<longleftrightarrow> version p = 0"

definition sameCost :: "params \<Rightarrow> params \<Rightarrow> bool" where
  "sameCost p other \<longleftrightarrow>
     memoryKiB p = memoryKiB other \<and> iterations p = iterations other \<and> parallelism p = parallelism other"

fun distinct_sets :: "params list \<Rightarrow> password_error option" where
  "distinct_sets [] = None"
| "distinct_sets (a # rest) =
     (if list_ex (\<lambda>b. version a = version b \<or> sameCost a b) rest then Some ErrDuplicateVersion
      else distinct_sets rest)"

definition versions :: "params list \<Rightarrow> int list" where
  "versions sets = sort (map version sets)"

section \<open>Hashing and verification\<close>

definition argon2Version :: int where "argon2Version = 19"

record verification =
  Match :: bool
  NeedsRehash :: bool
  ver_Version :: int

record policy =
  current :: params
  accepted :: "params list"
  dummyHash :: string
  dummyValue :: string

definition checkSecret :: "string \<Rightarrow> password_error option" where
  "checkSecret secret =
     (if secret = [] \<or> length secret > MaxPasswordBytes then Some (ErrPasswordLength (length secret)) else None)"

definition clampSecret :: "string \<Rightarrow> string" where
  "clampSecret secret =
     (if secret = [] then [CHR 0x00]
      else if length secret > MaxPasswordBytes then take MaxPasswordBytes secret
      else secret)"

definition encode :: "params \<Rightarrow> bytes \<Rightarrow> bytes \<Rightarrow> string" where
  "encode p salt tag =
     ''$argon2id$v='' @ show_int argon2Version @
     ''$m='' @ show_nat (unat (memoryKiB p)) @ '',t='' @ show_nat (unat (iterations p)) @
     '',p='' @ show_nat (unat (parallelism p)) @
     ''$'' @ enc64 RawStdEncoding salt @ ''$'' @ enc64 RawStdEncoding tag"

definition parse_part :: "string \<Rightarrow> string \<Rightarrow> nat option" where
  "parse_part part prefix =
     (case cut_prefix part prefix of None \<Rightarrow> None | Some raw \<Rightarrow> parse_uint 32 raw)"

definition parseCost :: "string \<Rightarrow> password_error + (32 word \<times> 32 word \<times> byte)" where
  "parseCost field =
     (case split_on (CHR '','') field of
        [a, b, c] \<Rightarrow>
          (case (parse_part a ''m='', parse_part b ''t='', parse_part c ''p='') of
             (Some m, Some t, Some p) \<Rightarrow>
               if p < MinParallelism \<or> p > MaxParallelism then Inl (ErrEncoding ''cost'')
               else Inr (word_of_nat m, word_of_nat t, word_of_nat p)
           | _ \<Rightarrow> Inl (ErrEncoding ''cost''))
      | _ \<Rightarrow> Inl (ErrEncoding ''cost''))"

definition decode :: "policy \<Rightarrow> string \<Rightarrow> password_error + (params \<times> bytes \<times> bytes)" where
  "decode pol encoded =
     (case split_on (CHR ''$'') encoded of
        [f0, f1, f2, f3, f4, f5] \<Rightarrow>
          if f0 \<noteq> [] then Inl (ErrEncoding ''fields'')
          else if f1 \<noteq> ''argon2id'' then Inl ErrAlgorithm
          else (case cut_prefix f2 ''v='' of
                  None \<Rightarrow> Inl (ErrEncoding ''version'')
                | Some rawVersion \<Rightarrow>
          (case atoi rawVersion of
             None \<Rightarrow> Inl (ErrEncoding ''version'')
           | Some v \<Rightarrow>
          if v \<noteq> argon2Version then Inl ErrAlgorithm
          else (case parseCost f3 of
                  Inl err \<Rightarrow> Inl err
                | Inr (m, t, p) \<Rightarrow>
          (case decode_string (Strict RawStdEncoding) f4 of
             None \<Rightarrow> Inl (ErrEncoding ''salt'')
           | Some salt \<Rightarrow>
          if length salt = 0 then Inl (ErrEncoding ''salt'')
          else (case decode_string (Strict RawStdEncoding) f5 of
                  None \<Rightarrow> Inl (ErrEncoding ''tag'')
                | Some tag \<Rightarrow>
          if length tag < MinTagBytes \<or> length tag > MaxTagBytes then Inl (ErrEncoding ''tag'')
          else if length salt > MaxSaltBytes then Inl (ErrEncoding ''salt'')
          else (case List.find (\<lambda>candidate. sameCost candidate
                        \<lparr>version = 0, memoryKiB = m, iterations = t, parallelism = p\<rparr>) (accepted pol) of
                  Some candidate \<Rightarrow> Inr (candidate, salt, tag)
                | None \<Rightarrow> Inl ErrUnsupportedParams))))))
      | _ \<Rightarrow> Inl (ErrEncoding ''fields''))"

definition hashWith :: "kdf \<Rightarrow> rand_source \<Rightarrow> params \<Rightarrow> string \<Rightarrow> password_error + string" where
  "hashWith idkey rand p secret =
     (case checkSecret secret of
        Some err \<Rightarrow> Inl err
      | None \<Rightarrow>
          (case rand SaltBytes of
             None \<Rightarrow> Inl ErrRandom
           | Some salt \<Rightarrow>
               Inr (encode p salt
                 (idkey (bytes_of_string secret) salt (iterations p) (memoryKiB p) (parallelism p) KeyBytes))))"

definition Hash :: "kdf \<Rightarrow> rand_source \<Rightarrow> policy \<Rightarrow> string \<Rightarrow> password_error + string" where
  "Hash idkey rand pol secret = hashWith idkey rand (current pol) secret"

definition Verify :: "kdf \<Rightarrow> policy \<Rightarrow> string \<Rightarrow> string \<Rightarrow> password_error + verification" where
  "Verify idkey pol encoded secret =
     (case checkSecret secret of
        Some err \<Rightarrow> Inl err
      | None \<Rightarrow>
          (case decode pol encoded of
             Inl err \<Rightarrow> Inl err
           | Inr (p, salt, tag) \<Rightarrow>
               if length tag < MinTagBytes \<or> length tag > MaxTagBytes then Inl (ErrEncoding ''tag'')
               else
                 (let derived = idkey (bytes_of_string secret) salt (iterations p) (memoryKiB p)
                                  (parallelism p) (length tag)
                  in Inr \<lparr>Match = constant_time_compare derived tag,
                          NeedsRehash = (\<not> sameCost p (current pol)),
                          ver_Version = version p\<rparr>)))"

text \<open>The dummy verification's result is discarded; the model keeps it so that its work can be stated.\<close>

definition VerifyDummy :: "kdf \<Rightarrow> policy \<Rightarrow> string \<Rightarrow> password_error + verification" where
  "VerifyDummy idkey pol secret = Verify idkey pol (dummyHash pol) (clampSecret secret)"

definition randomString :: "rand_source \<Rightarrow> password_error + string" where
  "randomString rand =
     (case rand 32 of None \<Rightarrow> Inl ErrRandom | Some v \<Rightarrow> Inr (enc64 RawURLEncoding v))"

text \<open>The two reads of the random source are two arguments, as they deliver different bytes.\<close>

definition NewPolicy ::
  "kdf \<Rightarrow> rand_source \<Rightarrow> rand_source \<Rightarrow> params \<Rightarrow> params list \<Rightarrow> password_error + policy" where
  "NewPolicy idkey randValue randSalt cur superseded =
     (if Params_IsZero cur then Inl (ErrParams Unconstructed)
      else if list_ex Params_IsZero superseded then Inl (ErrParams Unconstructed)
      else (case distinct_sets (cur # superseded) of
              Some err \<Rightarrow> Inl err
            | None \<Rightarrow>
                (case randomString randValue of
                   Inl err \<Rightarrow> Inl err
                 | Inr val \<Rightarrow>
                     (case hashWith idkey randSalt cur val of
                        Inl err \<Rightarrow> Inl err
                      | Inr hashed \<Rightarrow>
                          Inr \<lparr>current = cur, accepted = cur # superseded, dummyHash = hashed,
                               dummyValue = val\<rparr>))))"

section \<open>The common-password list\<close>

definition MaxCompromisedEntries :: nat where "MaxCompromisedEntries = 5000000"
definition MaxCompromisedEntryBytes :: nat where "MaxCompromisedEntryBytes = MaxPasswordBytes"

record common_list =
  entries :: "string set"

definition foldPassword :: "case_table \<Rightarrow> string \<Rightarrow> string" where
  "foldPassword tbl password = to_lower tbl (trim_space password)"

fun hold_entries :: "case_table \<Rightarrow> string list \<Rightarrow> string set \<Rightarrow> string set option" where
  "hold_entries tbl [] held = Some held"
| "hold_entries tbl (entry # rest) held =
     (let trimmed = trim_space entry
      in if trimmed = [] \<or> has_prefix trimmed ''#'' then hold_entries tbl rest held
         else if length trimmed > MaxCompromisedEntryBytes then None
         else hold_entries tbl rest (insert (foldPassword tbl trimmed) held))"

definition NewCommonList :: "case_table \<Rightarrow> string list \<Rightarrow> password_error + common_list" where
  "NewCommonList tbl es =
     (if length es > MaxCompromisedEntries then Inl ErrCompromisedList
      else (case hold_entries tbl es {} of
              None \<Rightarrow> Inl ErrCompromisedList
            | Some held \<Rightarrow> if held = {} then Inl ErrCompromisedList else Inr \<lparr>entries = held\<rparr>))"

text \<open>
  \<open>bufio.Scanner\<close> splitting lines with a 4096-byte buffer: one trailing carriage return is dropped from
  each line, a final line without its newline counts when it is not empty, and a line that fills the
  buffer is an error.
\<close>

definition scanner_buffer :: nat where "scanner_buffer = 4096"

definition drop_cr :: "string \<Rightarrow> string" where
  "drop_cr l = (if l \<noteq> [] \<and> last l = CHR 0x0D then butlast l else l)"

definition scan_lines :: "string \<Rightarrow> string list option" where
  "scan_lines contents =
     (let pieces = split_on (CHR 0x0A) contents;
          lines = (if last pieces = [] then butlast pieces else pieces)
      in if list_ex (\<lambda>l. length l \<ge> scanner_buffer) lines then None else Some (map drop_cr lines))"

definition ParseCommonList :: "case_table \<Rightarrow> string \<Rightarrow> password_error + common_list" where
  "ParseCommonList tbl contents =
     (case scan_lines contents of None \<Rightarrow> Inl ErrCompromisedList | Some ls \<Rightarrow> NewCommonList tbl ls)"

definition CommonList_Len :: "common_list \<Rightarrow> nat" where
  "CommonList_Len l = card (entries l)"

definition IsCompromised :: "case_table \<Rightarrow> common_list \<Rightarrow> string \<Rightarrow> bool" where
  "IsCompromised tbl l password \<longleftrightarrow> foldPassword tbl password \<in> entries l"

section \<open>The stored form\<close>

definition cost_field :: "params \<Rightarrow> string" where
  "cost_field p =
     ''m='' @ show_nat (unat (memoryKiB p)) @ '',t='' @ show_nat (unat (iterations p)) @
     '',p='' @ show_nat (unat (parallelism p))"

lemma show_nat_chars: "c \<in> set (show_nat n) \<Longrightarrow> is_digit c"
  using show_nat_digits [of n] by (auto simp: list_all_iff)

lemma show_nat_no_sep [simp]:
  "CHR ''$'' \<notin> set (show_nat n)" "CHR '','' \<notin> set (show_nat n)"
  using show_nat_chars [of "CHR ''$''" n] show_nat_chars [of "CHR '',''" n]
  by (auto simp: is_digit_def code_def)

lemma enc64_no_dollar [simp]: "CHR ''$'' \<notin> set (enc64 RawStdEncoding bs)"
proof -
  have "CHR ''$'' \<notin> set (alphabet RawStdEncoding)"
    by (simp add: RawStdEncoding_def StdEncoding_def std_alphabet_def)
  moreover have "\<not> padded RawStdEncoding" by (simp add: RawStdEncoding_def)
  ultimately show ?thesis
    using set_enc64 [of RawStdEncoding bs] by auto
qed

lemma show_version: "show_int argon2Version = ''19''"
  by code_simp

lemma split_encode:
  "split_on (CHR ''$'') (encode p salt tag) =
     [[], ''argon2id'', ''v=19'', cost_field p, enc64 RawStdEncoding salt, enc64 RawStdEncoding tag]"
proof -
  have "encode p salt tag =
      join [CHR ''$''] [[], ''argon2id'', ''v=19'', cost_field p, enc64 RawStdEncoding salt, enc64 RawStdEncoding tag]"
    by (simp add: encode_def cost_field_def show_version)
  then show ?thesis
    by (simp add: split_on_join cost_field_def del: join.simps)
qed

lemma parseCost_cost_field:
  "parseCost (cost_field p) =
     (if unat (parallelism p) < MinParallelism \<or> unat (parallelism p) > MaxParallelism
      then Inl (ErrEncoding ''cost'')
      else Inr (memoryKiB p, iterations p, parallelism p))"
proof -
  have "cost_field p = join [CHR '','']
     [''m='' @ show_nat (unat (memoryKiB p)), ''t='' @ show_nat (unat (iterations p)),
      ''p='' @ show_nat (unat (parallelism p))]"
    by (simp add: cost_field_def)
  then have split: "split_on (CHR '','') (cost_field p) =
     [''m='' @ show_nat (unat (memoryKiB p)), ''t='' @ show_nat (unat (iterations p)),
      ''p='' @ show_nat (unat (parallelism p))]"
    by (simp add: split_on_join del: join.simps)
  have part: "parse_part (pre @ show_nat n) pre = Some n" if "n < 2 ^ 32" for pre n
    using that by (simp add: parse_part_def)
  have "unat w < 2 ^ 32" for w :: "32 word"
    using unsigned_less [of w, where 'a = nat] by simp
  moreover have "unat w < 2 ^ 32" for w :: byte
    by (rule less_trans [OF byte_bound]) simp
  ultimately show ?thesis
    unfolding parseCost_def split by (simp add: part del: append_Cons append.simps)
qed

lemma atoi_version: "atoi ''19'' = Some argon2Version"
proof -
  have "show_nat 19 = ''19''" by code_simp
  then show ?thesis using atoi_show_nat [of 19] by (simp add: argon2Version_def)
qed

lemma decode_stored:
  assumes "1 \<le> unat (parallelism p)" "unat (parallelism p) \<le> 64"
    and "1 \<le> length salt" "length salt \<le> 1024" "16 \<le> length tag" "length tag \<le> 1024"
  shows "decode pol (encode p salt tag) =
     (case List.find (\<lambda>c. sameCost c p) (accepted pol) of
        Some c \<Rightarrow> Inr (c, salt, tag) | None \<Rightarrow> Inl ErrUnsupportedParams)"
proof -
  have dec: "decode_string (Strict RawStdEncoding) (enc64 RawStdEncoding bs) = Some bs" for bs
    using strict_std64.dec_enc [of bs] by simp
  have cost: "sameCost c \<lparr>version = 0, memoryKiB = memoryKiB p, iterations = iterations p,
      parallelism = parallelism p\<rparr> = sameCost c p" for c
    by (simp add: sameCost_def)
  have cut: "cut_prefix ''v=19'' ''v='' = Some ''19''"
    by (simp add: cut_prefix_def has_prefix_def)
  have "salt \<noteq> []" using assms(3) by auto
  then show ?thesis
    using assms unfolding decode_def split_encode
    by (simp add: cut atoi_version parseCost_cost_field dec cost cost_bounds size_bounds not_less
        split: option.split)
qed

text \<open>The policy invariant \<open>NewPolicy\<close> establishes over parameter sets \<open>NewParams\<close> made.\<close>

definition set_ok :: "params \<Rightarrow> bool" where
  "set_ok p \<longleftrightarrow> NewParams (version p) (memoryKiB p) (iterations p) (parallelism p) = Inr p"

lemma set_ok_parallelism: "set_ok p \<Longrightarrow> 1 \<le> unat (parallelism p) \<and> unat (parallelism p) \<le> 64"
  by (auto simp: set_ok_def NewParams_def cost_bounds split: if_splits)

definition policy_ok :: "policy \<Rightarrow> bool" where
  "policy_ok pol \<longleftrightarrow>
     accepted pol \<noteq> [] \<and> hd (accepted pol) = current pol \<and> (\<forall>p\<in>set (accepted pol). set_ok p) \<and>
     distinct_sets (accepted pol) = None"

lemma find_sameCost:
  assumes "distinct_sets ps = None" and "p \<in> set ps"
  shows "List.find (\<lambda>c. sameCost c p) ps = Some p"
  using assms
proof (induction ps)
  case (Cons a ps)
  show ?case
  proof (cases "sameCost a p")
    case True
    then have "a = p"
      using Cons.prems by (auto simp: list_ex_iff split: if_splits)
    with True show ?thesis by simp
  next
    case False
    moreover have "sameCost p p" by (simp add: sameCost_def)
    ultimately show ?thesis using Cons by (auto split: if_splits)
  qed
qed simp

lemma sameCost_unique:
  assumes "policy_ok pol" and "p \<in> set (accepted pol)"
  shows "sameCost p (current pol) \<longleftrightarrow> p = current pol"
proof
  have cur: "current pol \<in> set (accepted pol)" "distinct_sets (accepted pol) = None"
    using assms(1) by (auto simp: policy_ok_def) (metis list.set_sel(1))
  assume "sameCost p (current pol)"
  then have "sameCost p p" "List.find (\<lambda>c. sameCost c (current pol)) (accepted pol) = Some p"
    using find_sameCost [OF cur(2) assms(2)] by (auto simp: sameCost_def)
  then show "p = current pol" using find_sameCost [OF cur(2) cur(1)] by simp
qed (simp add: sameCost_def)

lemma hashWith_Inr:
  assumes "hashWith idkey rand p secret = Inr enc" and "fills rand"
  obtains salt where "length salt = 16" "checkSecret secret = None"
    "enc = encode p salt (idkey (bytes_of_string secret) salt (iterations p) (memoryKiB p) (parallelism p) 32)"
  using assms by (auto simp: hashWith_def fills_def size_bounds split: option.splits)

lemma Verify_hashWith:
  assumes "kdf_length idkey" and "fills rand" and "policy_ok pol" and "p \<in> set (accepted pol)"
    and "hashWith idkey rand p secret = Inr enc" and "checkSecret attempt = None"
  shows "\<exists>salt. length salt = 16 \<and>
     Verify idkey pol enc attempt =
       Inr \<lparr>Match = (let derive = \<lambda>s. idkey (bytes_of_string s) salt (iterations p) (memoryKiB p) (parallelism p) 32
                     in derive attempt = derive secret),
            NeedsRehash = (p \<noteq> current pol), ver_Version = version p\<rparr>"
proof -
  obtain salt where salt: "length salt = 16"
    and enc: "enc = encode p salt (idkey (bytes_of_string secret) salt (iterations p) (memoryKiB p) (parallelism p) 32)"
    using hashWith_Inr [OF assms(5,2)] by metis
  have "set_ok p" and dist: "distinct_sets (accepted pol) = None"
    using assms(3,4) by (auto simp: policy_ok_def)
  note par = set_ok_parallelism [OF this(1)]
  have len: "length (idkey pw s t m q n) = n" for pw s t m q n
    using assms(1) by (simp add: kdf_length_def)
  have "decode pol enc = Inr (p, salt, idkey (bytes_of_string secret) salt (iterations p) (memoryKiB p) (parallelism p) 32)"
    using par salt find_sameCost [OF dist assms(4)] unfolding enc by (subst decode_stored) (simp_all add: len)
  then show ?thesis
    using salt assms(6) sameCost_unique [OF assms(3,4)]
    by (auto simp: Verify_def len size_bounds Let_def)
qed

lemma NewPolicy_Inr:
  assumes "NewPolicy idkey rv rs cur olds = Inr pol" and "set_ok cur" and "\<forall>p\<in>set olds. set_ok p"
  shows "policy_ok pol" and "current pol = cur" and "accepted pol = cur # olds"
    and "hashWith idkey rs cur (dummyValue pol) = Inr (dummyHash pol)"
  using assms by (auto simp: NewPolicy_def policy_ok_def split: if_splits option.splits sum.splits)

lemma checkSecret_clamp: "checkSecret (clampSecret s) = None"
  by (auto simp: checkSecret_def clampSecret_def size_bounds)

lemma hold_entries_Some:
  "hold_entries tbl es acc = Some held \<Longrightarrow>
     held = acc \<union> {foldPassword tbl (trim_space e) |e.
       e \<in> set es \<and> trim_space e \<noteq> [] \<and> \<not> has_prefix (trim_space e) ''#''}"
proof (induction tbl es acc rule: hold_entries.induct)
  case (2 tbl e es acc)
  then show ?case by (auto simp: Let_def split: if_splits)
qed simp

section \<open>Properties\<close>

text \<open>
  C14: a hash written under one policy verifies under every policy that still accepts its parameter
  set: the right password matches, and a rehash is asked for exactly when the set is no longer the
  current one.  (Rotating parameters locks nobody out and upgrades records on their next use.)
\<close>

theorem Hash_Verify:
  assumes "kdf_length idkey" and "fills rand" and "policy_ok writer" and "policy_ok reader"
    and "current writer \<in> set (accepted reader)" and "Hash idkey rand writer secret = Inr enc"
  shows "Verify idkey reader enc secret =
     Inr \<lparr>Match = True, NeedsRehash = (current writer \<noteq> current reader),
          ver_Version = version (current writer)\<rparr>"
proof -
  have h: "hashWith idkey rand (current writer) secret = Inr enc" using assms(6) by (simp add: Hash_def)
  then have "checkSecret secret = None" by (auto simp: hashWith_def split: option.splits)
  from Verify_hashWith [OF assms(1,2,4,5) h this] show ?thesis by (auto simp: Let_def)
qed

definition sample_kdf :: kdf where
  "sample_kdf pw salt t m p n = take n (pw @ salt @ replicate n 0)"

definition sample_policy :: policy where
  "sample_policy = \<lparr>current = Default, accepted = [Default], dummyHash = [], dummyValue = []\<rparr>"

definition rotated_policy :: policy where
  "rotated_policy =
     (let next = \<lparr>version = 2, memoryKiB = 65536, iterations = 4, parallelism = 1\<rparr>
      in \<lparr>current = next, accepted = [next, Default], dummyHash = [], dummyValue = []\<rparr>)"

lemma sample_kdf_length: "kdf_length sample_kdf"
  by (auto simp: kdf_length_def sample_kdf_def min_def)

lemma sample_fills: "fills (\<lambda>n. Some (replicate n 7))"
  by (simp add: fills_def)

lemma sample_policies: "policy_ok sample_policy" "policy_ok rotated_policy"
  by (simp_all add: policy_ok_def sample_policy_def rotated_policy_def set_ok_def NewParams_def
      Default_def cost_bounds sameCost_def Let_def)

theorem Hash_Verify_witness:
  "\<exists>enc. Hash sample_kdf (\<lambda>n. Some (replicate n 7)) sample_policy ''hunter22'' = Inr enc \<and>
     Verify sample_kdf rotated_policy enc ''hunter22'' =
       Inr \<lparr>Match = True, NeedsRehash = True, ver_Version = 1\<rparr>"
proof -
  obtain enc where h: "Hash sample_kdf (\<lambda>n. Some (replicate n 7)) sample_policy ''hunter22'' = Inr enc"
    by (simp add: Hash_def hashWith_def checkSecret_def size_bounds)
  have "current sample_policy \<in> set (accepted rotated_policy)"
    by (simp add: sample_policy_def rotated_policy_def Let_def)
  from Hash_Verify [OF sample_kdf_length sample_fills sample_policies this h] h show ?thesis
    by (auto simp: sample_policy_def rotated_policy_def Let_def Default_def)
qed

text \<open>
  the dummy verification does a real verification's work for every input.  A policy built from
  validated parameter sets is well formed, and \<open>VerifyDummy\<close>, whatever password it is given (empty or
  oversized ones included), passes every check, resolves to the current parameter set and reaches the
  key derivation instead of returning early.
\<close>

theorem VerifyDummy_works:
  assumes "kdf_length idkey" and "fills randSalt" and "set_ok cur" and "\<forall>p\<in>set superseded. set_ok p"
    and "NewPolicy idkey randValue randSalt cur superseded = Inr pol"
  shows "policy_ok pol \<and>
     (\<exists>v. VerifyDummy idkey pol secret = Inr v \<and> ver_Version v = version cur \<and> \<not> NeedsRehash v)"
proof -
  note pol = NewPolicy_Inr [OF assms(5,3,4)]
  have "cur \<in> set (accepted pol)" using pol by simp
  from Verify_hashWith [OF assms(1,2) pol(1) this pol(4) checkSecret_clamp [of secret]]
  show ?thesis using pol by (auto simp: VerifyDummy_def)
qed

theorem VerifyDummy_works_witness:
  "\<exists>pol v. NewPolicy sample_kdf (\<lambda>n. Some (replicate n 7)) (\<lambda>n. Some (replicate n 7)) Default [] = Inr pol \<and>
     VerifyDummy sample_kdf pol [] = Inr v \<and> ver_Version v = 1"
proof -
  have ok: "set_ok Default" "\<forall>p\<in>set []. set_ok p"
    by (simp_all add: set_ok_def NewParams_def Default_def cost_bounds)
  have "length (enc64 RawURLEncoding (replicate 32 7)) = 43"
    by (simp add: length_enc64_raw RawURLEncoding_def encoded_len_def)
  then have "checkSecret (enc64 RawURLEncoding (replicate 32 7)) = None"
    by (auto simp: checkSecret_def size_bounds)
  then obtain pol where p:
    "NewPolicy sample_kdf (\<lambda>n. Some (replicate n 7)) (\<lambda>n. Some (replicate n 7)) Default [] = Inr pol"
    by (simp add: NewPolicy_def Params_IsZero_def Default_def randomString_def hashWith_def)
  from VerifyDummy_works [OF sample_kdf_length sample_fills ok p, of "[]"] p show ?thesis
    by (auto simp: Default_def)
qed

text \<open>
  a stored record can never make the verifier do work outside the policy.  Whenever a record
  decodes, its parameters are one of the accepted sets, and its salt and tag are within their bounds;
  every other record is refused before any key derivation.
\<close>

theorem decode_within_policy:
  assumes "decode pol encoded = Inr (p, salt, tag)"
  shows "p \<in> set (accepted pol) \<and> 1 \<le> length salt \<and> length salt \<le> 1024 \<and>
         16 \<le> length tag \<and> length tag \<le> 1024"
  using assms unfolding decode_def size_bounds
  by (auto split: list.splits option.splits if_splits sum.splits prod.splits
      simp: find_Some_iff Suc_le_eq)

theorem decode_within_policy_witness:
  "decode sample_policy (encode Default (replicate 16 7) (replicate 32 9)) =
     Inr (Default, replicate 16 7, replicate 32 9) \<and> Default \<in> set (accepted sample_policy)"
proof -
  have d: "decode sample_policy (encode Default (replicate 16 7) (replicate 32 9)) =
     Inr (Default, replicate 16 7, replicate 32 9)"
    by (subst decode_stored) (simp_all add: Default_def sample_policy_def sameCost_def)
  from decode_within_policy [OF d] d show ?thesis by simp
qed

text \<open>
  a common-password list answers exactly for its entries: a candidate is reported compromised if
  and only if some line of the list, neither blank nor a comment, folds to the same text.
\<close>

theorem IsCompromised_exact:
  assumes "NewCommonList tbl lines = Inr l"
  shows "IsCompromised tbl l password \<longleftrightarrow>
     (\<exists>e\<in>set lines. trim_space e \<noteq> [] \<and> \<not> has_prefix (trim_space e) ''#'' \<and>
        foldPassword tbl (trim_space e) = foldPassword tbl password)"
proof -
  obtain held where h: "hold_entries tbl lines {} = Some held" and l: "l = \<lparr>entries = held\<rparr>"
    using assms by (auto simp: NewCommonList_def split: if_splits option.splits)
  show ?thesis
    by (simp add: IsCompromised_def l hold_entries_Some [OF h] Bex_def eq_commute [of "foldPassword tbl password"])
       blast
qed

theorem IsCompromised_exact_witness:
  "\<exists>l. NewCommonList id [''# top'', ''Password1''] = Inr l \<and> IsCompromised id l ''pASSWORD1 ''"
proof -
  have "hold_entries id [''# top'', ''Password1''] {} = Some {''password1''}"
    by code_simp
  then have n: "NewCommonList id [''# top'', ''Password1''] = Inr \<lparr>entries = {''password1''}\<rparr>"
    by (simp add: NewCommonList_def MaxCompromisedEntries_def)
  have "foldPassword id (trim_space ''Password1'') = foldPassword id ''pASSWORD1 ''"
    "trim_space ''Password1'' = ''Password1''"
    by code_simp+
  with IsCompromised_exact [OF n, of "''pASSWORD1 ''"] n show ?thesis
    by (auto simp: has_prefix_def)
qed

end
