(* ===== verification/Transaction.thy ===== *)
theory Transaction
  imports Prelude
begin

text \<open>
  \<open>runtime/transaction\<close>: the runner that owns begin, commit and rollback around one use-case callback.

  The driver's transaction and the callback are arguments (the package's type parameter and function
  values): each maps the state of the world to how the call ended and the new state.  A Go call ends by
  returning an error or none, by panicking, or by \<open>runtime.Goexit\<close>; a deferred \<open>recover\<close> sees the second
  and not the third.  Two calls see the same \<open>context.Context\<close>, whose error may change between them, so
  it is read from the world.  (A begin function that panics propagates before anything is deferred and
  is not distinguished.)
\<close>

section \<open>Options\<close>

type_synonym isolation = string
type_synonym access_mode = string

definition DefaultIsolation :: isolation where "DefaultIsolation = []"
definition ReadCommitted :: isolation where "ReadCommitted = ''read_committed''"
definition RepeatableRead :: isolation where "RepeatableRead = ''repeatable_read''"
definition Serializable :: isolation where "Serializable = ''serializable''"

definition DefaultAccess :: access_mode where "DefaultAccess = []"
definition ReadWrite :: access_mode where "ReadWrite = ''read_write''"
definition ReadOnly :: access_mode where "ReadOnly = ''read_only''"

record options =
  Isolation :: isolation
  Access :: access_mode

datatype tx_error =
    NilRunner | NilContext | NilWork | NestedError
  | BadIsolation string | BadAccess string
  | CallerError string
  | BeginFailed string
  | Joined tx_error "tx_error option"
  | RollbackFailed string
  | CommitFailed string
  | NilBegin | NilOption nat | OptionFailed nat | BadTimeout

definition Options_validate :: "options \<Rightarrow> tx_error option" where
  "Options_validate o' =
     (if Isolation o' \<notin> {DefaultIsolation, ReadCommitted, RepeatableRead, Serializable}
        then Some (BadIsolation (Isolation o'))
      else if Access o' \<notin> {DefaultAccess, ReadWrite, ReadOnly} then Some (BadAccess (Access o'))
      else None)"

section \<open>The runner\<close>

text \<open>
  How a call ended, and the context a callback or driver call is given: whether it descends from an
  active transaction, whether it still carries the caller's cancellation, and its own deadline.
\<close>

datatype call = Returned "string option" | Panicked string | Exited

record tx_context =
  ctx_active :: bool
  ctx_cancellable :: bool
  ctx_timeout :: "duration option"

record ('t, 'w) driver =
  begin_tx :: "tx_context \<Rightarrow> options \<Rightarrow> 'w \<Rightarrow> (string + 't) \<times> 'w"
  commit :: "tx_context \<Rightarrow> 't \<Rightarrow> 'w \<Rightarrow> call \<times> 'w"
  rollback_tx :: "tx_context \<Rightarrow> 't \<Rightarrow> 'w \<Rightarrow> call \<times> 'w"
  ctx_Err :: "'w \<Rightarrow> string option"

definition defaultRollbackTimeout :: duration where "defaultRollbackTimeout = 5000000000"

record ('t, 'w) runner =
  begin_fn :: "('t, 'w) driver"
  rollbackTimeout :: duration

type_synonym tx_option = "duration \<Rightarrow> tx_error + duration"

definition WithRollbackTimeout :: "duration \<Rightarrow> tx_option" where
  "WithRollbackTimeout timeout cfg = (if timeout \<le>s 0 then Inl BadTimeout else Inr timeout)"

fun apply_options :: "nat \<Rightarrow> tx_option option list \<Rightarrow> duration \<Rightarrow> tx_error + duration" where
  "apply_options i [] cfg = Inr cfg"
| "apply_options i (None # rest) cfg = Inl (NilOption i)"
| "apply_options i (Some f # rest) cfg =
     (case f cfg of Inl _ \<Rightarrow> Inl (OptionFailed i) | Inr cfg' \<Rightarrow> apply_options (i + 1) rest cfg')"

definition New :: "('t, 'w) driver option \<Rightarrow> tx_option option list \<Rightarrow> tx_error + ('t, 'w) runner" where
  "New begin opts =
     (case begin of
        None \<Rightarrow> Inl NilBegin
      | Some b \<Rightarrow>
          (case apply_options 0 opts defaultRollbackTimeout of
             Inl err \<Rightarrow> Inl err
           | Inr t \<Rightarrow> Inr \<lparr>begin_fn = b, rollbackTimeout = t\<rparr>))"

definition IsActive :: "tx_context option \<Rightarrow> bool" where
  "IsActive ctx \<longleftrightarrow> (case ctx of None \<Rightarrow> False | Some c \<Rightarrow> ctx_active c)"

text \<open>
  The cleanup call: detached from the caller's cancellation, bounded by the runner's timeout, keeping
  the caller's values.
\<close>

definition rollback :: "('t, 'w) runner \<Rightarrow> tx_context \<Rightarrow> 't \<Rightarrow> 'w \<Rightarrow> call \<times> 'w" where
  "rollback r ctx tx w =
     rollback_tx (begin_fn r) (ctx\<lparr>ctx_cancellable := False, ctx_timeout := Some (rollbackTimeout r)\<rparr>) tx w"

definition rollback_error :: "string option \<Rightarrow> tx_error option" where
  "rollback_error e = map_option RollbackFailed e"

datatype result = Done "tx_error option" | Panicking string | Exiting

text \<open>The deferred function: after a panic it rolls back and panics again; \<open>Goexit\<close> passes it by.\<close>

definition recovered :: "('t, 'w) runner \<Rightarrow> tx_context \<Rightarrow> 't \<Rightarrow> string \<Rightarrow> 'w \<Rightarrow> result \<times> 'w" where
  "recovered r ctx tx v w =
     (case rollback r ctx tx w of
        (Returned _, w') \<Rightarrow> (Panicking v, w')
      | (Panicked v', w') \<Rightarrow> (Panicking v', w')
      | (Exited, w') \<Rightarrow> (Exiting, w'))"

definition protect ::
  "('t, 'w) runner \<Rightarrow> tx_context \<Rightarrow> 't \<Rightarrow> call \<times> 'w \<Rightarrow> (string option \<Rightarrow> 'w \<Rightarrow> result \<times> 'w) \<Rightarrow> result \<times> 'w" where
  "protect r ctx tx c k =
     (case c of
        (Returned e, w) \<Rightarrow> k e w
      | (Panicked v, w) \<Rightarrow> recovered r ctx tx v w
      | (Exited, w) \<Rightarrow> (Exiting, w))"

definition Within ::
  "('t, 'w) runner option \<Rightarrow> tx_context option \<Rightarrow> options \<Rightarrow>
     (tx_context \<Rightarrow> 't \<Rightarrow> 'w \<Rightarrow> call \<times> 'w) option \<Rightarrow> 'w \<Rightarrow> result \<times> 'w" where
  "Within runner caller opts callback w =
     (case (runner, caller, callback) of
        (None, _, _) \<Rightarrow> (Done (Some NilRunner), w)
      | (_, None, _) \<Rightarrow> (Done (Some NilContext), w)
      | (_, _, None) \<Rightarrow> (Done (Some NilWork), w)
      | (Some r, Some ctx, Some work) \<Rightarrow>
          if ctx_active ctx then (Done (Some NestedError), w)
          else (case Options_validate opts of
                  Some err \<Rightarrow> (Done (Some err), w)
                | None \<Rightarrow>
          (case ctx_Err (begin_fn r) w of
             Some err \<Rightarrow> (Done (Some (CallerError err)), w)
           | None \<Rightarrow>
          (case begin_tx (begin_fn r) ctx opts w of
             (Inl err, w1) \<Rightarrow> (Done (Some (BeginFailed err)), w1)
           | (Inr tx, w1) \<Rightarrow>
               protect r ctx tx (work (ctx\<lparr>ctx_active := True\<rparr>) tx w1) (\<lambda>failed w2.
                 case failed of
                   Some err \<Rightarrow>
                     protect r ctx tx (rollback r ctx tx w2) (\<lambda>rb w3.
                       (Done (Some (Joined (CallerError err) (rollback_error rb))), w3))
                 | None \<Rightarrow>
                     (case ctx_Err (begin_fn r) w2 of
                        Some err \<Rightarrow>
                          protect r ctx tx (rollback r ctx tx w2) (\<lambda>rb w3.
                            (Done (Some (Joined (CallerError err) (rollback_error rb))), w3))
                      | None \<Rightarrow>
                          protect r ctx tx (commit (begin_fn r) ctx tx w2) (\<lambda>cm w3.
                            case cm of
                              Some err \<Rightarrow>
                                protect r ctx tx (rollback r ctx tx w3) (\<lambda>_ w4.
                                  (Done (Some (CommitFailed err)), w4))
                            | None \<Rightarrow> (Done None, w3))))))))"

section \<open>A recording driver\<close>

text \<open>
  To state what reaches the database, the world is the log of driver calls, and the driver appends to
  it; every outcome is an arbitrary function of the log so far.
\<close>

datatype event =
    EBegin options
  | EWork string
  | ECommit call
  | ERollback tx_context

type_synonym log = "event list"

definition recording ::
  "(options \<Rightarrow> log \<Rightarrow> string + 't) \<Rightarrow> (log \<Rightarrow> call) \<Rightarrow> (log \<Rightarrow> call) \<Rightarrow> (log \<Rightarrow> string option) \<Rightarrow> ('t, log) driver" where
  "recording ob oc orb oe =
     \<lparr>begin_tx = (\<lambda>ctx opts w. case ob opts w of Inl e \<Rightarrow> (Inl e, w) | Inr t \<Rightarrow> (Inr t, w @ [EBegin opts])),
      commit = (\<lambda>ctx tx w. (oc w, w @ [ECommit (oc w)])),
      rollback_tx = (\<lambda>ctx tx w. (orb w, w @ [ERollback ctx])),
      ctx_Err = oe\<rparr>"

text \<open>A callback that does its own work on the transaction and comes back, by return or by panic.\<close>

definition comes_back :: "(tx_context \<Rightarrow> 't \<Rightarrow> log \<Rightarrow> call \<times> log) \<Rightarrow> bool" where
  "comes_back work \<longleftrightarrow>
     (\<forall>ctx tx w. fst (work ctx tx w) \<noteq> Exited \<and> (\<exists>xs. snd (work ctx tx w) = w @ map EWork xs))"

definition returns :: "call \<Rightarrow> bool" where
  "returns c \<longleftrightarrow> (\<exists>e. c = Returned e)"

lemma returns_cases: "returns c \<Longrightarrow> (\<And>e. c = Returned e \<Longrightarrow> P) \<Longrightarrow> P"
  by (auto simp: returns_def)

text \<open>What one call of \<open>Within\<close> may append to the log, with the answer it then gives.\<close>

inductive settles :: "duration \<Rightarrow> tx_context \<Rightarrow> options \<Rightarrow> log \<Rightarrow> result \<Rightarrow> bool"
  for timeout ctx opts where
  untouched: "settles timeout ctx opts [] (Done (Some e))"
| committed: "settles timeout ctx opts (EBegin opts # map EWork xs @ [ECommit (Returned None)]) (Done None)"
| rolled_back: "res \<noteq> Done None \<Longrightarrow> res \<noteq> Exiting \<Longrightarrow>
    settles timeout ctx opts
      (EBegin opts # map EWork xs @ [ERollback (ctx\<lparr>ctx_cancellable := False, ctx_timeout := Some timeout\<rparr>)]) res"
| commit_failed: "c \<noteq> Returned None \<Longrightarrow> res \<noteq> Done None \<Longrightarrow> res \<noteq> Exiting \<Longrightarrow>
    settles timeout ctx opts
      (EBegin opts # map EWork xs @
        [ECommit c, ERollback (ctx\<lparr>ctx_cancellable := False, ctx_timeout := Some timeout\<rparr>)]) res"

lemma rollback_recording:
  assumes "begin_fn r = recording ob oc orb oe"
  shows "rollback r ctx tx w =
     (orb w, w @ [ERollback (ctx\<lparr>ctx_cancellable := False, ctx_timeout := Some (rollbackTimeout r)\<rparr>)])"
  by (simp add: rollback_def assms recording_def)

lemma Within_settles_body:
  assumes r: "begin_fn r = recording ob oc orb oe" and orb: "\<And>w. returns (orb w)"
    and oc: "\<And>w. oc w \<noteq> Exited" and work: "comes_back work"
  shows "\<exists>suffix. snd (Within (Some r) (Some ctx) opts (Some work) w) = w @ suffix \<and>
     settles (rollbackTimeout r) ctx opts suffix (fst (Within (Some r) (Some ctx) opts (Some work) w))"
proof -
  note base = Within_def protect_def recovered_def rollback_recording [OF r]
  have drv: "ctx_Err (begin_fn r) = oe" "commit (begin_fn r) = (\<lambda>c t w. (oc w, w @ [ECommit (oc w)]))"
    "begin_tx (begin_fn r) = (\<lambda>c o' w. case ob o' w of Inl e \<Rightarrow> (Inl e, w) | Inr t \<Rightarrow> (Inr t, w @ [EBegin o']))"
    by (simp_all add: r recording_def)
  consider (early) "ctx_active ctx \<or> Options_validate opts \<noteq> None \<or> oe w \<noteq> None \<or> (\<exists>e. ob opts w = Inl e)"
    | (begun) tx where "\<not> ctx_active ctx" "Options_validate opts = None" "oe w = None" "ob opts w = Inr tx"
    by (cases "ob opts w") auto
  then show ?thesis
  proof cases
    case early
    then show ?thesis
      by (auto simp: base drv intro: settles.untouched split: option.splits)
  next
    case begun
    obtain c xs where w2: "work (ctx\<lparr>ctx_active := True\<rparr>) tx (w @ [EBegin opts]) = (c, w @ EBegin opts # map EWork xs)"
      and c: "c \<noteq> Exited"
    proof -
      from work obtain ys where "snd (work (ctx\<lparr>ctx_active := True\<rparr>) tx (w @ [EBegin opts])) = (w @ [EBegin opts]) @ map EWork ys"
        and "fst (work (ctx\<lparr>ctx_active := True\<rparr>) tx (w @ [EBegin opts])) \<noteq> Exited"
        unfolding comes_back_def by blast
      then show thesis using that by (metis append_Cons append_Nil append_assoc prod.collapse)
    qed
    define w2 where "w2 = w @ EBegin opts # map EWork xs"
    note step = begun w2 [folded w2_def]
    obtain e1 where e1: "orb w2 = Returned e1" using orb returns_cases by blast
    obtain e2 where e2: "orb (w2 @ [ECommit (oc w2)]) = Returned e2" using orb returns_cases by blast
    show ?thesis
      using step e1 e2 c oc [of w2]
      by (cases c; cases "oe w2"; cases "oc w2")
         (auto simp: base drv w2_def split: option.splits
           intro: settles.committed settles.rolled_back settles.commit_failed)
  qed
qed

inductive_cases settles_done: "settles timeout ctx opts suffix (Done None)"
inductive_cases settles_panic: "settles timeout ctx opts suffix (Panicking v)"

section \<open>Properties\<close>

text \<open>
  C15: a transaction that was begun is always settled, exactly once, and the answer says how.  Over
  any driver whose rollback returns and any callback that returns or panics, one \<open>Within\<close> either never
  touches the driver and reports an error, or begins once and then: commits, as its last act, and
  reports success; or rolls back, as its last act and under a context that is detached from the
  caller's cancellation and bounded by the runner's timeout, and reports an error or panics on.  Success
  is reported for a committed transaction only.
\<close>

theorem Within_settles:
  assumes "begin_fn r = recording ob oc orb oe" and "\<And>w. returns (orb w)" and "\<And>w. oc w \<noteq> Exited"
    and "comes_back work" and "Within (Some r) (Some ctx) opts (Some work) w = (res, w')"
  shows "\<exists>suffix. w' = w @ suffix \<and> settles (rollbackTimeout r) ctx opts suffix res \<and>
     (res = Done None \<longleftrightarrow> ECommit (Returned None) \<in> set suffix)"
proof -
  obtain suffix where s: "w' = w @ suffix" "settles (rollbackTimeout r) ctx opts suffix res"
    using Within_settles_body [OF assms(1-4), of ctx opts w] by (auto simp: assms(5))
  have "res = Done None \<longleftrightarrow> ECommit (Returned None) \<in> set suffix"
    using s(2) by (cases rule: settles.cases) auto
  with s show ?thesis by blast
qed

theorem Within_settles_witness:
  "settles 5000000000 \<lparr>ctx_active = False, ctx_cancellable = True, ctx_timeout = None\<rparr>
     \<lparr>Isolation = [], Access = []\<rparr>
     [EBegin \<lparr>Isolation = [], Access = []\<rparr>, EWork ''insert'',
      ERollback \<lparr>ctx_active = False, ctx_cancellable = False, ctx_timeout = Some 5000000000\<rparr>]
     (Done (Some (Joined (CallerError ''conflict'') None)))"
proof -
  let ?r = "\<lparr>begin_fn = recording (\<lambda>_ _. Inr ()) (\<lambda>_. Returned None) (\<lambda>_. Returned None) (\<lambda>_. None),
            rollbackTimeout = defaultRollbackTimeout\<rparr>"
  let ?ctx = "\<lparr>ctx_active = False, ctx_cancellable = True, ctx_timeout = None\<rparr>"
  let ?opts = "\<lparr>Isolation = [], Access = []\<rparr>"
  let ?work = "\<lambda>_ _ w. (Returned (Some ''conflict''), w @ [EWork ''insert''])"
  have cb: "comes_back ?work"
    by (auto simp: comes_back_def intro: exI [of _ "[''insert'']"])
  have run: "Within (Some ?r) (Some ?ctx) ?opts (Some ?work) [] =
      (Done (Some (Joined (CallerError ''conflict'') None)),
       [EBegin ?opts, EWork ''insert'', ERollback (?ctx\<lparr>ctx_cancellable := False, ctx_timeout := Some 5000000000\<rparr>)])"
    by (simp add: Within_def protect_def rollback_def recording_def Options_validate_def rollback_error_def
        DefaultIsolation_def DefaultAccess_def defaultRollbackTimeout_def)
  obtain suffix where "[EBegin ?opts, EWork ''insert'',
       ERollback (?ctx\<lparr>ctx_cancellable := False, ctx_timeout := Some 5000000000\<rparr>)] = [] @ suffix"
    and "settles (rollbackTimeout ?r) ?ctx ?opts suffix (Done (Some (Joined (CallerError ''conflict'') None)))"
    using Within_settles [OF _ _ _ cb run] by (auto simp: returns_def)
  then show ?thesis by (simp add: defaultRollbackTimeout_def)
qed

text \<open>
  nesting is refused, whichever runner it is attempted on.  A callback that starts another
  \<open>Within\<close> from the context it was given gets \<open>NestedError\<close> back, nothing happens to the world, and the
  outer transaction runs exactly as if the attempt had not been made.
\<close>

theorem Within_refuses_nesting:
  "Within (Some r) (Some ctx) opts
     (Some (\<lambda>c tx w. if Within (Some inner) (Some c) opts' (Some work') w = (Done (Some NestedError), w)
                     then work c tx w else (Panicked ''nested'', w))) w =
   Within (Some r) (Some ctx) opts (Some work) w"
proof -
  have nested: "Within (Some inner) (Some c) opts' (Some work') w = (Done (Some NestedError), w)"
    if "ctx_active c" for c w
    using that by (simp add: Within_def)
  show ?thesis
    unfolding Within_def [of "Some r" "Some ctx" opts]
    by (simp add: nested cong: option.case_cong sum.case_cong prod.case_cong)
qed

end
