(* ===== verification/Health.thy ===== *)
theory Health
  imports Prelude
begin

text \<open>
  \<open>runtime/health\<close>: the readiness gate (\<open>gate.go\<close>), the concurrent dependency prober (\<open>check.go\<close>) and the
  probe handlers (\<open>handler.go\<close>).  The checks run in goroutines of their own, so \<open>Probe\<close> is modelled on the
  sequence of messages its \<open>select\<close> loop receives: outcomes in any order, and the overall timer.
\<close>

section \<open>Gate\<close>

record gate =
  gate_ready :: bool

definition NewGate :: "bool \<Rightarrow> gate" where "NewGate ready = \<lparr>gate_ready = ready\<rparr>"
definition Gate_Set :: "gate \<Rightarrow> bool \<Rightarrow> gate" where "Gate_Set g ready = g\<lparr>gate_ready := ready\<rparr>"
definition Gate_Ready :: "gate \<Rightarrow> bool" where "Gate_Ready g = gate_ready g"

section \<open>Checks\<close>

definition DefaultCheckTimeout :: duration where "DefaultCheckTimeout = 2000000000"
definition DefaultOverallTimeout :: duration where "DefaultOverallTimeout = 5000000000"

text \<open>How a check function behaves under its deadline: it answers after some time, or the deadline comes first.\<close>

datatype check_run = Answered "string option" duration | DeadlineFirst

record check =
  check_Name :: string
  check_Func :: check_run

record check_result =
  res_Name :: string
  res_Healthy :: bool
  res_Error :: string
  res_Duration :: duration

record health_report =
  rep_Healthy :: bool
  rep_Results :: "check_result list"

record prober =
  checks :: "check list"
  checkTimeout :: duration
  overallTimeout :: duration

type_synonym prober_option = "prober \<Rightarrow> prober"

definition WithCheckTimeout :: "duration \<Rightarrow> prober_option" where
  "WithCheckTimeout d c = c\<lparr>checkTimeout := d\<rparr>"

definition WithOverallTimeout :: "duration \<Rightarrow> prober_option" where
  "WithOverallTimeout d c = c\<lparr>overallTimeout := d\<rparr>"

definition NewProber :: "check list \<Rightarrow> prober_option list \<Rightarrow> prober" where
  "NewProber cs opts =
     foldl (\<lambda>p opt. opt p)
       \<lparr>checks = cs, checkTimeout = DefaultCheckTimeout, overallTimeout = DefaultOverallTimeout\<rparr> opts"

definition runCheck :: "prober \<Rightarrow> check \<Rightarrow> check_result" where
  "runCheck p c =
     (case check_Func c of
        Answered (Some err) d \<Rightarrow>
          \<lparr>res_Name = check_Name c, res_Healthy = False, res_Error = err, res_Duration = d\<rparr>
      | Answered None d \<Rightarrow>
          \<lparr>res_Name = check_Name c, res_Healthy = True, res_Error = [], res_Duration = d\<rparr>
      | DeadlineFirst \<Rightarrow>
          \<lparr>res_Name = check_Name c, res_Healthy = False, res_Error = ''check timed out'',
           res_Duration = checkTimeout p\<rparr>)"

text \<open>
  The collecting loop over the messages received: which checks have answered so far, and how many
  are outstanding.  It ends when none is; \<open>None\<close> means it is still waiting for a message.
\<close>

datatype probe_msg = Outcome nat | TimerFired

fun collect :: "probe_msg list \<Rightarrow> nat set \<Rightarrow> nat \<Rightarrow> nat set option" where
  "collect msgs filled 0 = Some filled"
| "collect [] filled (Suc remaining) = None"
| "collect (Outcome i # msgs) filled (Suc remaining) = collect msgs (insert i filled) remaining"
| "collect (TimerFired # msgs) filled (Suc remaining) = collect msgs filled 0"

definition timed_out :: "prober \<Rightarrow> check \<Rightarrow> check_result" where
  "timed_out p c =
     \<lparr>res_Name = check_Name c, res_Healthy = False, res_Error = ''check timed out'',
      res_Duration = overallTimeout p\<rparr>"

definition Probe :: "prober \<Rightarrow> probe_msg list \<Rightarrow> health_report option" where
  "Probe p msgs =
     (if checks p = [] then Some \<lparr>rep_Healthy = True, rep_Results = []\<rparr>
      else
        map_option (\<lambda>filled.
          let results = map (\<lambda>i. if i \<in> filled then runCheck p (checks p ! i) else timed_out p (checks p ! i))
                          [0..<length (checks p)]
          in \<lparr>rep_Healthy = list_all res_Healthy results, rep_Results = results\<rparr>)
          (collect msgs {} (length (checks p))))"

section \<open>Handlers\<close>

definition contentTypeJSON :: string where "contentTypeJSON = ''application/json; charset=utf-8''"
definition okBody :: string where "okBody = ''{\"status\":\"ok\"}''"
definition unavailableBody :: string where "unavailableBody = ''{\"status\":\"unavailable\"}''"

record 'b response =
  status :: nat
  contentType :: string
  body :: 'b

definition writeProbeResponse :: "bool \<Rightarrow> string response" where
  "writeProbeResponse healthy =
     (if healthy then \<lparr>status = 200, contentType = contentTypeJSON, body = okBody\<rparr>
      else \<lparr>status = 503, contentType = contentTypeJSON, body = unavailableBody\<rparr>)"

text \<open>A nil gate panics at construction; \<open>None\<close> is that panic.\<close>

definition requireGate :: "gate option \<Rightarrow> gate option" where
  "requireGate g = g"

definition NewStartupHandler :: "gate option \<Rightarrow> string response option" where
  "NewStartupHandler g = map_option (\<lambda>g. writeProbeResponse (Gate_Ready g)) (requireGate g)"

definition NewLivenessHandler :: "gate option \<Rightarrow> string response option" where
  "NewLivenessHandler g = map_option (\<lambda>g. writeProbeResponse (Gate_Ready g)) (requireGate g)"

text \<open>
  The readiness handlers serve one request; \<open>msgs\<close> is what the probe of that request receives, and the
  inner option is the probe still waiting.
\<close>

definition NewReadinessHandler ::
  "gate option \<Rightarrow> prober option \<Rightarrow> probe_msg list \<Rightarrow> string response option option" where
  "NewReadinessHandler g prober msgs =
     map_option (\<lambda>g.
       let healthy = Gate_Ready g
       in case prober of
            Some p \<Rightarrow>
              if healthy then map_option (\<lambda>r. writeProbeResponse (rep_Healthy r)) (Probe p msgs)
              else Some (writeProbeResponse healthy)
          | None \<Rightarrow> Some (writeProbeResponse healthy))
       (requireGate g)"

record readiness_report =
  GateReady :: bool
  report_Healthy :: bool
  report_Checks :: "check_result list"

definition NewReadinessReportHandler ::
  "gate option \<Rightarrow> prober option \<Rightarrow> probe_msg list \<Rightarrow> readiness_report response option option" where
  "NewReadinessReportHandler g prober msgs =
     map_option (\<lambda>g.
       map_option (\<lambda>report.
         let gateReady = Gate_Ready g;
             healthy = (gateReady \<and> rep_Healthy report)
         in \<lparr>status = (if healthy then 200 else 503), contentType = contentTypeJSON,
             body = \<lparr>GateReady = gateReady, report_Healthy = healthy, report_Checks = rep_Results report\<rparr>\<rparr>)
         (case prober of
            None \<Rightarrow> Some \<lparr>rep_Healthy = True, rep_Results = []\<rparr>
          | Some p \<Rightarrow> Probe p msgs))
       (requireGate g)"

section \<open>Lemmas\<close>

text \<open>The checks whose outcome arrived before the loop stopped reading.\<close>

fun arrived :: "probe_msg list \<Rightarrow> nat \<Rightarrow> nat set" where
  "arrived msgs 0 = {}"
| "arrived [] n = {}"
| "arrived (Outcome i # msgs) (Suc n) = insert i (arrived msgs n)"
| "arrived (TimerFired # msgs) (Suc n) = {}"

lemma collect_arrived: "collect msgs filled n = Some f \<Longrightarrow> f = filled \<union> arrived msgs n"
  by (induction msgs filled n rule: collect.induct) auto

lemma collect_ends: "TimerFired \<in> set msgs \<or> n \<le> length msgs \<Longrightarrow> \<exists>f. collect msgs filled n = Some f"
  by (induction msgs filled n rule: collect.induct) auto

definition probe_results :: "prober \<Rightarrow> nat set \<Rightarrow> check_result list" where
  "probe_results p f =
     map (\<lambda>i. if i \<in> f then runCheck p (checks p ! i) else timed_out p (checks p ! i)) [0..<length (checks p)]"

lemma runCheck_healthy: "res_Healthy (runCheck p c) \<longleftrightarrow> (\<exists>d. check_Func c = Answered None d)"
  by (simp add: runCheck_def split: check_run.splits option.splits)

lemma runCheck_name: "res_Name (runCheck p c) = check_Name c"
  by (simp add: runCheck_def split: check_run.splits option.splits)

lemma probe_results_healthy:
  "list_all res_Healthy (probe_results p f) \<longleftrightarrow>
     (\<forall>i<length (checks p). i \<in> f \<and> res_Healthy (runCheck p (checks p ! i)))"
  unfolding probe_results_def list_all_length by (auto simp: timed_out_def)

lemma probe_results_names: "map res_Name (probe_results p f) = map check_Name (checks p)"
  by (rule nth_equalityI) (simp_all add: probe_results_def timed_out_def runCheck_name)

lemma Probe_Some:
  assumes "TimerFired \<in> set msgs \<or> length (checks p) \<le> length msgs"
  obtains f where "f = arrived msgs (length (checks p))"
    "Probe p msgs = Some \<lparr>rep_Healthy = list_all res_Healthy (probe_results p f), rep_Results = probe_results p f\<rparr>"
proof (cases "checks p = []")
  case True
  then show ?thesis using that by (simp add: Probe_def probe_results_def)
next
  case False
  obtain f where f: "collect msgs {} (length (checks p)) = Some f"
    using collect_ends [OF assms] by blast
  have "f = arrived msgs (length (checks p))" using collect_arrived [OF f] by simp
  moreover have "Probe p msgs =
      Some \<lparr>rep_Healthy = list_all res_Healthy (probe_results p f), rep_Results = probe_results p f\<rparr>"
    using False by (simp add: Probe_def f probe_results_def Let_def)
  ultimately show ?thesis by (rule that)
qed

section \<open>Properties\<close>

text \<open>
  a probe answers, and answers for every check.  Once the overall timer has fired or every check
  has sent its outcome, the probe returns whatever the remaining checks do; its report has one result
  per registered check, in registration order and under the check's own name, and is healthy exactly
  when every check's outcome arrived in time and was healthy.
\<close>

theorem Probe_answers:
  assumes "TimerFired \<in> set msgs \<or> length (checks p) \<le> length msgs"
  shows "\<exists>r. Probe p msgs = Some r \<and> map res_Name (rep_Results r) = map check_Name (checks p) \<and>
     (rep_Healthy r \<longleftrightarrow>
        (\<forall>i<length (checks p). i \<in> arrived msgs (length (checks p)) \<and>
           (\<exists>d. check_Func (checks p ! i) = Answered None d)))"
proof -
  obtain f where "f = arrived msgs (length (checks p))"
    "Probe p msgs = Some \<lparr>rep_Healthy = list_all res_Healthy (probe_results p f), rep_Results = probe_results p f\<rparr>"
    using Probe_Some [OF assms] .
  then show ?thesis
    by (simp add: probe_results_healthy probe_results_names runCheck_healthy)
qed

theorem Probe_answers_witness:
  "let p = NewProber [\<lparr>check_Name = ''db'', check_Func = Answered None 3\<rparr>,
                      \<lparr>check_Name = ''cache'', check_Func = DeadlineFirst\<rparr>] []
   in \<exists>r. Probe p [Outcome 0, TimerFired] = Some r \<and> map res_Name (rep_Results r) = [''db'', ''cache''] \<and>
        \<not> rep_Healthy r"
proof -
  let ?p = "NewProber [\<lparr>check_Name = ''db'', check_Func = Answered None 3\<rparr>,
                      \<lparr>check_Name = ''cache'', check_Func = DeadlineFirst\<rparr>] []"
  have cs: "checks ?p = [\<lparr>check_Name = ''db'', check_Func = Answered None 3\<rparr>,
                      \<lparr>check_Name = ''cache'', check_Func = DeadlineFirst\<rparr>]"
    by (simp add: NewProber_def)
  from Probe_answers [of "[Outcome 0, TimerFired]" ?p] show ?thesis
    unfolding Let_def by (auto simp: cs numeral_2_eq_2)
qed

text \<open>
  the readiness probe tells an unauthenticated caller one bit.  Its response is one of two fixed
  ones, and it is the healthy one exactly when the gate is open and no registered check is failing or
  late; a closed gate answers without waiting for any check.
\<close>

theorem Readiness_exact:
  assumes "TimerFired \<in> set msgs \<or> length (checks p) \<le> length msgs"
  shows "NewReadinessHandler (Some g) (Some p) msgs =
     Some (Some (writeProbeResponse
       (Gate_Ready g \<and> (\<forall>i<length (checks p). i \<in> arrived msgs (length (checks p)) \<and>
           res_Healthy (runCheck p (checks p ! i)))))) \<and>
     NewReadinessHandler (Some (Gate_Set g False)) (Some p) [] = Some (Some (writeProbeResponse False))"
proof -
  obtain f where "f = arrived msgs (length (checks p))"
    "Probe p msgs = Some \<lparr>rep_Healthy = list_all res_Healthy (probe_results p f), rep_Results = probe_results p f\<rparr>"
    using Probe_Some [OF assms] .
  then show ?thesis
    by (cases "gate_ready g")
       (simp_all add: NewReadinessHandler_def requireGate_def Gate_Ready_def Gate_Set_def probe_results_healthy)
qed

theorem Readiness_exact_witness:
  "NewReadinessHandler (Some (NewGate True)) (Some (NewProber [] [])) [] = Some (Some (writeProbeResponse True))"
  using Readiness_exact [of "[]" "NewProber [] []" "NewGate True"]
  by (simp add: NewProber_def NewGate_def Gate_Ready_def)

end
