(* ===== verification/Lifecycle.thy ===== *)
theory Lifecycle
  imports Health
begin

text \<open>
  \<open>runtime/lifecycle\<close>: process modes (\<open>mode.go\<close>), the group that runs the components a mode selects
  (\<open>group.go\<close>), the HTTP server's drain sequence (\<open>httpserver.go\<close>) and the worker's run/shutdown protocol
  (\<open>worker.go\<close>).  The worker is a step relation over the interleavings of one \<open>Run\<close> and any number of
  \<open>Shutdown\<close> calls, one step per critical section; the group and the server are functions of what the
  channels and the wrapped \<open>net/http\<close> server deliver.
\<close>

section \<open>Modes\<close>

type_synonym mode = string

definition ModeAll :: mode where "ModeAll = ''all''"
definition ModeWeb :: mode where "ModeWeb = ''web''"
definition ModeWorker :: mode where "ModeWorker = ''worker''"

lemmas mode_defs = ModeAll_def ModeWeb_def ModeWorker_def

datatype lifecycle_error =
    UnknownMode string | MissingComponent string
  | ErrShutdownTimeout string
  | ComponentFailed string string
  | ServeFailed string

definition ParseMode :: "string \<Rightarrow> lifecycle_error + mode" where
  "ParseMode raw = (if raw \<in> {ModeAll, ModeWeb, ModeWorker} then Inr raw else Inl (UnknownMode raw))"

definition DefaultShutdownTimeout :: duration where "DefaultShutdownTimeout = 30000000000"
definition DefaultDrainPeriod :: duration where "DefaultDrainPeriod = 5000000000"
definition DefaultReadHeaderTimeout :: duration where "DefaultReadHeaderTimeout = 10000000000"

section \<open>Groups\<close>

text \<open>A runnable is named; what its calls do is observed through the messages below.\<close>

record 'r named_runnable =
  nr_name :: string
  nr_r :: 'r

record 'r group =
  items :: "'r named_runnable list"
  grp_shutdownTimeout :: duration

definition WithGroupShutdownTimeout :: "duration \<Rightarrow> duration \<Rightarrow> duration" where
  "WithGroupShutdownTimeout d cfg = d"

definition NewGroup ::
  "mode \<Rightarrow> 'r option \<Rightarrow> 'r option \<Rightarrow> (duration \<Rightarrow> duration) list \<Rightarrow> lifecycle_error + 'r group" where
  "NewGroup m web worker opts =
     (let timeout = foldl (\<lambda>c opt. opt c) DefaultShutdownTimeout opts
      in if m = ModeWeb then
           (case web of
              None \<Rightarrow> Inl (MissingComponent m)
            | Some w \<Rightarrow> Inr \<lparr>items = [\<lparr>nr_name = ''web'', nr_r = w\<rparr>], grp_shutdownTimeout = timeout\<rparr>)
         else if m = ModeWorker then
           (case worker of
              None \<Rightarrow> Inl (MissingComponent m)
            | Some k \<Rightarrow> Inr \<lparr>items = [\<lparr>nr_name = ''worker'', nr_r = k\<rparr>], grp_shutdownTimeout = timeout\<rparr>)
         else if m = ModeAll then
           (case (web, worker) of
              (Some w, Some k) \<Rightarrow>
                Inr \<lparr>items = [\<lparr>nr_name = ''web'', nr_r = w\<rparr>, \<lparr>nr_name = ''worker'', nr_r = k\<rparr>],
                     grp_shutdownTimeout = timeout\<rparr>
            | _ \<Rightarrow> Inl (MissingComponent m))
         else Inl (UnknownMode m))"

text \<open>The components \<open>shutdownExcept\<close> asks to stop.\<close>

definition shutdownExcept :: "'r group \<Rightarrow> string \<Rightarrow> string list" where
  "shutdownExcept g skip = filter (\<lambda>n. n \<noteq> skip) (map nr_name (items g))"

text \<open>
  The receiving loop of \<open>Group.Run\<close> over the outcomes in the order they arrive: the first error, whether
  the others were stopped, and the components asked to stop.  \<open>None\<close>: still waiting.
\<close>

record outcome =
  out_name :: string
  out_err :: "string option"

fun run_loop :: "'r group \<Rightarrow> outcome list \<Rightarrow> nat \<Rightarrow> lifecycle_error option \<Rightarrow> bool \<Rightarrow> string list \<Rightarrow>
    (lifecycle_error option \<times> string list) option" where
  "run_loop g os 0 firstErr stopped asked = Some (firstErr, asked)"
| "run_loop g [] (Suc n) firstErr stopped asked = None"
| "run_loop g (o' # os) (Suc n) firstErr stopped asked =
     (let firstErr' = (case (out_err o', firstErr) of
                         (Some e, None) \<Rightarrow> Some (ComponentFailed (out_name o') e)
                       | _ \<Rightarrow> firstErr)
      in if \<not> stopped then run_loop g os n firstErr' True (asked @ shutdownExcept g (out_name o'))
         else run_loop g os n firstErr' stopped asked)"

definition Group_Run :: "'r group \<Rightarrow> outcome list \<Rightarrow> (lifecycle_error option \<times> string list) option" where
  "Group_Run g os = run_loop g os (length (items g)) None False []"

definition Group_Shutdown :: "'r group \<Rightarrow> ('r \<Rightarrow> string option) \<Rightarrow> lifecycle_error list" where
  "Group_Shutdown g shutdown =
     List.map_filter (\<lambda>it. map_option (ComponentFailed (nr_name it)) (shutdown (nr_r it))) (items g)"

section \<open>The HTTP server\<close>

datatype server_action =
    GateClosed | LogDraining duration | Slept duration
  | InnerShutdown duration | InnerClose | LogForced string

record http_server =
  srv_gate :: "gate option"
  srv_logger :: bool
  drainPeriod :: duration
  shutdownTimeout :: duration
  once_done :: bool

type_synonym server_option = "http_server \<Rightarrow> http_server"

definition WithDrainPeriod :: "duration \<Rightarrow> server_option" where
  "WithDrainPeriod d s = s\<lparr>drainPeriod := d\<rparr>"

definition WithShutdownTimeout :: "duration \<Rightarrow> server_option" where
  "WithShutdownTimeout d s = s\<lparr>shutdownTimeout := d\<rparr>"

definition WithLogger :: "bool \<Rightarrow> server_option" where
  "WithLogger present s = s\<lparr>srv_logger := present\<rparr>"

definition NewHTTPServer :: "gate option \<Rightarrow> server_option list \<Rightarrow> http_server" where
  "NewHTTPServer g opts =
     foldl (\<lambda>s opt. opt s)
       \<lparr>srv_gate = g, srv_logger = False, drainPeriod = DefaultDrainPeriod,
        shutdownTimeout = DefaultShutdownTimeout, once_done = False\<rparr> opts"

text \<open>
  \<open>Run\<close>: the context's error, then the listener's, then what serving ended with; serving ends with
  \<open>ErrServerClosed\<close> (\<open>None\<close> here) after a shutdown.
\<close>

definition HTTPServer_Run ::
  "string option \<Rightarrow> string option \<Rightarrow> string option \<Rightarrow> lifecycle_error option" where
  "HTTPServer_Run ctxErr listenErr serveErr =
     (case ctxErr of
        Some e \<Rightarrow> Some (ServeFailed e)
      | None \<Rightarrow> (case listenErr of
                   Some e \<Rightarrow> Some (ServeFailed e)
                 | None \<Rightarrow> map_option ServeFailed serveErr))"

definition drain :: "http_server \<Rightarrow> http_server \<times> server_action list" where
  "drain s =
     (if once_done s then (s, [])
      else (s\<lparr>srv_gate := map_option (\<lambda>g. Gate_Set g False) (srv_gate s), once_done := True\<rparr>,
            (case srv_gate s of Some _ \<Rightarrow> [GateClosed] | None \<Rightarrow> []) @
            (if srv_logger s then [LogDraining (drainPeriod s)] else []) @ [Slept (drainPeriod s)]))"

text \<open>\<open>innerErr\<close> is the answer of the wrapped server's own bounded \<open>Shutdown\<close>.\<close>

definition HTTPServer_Shutdown ::
  "http_server \<Rightarrow> string option \<Rightarrow> http_server \<times> server_action list \<times> lifecycle_error option" where
  "HTTPServer_Shutdown s innerErr =
     (let (s', drained) = drain s;
          acts = drained @ [InnerShutdown (shutdownTimeout s)]
      in case innerErr of
           Some e \<Rightarrow> (s', acts @ [InnerClose] @ (if srv_logger s then [LogForced e] else []),
                       Some (ErrShutdownTimeout e))
         | None \<Rightarrow> (s', acts, None))"

section \<open>The worker\<close>

datatype worker_state = workerIdle | workerRunning | workerStopped

text \<open>
  Where the one \<open>Run\<close> call stands (not called, in the loop, loop returned, marked stopped, returned) and
  where each \<open>Shutdown\<close> call stands.
\<close>

datatype run_pc = RNotCalled | RLoop | RLeaving "string option" | RMarked "string option" | RReturned "string option"

datatype shutdown_pc = SNotCalled | SCancel | SWaiting | SReturned "lifecycle_error option"

record worker =
  wk_state :: worker_state
  wk_cancel :: bool
  cancelled :: bool
  done_closes :: nat
  rpc :: run_pc
  spc :: "nat \<Rightarrow> shutdown_pc"

definition NewWorker :: worker where
  "NewWorker = \<lparr>wk_state = workerIdle, wk_cancel = False, cancelled = False, done_closes = 0,
                rpc = RNotCalled, spc = (\<lambda>_. SNotCalled)\<rparr>"

inductive worker_step :: "worker \<Rightarrow> worker \<Rightarrow> bool" where
  run_noop: "rpc w = RNotCalled \<Longrightarrow> wk_state w = workerStopped \<Longrightarrow>
    worker_step w (w\<lparr>rpc := RReturned None\<rparr>)"
| run_start: "rpc w = RNotCalled \<Longrightarrow> wk_state w \<noteq> workerStopped \<Longrightarrow>
    worker_step w (w\<lparr>wk_state := workerRunning, wk_cancel := True, rpc := RLoop\<rparr>)"
| loop_return: "rpc w = RLoop \<Longrightarrow> worker_step w (w\<lparr>rpc := RLeaving err\<rparr>)"
| run_mark: "rpc w = RLeaving err \<Longrightarrow> worker_step w (w\<lparr>wk_state := workerStopped, rpc := RMarked err\<rparr>)"
| run_close: "rpc w = RMarked err \<Longrightarrow>
    worker_step w (w\<lparr>done_closes := done_closes w + 1, rpc := RReturned err\<rparr>)"
| shutdown_idle: "spc w i = SNotCalled \<Longrightarrow> wk_state w = workerIdle \<Longrightarrow>
    worker_step w (w\<lparr>wk_state := workerStopped, spc := (spc w)(i := SReturned None)\<rparr>)"
| shutdown_stopped: "spc w i = SNotCalled \<Longrightarrow> wk_state w = workerStopped \<Longrightarrow>
    worker_step w (w\<lparr>spc := (spc w)(i := SReturned None)\<rparr>)"
| shutdown_running: "spc w i = SNotCalled \<Longrightarrow> wk_state w = workerRunning \<Longrightarrow>
    worker_step w (w\<lparr>spc := (spc w)(i := SCancel)\<rparr>)"
| shutdown_cancel: "spc w i = SCancel \<Longrightarrow>
    worker_step w (w\<lparr>cancelled := True, spc := (spc w)(i := SWaiting)\<rparr>)"
| shutdown_done: "spc w i = SWaiting \<Longrightarrow> done_closes w > 0 \<Longrightarrow>
    worker_step w (w\<lparr>spc := (spc w)(i := SReturned None)\<rparr>)"
| shutdown_deadline: "spc w i = SWaiting \<Longrightarrow>
    worker_step w (w\<lparr>spc := (spc w)(i := SReturned (Some (ErrShutdownTimeout e)))\<rparr>)"

inductive worker_reachable :: "worker \<Rightarrow> bool" where
  init: "worker_reachable NewWorker"
| step: "worker_reachable w \<Longrightarrow> worker_step w w' \<Longrightarrow> worker_reachable w'"

inductive_cases worker_stepE: "worker_step w w'"

section \<open>Invariants of the worker\<close>

text \<open>The state field agrees with where the run call stands.\<close>

fun run_agrees :: "run_pc \<Rightarrow> worker_state \<Rightarrow> nat \<Rightarrow> bool \<Rightarrow> bool" where
  "run_agrees RNotCalled st n c \<longleftrightarrow> st \<noteq> workerRunning \<and> n = 0 \<and> \<not> c"
| "run_agrees RLoop st n c \<longleftrightarrow> st = workerRunning \<and> n = 0 \<and> c"
| "run_agrees (RLeaving e) st n c \<longleftrightarrow> st = workerRunning \<and> n = 0 \<and> c"
| "run_agrees (RMarked e) st n c \<longleftrightarrow> st = workerStopped \<and> n = 0 \<and> c"
| "run_agrees (RReturned e) st n c \<longleftrightarrow> st = workerStopped \<and> (n = 1 \<and> c \<or> n = 0 \<and> \<not> c)"

fun shutdown_agrees :: "shutdown_pc \<Rightarrow> worker \<Rightarrow> bool" where
  "shutdown_agrees SNotCalled w \<longleftrightarrow> True"
| "shutdown_agrees SCancel w \<longleftrightarrow> wk_cancel w"
| "shutdown_agrees SWaiting w \<longleftrightarrow> wk_cancel w \<and> cancelled w"
| "shutdown_agrees (SReturned None) w \<longleftrightarrow> wk_state w = workerStopped"
| "shutdown_agrees (SReturned (Some e)) w \<longleftrightarrow> wk_cancel w \<and> cancelled w"

definition worker_ok :: "worker \<Rightarrow> bool" where
  "worker_ok w \<longleftrightarrow> run_agrees (rpc w) (wk_state w) (done_closes w) (wk_cancel w) \<and>
     (\<forall>i. shutdown_agrees (spc w i) w)"

lemma shutdown_agrees_mono:
  assumes "shutdown_agrees s w" and "wk_cancel w \<Longrightarrow> wk_cancel w'" and "cancelled w \<Longrightarrow> cancelled w'"
    and "wk_state w = workerStopped \<Longrightarrow> wk_state w' = workerStopped"
  shows "shutdown_agrees s w'"
  using assms by (cases "(s, w)" rule: shutdown_agrees.cases) auto

lemma worker_step_run:
  assumes "worker_step w w'" and "run_agrees (rpc w) (wk_state w) (done_closes w) (wk_cancel w)"
  shows "run_agrees (rpc w') (wk_state w') (done_closes w') (wk_cancel w')"
  using assms by (cases rule: worker_step.cases) (cases "rpc w"; simp)+

lemma worker_step_mono:
  assumes "worker_step w w'" and "run_agrees (rpc w) (wk_state w) (done_closes w) (wk_cancel w)"
  shows "wk_cancel w \<Longrightarrow> wk_cancel w'" and "cancelled w \<Longrightarrow> cancelled w'"
    and "wk_state w = workerStopped \<Longrightarrow> wk_state w' = workerStopped"
  using assms by (cases rule: worker_step.cases; simp)+

text \<open>Only the thread that moved changes its place, and it moves to one that agrees.\<close>

lemma worker_step_moved:
  assumes "worker_step w w'" and "worker_ok w"
  shows "spc w' i = spc w i \<or> shutdown_agrees (spc w' i) w'"
proof -
  have run: "run_agrees (rpc w) (wk_state w) (done_closes w) (wk_cancel w)"
    and mine: "shutdown_agrees (spc w i) w"
    using assms(2) by (auto simp: worker_ok_def)
  show ?thesis
    using assms(1) run mine
    by (cases rule: worker_step.cases) (cases "rpc w"; force)+
qed

lemma worker_step_ok: "worker_step w w' \<Longrightarrow> worker_ok w \<Longrightarrow> worker_ok w'"
proof -
  assume step: "worker_step w w'" and ok: "worker_ok w"
  have run: "run_agrees (rpc w) (wk_state w) (done_closes w) (wk_cancel w)"
    using ok by (simp add: worker_ok_def)
  have "shutdown_agrees (spc w' i) w'" for i
    using worker_step_moved [OF step ok, of i] shutdown_agrees_mono [of "spc w i" w w']
      worker_step_mono [OF step run] ok
    by (auto simp: worker_ok_def)
  then show ?thesis using worker_step_run [OF step run] by (simp add: worker_ok_def)
qed

lemma NewWorker_ok: "worker_ok NewWorker"
  by (simp add: worker_ok_def NewWorker_def)

lemma worker_reachable_ok: "worker_reachable w \<Longrightarrow> worker_ok w"
  by (induction rule: worker_reachable.induct) (auto intro: NewWorker_ok worker_step_ok)

section \<open>Groups and servers\<close>

definition first_error :: "outcome list \<Rightarrow> lifecycle_error option" where
  "first_error os =
     map_option (\<lambda>o'. ComponentFailed (out_name o') (the (out_err o'))) (List.find (\<lambda>o'. out_err o' \<noteq> None) os)"

lemma run_loop_stopped:
  "length os = n \<Longrightarrow>
     run_loop g os n fe True asked = Some (case fe of None \<Rightarrow> first_error os | Some e \<Rightarrow> Some e, asked)"
proof (induction g os n fe True asked rule: run_loop.induct)
  case (3 g o' os n fe asked)
  then show ?case
    by (cases "out_err o'"; cases fe) (auto simp: first_error_def Let_def)
qed (auto simp: first_error_def split: option.splits)

text \<open>A sequence of \<open>Shutdown\<close> calls on one server, with the actions they take in order.\<close>

fun shutdown_calls :: "http_server \<Rightarrow> string option list \<Rightarrow> http_server \<times> server_action list" where
  "shutdown_calls s [] = (s, [])"
| "shutdown_calls s (e # es) =
     (let (s1, acts, _) = HTTPServer_Shutdown s e; (s2, rest) = shutdown_calls s1 es in (s2, acts @ rest))"

definition drain_action :: "server_action \<Rightarrow> bool" where
  "drain_action a \<longleftrightarrow> a = GateClosed \<or> (\<exists>d. a = LogDraining d \<or> a = Slept d)"

lemma shutdown_calls_drained:
  "once_done s \<Longrightarrow> fst (shutdown_calls s es) = s \<and> (\<forall>a\<in>set (snd (shutdown_calls s es)). \<not> drain_action a)"
  by (induction es)
     (auto simp: HTTPServer_Shutdown_def drain_def drain_action_def Let_def split: option.splits prod.splits)

section \<open>Properties\<close>

text \<open>
  C18: a worker whose \<open>Shutdown\<close> answered without error is not in its loop and never will be.  In
  every state reachable by any interleaving of the run with any number of shutdown calls: after a clean
  answer the loop is neither running nor entered by any further step, the done channel is closed at most
  once (a second close would panic), a shutdown only calls a cancel function that was set, and one that
  waits or has timed out did cancel the loop's context.
\<close>

theorem Worker_clean_shutdown:
  assumes "worker_reachable w"
  shows "(spc w i = SReturned None \<longrightarrow> rpc w \<noteq> RLoop \<and> (\<forall>e. rpc w \<noteq> RLeaving e) \<and>
            (\<forall>w'. worker_step w w' \<longrightarrow> rpc w' \<noteq> RLoop)) \<and>
         done_closes w \<le> 1 \<and> (spc w i = SCancel \<longrightarrow> wk_cancel w) \<and>
         (spc w i = SWaiting \<or> spc w i = SReturned (Some e) \<longrightarrow> cancelled w)"
proof -
  have run: "run_agrees (rpc w) (wk_state w) (done_closes w) (wk_cancel w)"
    and mine: "shutdown_agrees (spc w i) w"
    using worker_reachable_ok [OF assms] by (auto simp: worker_ok_def)
  have "rpc w' \<noteq> RLoop" if stopped: "wk_state w = workerStopped" and step: "worker_step w w'" for w'
    using step run stopped by (cases rule: worker_step.cases) (auto split: if_splits)
  then show ?thesis
    using run mine by (cases "rpc w"; auto)
qed

theorem Worker_clean_shutdown_witness:
  "let w = NewWorker\<lparr>wk_state := workerStopped, spc := (\<lambda>_. SNotCalled)(0 := SReturned None)\<rparr>
   in worker_reachable w \<and> spc w 0 = SReturned None \<and> rpc w \<noteq> RLoop"
proof -
  let ?w = "NewWorker\<lparr>wk_state := workerStopped, spc := (\<lambda>_. SNotCalled)(0 := SReturned None)\<rparr>"
  have "worker_step NewWorker ?w"
    using shutdown_idle [of NewWorker 0] by (simp add: NewWorker_def)
  then have r: "worker_reachable ?w" by (rule worker_reachable.step [OF worker_reachable.init])
  from Worker_clean_shutdown [OF r, of 0] r show ?thesis by (simp add: Let_def)
qed

text \<open>
  a group never keeps half of itself running.  When as many outcomes have arrived as there are
  components, in whatever order, \<open>Run\<close> returns; its error is the first error among them, and exactly the
  components other than the first one to stop were asked to shut down, once.
\<close>

theorem Group_Run_exact:
  assumes "length os = length (items g)"
  shows "Group_Run g os =
     Some (first_error os, case os of [] \<Rightarrow> [] | o' # _ \<Rightarrow> filter (\<lambda>n. n \<noteq> out_name o') (map nr_name (items g)))"
proof (cases os)
  case Nil
  then show ?thesis using assms by (simp add: Group_Run_def first_error_def)
next
  case (Cons o' rest)
  then have "length (items g) = Suc (length rest)" using assms by simp
  then show ?thesis
    using Cons by (simp add: Group_Run_def run_loop_stopped shutdownExcept_def Let_def first_error_def
        split: option.splits)
qed

theorem Group_Run_exact_witness:
  "\<exists>g. NewGroup ModeAll (Some ()) (Some ()) [] = Inr g \<and>
     Group_Run g [\<lparr>out_name = ''worker'', out_err = Some ''boom''\<rparr>, \<lparr>out_name = ''web'', out_err = None\<rparr>] =
       Some (Some (ComponentFailed ''worker'' ''boom''), [''web''])"
proof -
  let ?g = "\<lparr>items = [\<lparr>nr_name = ''web'', nr_r = ()\<rparr>, \<lparr>nr_name = ''worker'', nr_r = ()\<rparr>],
             grp_shutdownTimeout = DefaultShutdownTimeout\<rparr>"
  let ?os = "[\<lparr>out_name = ''worker'', out_err = Some ''boom''\<rparr>, \<lparr>out_name = ''web'', out_err = None\<rparr>]"
  have g: "NewGroup ModeAll (Some ()) (Some ()) [] = Inr ?g"
    by (simp add: NewGroup_def mode_defs Let_def)
  have "length ?os = length (items ?g)" by simp
  from Group_Run_exact [OF this] g show ?thesis by (auto simp: first_error_def)
qed

text \<open>
  the drain happens once and first.  However often \<open>Shutdown\<close> is called on a fresh server, the
  actions taken are the gate flip, the optional log line and one wait of the drain period, then only
  bounded shutdowns of the wrapped server and forced closes; the gate ends closed.
\<close>

theorem Shutdown_drains_once:
  assumes "\<not> once_done s" and "srv_gate s = Some g" and "shutdown_calls s (e # es) = (s', acts)"
  shows "\<exists>rest. acts = [GateClosed] @ (if srv_logger s then [LogDraining (drainPeriod s)] else []) @
            [Slept (drainPeriod s), InnerShutdown (shutdownTimeout s)] @ rest \<and>
          (\<forall>a\<in>set rest. \<not> drain_action a) \<and> srv_gate s' = Some (Gate_Set g False)"
proof -
  obtain s1 a1 r1 where one: "HTTPServer_Shutdown s e = (s1, a1, r1)" by (cases "HTTPServer_Shutdown s e")
  then have s1: "once_done s1" "srv_gate s1 = Some (Gate_Set g False)"
    and a1: "\<exists>tail. a1 = [GateClosed] @ (if srv_logger s then [LogDraining (drainPeriod s)] else []) @
            [Slept (drainPeriod s), InnerShutdown (shutdownTimeout s)] @ tail \<and>
            (\<forall>a\<in>set tail. \<not> drain_action a)"
    using assms(1,2)
    by (auto simp: HTTPServer_Shutdown_def drain_def Let_def drain_action_def split: option.splits)
  obtain s2 a2 where two: "shutdown_calls s1 es = (s2, a2)" by (cases "shutdown_calls s1 es")
  have "s2 = s1" "\<forall>a\<in>set a2. \<not> drain_action a"
    using shutdown_calls_drained [OF s1(1), of es] by (auto simp: two)
  then show ?thesis
    using assms(3) a1 s1 by (auto simp: one two Let_def)
qed

theorem Shutdown_drains_once_witness:
  "\<exists>rest. snd (shutdown_calls (NewHTTPServer (Some (NewGate True)) []) [None, None]) =
     [GateClosed, Slept DefaultDrainPeriod, InnerShutdown DefaultShutdownTimeout] @ rest"
proof -
  let ?s = "NewHTTPServer (Some (NewGate True)) []"
  obtain s' acts where c: "shutdown_calls ?s [None, None] = (s', acts)" by (cases "shutdown_calls ?s [None, None]")
  have "\<not> once_done ?s" "srv_gate ?s = Some (NewGate True)" by (simp_all add: NewHTTPServer_def)
  from Shutdown_drains_once [OF this c] show ?thesis
    unfolding c snd_conv by (auto simp: NewHTTPServer_def)
qed

end
