(* ===== verification/Config.thy ===== *)
theory Config
  imports Prelude
begin

text \<open>
  \<open>runtime/config\<close>: deployment environments (\<open>environment.go\<close>), the loader that reads typed values and
  collects every failure (\<open>loader.go\<close>, \<open>loader_secret.go\<close>), redacting secrets and secret files
  (\<open>secret.go\<close>), and production validation (\<open>validate.go\<close>).

  The process environment is a partial function, the file system a function from paths to what opening
  and reading them gives, and \<open>time.ParseDuration\<close> (whose fractions go through floating point) an argument
  of the one method that calls it.
\<close>

section \<open>Environments\<close>

type_synonym environment = string

definition Development :: environment where "Development = ''development''"
definition Test :: environment where "Test = ''test''"
definition Production :: environment where "Production = ''production''"

datatype file_fault = NotExist | CannotOpen | CannotStat | IsDirectory | FileEmpty | TooLarge | CannotRead | EmptyValue

datatype config_error =
    BadEnvironment string
  | MissingVar string
  | NotInteger string string
  | NotBoolean string string
  | NotDuration string string
  | NotEnvironment string string
  | BothSet string
  | SecretFile string file_fault
  | MissingSecret string

definition ParseEnvironment :: "string \<Rightarrow> config_error + environment" where
  "ParseEnvironment raw =
     (if raw \<in> {Development, Test, Production} then Inr raw else Inl (BadEnvironment raw))"

section \<open>Secrets\<close>

definition redacted :: string where "redacted = ''[REDACTED]''"
definition MaxSecretFileSize :: nat where "MaxSecretFileSize = 1048576"

record secret =
  secret_value :: string

definition NewSecret :: "string \<Rightarrow> secret" where "NewSecret v = \<lparr>secret_value = v\<rparr>"
definition Reveal :: "secret \<Rightarrow> string" where "Reveal s = secret_value s"
definition IsSet :: "secret \<Rightarrow> bool" where "IsSet s \<longleftrightarrow> secret_value s \<noteq> []"

definition Secret_String :: "secret \<Rightarrow> string" where "Secret_String s = redacted"
definition Secret_GoString :: "secret \<Rightarrow> string" where "Secret_GoString s = redacted"
definition Secret_MarshalJSON :: "secret \<Rightarrow> string" where
  "Secret_MarshalJSON s = [CHR 0x22] @ redacted @ [CHR 0x22]"
definition Secret_MarshalText :: "secret \<Rightarrow> string" where "Secret_MarshalText s = redacted"
definition Secret_LogValue :: "secret \<Rightarrow> string" where "Secret_LogValue s = redacted"

text \<open>What the operating system answers for a path: the metadata \<open>Stat\<close> gives and what reading delivers.\<close>

record file_info =
  fi_isDir :: bool
  fi_size :: nat
  fi_perm :: nat
  fi_contents :: "string option"

datatype file_entry = Missing | Unopenable | Unstatable | Opened file_info

type_synonym filesystem = "string \<Rightarrow> file_entry"

unbundle bit_operations_syntax

definition checkSecretFilePermissions :: "bool \<Rightarrow> file_info \<Rightarrow> bool" where
  "checkSecretFilePermissions windows info =
     (if windows then False else (fi_perm info AND 36) \<noteq> 0)"

definition trim_suffix :: "string \<Rightarrow> string \<Rightarrow> string" where
  "trim_suffix s suf = (if has_suffix s suf then take (length s - length suf) s else s)"

text \<open>
  The value and whether the permission warning was raised.  \<open>windows\<close> is \<open>runtime.GOOS = "windows"\<close>; the
  read is limited to one byte more than the maximum.
\<close>

definition readSecretFile :: "bool \<Rightarrow> filesystem \<Rightarrow> string \<Rightarrow> file_fault + (string \<times> bool)" where
  "readSecretFile windows fs path =
     (case fs path of
        Missing \<Rightarrow> Inl NotExist
      | Unopenable \<Rightarrow> Inl CannotOpen
      | Unstatable \<Rightarrow> Inl CannotStat
      | Opened info \<Rightarrow>
          if fi_isDir info then Inl IsDirectory
          else if fi_size info = 0 then Inl FileEmpty
          else if fi_size info > MaxSecretFileSize then Inl TooLarge
          else
            (let warning = checkSecretFilePermissions windows info
             in case fi_contents info of
                  None \<Rightarrow> Inl CannotRead
                | Some contents \<Rightarrow>
                    (let data = take (MaxSecretFileSize + 1) contents
                     in if length data > MaxSecretFileSize then Inl TooLarge
                        else
                          (let trimmed = trim_suffix data [CHR 0x0D, CHR 0x0A];
                               trimmed = (if trimmed = data then trim_suffix data [CHR 0x0A] else trimmed)
                           in if trimmed = [] then Inl EmptyValue else Inr (trimmed, warning)))))"

section \<open>The loader\<close>

record field_options =
  hasDefault :: bool
  def :: string

type_synonym field_option = "field_options \<Rightarrow> field_options"

definition Default :: "string \<Rightarrow> field_option" where
  "Default v o' = o'\<lparr>hasDefault := True, def := v\<rparr>"

definition resolveOptions :: "field_option list \<Rightarrow> field_options" where
  "resolveOptions opts = foldl (\<lambda>o' opt. opt o') \<lparr>hasDefault = False, def = []\<rparr> opts"

record loader =
  errs :: "config_error list"
  warnings :: "string list"

definition NewLoader :: loader where "NewLoader = \<lparr>errs = [], warnings = []\<rparr>"

definition Loader_Err :: "loader \<Rightarrow> config_error list option" where
  "Loader_Err l = (if length (errs l) = 0 then None else Some (errs l))"

definition Loader_Warnings :: "loader \<Rightarrow> string list" where
  "Loader_Warnings l = warnings l"

definition addErr :: "config_error \<Rightarrow> loader \<Rightarrow> loader" where
  "addErr e l = l\<lparr>errs := errs l @ [e]\<rparr>"

definition addWarning :: "string \<Rightarrow> loader \<Rightarrow> loader" where
  "addWarning w l = l\<lparr>warnings := warnings l @ [w]\<rparr>"

type_synonym env = "string \<rightharpoonup> string"

definition Loader_String :: "env \<Rightarrow> string \<Rightarrow> field_option list \<Rightarrow> loader \<Rightarrow> string \<times> loader" where
  "Loader_String env name opts l =
     (let o' = resolveOptions opts
      in case env name of
           Some v \<Rightarrow> (v, l)
         | None \<Rightarrow> if hasDefault o' then (def o', l) else ([], addErr (MissingVar name) l))"

definition rawValue :: "env \<Rightarrow> string \<Rightarrow> field_option list \<Rightarrow> loader \<Rightarrow> string option \<times> loader" where
  "rawValue env name opts l =
     (let o' = resolveOptions opts
      in case env name of
           Some v \<Rightarrow> (Some v, l)
         | None \<Rightarrow> if hasDefault o' then (Some (def o'), l) else (None, addErr (MissingVar name) l))"

text \<open>
  The typed readers share one shape, which the source writes out four times: resolve, parse, and on
  failure record the error and return the zero value.
\<close>

definition typed ::
  "(string \<Rightarrow> 'a option) \<Rightarrow> 'a \<Rightarrow> (string \<Rightarrow> string \<Rightarrow> config_error) \<Rightarrow> env \<Rightarrow> string \<Rightarrow> field_option list \<Rightarrow>
     loader \<Rightarrow> 'a \<times> loader" where
  "typed parse zero mkErr env name opts l =
     (case rawValue env name opts l of
        (None, l') \<Rightarrow> (zero, l')
      | (Some raw, l') \<Rightarrow>
          (case parse raw of
             None \<Rightarrow> (zero, addErr (mkErr name raw) l')
           | Some v \<Rightarrow> (v, l')))"

definition Loader_Int :: "env \<Rightarrow> string \<Rightarrow> field_option list \<Rightarrow> loader \<Rightarrow> int \<times> loader" where
  "Loader_Int = typed atoi 0 NotInteger"

definition parse_bool :: "string \<Rightarrow> bool option" where
  "parse_bool s =
     (if s \<in> {''1'', ''t'', ''T'', ''TRUE'', ''true'', ''True''} then Some True
      else if s \<in> {''0'', ''f'', ''F'', ''FALSE'', ''false'', ''False''} then Some False
      else None)"

definition Loader_Bool :: "env \<Rightarrow> string \<Rightarrow> field_option list \<Rightarrow> loader \<Rightarrow> bool \<times> loader" where
  "Loader_Bool = typed parse_bool False NotBoolean"

definition Loader_Duration ::
  "(string \<Rightarrow> duration option) \<Rightarrow> env \<Rightarrow> string \<Rightarrow> field_option list \<Rightarrow> loader \<Rightarrow> duration \<times> loader" where
  "Loader_Duration parse_duration = typed parse_duration 0 NotDuration"

definition Loader_Environment :: "env \<Rightarrow> string \<Rightarrow> field_option list \<Rightarrow> loader \<Rightarrow> environment \<times> loader" where
  "Loader_Environment =
     typed (\<lambda>raw. case ParseEnvironment raw of Inl _ \<Rightarrow> None | Inr e \<Rightarrow> Some e) [] NotEnvironment"

definition Loader_Secret ::
  "bool \<Rightarrow> filesystem \<Rightarrow> env \<Rightarrow> string \<Rightarrow> field_option list \<Rightarrow> loader \<Rightarrow> secret \<times> loader" where
  "Loader_Secret windows fs env name opts l =
     (let o' = resolveOptions opts;
          fileName = name @ ''_FILE''
      in case (env name, env fileName) of
           (Some _, Some _) \<Rightarrow> (NewSecret [], addErr (BothSet name) l)
         | (Some direct, None) \<Rightarrow> (NewSecret direct, l)
         | (None, Some filePath) \<Rightarrow>
             (case readSecretFile windows fs filePath of
                Inl err \<Rightarrow> (NewSecret [], addErr (SecretFile name err) l)
              | Inr (v, warned) \<Rightarrow> (NewSecret v, if warned then addWarning name l else l))
         | (None, None) \<Rightarrow>
             if hasDefault o' then (NewSecret (def o'), l) else (NewSecret [], addErr (MissingSecret name) l))"

section \<open>Production validation\<close>

record validator =
  violations :: "string list"

definition Check :: "bool \<Rightarrow> string \<Rightarrow> string \<Rightarrow> string \<Rightarrow> validator \<Rightarrow> validator" where
  "Check ok name problem action v =
     (if \<not> ok then v\<lparr>violations := violations v @ [name @ '': '' @ problem @ ''; '' @ action]\<rparr> else v)"

definition RequireSecretSet :: "string \<Rightarrow> secret \<Rightarrow> validator \<Rightarrow> validator" where
  "RequireSecretSet name s v =
     Check (IsSet s) name ''required secret is not set'' (''set '' @ name @ '' or '' @ name @ ''_FILE'') v"

definition Validator_Err :: "validator \<Rightarrow> string list option" where
  "Validator_Err v = (if length (violations v) = 0 then None else Some (violations v))"

definition Validate :: "environment \<Rightarrow> (validator \<Rightarrow> validator) \<Rightarrow> string list option" where
  "Validate env checks =
     (if env \<noteq> Production then None else Validator_Err (checks \<lparr>violations = []\<rparr>))"

section \<open>A whole load\<close>

text \<open>An application's configuration as the fields it loads, in order, from one environment.\<close>

datatype field =
    FString string "field_option list"
  | FInt string "field_option list"
  | FBool string "field_option list"
  | FDuration string "field_option list"
  | FEnvironment string "field_option list"
  | FSecret string "field_option list"

record host =
  host_windows :: bool
  host_fs :: filesystem
  host_env :: env
  host_duration :: "string \<Rightarrow> duration option"

fun load :: "host \<Rightarrow> field \<Rightarrow> loader \<Rightarrow> loader" where
  "load h (FString n os) l = snd (Loader_String (host_env h) n os l)"
| "load h (FInt n os) l = snd (Loader_Int (host_env h) n os l)"
| "load h (FBool n os) l = snd (Loader_Bool (host_env h) n os l)"
| "load h (FDuration n os) l = snd (Loader_Duration (host_duration h) (host_env h) n os l)"
| "load h (FEnvironment n os) l = snd (Loader_Environment (host_env h) n os l)"
| "load h (FSecret n os) l = snd (Loader_Secret (host_windows h) (host_fs h) (host_env h) n os l)"

lemma addErr_errs [simp]: "errs (addErr e l) = errs l @ [e]"
  by (simp add: addErr_def)

lemma addWarning_errs [simp]: "errs (addWarning w l) = errs l"
  by (simp add: addWarning_def)

text \<open>The error one field records does not depend on what was recorded before it.\<close>

lemma rawValue_cases:
  obtains v where "\<And>l. rawValue env name opts l = (Some v, l)"
  | "\<And>l. rawValue env name opts l = (None, addErr (MissingVar name) l)"
  by (cases "env name"; cases "hasDefault (resolveOptions opts)") (simp_all add: rawValue_def Let_def)

lemma typed_errs:
  "errs (snd (typed parse z mk env name opts l)) = errs l @ errs (snd (typed parse z mk env name opts NewLoader))"
proof (cases rule: rawValue_cases [of env name opts])
  case (1 v)
  then show ?thesis by (simp add: typed_def NewLoader_def split: option.split)
qed (simp add: typed_def NewLoader_def)

lemma load_errs: "errs (load h f l) = errs l @ errs (load h f NewLoader)"
proof (cases f)
  case (FString n os)
  then show ?thesis by (simp add: Loader_String_def NewLoader_def Let_def split: option.split)
next
  case (FSecret n os)
  then show ?thesis by (simp add: Loader_Secret_def NewLoader_def Let_def split: option.split sum.split prod.split)
qed (simp_all add: Loader_Int_def Loader_Bool_def Loader_Duration_def Loader_Environment_def typed_errs [of _ _ _ _ _ _ l])

lemma foldl_load_errs:
  "errs (foldl (\<lambda>l f. load h f l) l fs) = errs l @ concat (map (\<lambda>f. errs (load h f NewLoader)) fs)"
proof (induction fs arbitrary: l)
  case (Cons f fs)
  then show ?case using load_errs [of h f l] by simp
qed simp

lemma trim_suffix_cases: "data = trim_suffix data suf \<or> data = trim_suffix data suf @ suf"
  by (auto simp: trim_suffix_def has_suffix_def) (metis append_take_drop_id)

lemma readSecretFile_Inr:
  assumes "readSecretFile windows fs path = Inr (v, warned)"
  shows "\<exists>info. fs path = Opened info \<and> v \<noteq> [] \<and> length v \<le> MaxSecretFileSize \<and>
     fi_contents info \<in> {Some v, Some (v @ [CHR 0x0A]), Some (v @ [CHR 0x0D, CHR 0x0A])} \<and>
     warned = checkSecretFilePermissions windows info"
proof -
  obtain info contents where info: "fs path = Opened info" "fi_contents info = Some contents"
    and short: "length (take (MaxSecretFileSize + 1) contents) \<le> MaxSecretFileSize"
    and warned: "warned = checkSecretFilePermissions windows info"
    using assms by (auto simp: readSecretFile_def Let_def split: file_entry.splits if_splits option.splits)
  have all: "take (MaxSecretFileSize + 1) contents = contents" using short by simp
  define data where "data = contents"
  have v: "v = (if trim_suffix data [CHR 0x0D, CHR 0x0A] = data then trim_suffix data [CHR 0x0A]
                else trim_suffix data [CHR 0x0D, CHR 0x0A])" and ne: "v \<noteq> []"
    using assms info by (auto simp: readSecretFile_def Let_def all data_def split: if_splits)
  have "data \<in> {v, v @ [CHR 0x0A], v @ [CHR 0x0D, CHR 0x0A]}"
    using v trim_suffix_cases [of data "[CHR 0x0A]"] trim_suffix_cases [of data "[CHR 0x0D, CHR 0x0A]"]
    by (auto split: if_splits)
  moreover have "length v \<le> length data" using calculation by auto
  ultimately show ?thesis using info warned ne short all by (auto simp: data_def)
qed

section \<open>Properties\<close>

text \<open>
  a load reports every failure, not the first.  The errors recorded by loading any list of
  fields are exactly the errors each field would record alone, in the order of the fields; so \<open>Err\<close> is
  nil if and only if every single field loads.
\<close>

theorem Loader_collects_all:
  "errs (foldl (\<lambda>l f. load h f l) NewLoader fs) = concat (map (\<lambda>f. errs (load h f NewLoader)) fs) \<and>
   (Loader_Err (foldl (\<lambda>l f. load h f l) NewLoader fs) = None \<longleftrightarrow>
      list_all (\<lambda>f. Loader_Err (load h f NewLoader) = None) fs)"
proof -
  have "errs NewLoader = []" by (simp add: NewLoader_def)
  then have e: "errs (foldl (\<lambda>l f. load h f l) NewLoader fs) = concat (map (\<lambda>f. errs (load h f NewLoader)) fs)"
    by (simp add: foldl_load_errs)
  show ?thesis
    unfolding Loader_Err_def e by (simp add: list_all_iff)
qed

text \<open>
  a secret has one source.  When loading a secret records no error, its value is the plain
  variable's with no file variable set, or the contents of the named file with one line end removed
  (non-empty and within the size limit) with no plain variable set, or the default with neither set.
  When it records an error it records exactly one and returns the unset secret; setting both variables
  is always such an error.
\<close>

theorem Loader_Secret_sources:
  assumes "Loader_Secret windows fs env name opts l = (s, l')"
  shows "(errs l' = errs l \<and>
      (env name = Some (Reveal s) \<and> env (name @ ''_FILE'') = None \<or>
       (\<exists>path info. env name = None \<and> env (name @ ''_FILE'') = Some path \<and> fs path = Opened info \<and>
          IsSet s \<and> length (Reveal s) \<le> MaxSecretFileSize \<and>
          fi_contents info \<in> {Some (Reveal s), Some (Reveal s @ [CHR 0x0A]), Some (Reveal s @ [CHR 0x0D, CHR 0x0A])}) \<or>
       env name = None \<and> env (name @ ''_FILE'') = None \<and> hasDefault (resolveOptions opts) \<and>
          Reveal s = def (resolveOptions opts))) \<or>
    (\<exists>e. errs l' = errs l @ [e] \<and> \<not> IsSet s)"
proof (cases "env name"; cases "env (name @ ''_FILE'')")
  fix path
  assume env: "env name = None" "env (name @ ''_FILE'') = Some path"
  show ?thesis
  proof (cases "readSecretFile windows fs path")
    case (Inl e)
    then show ?thesis
      using assms env by (auto simp: Loader_Secret_def Let_def IsSet_def NewSecret_def)
  next
    case (Inr vw)
    then obtain v w where vw: "readSecretFile windows fs path = Inr (v, w)" by (cases vw) auto
    then show ?thesis
      using assms env readSecretFile_Inr [OF vw]
      by (auto simp: Loader_Secret_def Let_def IsSet_def NewSecret_def Reveal_def split: if_splits)
  qed
qed (use assms in \<open>auto simp: Loader_Secret_def Let_def IsSet_def NewSecret_def Reveal_def split: if_splits\<close>)

theorem Loader_Secret_sources_witness:
  "\<exists>s l'. Loader_Secret False (\<lambda>_. Missing) [''DB'' \<mapsto> ''x'', ''DB_FILE'' \<mapsto> ''/run/db''] ''DB'' [] NewLoader = (s, l') \<and>
     (\<exists>e. errs l' = errs NewLoader @ [e]) \<and> \<not> IsSet s"
proof -
  have run: "Loader_Secret False (\<lambda>_. Missing) [''DB'' \<mapsto> ''x'', ''DB_FILE'' \<mapsto> ''/run/db''] ''DB'' [] NewLoader =
     (NewSecret [], addErr (BothSet ''DB'') NewLoader)"
    by (simp add: Loader_Secret_def)
  from Loader_Secret_sources [OF run] run show ?thesis by auto
qed

end
