(* ===== verification/Utf8.thy ===== *)
theory Utf8
  imports Prelude
begin

text \<open>
  The parts of Go's \<open>unicode/utf8\<close> the program calls, on byte strings: the width of the first rune with
  Go's rule that an invalid sequence is one byte wide, the rune count, and validity.
\<close>

definition in_range :: "nat \<Rightarrow> nat \<Rightarrow> char \<Rightarrow> bool" where
  "in_range lo hi c \<longleftrightarrow> lo \<le> code c \<and> code c \<le> hi"

definition continuation :: "char \<Rightarrow> bool" where
  "continuation c \<longleftrightarrow> in_range 128 191 c"

text \<open>The permitted second byte depends on the first (no overlong forms, no surrogates, at most U+10FFFF).\<close>

definition second_ok :: "char \<Rightarrow> char \<Rightarrow> bool" where
  "second_ok c d \<longleftrightarrow>
     (if code c = 224 then in_range 160 191 d
      else if code c = 237 then in_range 128 159 d
      else if code c = 240 then in_range 144 191 d
      else if code c = 244 then in_range 128 143 d
      else continuation d)"

text \<open>The width of a well-formed first rune, \<open>None\<close> when the string starts with an invalid sequence.\<close>

definition rune_width :: "string \<Rightarrow> nat option" where
  "rune_width s =
     (case s of
        [] \<Rightarrow> None
      | c # rest \<Rightarrow>
          if is_ascii c then Some 1
          else if in_range 194 223 c then
            (case rest of d # _ \<Rightarrow> if second_ok c d then Some 2 else None | _ \<Rightarrow> None)
          else if in_range 224 239 c then
            (case rest of
               d # e # _ \<Rightarrow> if second_ok c d \<and> continuation e then Some 3 else None
             | _ \<Rightarrow> None)
          else if in_range 240 244 c then
            (case rest of
               d # e # f # _ \<Rightarrow> if second_ok c d \<and> continuation e \<and> continuation f then Some 4 else None
             | _ \<Rightarrow> None)
          else None)"

lemma rune_width_bounds: "rune_width s = Some n \<Longrightarrow> 1 \<le> n \<and> n \<le> length s"
  by (auto simp: rune_width_def split: list.splits if_splits)

function rune_count :: "string \<Rightarrow> nat" where
  "rune_count s =
     (case s of
        [] \<Rightarrow> 0
      | _ # _ \<Rightarrow> 1 + rune_count (drop (case rune_width s of None \<Rightarrow> 1 | Some n \<Rightarrow> n) s))"
  by pat_completeness auto
termination
  by (relation "measure length") (auto split: option.splits dest: rune_width_bounds)

function valid_string :: "string \<Rightarrow> bool" where
  "valid_string s \<longleftrightarrow>
     (case s of
        [] \<Rightarrow> True
      | _ # _ \<Rightarrow> (case rune_width s of None \<Rightarrow> False | Some n \<Rightarrow> valid_string (drop n s)))"
  by pat_completeness auto
termination
  by (relation "measure length") (auto dest: rune_width_bounds)

declare rune_count.simps [simp del] valid_string.simps [simp del]

lemma rune_count_Nil [simp]: "rune_count [] = 0"
  by (simp add: rune_count.simps)

lemma valid_string_Nil [simp]: "valid_string []"
  by (simp add: valid_string.simps)

lemma rune_count_pos: "s \<noteq> [] \<Longrightarrow> 1 \<le> rune_count s"
  by (subst rune_count.simps) (auto split: list.splits)

lemma rune_count_le: "rune_count s \<le> length s"
proof (induction s rule: rune_count.induct)
  case (1 s)
  show ?case
  proof (cases s)
    case (Cons c cs)
    define n where "n = (case rune_width s of None \<Rightarrow> 1 | Some n \<Rightarrow> n)"
    have n: "1 \<le> n" "n \<le> length s"
      using Cons rune_width_bounds [of s] by (auto simp: n_def split: option.splits)
    have "rune_count (drop n s) \<le> length (drop n s)"
      using 1 Cons by (simp add: n_def)
    moreover have "rune_count s = 1 + rune_count (drop n s)"
      by (subst rune_count.simps) (simp add: Cons n_def)
    ultimately show ?thesis using n by simp
  qed simp
qed

lemma valid_ascii: "list_all is_ascii s \<Longrightarrow> valid_string s"
  by (induction s) (simp_all add: valid_string.simps rune_width_def)

text \<open>PostgreSQL's \<open>text\<close> takes well-formed UTF-8 without zero bytes and refuses anything else.\<close>

definition pg_text :: "string \<Rightarrow> bool" where
  "pg_text s \<longleftrightarrow> valid_string s \<and> CHR 0x00 \<notin> set s"

lemma pg_text_Nil [simp]: "pg_text []"
  by (simp add: pg_text_def)

end
