(* ===== verification/Reservation.thy ===== *)
theory Reservation
  imports Encodings Utf8 "HOL-Library.Product_Lexorder"
begin

text \<open>
  The reference application's reservation feature
  (\<open>examples/reference/app/internal/features/reservation\<close>): the use case and its state machine
  (\<open>reservation.go\<close>), its queries (\<open>store/reservation.sql.go\<close>), conversions and cursors (\<open>convert.go\<close>),
  the effects a change has (\<open>effects.go\<close>) and the job workers (\<open>workers.go\<close>).

  The database is a record of the two tables with the tenant the transaction established; each query is
  the meaning of its SQL text under row-level security and the table's constraints (the application's
  migration).  What is not in the repository is a field of the record \<open>deps\<close>: the tenant transaction
  runner, pgx's UUID text and time conversions, and the audit, job and notification collaborators; the
  clock, SQL's \<open>now()\<close> and \<open>gen_random_uuid()\<close> are fields too.
\<close>

section \<open>Data\<close>

type_synonym uuid = "128 word"

definition StateBooked :: string where "StateBooked = ''booked''"
definition StateCheckedOut :: string where "StateCheckedOut = ''checked_out''"
definition StateReturned :: string where "StateReturned = ''returned''"
definition StateCancelled :: string where "StateCancelled = ''cancelled''"
definition StateNoShow :: string where "StateNoShow = ''no_show''"

lemmas state_consts = StateBooked_def StateCheckedOut_def StateReturned_def StateCancelled_def StateNoShow_def

definition State_valid :: "string \<Rightarrow> bool" where
  "State_valid s \<longleftrightarrow> s \<in> {StateBooked, StateCheckedOut, StateReturned, StateCancelled, StateNoShow}"

definition MaxNoteBytes :: nat where "MaxNoteBytes = 2000"
definition MaxPhotoKeyBytes :: nat where "MaxPhotoKeyBytes = 512"
definition MinWindow :: duration where "MinWindow = 900000000000"
definition MaxWindow :: duration where "MaxWindow = 2592000000000000"
definition DefaultPageSize :: int where "DefaultPageSize = 50"
definition MaxPageSize :: int where "MaxPageSize = 200"
definition ReminderLeadTime :: duration where "ReminderLeadTime = 3600000000000"

datatype res_error =
    ErrNotFound | ErrInvalid | ErrConflict | ErrWrongState | ErrNotStarted | ErrNotHolder
  | ErrResourceUnavailable
  | ErrNoRows
  | PgError string
  | EffectError string
  | TxError string
  | Wrapped res_error

text \<open>The text of an error, as far as the two constraint tests below read it.\<close>

fun err_text :: "res_error \<Rightarrow> string" where
  "err_text (PgError s) = s"
| "err_text (EffectError s) = s"
| "err_text (TxError s) = s"
| "err_text (Wrapped e) = err_text e"
| "err_text _ = ''reservation''"

text \<open>\<open>errors.Is\<close> against a sentinel: the error at the bottom of the wrapping.\<close>

fun root :: "res_error \<Rightarrow> res_error" where
  "root (Wrapped e) = root e"
| "root e = e"

text \<open>A row of \<open>reservations\<close>; \<open>during\<close> is the half-open range from \<open>r_start\<close> to \<open>r_end\<close>.\<close>

record row =
  r_id :: uuid
  r_org :: uuid
  r_resource :: uuid
  r_holder :: uuid
  r_start :: time
  r_end :: time
  r_state :: string
  r_note :: string
  r_return_note :: string
  r_photo :: "string option"
  r_checked_out_at :: "time option"
  r_returned_at :: "time option"
  r_cancelled_at :: "time option"
  r_created_at :: time
  r_updated_at :: time

text \<open>A row of \<open>resources\<close>, as far as reservations refer to it.\<close>

record resource_row =
  s_id :: uuid
  s_org :: uuid
  s_retired_at :: "time option"

datatype actor_kind = ActorUser | ActorSystem

record audit_event =
  ev_Action :: string
  ev_ActorKind :: actor_kind
  ev_ActorID :: string
  ev_SubjectID :: string
  ev_ResourceID :: string
  ev_State :: string

datatype job =
    ConfirmationArgs string string
  | ReminderArgs string string time
  | NoShowCheckArgs string string time

record notice =
  nt_RecipientID :: string
  nt_Kind :: string
  nt_Window :: "time \<times> time"

record db =
  reservations :: "row list"
  resources :: "resource_row list"
  tenant :: "uuid option"
  effects :: "(audit_event + job + notice) list"

type_synonym body = "db \<Rightarrow> res_error + (row list \<times> nat \<times> db)"

record deps =
  dep_parseUUID :: "string \<Rightarrow> uuid option"
  dep_uuidString :: "uuid \<Rightarrow> string"
  dep_storeTime :: "time \<Rightarrow> time"
  dep_within :: "string \<Rightarrow> body \<Rightarrow> db \<Rightarrow> (res_error + (row list \<times> nat)) \<times> db"
  dep_now :: time
  dep_sqlNow :: time
  dep_freshID :: "db \<Rightarrow> uuid"
  dep_Audit :: "(audit_event \<Rightarrow> db \<Rightarrow> res_error + db) option"
  dep_Jobs :: "(job \<Rightarrow> db \<Rightarrow> res_error + db) option"
  dep_Notify :: "(notice \<Rightarrow> db \<Rightarrow> res_error + db) option"

section \<open>The table and its queries\<close>

definition live :: "row \<Rightarrow> bool" where
  "live r \<longleftrightarrow> r_state r \<in> {StateBooked, StateCheckedOut}"

definition overlaps :: "row \<Rightarrow> row \<Rightarrow> bool" where
  "overlaps r q \<longleftrightarrow> r_resource r = r_resource q \<and> r_start r < r_end q \<and> r_start q < r_end r"

text \<open>The CHECK constraints of the table.\<close>

definition row_ok :: "row \<Rightarrow> bool" where
  "row_ok r \<longleftrightarrow>
     State_valid (r_state r) \<and> r_start r < r_end r \<and>
     sint MinWindow \<le> r_end r - r_start r \<and> r_end r - r_start r \<le> sint MaxWindow \<and>
     rune_count (r_note r) \<le> MaxNoteBytes \<and> rune_count (r_return_note r) \<le> MaxNoteBytes \<and>
     (case r_photo r of None \<Rightarrow> True | Some k \<Rightarrow> 1 \<le> rune_count k \<and> rune_count k \<le> MaxPhotoKeyBytes) \<and>
     ((r_checked_out_at r \<noteq> None) = (r_state r \<in> {StateCheckedOut, StateReturned})) \<and>
     ((r_returned_at r \<noteq> None) = (r_state r = StateReturned)) \<and>
     ((r_cancelled_at r \<noteq> None) = (r_state r = StateCancelled))"

text \<open>Row-level security: a statement sees the rows of the established tenant only.\<close>

definition visible :: "db \<Rightarrow> row \<Rightarrow> bool" where
  "visible d r \<longleftrightarrow> tenant d = Some (r_org r)"

definition GetReservation :: "uuid \<Rightarrow> db \<Rightarrow> res_error + row" where
  "GetReservation i d =
     (case List.find (\<lambda>r. visible d r \<and> r_id r = i) (reservations d) of
        None \<Rightarrow> Inl ErrNoRows | Some r \<Rightarrow> Inr r)"

text \<open>The locking read returns the same row; locking is the transaction runner's serialisation.\<close>

definition GetReservationForUpdate :: "uuid \<Rightarrow> db \<Rightarrow> res_error + row" where
  "GetReservationForUpdate i d = GetReservation i d"

text \<open>
  \<open>UPDATE ... WHERE p ... RETURNING\<close>: every matching row is replaced, unless an updated row violates a
  CHECK or the exclusion constraint over live rows.
\<close>

definition no_overlap :: "row list \<Rightarrow> bool" where
  "no_overlap rs \<longleftrightarrow> (\<forall>r\<in>set rs. \<forall>q\<in>set rs. live r \<and> live q \<and> r_id r \<noteq> r_id q \<longrightarrow> \<not> overlaps r q)"

definition update_where :: "(row \<Rightarrow> bool) \<Rightarrow> (row \<Rightarrow> row) \<Rightarrow> db \<Rightarrow> res_error + (row list \<times> db)" where
  "update_where p f d =
     (let changed = map f (filter (\<lambda>r. visible d r \<and> p r) (reservations d));
          rows = map (\<lambda>r. if visible d r \<and> p r then f r else r) (reservations d)
      in if \<not> list_all row_ok changed then Inl (PgError ''reservations_check'')
         else if changed \<noteq> [] \<and> \<not> no_overlap rows then Inl (PgError ''reservations_no_overlap'')
         else Inr (changed, d\<lparr>reservations := rows\<rparr>))"

definition one_row :: "res_error + (row list \<times> db) \<Rightarrow> res_error + (row \<times> db)" where
  "one_row res =
     (case res of
        Inl e \<Rightarrow> Inl e
      | Inr ([], d) \<Rightarrow> Inl ErrNoRows
      | Inr (r # _, d) \<Rightarrow> Inr (r, d))"

definition CheckOutReservation :: "time \<Rightarrow> uuid \<Rightarrow> db \<Rightarrow> res_error + (row \<times> db)" where
  "CheckOutReservation now i d =
     one_row (update_where (\<lambda>r. r_id r = i \<and> r_state r = StateBooked)
       (\<lambda>r. r\<lparr>r_state := StateCheckedOut, r_checked_out_at := Some now, r_updated_at := now\<rparr>) d)"

definition ReturnReservation ::
  "time \<Rightarrow> uuid \<Rightarrow> string \<Rightarrow> string option \<Rightarrow> db \<Rightarrow> res_error + (row \<times> db)" where
  "ReturnReservation now i note photo d =
     (if \<not> pg_text note \<or> \<not> pg_text (case photo of None \<Rightarrow> [] | Some k \<Rightarrow> k) then Inl (PgError ''encoding'')
      else one_row (update_where (\<lambda>r. r_id r = i \<and> r_state r = StateCheckedOut)
        (\<lambda>r. r\<lparr>r_state := StateReturned, r_returned_at := Some now, r_return_note := note,
               r_photo := photo, r_updated_at := now\<rparr>) d))"

definition CancelReservation :: "time \<Rightarrow> uuid \<Rightarrow> db \<Rightarrow> res_error + (row \<times> db)" where
  "CancelReservation now i d =
     one_row (update_where (\<lambda>r. r_id r = i \<and> r_state r = StateBooked)
       (\<lambda>r. r\<lparr>r_state := StateCancelled, r_cancelled_at := Some now, r_updated_at := now\<rparr>) d)"

text \<open>A NULL cutoff compares as unknown, so it matches no row.\<close>

definition MarkNoShows :: "time \<Rightarrow> time option \<Rightarrow> db \<Rightarrow> res_error + (row list \<times> db)" where
  "MarkNoShows now cutoff d =
     update_where (\<lambda>r. r_state r = StateBooked \<and> (case cutoff of None \<Rightarrow> False | Some c \<Rightarrow> r_end r \<le> c))
       (\<lambda>r. r\<lparr>r_state := StateNoShow, r_updated_at := now\<rparr>) d"

text \<open>
  The insert: the tenant comes from the transaction, the composite foreign key requires the resource to
  exist in it, and the constraints are evaluated against the new row.
\<close>

definition CreateReservation ::
  "time \<Rightarrow> uuid \<Rightarrow> uuid \<Rightarrow> uuid \<Rightarrow> string \<Rightarrow> time \<Rightarrow> time \<Rightarrow> db \<Rightarrow> res_error + (row \<times> db)" where
  "CreateReservation now newID resourceID holderID note startsAt endsAt d =
     (case tenant d of
        None \<Rightarrow> Inl (PgError ''org_id'')
      | Some org \<Rightarrow>
          (let r = \<lparr>r_id = newID, r_org = org, r_resource = resourceID, r_holder = holderID,
                    r_start = startsAt, r_end = endsAt, r_state = StateBooked, r_note = note,
                    r_return_note = [], r_photo = None, r_checked_out_at = None, r_returned_at = None,
                    r_cancelled_at = None, r_created_at = now, r_updated_at = now\<rparr>
           in if \<not> pg_text note then Inl (PgError ''encoding'')
              else if newID \<in> r_id ` set (reservations d) then Inl (PgError ''reservations_pkey'')
              else if \<not> row_ok r then Inl (PgError ''reservations_check'')
              else if list_ex (\<lambda>q. live q \<and> overlaps r q) (reservations d)
                then Inl (PgError ''reservations_no_overlap'')
              else if \<not> list_ex (\<lambda>s. s_id s = resourceID \<and> s_org s = org) (resources d)
                then Inl (PgError ''reservations_resource_same_org'')
              else Inr (r, d\<lparr>reservations := reservations d @ [r]\<rparr>)))"

section \<open>Conversions\<close>

definition parseUUID :: "deps \<Rightarrow> string \<Rightarrow> uuid option" where
  "parseUUID p v = dep_parseUUID p v"

definition timeOf :: "time option \<Rightarrow> time" where
  "timeOf v = (case v of None \<Rightarrow> 0 | Some t \<Rightarrow> t)"

definition timestamptz :: "time \<Rightarrow> time option" where
  "timestamptz v = (if v = 0 then None else Some v)"

record reservation =
  ID :: string
  OrgID :: string
  ResourceID :: string
  HolderID :: string
  StartsAt :: time
  EndsAt :: time
  State :: string
  Note :: string
  ReturnNote :: string
  ReturnPhotoKey :: string
  CheckedOutAt :: time
  ReturnedAt :: time
  CancelledAt :: time
  CreatedAt :: time
  UpdatedAt :: time

definition toReservation :: "deps \<Rightarrow> row \<Rightarrow> reservation" where
  "toReservation p r =
     \<lparr>ID = dep_uuidString p (r_id r), OrgID = dep_uuidString p (r_org r),
      ResourceID = dep_uuidString p (r_resource r), HolderID = dep_uuidString p (r_holder r),
      StartsAt = r_start r, EndsAt = r_end r, State = r_state r, Note = r_note r,
      ReturnNote = r_return_note r, ReturnPhotoKey = (case r_photo r of None \<Rightarrow> [] | Some k \<Rightarrow> k),
      CheckedOutAt = timeOf (r_checked_out_at r), ReturnedAt = timeOf (r_returned_at r),
      CancelledAt = timeOf (r_cancelled_at r), CreatedAt = r_created_at r, UpdatedAt = r_updated_at r\<rparr>"

definition isOverlap :: "res_error \<Rightarrow> bool" where
  "isOverlap e \<longleftrightarrow> contains (err_text e) ''reservations_no_overlap''"

definition isUnbookableResource :: "res_error \<Rightarrow> bool" where
  "isUnbookableResource e \<longleftrightarrow> contains (err_text e) ''reservations_resource_same_org''"

section \<open>Effects\<close>

definition ActionCreated :: string where "ActionCreated = ''reservation.created''"
definition ActionCheckedOut :: string where "ActionCheckedOut = ''reservation.checked_out''"
definition ActionReturned :: string where "ActionReturned = ''reservation.returned''"
definition ActionCancelled :: string where "ActionCancelled = ''reservation.cancelled''"
definition ActionNoShow :: string where "ActionNoShow = ''reservation.no_show''"
definition NotifyNoShow :: string where "NotifyNoShow = ''reservation.no_show''"

definition recordAndEnqueue :: "deps \<Rightarrow> string \<Rightarrow> string \<Rightarrow> reservation \<Rightarrow> db \<Rightarrow> res_error + db" where
  "recordAndEnqueue p action actorID res d =
     (case dep_Audit p of
        None \<Rightarrow> Inr d
      | Some recorder \<Rightarrow>
          recorder \<lparr>ev_Action = action, ev_ActorKind = (if actorID = [] then ActorSystem else ActorUser),
                   ev_ActorID = actorID, ev_SubjectID = ID res, ev_ResourceID = ResourceID res,
                   ev_State = State res\<rparr> d)"

definition scheduleConfirmationAndReminder :: "deps \<Rightarrow> string \<Rightarrow> reservation \<Rightarrow> db \<Rightarrow> res_error + db" where
  "scheduleConfirmationAndReminder p orgID res d =
     (case dep_Jobs p of
        None \<Rightarrow> Inr d
      | Some enqueue \<Rightarrow>
          (case enqueue (ConfirmationArgs orgID (ID res)) d of
             Inl e \<Rightarrow> Inl e
           | Inr d1 \<Rightarrow>
               (case enqueue (NoShowCheckArgs orgID (ID res) (EndsAt res)) d1 of
                  Inl e \<Rightarrow> Inl e
                | Inr d2 \<Rightarrow>
                    (let remindAt = time_add (StartsAt res) (- ReminderLeadTime)
                     in if \<not> remindAt > dep_now p then Inr d2
                        else enqueue (ReminderArgs orgID (ID res) remindAt) d2))))"

text \<open>The notification's rendered sentence is kept as the window it names.\<close>

definition notifyNoShow :: "deps \<Rightarrow> reservation \<Rightarrow> db \<Rightarrow> res_error + db" where
  "notifyNoShow p res d =
     (case dep_Notify p of
        None \<Rightarrow> Inr d
      | Some notify \<Rightarrow>
          notify \<lparr>nt_RecipientID = HolderID res, nt_Kind = NotifyNoShow,
                  nt_Window = (StartsAt res, EndsAt res)\<rparr> d)"

section \<open>The use case\<close>

definition validateWindow :: "time \<Rightarrow> time \<Rightarrow> res_error option" where
  "validateWindow startsAt endsAt =
     (if startsAt = 0 \<or> endsAt = 0 then Some ErrInvalid
      else if \<not> endsAt > startsAt then Some ErrInvalid
      else
        (let len = time_sub endsAt startsAt
         in if len <s MinWindow then Some ErrInvalid
            else if MaxWindow <s len then Some ErrInvalid
            else None))"

record request =
  req_ResourceID :: string
  req_HolderID :: string
  req_StartsAt :: time
  req_EndsAt :: time
  req_Note :: string

definition create_body :: "deps \<Rightarrow> string \<Rightarrow> request \<Rightarrow> uuid \<Rightarrow> uuid \<Rightarrow> string \<Rightarrow> body" where
  "create_body p orgID req resourceID holderID note d =
     (case CreateReservation (dep_sqlNow p) (dep_freshID p d) resourceID holderID note
             (dep_storeTime p (req_StartsAt req)) (dep_storeTime p (req_EndsAt req)) d of
        Inl e \<Rightarrow> Inl e
      | Inr (created, d1) \<Rightarrow>
          (case recordAndEnqueue p ActionCreated (req_HolderID req) (toReservation p created) d1 of
             Inl e \<Rightarrow> Inl e
           | Inr d2 \<Rightarrow>
               (case scheduleConfirmationAndReminder p orgID (toReservation p created) d2 of
                  Inl e \<Rightarrow> Inl e
                | Inr d3 \<Rightarrow> Inr ([created], 0, d3))))"

definition Create :: "deps \<Rightarrow> string \<Rightarrow> request \<Rightarrow> db \<Rightarrow> (res_error + reservation) \<times> db" where
  "Create p orgID req d =
     (case parseUUID p (req_ResourceID req) of
        None \<Rightarrow> (Inl ErrResourceUnavailable, d)
      | Some resourceID \<Rightarrow>
     (case parseUUID p (req_HolderID req) of
        None \<Rightarrow> (Inl ErrInvalid, d)
      | Some holderID \<Rightarrow>
     (case validateWindow (req_StartsAt req) (req_EndsAt req) of
        Some e \<Rightarrow> (Inl e, d)
      | None \<Rightarrow>
          (let note = trim_space (req_Note req)
           in if rune_count note > MaxNoteBytes then (Inl ErrInvalid, d)
              else
                (case dep_within p orgID (create_body p orgID req resourceID holderID note) d of
                   (Inl e, d') \<Rightarrow>
                     (Inl (if isOverlap e then ErrConflict
                           else if isUnbookableResource e then ErrResourceUnavailable
                           else Wrapped e), d')
                 | (Inr (rows, _), d') \<Rightarrow> (Inr (toReservation p (hd rows)), d'))))))"

definition Get :: "deps \<Rightarrow> string \<Rightarrow> string \<Rightarrow> db \<Rightarrow> (res_error + reservation) \<times> db" where
  "Get p orgID reservationID d =
     (case parseUUID p reservationID of
        None \<Rightarrow> (Inl ErrNotFound, d)
      | Some i \<Rightarrow>
          (case dep_within p orgID
                  (\<lambda>d. case GetReservation i d of Inl e \<Rightarrow> Inl e | Inr r \<Rightarrow> Inr ([r], 0, d)) d of
             (Inl e, d') \<Rightarrow> (Inl (if root e = ErrNoRows then ErrNotFound else Wrapped e), d')
           | (Inr (rows, _), d') \<Rightarrow> (Inr (toReservation p (hd rows)), d')))"

record actor =
  UserID :: string
  MayManageOthers :: bool

definition mayAct :: "actor \<Rightarrow> string \<Rightarrow> bool" where
  "mayAct a holderID \<longleftrightarrow> MayManageOthers a \<or> UserID a = holderID"

definition transition_body ::
  "deps \<Rightarrow> actor \<Rightarrow> string \<Rightarrow> string \<Rightarrow> (row \<Rightarrow> db \<Rightarrow> res_error + (row \<times> db)) \<Rightarrow> uuid \<Rightarrow> body" where
  "transition_body p a required action act i d =
     (case GetReservationForUpdate i d of
        Inl e \<Rightarrow> Inl (if root e = ErrNoRows then ErrNotFound else e)
      | Inr cur \<Rightarrow>
          if \<not> mayAct a (dep_uuidString p (r_holder cur)) then Inl ErrNotHolder
          else if r_state cur \<noteq> required then Inl ErrWrongState
          else (case act cur d of
                  Inl e \<Rightarrow> Inl (if root e = ErrNoRows then ErrWrongState else e)
                | Inr (updated, d1) \<Rightarrow>
                    (case recordAndEnqueue p action (UserID a) (toReservation p updated) d1 of
                       Inl e \<Rightarrow> Inl e
                     | Inr d2 \<Rightarrow> Inr ([updated], 0, d2))))"

definition transition ::
  "deps \<Rightarrow> string \<Rightarrow> string \<Rightarrow> actor \<Rightarrow> string \<Rightarrow> string \<Rightarrow>
     (row \<Rightarrow> db \<Rightarrow> res_error + (row \<times> db)) \<Rightarrow> db \<Rightarrow> (res_error + reservation) \<times> db" where
  "transition p orgID reservationID a required action act d =
     (case parseUUID p reservationID of
        None \<Rightarrow> (Inl ErrNotFound, d)
      | Some i \<Rightarrow>
          (case dep_within p orgID (transition_body p a required action act i) d of
             (Inl e, d') \<Rightarrow>
               (Inl (if root e \<in> {ErrNotFound, ErrNotHolder, ErrWrongState, ErrNotStarted} then e else Wrapped e), d')
           | (Inr (rows, _), d') \<Rightarrow> (Inr (toReservation p (hd rows)), d')))"

definition CheckOut :: "deps \<Rightarrow> string \<Rightarrow> string \<Rightarrow> actor \<Rightarrow> db \<Rightarrow> (res_error + reservation) \<times> db" where
  "CheckOut p orgID reservationID a =
     transition p orgID reservationID a StateBooked ActionCheckedOut
       (\<lambda>cur d. if dep_now p < r_start cur then Inl ErrNotStarted
                else CheckOutReservation (dep_sqlNow p) (r_id cur) d)"

definition Return ::
  "deps \<Rightarrow> string \<Rightarrow> string \<Rightarrow> actor \<Rightarrow> string \<Rightarrow> string \<Rightarrow> db \<Rightarrow> (res_error + reservation) \<times> db" where
  "Return p orgID reservationID a rawNote photoKey d =
     (let note = trim_space rawNote
      in if rune_count note > MaxNoteBytes then (Inl ErrInvalid, d)
         else if rune_count photoKey > MaxPhotoKeyBytes then (Inl ErrInvalid, d)
         else transition p orgID reservationID a StateCheckedOut ActionReturned
                (\<lambda>cur d. ReturnReservation (dep_sqlNow p) (r_id cur) note
                           (if photoKey \<noteq> [] then Some photoKey else None) d) d)"

definition Cancel :: "deps \<Rightarrow> string \<Rightarrow> string \<Rightarrow> actor \<Rightarrow> db \<Rightarrow> (res_error + reservation) \<times> db" where
  "Cancel p orgID reservationID a =
     transition p orgID reservationID a StateBooked ActionCancelled
       (\<lambda>cur d. CancelReservation (dep_sqlNow p) (r_id cur) d)"

fun sweep_effects :: "deps \<Rightarrow> row list \<Rightarrow> db \<Rightarrow> res_error + db" where
  "sweep_effects p [] d = Inr d"
| "sweep_effects p (r # rs) d =
     (case recordAndEnqueue p ActionNoShow [] (toReservation p r) d of
        Inl e \<Rightarrow> Inl e
      | Inr d1 \<Rightarrow>
          (case notifyNoShow p (toReservation p r) d1 of
             Inl e \<Rightarrow> Inl e
           | Inr d2 \<Rightarrow> sweep_effects p rs d2))"

definition sweep_body :: "deps \<Rightarrow> time \<Rightarrow> body" where
  "sweep_body p cutoff d =
     (case MarkNoShows (dep_sqlNow p) (map_option (dep_storeTime p) (timestamptz cutoff)) d of
        Inl e \<Rightarrow> Inl e
      | Inr (marked, d1) \<Rightarrow>
          (case sweep_effects p marked d1 of
             Inl e \<Rightarrow> Inl e
           | Inr d2 \<Rightarrow> Inr (marked, 0, d2)))"

definition SweepNoShows :: "deps \<Rightarrow> string \<Rightarrow> time \<Rightarrow> db \<Rightarrow> (res_error + reservation list) \<times> db" where
  "SweepNoShows p orgID cutoff d =
     (case dep_within p orgID (sweep_body p cutoff) d of
        (Inl e, d') \<Rightarrow> (Inl (Wrapped e), d')
      | (Inr (rows, _), d') \<Rightarrow> (Inr (map (toReservation p) rows), d'))"

section \<open>Workers\<close>

text \<open>\<open>dep_mail\<close> of a worker: resolving the address and sending may fail; the message names the booking.\<close>

record message =
  msg_to :: string
  msg_subject :: string
  msg_booking :: reservation

definition send ::
  "deps \<Rightarrow> (string \<Rightarrow> res_error + string) \<Rightarrow> (message \<Rightarrow> res_error option) \<Rightarrow> string \<Rightarrow> string \<Rightarrow> string \<Rightarrow> db \<Rightarrow>
     res_error option \<times> message list" where
  "send p emailOf deliver orgID reservationID subject d =
     (case fst (Get p orgID reservationID d) of
        Inl e \<Rightarrow> (if root e = ErrNotFound then None else Some (Wrapped e), [])
      | Inr booking \<Rightarrow>
          (case emailOf (HolderID booking) of
             Inl e \<Rightarrow> (Some (Wrapped e), [])
           | Inr address \<Rightarrow>
               (let m = \<lparr>msg_to = address, msg_subject = subject, msg_booking = booking\<rparr>
                in (deliver m, [m]))))"

definition confirmation_Work where
  "confirmation_Work p emailOf deliver orgID reservationID d =
     send p emailOf deliver orgID reservationID ''Your reservation is confirmed'' d"

definition reminder_Work where
  "reminder_Work p emailOf deliver orgID reservationID d =
     send p emailOf deliver orgID reservationID ''Your reservation starts soon'' d"

definition noShowCheck_Work :: "deps \<Rightarrow> string \<Rightarrow> string \<Rightarrow> db \<Rightarrow> res_error option \<times> db" where
  "noShowCheck_Work p orgID reservationID d =
     (case Get p orgID reservationID d of
        (Inl e, d') \<Rightarrow> (if root e = ErrNotFound then None else Some (Wrapped e), d')
      | (Inr booking, d') \<Rightarrow>
          if State booking \<noteq> StateBooked then (None, d')
          else (case SweepNoShows p orgID (EndsAt booking) d' of
                  (Inl e, d'') \<Rightarrow> (Some (Wrapped e), d'')
                | (Inr _, d'') \<Rightarrow> (None, d'')))"

end
