(* ===== verification/Reservation_Safety.thy ===== *)
theory Reservation_Safety
  imports Reservation
begin

text \<open>
  Safety of the reservation feature: what any sequence of its commands can do to the table.  The
  theory states the contract the feature needs of the code outside the repository (\<open>transactional\<close>,
  \<open>framed\<close>), the table invariant \<open>db_ok\<close> and the legal evolution of rows, and shows that every command
  keeps both.
\<close>

section \<open>Contracts\<close>

text \<open>
  The tenant transaction runner commits or does nothing: it either reports an error and leaves the
  database as it was, or ran the callback once with the named tenant established and kept its result.
\<close>

definition transactional :: "deps \<Rightarrow> bool" where
  "transactional p \<longleftrightarrow>
     (\<forall>org bdy d. (\<exists>e. dep_within p org bdy d = (Inl e, d)) \<or>
        (\<exists>rows n d'. bdy (d\<lparr>tenant := dep_parseUUID p org\<rparr>) = Inr (rows, n, d') \<and>
           dep_within p org bdy d = (Inr (rows, n), d'\<lparr>tenant := tenant d\<rparr>)))"

text \<open>The collaborators write their own tables only.\<close>

definition keeps_tables :: "('x \<Rightarrow> db \<Rightarrow> res_error + db) option \<Rightarrow> bool" where
  "keeps_tables f \<longleftrightarrow>
     (\<forall>g x d d'. f = Some g \<and> g x d = Inr d' \<longrightarrow>
        reservations d' = reservations d \<and> resources d' = resources d \<and> tenant d' = tenant d)"

definition framed :: "deps \<Rightarrow> bool" where
  "framed p \<longleftrightarrow> keeps_tables (dep_Audit p) \<and> keeps_tables (dep_Jobs p) \<and> keeps_tables (dep_Notify p)"

section \<open>The invariant and legal evolution\<close>

definition db_ok :: "db \<Rightarrow> bool" where
  "db_ok d \<longleftrightarrow>
     distinct (map r_id (reservations d)) \<and> list_all row_ok (reservations d) \<and>
     no_overlap (reservations d) \<and>
     (\<forall>r\<in>set (reservations d). \<exists>s\<in>set (resources d). s_id s = r_resource r \<and> s_org s = r_org r)"

text \<open>The edges of the diagram in the package comment.\<close>

inductive edge :: "string \<Rightarrow> string \<Rightarrow> bool" where
  check_out: "edge StateBooked StateCheckedOut"
| return_: "edge StateCheckedOut StateReturned"
| cancel: "edge StateBooked StateCancelled"
| no_show: "edge StateBooked StateNoShow"

inductive_simps edge_simps: "edge s t"

definition same_booking :: "row \<Rightarrow> row \<Rightarrow> bool" where
  "same_booking r q \<longleftrightarrow>
     r_id q = r_id r \<and> r_org q = r_org r \<and> r_resource q = r_resource r \<and> r_holder q = r_holder r \<and>
     r_start q = r_start r \<and> r_end q = r_end r \<and> r_note q = r_note r"

text \<open>One row under a command run for a tenant: unchanged, or its own tenant's row moved along an edge.\<close>

definition row_step :: "uuid option \<Rightarrow> row \<Rightarrow> row \<Rightarrow> bool" where
  "row_step org r q \<longleftrightarrow>
     q = r \<or> org = Some (r_org r) \<and> same_booking r q \<and> edge (r_state r) (r_state q)"

definition evolves :: "uuid option \<Rightarrow> db \<Rightarrow> db \<Rightarrow> bool" where
  "evolves org d d' \<longleftrightarrow>
     resources d' = resources d \<and>
     (\<exists>old new. reservations d' = old @ new \<and> list_all2 (row_step org) (reservations d) old \<and>
        (\<forall>r\<in>set new. r_state r = StateBooked \<and> org = Some (r_org r)))"

lemma state_distinct: "distinct [StateBooked, StateCheckedOut, StateReturned, StateCancelled, StateNoShow]"
  by (simp add: state_consts)

lemma evolvesI:
  assumes "resources d' = resources d" and "reservations d' = old @ new"
    and "list_all2 (row_step org) (reservations d) old"
    and "\<And>r. r \<in> set new \<Longrightarrow> r_state r = StateBooked \<and> org = Some (r_org r)"
  shows "evolves org d d'"
  using assms unfolding evolves_def by blast

lemma rows_refl: "list_all2 (row_step org) rs rs"
  by (rule list.rel_refl) (simp add: row_step_def)

lemma evolves_refl: "evolves org d d"
  using rows_refl by (intro evolvesI [of d d "reservations d" "[]"]) simp_all

lemma evolves_tables:
  "reservations d' = reservations d \<Longrightarrow> resources d' = resources d \<Longrightarrow> evolves org e d \<Longrightarrow> evolves org e d'"
  by (simp add: evolves_def)

lemma db_ok_tables:
  "reservations d' = reservations d \<Longrightarrow> resources d' = resources d \<Longrightarrow> db_ok d \<Longrightarrow> db_ok d'"
  by (simp add: db_ok_def)

section \<open>Queries\<close>

lemma update_where_ok:
  assumes up: "update_where P f d = Inr (changed, d')" and ok: "db_ok d"
    and step: "\<And>r. P r \<Longrightarrow> same_booking r (f r) \<and> edge (r_state r) (r_state (f r))"
  shows "db_ok d' \<and> evolves (tenant d) d d'"
proof -
  let ?g = "\<lambda>r. if visible d r \<and> P r then f r else r"
  have d': "d' = d\<lparr>reservations := map ?g (reservations d)\<rparr>"
    and changed: "list_all row_ok (map f (filter (\<lambda>r. visible d r \<and> P r) (reservations d)))"
    and ex: "map f (filter (\<lambda>r. visible d r \<and> P r) (reservations d)) \<noteq> [] \<longrightarrow> no_overlap (map ?g (reservations d))"
    using up by (auto simp: update_where_def Let_def split: if_splits)
  have ids: "map r_id (map ?g (reservations d)) = map r_id (reservations d)"
    using step by (auto simp: same_booking_def)
  have rows: "list_all row_ok (map ?g (reservations d))"
    using changed ok by (auto simp: list_all_iff db_ok_def)
  have excl: "no_overlap (map ?g (reservations d))"
  proof (cases "filter (\<lambda>r. visible d r \<and> P r) (reservations d) = []")
    case True
    then have "map ?g (reservations d) = reservations d"
      by (intro map_idI) (auto simp: filter_empty_conv)
    then show ?thesis using ok by (simp add: db_ok_def)
  qed (use ex in simp)
  have fk: "\<forall>r\<in>set (map ?g (reservations d)). \<exists>s\<in>set (resources d). s_id s = r_resource r \<and> s_org s = r_org r"
    using ok step by (auto simp: db_ok_def same_booking_def)
  have "distinct (map r_id (map ?g (reservations d)))"
    unfolding ids using ok by (simp add: db_ok_def)
  then have "db_ok d'"
    unfolding db_ok_def d' using rows excl fk by (simp del: map_map)
  moreover have "list_all2 (row_step (tenant d)) (reservations d) (map ?g (reservations d))"
    using step by (auto simp: list_all2_map2 row_step_def visible_def intro!: list.rel_refl_strong)
  ultimately show ?thesis
    using evolvesI [of d' d "map ?g (reservations d)" "[]"] by (simp add: d')
qed

lemma one_row_Inr: "one_row res = Inr (r, d) \<Longrightarrow> \<exists>rs. res = Inr (r # rs, d)"
  by (auto simp: one_row_def split: sum.splits prod.splits list.splits)

text \<open>The contract every domain command's query meets: it keeps the invariant and moves rows legally.\<close>

locale transition_act =
  fixes act :: "row \<Rightarrow> db \<Rightarrow> res_error + (row \<times> db)"
  assumes legal: "db_ok d \<Longrightarrow> act cur d = Inr (r, d') \<Longrightarrow> db_ok d' \<and> evolves (tenant d) d d'"

interpretation checkout: transition_act
  "\<lambda>cur d. if now < r_start cur then Inl ErrNotStarted else CheckOutReservation t (r_id cur) d" for now t
  by unfold_locales
    (auto simp: CheckOutReservation_def same_booking_def intro: edge.intros
      dest!: one_row_Inr update_where_ok split: if_splits)

interpretation giveback: transition_act "\<lambda>cur d. ReturnReservation t (r_id cur) nt photo d" for t nt photo
  by unfold_locales
    (auto simp: ReturnReservation_def same_booking_def intro: edge.intros dest!: one_row_Inr update_where_ok
      split: if_splits)

interpretation cancel: transition_act "\<lambda>cur d. CancelReservation t (r_id cur) d" for t
  by unfold_locales
    (auto simp: CancelReservation_def same_booking_def intro: edge.intros dest!: one_row_Inr update_where_ok)

lemma MarkNoShows_ok:
  assumes "MarkNoShows now cutoff d = Inr (rs, d')" and "db_ok d"
  shows "db_ok d' \<and> evolves (tenant d) d d'"
  using update_where_ok [OF assms(1) [unfolded MarkNoShows_def] assms(2)]
  by (auto simp: same_booking_def intro: edge.intros)

lemma CreateReservation_ok:
  assumes c: "CreateReservation now i res h note s e d = Inr (r, d')" and ok: "db_ok d"
  shows "db_ok d' \<and> evolves (tenant d) d d'"
proof -
  obtain org where t: "tenant d = Some org" using c by (auto simp: CreateReservation_def split: option.splits)
  have r: "r_state r = StateBooked" "r_org r = org" "r_id r = i" "r_resource r = res" "row_ok r"
    and d': "d' = d\<lparr>reservations := reservations d @ [r]\<rparr>"
    and fresh: "i \<notin> r_id ` set (reservations d)"
    and free: "\<not> list_ex (\<lambda>q. live q \<and> overlaps r q) (reservations d)"
    and fk: "list_ex (\<lambda>s. s_id s = res \<and> s_org s = org) (resources d)"
    using c t by (auto simp: CreateReservation_def Let_def split: if_splits)
  have sym: "overlaps r q \<longleftrightarrow> overlaps q r" for q r by (auto simp: overlaps_def)
  have "no_overlap (reservations d @ [r])"
    using ok free sym by (auto simp: no_overlap_def db_ok_def list_ex_iff)
  then have "db_ok d'"
    using ok r fresh fk by (auto simp: db_ok_def d' list_ex_iff)
  moreover have "evolves (tenant d) d d'"
    using r t by (intro evolvesI [of _ _ "reservations d" "[r]"]) (simp_all add: d' rows_refl)
  ultimately show ?thesis by blast
qed

section \<open>Bodies and commands\<close>

lemma keeps_tablesD:
  "keeps_tables (Some g) \<Longrightarrow> g x d = Inr d' \<Longrightarrow>
     reservations d' = reservations d \<and> resources d' = resources d \<and> tenant d' = tenant d"
  by (auto simp: keeps_tables_def)

lemma record_frame:
  "framed p \<Longrightarrow> recordAndEnqueue p action who res d = Inr d' \<Longrightarrow>
     reservations d' = reservations d \<and> resources d' = resources d \<and> tenant d' = tenant d"
  by (auto simp: recordAndEnqueue_def framed_def split: option.splits dest!: keeps_tablesD)

lemma notify_frame:
  "framed p \<Longrightarrow> notifyNoShow p res d = Inr d' \<Longrightarrow>
     reservations d' = reservations d \<and> resources d' = resources d \<and> tenant d' = tenant d"
  by (auto simp: notifyNoShow_def framed_def split: option.splits dest!: keeps_tablesD)

lemma schedule_frame:
  assumes "framed p" and "scheduleConfirmationAndReminder p org res d = Inr d'"
  shows "reservations d' = reservations d \<and> resources d' = resources d \<and> tenant d' = tenant d"
proof (cases "dep_Jobs p")
  case (Some g)
  with assms(1) have k: "keeps_tables (Some g)" by (simp add: framed_def)
  show ?thesis
    using assms(2) Some
    by (auto simp: scheduleConfirmationAndReminder_def Let_def split: sum.splits if_splits
        dest!: keeps_tablesD [OF k])
qed (use assms in \<open>simp add: scheduleConfirmationAndReminder_def\<close>)

lemma sweep_frame:
  "framed p \<Longrightarrow> sweep_effects p rs d = Inr d' \<Longrightarrow>
     reservations d' = reservations d \<and> resources d' = resources d \<and> tenant d' = tenant d"
proof (induction p rs d rule: sweep_effects.induct)
  case (2 p r rs d)
  from "2.prems"(2) obtain d1 d2 where e: "recordAndEnqueue p ActionNoShow [] (toReservation p r) d = Inr d1"
    "notifyNoShow p (toReservation p r) d1 = Inr d2" "sweep_effects p rs d2 = Inr d'"
    by (auto split: sum.splits)
  show ?case
    using record_frame [OF "2.prems"(1) e(1)] notify_frame [OF "2.prems"(1) e(2)]
      "2.IH" [OF e(1,2) "2.prems"(1) e(3)] by simp
qed simp

text \<open>A body keeps the invariant and evolves the table for the tenant it runs under.\<close>

definition body_ok :: "body \<Rightarrow> bool" where
  "body_ok bdy \<longleftrightarrow>
     (\<forall>d rows n d'. db_ok d \<and> bdy d = Inr (rows, n, d') \<longrightarrow> db_ok d' \<and> evolves (tenant d) d d')"

lemma create_body_ok:
  assumes "framed p"
  shows "body_ok (create_body p org req res h note)"
  unfolding body_ok_def
proof (intro allI impI, elim conjE)
  fix d rows n d'
  assume ok: "db_ok d" and run: "create_body p org req res h note d = Inr (rows, n, d')"
  then obtain r d1 d2 where c: "CreateReservation (dep_sqlNow p) (dep_freshID p d) res h note
        (dep_storeTime p (req_StartsAt req)) (dep_storeTime p (req_EndsAt req)) d = Inr (r, d1)"
    and e: "recordAndEnqueue p ActionCreated (req_HolderID req) (toReservation p r) d1 = Inr d2"
    and j: "scheduleConfirmationAndReminder p org (toReservation p r) d2 = Inr d'"
    by (auto simp: create_body_def split: sum.splits)
  from CreateReservation_ok [OF c ok] show "db_ok d' \<and> evolves (tenant d) d d'"
    using record_frame [OF assms e] schedule_frame [OF assms j] db_ok_tables [of d' d1] evolves_tables [of d' d1]
    by simp
qed

lemma sweep_body_ok:
  assumes "framed p"
  shows "body_ok (sweep_body p cutoff)"
  unfolding body_ok_def
proof (intro allI impI, elim conjE)
  fix d rows n d'
  assume ok: "db_ok d" and run: "sweep_body p cutoff d = Inr (rows, n, d')"
  then obtain d1 where m: "MarkNoShows (dep_sqlNow p) (map_option (dep_storeTime p) (timestamptz cutoff)) d = Inr (rows, d1)"
    and e: "sweep_effects p rows d1 = Inr d'"
    by (auto simp: sweep_body_def split: sum.splits)
  from MarkNoShows_ok [OF m ok] show "db_ok d' \<and> evolves (tenant d) d d'"
    using sweep_frame [OF assms e] db_ok_tables [of d' d1] evolves_tables [of d' d1] by simp
qed

lemma within_ok:
  assumes "transactional p" and "body_ok bdy" and "db_ok d" and "dep_within p org bdy d = (res, d')"
  shows "db_ok d' \<and> evolves (dep_parseUUID p org) d d' \<and> (\<forall>e. res = Inl e \<longrightarrow> d' = d)"
proof -
  consider (failed) e where "dep_within p org bdy d = (Inl e, d)"
    | (ran) rows n d1 where "bdy (d\<lparr>tenant := dep_parseUUID p org\<rparr>) = Inr (rows, n, d1)"
        "dep_within p org bdy d = (Inr (rows, n), d1\<lparr>tenant := tenant d\<rparr>)"
    using assms(1) unfolding transactional_def by blast
  then show ?thesis
  proof cases
    case failed
    then show ?thesis using assms(3,4) by (simp add: evolves_refl)
  next
    case ran
    let ?d = "d\<lparr>tenant := dep_parseUUID p org\<rparr>"
    have "db_ok ?d" using assms(3) by (simp add: db_ok_def)
    then have "db_ok d1 \<and> evolves (tenant ?d) ?d d1" using assms(2) ran(1) unfolding body_ok_def by blast
    then have "db_ok (d1\<lparr>tenant := tenant d\<rparr>)" "evolves (dep_parseUUID p org) d (d1\<lparr>tenant := tenant d\<rparr>)"
      using db_ok_tables [of "d1\<lparr>tenant := tenant d\<rparr>" d1] by (simp_all add: evolves_def)
    then show ?thesis using ran(2) assms(4) by simp
  qed
qed

text \<open>The commands that change the table, as one type, with the tenant each runs for.\<close>

datatype command =
    CmdCreate string request
  | CmdCheckOut string string actor
  | CmdReturn string string actor string string
  | CmdCancel string string actor
  | CmdSweep string time
  | CmdNoShowCheck string string

fun cmd_org :: "command \<Rightarrow> string" where
  "cmd_org (CmdCreate o' _) = o'"
| "cmd_org (CmdCheckOut o' _ _) = o'"
| "cmd_org (CmdReturn o' _ _ _ _) = o'"
| "cmd_org (CmdCancel o' _ _) = o'"
| "cmd_org (CmdSweep o' _) = o'"
| "cmd_org (CmdNoShowCheck o' _) = o'"

fun run :: "deps \<Rightarrow> command \<Rightarrow> db \<Rightarrow> bool \<times> db" where
  "run p (CmdCreate o' req) d = map_prod isl id (Create p o' req d)"
| "run p (CmdCheckOut o' i a) d = map_prod isl id (CheckOut p o' i a d)"
| "run p (CmdReturn o' i a n k) d = map_prod isl id (Return p o' i a n k d)"
| "run p (CmdCancel o' i a) d = map_prod isl id (Cancel p o' i a d)"
| "run p (CmdSweep o' c) d = map_prod isl id (SweepNoShows p o' c d)"
| "run p (CmdNoShowCheck o' i) d = map_prod (\<lambda>e. e \<noteq> None) id (noShowCheck_Work p o' i d)"

definition kept :: "deps \<Rightarrow> string \<Rightarrow> db \<Rightarrow> bool \<Rightarrow> db \<Rightarrow> bool" where
  "kept p org d failed d' \<longleftrightarrow> db_ok d' \<and> evolves (dep_parseUUID p org) d d' \<and> (failed \<longrightarrow> d' = d)"

lemma kept_refl: "db_ok d \<Longrightarrow> kept p org d f d"
  by (simp add: kept_def evolves_refl)

context transition_act
begin

lemma transition_body_ok:
  assumes "framed p"
  shows "body_ok (transition_body p a required action act i)"
  unfolding body_ok_def
proof (intro allI impI, elim conjE)
  fix d rows n d'
  assume ok: "db_ok d" and run: "transition_body p a required action act i d = Inr (rows, n, d')"
  then obtain cur r d1 where a: "act cur d = Inr (r, d1)"
    and e: "recordAndEnqueue p action (UserID a) (toReservation p r) d1 = Inr d'"
    by (auto simp: transition_body_def split: sum.splits if_splits)
  from legal [OF ok a] show "db_ok d' \<and> evolves (tenant d) d d'"
    using record_frame [OF assms e] db_ok_tables evolves_tables by blast
qed

lemma transition_kept:
  assumes "transactional p" "framed p" "db_ok d"
    and "transition p org i a required action act d = (res, d')"
  shows "kept p org d (isl res) d'"
  using assms(4) kept_refl [OF assms(3), of p org]
    within_ok [OF assms(1) transition_body_ok [OF assms(2)] assms(3), of org a required action]
  by (auto simp: transition_def kept_def split: option.splits sum.splits prod.splits)

end

lemma CheckOut_kept:
  assumes "transactional p" "framed p" "db_ok d" and "CheckOut p org i a d = (res, d')"
  shows "kept p org d (isl res) d'"
  using checkout.transition_kept [OF assms(1-3)] assms(4) by (simp add: CheckOut_def)

lemma Cancel_kept:
  assumes "transactional p" "framed p" "db_ok d" and "Cancel p org i a d = (res, d')"
  shows "kept p org d (isl res) d'"
  using cancel.transition_kept [OF assms(1-3)] assms(4) by (simp add: Cancel_def)

lemma Return_kept:
  assumes "transactional p" "framed p" "db_ok d" and "Return p org i a n k d = (res, d')"
  shows "kept p org d (isl res) d'"
  using assms(4) kept_refl [OF assms(3), of p org] giveback.transition_kept [OF assms(1-3)]
  by (auto simp: Return_def Let_def split: if_splits)

lemma Create_kept:
  assumes "transactional p" "framed p" "db_ok d" and "Create p org req d = (res, d')"
  shows "kept p org d (isl res) d'"
  using assms(4) kept_refl [OF assms(3), of p org]
    within_ok [OF assms(1) create_body_ok [OF assms(2)] assms(3), of org org req]
  by (auto simp: Create_def kept_def Let_def split: option.splits sum.splits prod.splits if_splits)

lemma Sweep_kept:
  assumes "transactional p" "framed p" "db_ok d" and "SweepNoShows p org cutoff d = (res, d')"
  shows "kept p org d (isl res) d'"
  using assms(4) within_ok [OF assms(1) sweep_body_ok [OF assms(2)] assms(3), of org cutoff]
  by (auto simp: SweepNoShows_def kept_def split: sum.splits prod.splits)

lemma Get_unchanged:
  assumes "transactional p" and "Get p org i d = (res, d')"
  shows "d' = d"
proof -
  have within: "snd (dep_within p org bdy d) = d"
    if bdy: "\<And>e rows n e'. bdy e = Inr (rows, n, e') \<Longrightarrow> e' = e" for bdy
  proof -
    consider e where "dep_within p org bdy d = (Inl e, d)"
      | rows n d1 where "bdy (d\<lparr>tenant := dep_parseUUID p org\<rparr>) = Inr (rows, n, d1)"
          "dep_within p org bdy d = (Inr (rows, n), d1\<lparr>tenant := tenant d\<rparr>)"
      using assms(1) unfolding transactional_def by blast
    then show ?thesis
    proof cases
      case (2 rows n d1)
      with bdy have "d1 = d\<lparr>tenant := dep_parseUUID p org\<rparr>" by blast
      with 2 show ?thesis by simp
    qed simp
  qed
  show ?thesis
  proof (cases "parseUUID p i")
    case (Some u)
    define bdy where "bdy = (\<lambda>d. case GetReservation u d of Inl e \<Rightarrow> Inl e | Inr r \<Rightarrow> Inr ([r], 0 :: nat, d))"
    have "snd (dep_within p org bdy d) = d"
      by (rule within) (auto simp: bdy_def split: sum.splits)
    then show ?thesis
      using assms(2) Some by (auto simp: Get_def bdy_def split: sum.splits prod.splits)
  qed (use assms(2) in \<open>simp add: Get_def\<close>)
qed

lemma run_kept:
  assumes t: "transactional p" and f: "framed p" and ok: "db_ok d" and run: "run p c d = (failed, d')"
  shows "kept p (cmd_org c) d failed d'"
proof (cases c)
  case (CmdCreate o' req)
  then show ?thesis using run Create_kept [OF t f ok surjective_pairing, of o' req] by (auto simp: prod_eq_iff)
next
  case (CmdCheckOut o' i a)
  then show ?thesis using run CheckOut_kept [OF t f ok surjective_pairing, of o' i a] by (auto simp: prod_eq_iff)
next
  case (CmdReturn o' i a n k)
  then show ?thesis using run Return_kept [OF t f ok surjective_pairing, of o' i a n k] by (auto simp: prod_eq_iff)
next
  case (CmdCancel o' i a)
  then show ?thesis using run Cancel_kept [OF t f ok surjective_pairing, of o' i a] by (auto simp: prod_eq_iff)
next
  case (CmdSweep o' cut)
  then show ?thesis using run Sweep_kept [OF t f ok surjective_pairing, of o' cut] by (auto simp: prod_eq_iff)
next
  case (CmdNoShowCheck o' i)
  obtain res d1 where g: "Get p o' i d = (res, d1)" by (cases "Get p o' i d")
  have d1: "d1 = d" using Get_unchanged [OF t g] .
  have sweep: "kept p o' d (isl r2) d2" if "SweepNoShows p o' cut d = (r2, d2)" for cut r2 d2
    using Sweep_kept [OF t f ok that] .
  have "noShowCheck_Work p o' i d = (e, d') \<Longrightarrow> kept p o' d (e \<noteq> None) d'" for e
    using sweep kept_refl [OF ok]
    by (auto simp: noShowCheck_Work_def g d1 split: sum.splits if_splits prod.splits) force+
  then show ?thesis using run CmdNoShowCheck by (cases "noShowCheck_Work p o' i d") auto
qed

section \<open>Histories\<close>

definition run_all :: "deps \<Rightarrow> command list \<Rightarrow> db \<Rightarrow> db" where
  "run_all p cs d = fold (\<lambda>c d. snd (run p c d)) cs d"

text \<open>A row and what became of it: the same booking, further along the diagram, untouched by other tenants.\<close>

definition descends :: "deps \<Rightarrow> command list \<Rightarrow> row \<Rightarrow> row \<Rightarrow> bool" where
  "descends p cs r q \<longleftrightarrow>
     same_booking r q \<and> edge\<^sup>*\<^sup>* (r_state r) (r_state q) \<and>
     ((\<forall>c\<in>set cs. dep_parseUUID p (cmd_org c) \<noteq> Some (r_org r)) \<longrightarrow> q = r)"

lemma row_step_descends: "row_step (dep_parseUUID p (cmd_org c)) r q \<Longrightarrow> descends p [c] r q"
  by (auto simp: row_step_def descends_def same_booking_def)

lemma descends_trans:
  assumes "descends p [c] r q" and "descends p cs q s"
  shows "descends p (c # cs) r s"
proof -
  have "r_org q = r_org r" using assms(1) by (simp add: descends_def same_booking_def)
  with assms show ?thesis
    by (auto simp: descends_def same_booking_def intro: rtranclp_trans)
qed

lemma evolves_descends:
  assumes "evolves (dep_parseUUID p (cmd_org c)) d d'" and "r \<in> set (reservations d)"
  shows "\<exists>q\<in>set (reservations d'). descends p [c] r q"
proof -
  obtain old new where d': "reservations d' = old @ new"
    and steps: "list_all2 (row_step (dep_parseUUID p (cmd_org c))) (reservations d) old"
    using assms(1) unfolding evolves_def by blast
  from assms(2) obtain i where i: "i < length (reservations d)" "reservations d ! i = r"
    by (auto simp: in_set_conv_nth)
  then have "row_step (dep_parseUUID p (cmd_org c)) r (old ! i)" "old ! i \<in> set old"
    using steps list_all2_lengthD [OF steps] by (auto simp: list_all2_conv_all_nth)
  then have "descends p [c] r (old ! i)" "old ! i \<in> set (reservations d')"
    using row_step_descends d' by (blast, simp)
  then show ?thesis by blast
qed

lemma run_kept_snd:
  assumes "transactional p" "framed p" "db_ok d"
  shows "kept p (cmd_org c) d (fst (run p c d)) (snd (run p c d))"
  using run_kept [OF assms surjective_pairing] .

lemma run_all_Cons [simp]: "run_all p (c # cs) d = run_all p cs (snd (run p c d))"
  by (simp add: run_all_def)

section \<open>A collaborator set that records\<close>

definition sample_parse :: "string \<Rightarrow> uuid option" where
  "sample_parse s = (if s \<noteq> [] \<and> list_all is_digit s \<and> length s \<le> 30 then Some (word_of_nat (digits_val s)) else None)"

definition sample_deps :: deps where
  "sample_deps =
     \<lparr>dep_parseUUID = sample_parse,
      dep_uuidString = (\<lambda>u. show_nat (unat u)),
      dep_storeTime = (\<lambda>t. t),
      dep_within = (\<lambda>org bdy d.
        case bdy (d\<lparr>tenant := sample_parse org\<rparr>) of
          Inl e \<Rightarrow> (Inl e, d)
        | Inr (rows, n, d') \<Rightarrow> (Inr (rows, n), d'\<lparr>tenant := tenant d\<rparr>)),
      dep_now = 1000000000000, dep_sqlNow = 1000000000000,
      dep_freshID = (\<lambda>d. word_of_nat (length (reservations d) + 1)),
      dep_Audit = Some (\<lambda>e d. Inr (d\<lparr>effects := effects d @ [Inl e]\<rparr>)),
      dep_Jobs = Some (\<lambda>j d. Inr (d\<lparr>effects := effects d @ [Inr (Inl j)]\<rparr>)),
      dep_Notify = Some (\<lambda>n d. Inr (d\<lparr>effects := effects d @ [Inr (Inr n)]\<rparr>))\<rparr>"

lemma sample_transactional: "transactional sample_deps"
  by (auto simp: transactional_def sample_deps_def split: sum.splits)

lemma sample_framed: "framed sample_deps"
  by (auto simp: framed_def keeps_tables_def sample_deps_def)

definition sample_db :: db where
  "sample_db = \<lparr>reservations = [], resources = [\<lparr>s_id = 7, s_org = 1, s_retired_at = Some 5\<rparr>],
     tenant = None, effects = []\<rparr>"

definition sample_request :: request where
  "sample_request = \<lparr>req_ResourceID = ''7'', req_HolderID = ''3'', req_StartsAt = 1000000000000,
     req_EndsAt = 5000000000000, req_Note = ''  lens ''\<rparr>"

definition sample_actor :: actor where
  "sample_actor = \<lparr>UserID = ''3'', MayManageOthers = False\<rparr>"

lemma sample_db_ok: "db_ok sample_db"
  by (simp add: db_ok_def sample_db_def no_overlap_def)

section \<open>Safety\<close>

text \<open>
  C5: For every sequence of reservation commands, whatever the collaborators answer, no two live
  reservations of one resource overlap and the table keeps its constraints; every reservation is still
  there as the same booking, in a state reached along the edges of the package's diagram only (so a
  finished one never changes state again); and a reservation no command's tenant owns is unchanged.
\<close>

theorem reservation_history_safe:
  assumes "transactional p" and "framed p" and "db_ok d"
  shows "db_ok (run_all p cs d) \<and>
     (\<forall>r\<in>set (reservations d). \<exists>q\<in>set (reservations (run_all p cs d)). descends p cs r q)"
  using assms(3)
proof (induction cs arbitrary: d)
  case Nil
  then show ?case by (auto simp: run_all_def descends_def same_booking_def)
next
  case (Cons c cs)
  let ?d = "snd (run p c d)"
  have k: "db_ok ?d" "evolves (dep_parseUUID p (cmd_org c)) d ?d"
    using run_kept_snd [OF assms(1,2) Cons.prems, of c] by (simp_all add: kept_def)
  show ?case
    unfolding run_all_Cons using Cons.IH [OF k(1)] evolves_descends [OF k(2)] descends_trans by metis
qed

definition sample_history :: "command list" where
  "sample_history =
     [CmdCreate ''1'' sample_request, CmdCreate ''1'' sample_request, CmdCheckOut ''1'' ''1'' sample_actor,
      CmdCancel ''1'' ''1'' sample_actor, CmdReturn ''1'' ''1'' sample_actor ''scratched'' []]"

theorem reservation_history_safe_witness:
  "db_ok (run_all sample_deps sample_history sample_db) \<and>
     map r_state (reservations (run_all sample_deps sample_history sample_db)) = [StateReturned] \<and>
     length (effects (run_all sample_deps sample_history sample_db)) = 5"
proof -
  have "map r_state (reservations (run_all sample_deps sample_history sample_db)) = [StateReturned] \<and>
     length (effects (run_all sample_deps sample_history sample_db)) = 5"
    by code_simp
  then show ?thesis
    using reservation_history_safe [OF sample_transactional sample_framed sample_db_ok] by simp
qed

end
