(* ===== verification/Reservation_Commands.thy ===== *)
theory Reservation_Commands
  imports Reservation_Safety
begin

text \<open>
  The exact outcome of the domain commands.  \<open>transition_spec\<close> is the contract of check-out, return and
  cancel with no SQL in it: who may act, in which state, and the one row that changes.  The commands of
  \<open>reservation.go\<close> refine it on every table that keeps its invariant: neither a CHECK nor the exclusion
  constraint can refuse them, and the second, in-database state test never fires.
\<close>

section \<open>The contract\<close>

text \<open>The tenant transaction runner with a working database: the callback's own result decides.\<close>

definition commits :: "deps \<Rightarrow> string \<Rightarrow> bool" where
  "commits p org \<longleftrightarrow>
     (\<forall>bdy d. dep_within p org bdy d =
        (case bdy (d\<lparr>tenant := dep_parseUUID p org\<rparr>) of
           Inl e \<Rightarrow> (Inl e, d)
         | Inr (rows, n, d') \<Rightarrow> (Inr (rows, n), d'\<lparr>tenant := tenant d\<rparr>)))"

definition owned :: "deps \<Rightarrow> string \<Rightarrow> uuid \<Rightarrow> db \<Rightarrow> row option" where
  "owned p org i d = List.find (\<lambda>r. dep_parseUUID p org = Some (r_org r) \<and> r_id r = i) (reservations d)"

definition replace :: "(row \<Rightarrow> row) \<Rightarrow> uuid \<Rightarrow> db \<Rightarrow> db" where
  "replace g i d = d\<lparr>reservations := map (\<lambda>q. if r_id q = i then g q else q) (reservations d)\<rparr>"

text \<open>An error the command passes on as it is, or wraps.\<close>

definition passed_on :: "res_error \<Rightarrow> res_error" where
  "passed_on e = (if root e \<in> {ErrNotFound, ErrNotHolder, ErrWrongState, ErrNotStarted} then e else Wrapped e)"

definition transition_spec ::
  "deps \<Rightarrow> string \<Rightarrow> uuid \<Rightarrow> actor \<Rightarrow> string \<Rightarrow> string \<Rightarrow> (row \<Rightarrow> bool) \<Rightarrow> (row \<Rightarrow> row) \<Rightarrow> db \<Rightarrow>
     (res_error + reservation) \<times> db" where
  "transition_spec p org i a required action early g d =
     (case owned p org i d of
        None \<Rightarrow> (Inl ErrNotFound, d)
      | Some r \<Rightarrow>
          if \<not> mayAct a (dep_uuidString p (r_holder r)) then (Inl ErrNotHolder, d)
          else if r_state r \<noteq> required then (Inl ErrWrongState, d)
          else if early r then (Inl ErrNotStarted, d)
          else
            (case recordAndEnqueue p action (UserID a) (toReservation p (g r))
                    (replace g i (d\<lparr>tenant := dep_parseUUID p org\<rparr>)) of
               Inl e \<Rightarrow> (Inl (passed_on e), d)
             | Inr d' \<Rightarrow> (Inr (toReservation p (g r)), d'\<lparr>tenant := tenant d\<rparr>)))"

section \<open>Refinement\<close>

text \<open>What each command's assignment must satisfy for the schema to accept it.\<close>

definition admissible :: "string \<Rightarrow> (row \<Rightarrow> row) \<Rightarrow> bool" where
  "admissible required g \<longleftrightarrow>
     (\<forall>r. row_ok r \<and> r_state r = required \<longrightarrow>
        row_ok (g r) \<and> same_booking r (g r) \<and> (live (g r) \<longrightarrow> live r))"

lemma distinct_id:
  "db_ok d \<Longrightarrow> r \<in> set (reservations d) \<Longrightarrow> q \<in> set (reservations d) \<Longrightarrow> r_id q = r_id r \<Longrightarrow> q = r"
  by (auto simp: db_ok_def distinct_map inj_on_def)

lemma row_ok_member: "db_ok d \<Longrightarrow> r \<in> set (reservations d) \<Longrightarrow> row_ok r"
  by (auto simp: db_ok_def list_all_iff)

lemma no_overlap_map:
  assumes "no_overlap rs" and "\<And>q. q \<in> set rs \<Longrightarrow> same_booking q (h q) \<and> (live (h q) \<longrightarrow> live q)"
  shows "no_overlap (map h rs)"
  using assms unfolding no_overlap_def overlaps_def same_booking_def set_map ball_simps by metis

lemma no_overlap_replace:
  assumes ok: "db_ok d" and adm: "admissible (r_state r) g" and r: "r \<in> set (reservations d)"
  shows "no_overlap (map (\<lambda>q. if r_id q = r_id r then g q else q) (reservations d))"
proof (rule no_overlap_map)
  show "no_overlap (reservations d)" using ok by (simp add: db_ok_def)
  fix q assume "q \<in> set (reservations d)"
  with adm show "same_booking q (if r_id q = r_id r then g q else q) \<and> (live (if r_id q = r_id r then g q else q) \<longrightarrow> live q)"
    using distinct_id [OF ok r] row_ok_member [OF ok r] by (auto simp: admissible_def same_booking_def)
qed

lemma update_one:
  assumes ok: "db_ok d" and r: "r \<in> set (reservations d)" and vis: "visible d r"
    and adm: "admissible (r_state r) g"
  shows "update_where (\<lambda>q. r_id q = r_id r \<and> r_state q = r_state r) g d = Inr ([g r], replace g (r_id r) d)"
proof -
  have sel: "visible d q \<and> r_id q = r_id r \<and> r_state q = r_state r \<longleftrightarrow> r_id q = r_id r"
    if "q \<in> set (reservations d)" for q
    using distinct_id [OF ok r that] vis by auto
  have "filter (\<lambda>q. r_id q = r_id r) (reservations d) = [r]"
    using ok r by (simp add: db_ok_def filter_by_key)
  then have hit: "filter (\<lambda>q. visible d q \<and> r_id q = r_id r \<and> r_state q = r_state r) (reservations d) = [r]"
    using sel by (simp cong: filter_cong)
  have rows: "map (\<lambda>q. if visible d q \<and> r_id q = r_id r \<and> r_state q = r_state r then g q else q) (reservations d)
      = map (\<lambda>q. if r_id q = r_id r then g q else q) (reservations d)"
    using sel by (intro map_cong) simp_all
  have "row_ok (g r)" using adm row_ok_member [OF ok r] by (simp add: admissible_def)
  then show ?thesis
    using no_overlap_replace [OF ok adm r] by (simp add: update_where_def hit rows replace_def Let_def)
qed

lemma transition_refines:
  assumes run: "commits p org" and ok: "db_ok d" and i: "parseUUID p rid = Some i"
    and act: "\<And>cur d. act cur d = (if early cur then Inl ErrNotStarted
          else one_row (update_where (\<lambda>r. r_id r = r_id cur \<and> r_state r = required) g d))"
    and adm: "admissible required g"
  shows "transition p org rid a required action act d = transition_spec p org i a required action early g d"
proof -
  let ?d = "d\<lparr>tenant := dep_parseUUID p org\<rparr>"
  have ok': "db_ok ?d" using ok by (simp add: db_ok_def)
  have found: "GetReservationForUpdate i ?d = (case owned p org i d of None \<Rightarrow> Inl ErrNoRows | Some r \<Rightarrow> Inr r)"
    by (simp add: GetReservationForUpdate_def GetReservation_def owned_def visible_def)
  have upd: "act r ?d = Inr (g r, replace g i ?d)"
    if "owned p org i d = Some r" "r_state r = required" "\<not> early r" for r
  proof -
    from that(1) have "r \<in> set (reservations ?d)" "visible ?d r" "r_id r = i"
      by (auto simp: owned_def visible_def find_Some_iff)
    with update_one [OF ok', of r g] that adm show ?thesis by (simp add: act one_row_def)
  qed
  show ?thesis
    using run upd act
    by (simp add: transition_def transition_body_def transition_spec_def commits_def i found passed_on_def
        split: option.split sum.split)
qed

text \<open>The three assignments are admissible.\<close>

lemma admissible_checkout:
  "admissible StateBooked (\<lambda>r. r\<lparr>r_state := StateCheckedOut, r_checked_out_at := Some t, r_updated_at := t\<rparr>)"
  using state_distinct by (auto simp: admissible_def row_ok_def same_booking_def live_def State_valid_def)

lemma admissible_cancel:
  "admissible StateBooked (\<lambda>r. r\<lparr>r_state := StateCancelled, r_cancelled_at := Some t, r_updated_at := t\<rparr>)"
  using state_distinct by (auto simp: admissible_def row_ok_def same_booking_def live_def State_valid_def)

lemma admissible_return:
  assumes "rune_count nt \<le> MaxNoteBytes" and "rune_count key \<le> MaxPhotoKeyBytes"
  shows "admissible StateCheckedOut
     (\<lambda>r. r\<lparr>r_state := StateReturned, r_returned_at := Some t, r_return_note := nt,
            r_photo := (if key \<noteq> [] then Some key else None), r_updated_at := t\<rparr>)"
  using assms state_distinct rune_count_pos [of key]
  by (auto simp: admissible_def row_ok_def same_booking_def live_def State_valid_def)

section \<open>The sweep\<close>

definition due :: "deps \<Rightarrow> string \<Rightarrow> time \<Rightarrow> row \<Rightarrow> bool" where
  "due p org cutoff r \<longleftrightarrow>
     dep_parseUUID p org = Some (r_org r) \<and> r_state r = StateBooked \<and> r_end r \<le> dep_storeTime p cutoff"

definition missed :: "deps \<Rightarrow> row \<Rightarrow> row" where
  "missed p r = r\<lparr>r_state := StateNoShow, r_updated_at := dep_sqlNow p\<rparr>"

lemma missed_admissible:
  "row_ok r \<Longrightarrow> r_state r = StateBooked \<Longrightarrow> row_ok (missed p r) \<and> same_booking r (missed p r) \<and> \<not> live (missed p r)"
  using state_distinct by (auto simp: missed_def row_ok_def same_booking_def live_def State_valid_def)

lemma MarkNoShows_exact:
  assumes ok: "db_ok d" and t: "tenant d = dep_parseUUID p org"
  shows "MarkNoShows (dep_sqlNow p) (Some (dep_storeTime p cutoff)) d =
     Inr (map (missed p) (filter (due p org cutoff) (reservations d)),
       d\<lparr>reservations := map (\<lambda>r. if due p org cutoff r then missed p r else r) (reservations d)\<rparr>)"
proof -
  have sel: "visible d r \<and> r_state r = StateBooked \<and> r_end r \<le> dep_storeTime p cutoff \<longleftrightarrow> due p org cutoff r" for r
    by (simp add: visible_def due_def t)
  have upd: "(\<lambda>r. r\<lparr>r_state := StateNoShow, r_updated_at := dep_sqlNow p\<rparr>) = missed p"
    by (simp add: fun_eq_iff missed_def)
  have "no_overlap (map (\<lambda>r. if due p org cutoff r then missed p r else r) (reservations d))"
    using ok missed_admissible
    by (intro no_overlap_map) (auto simp: db_ok_def due_def list_all_iff same_booking_def)
  moreover have "list_all row_ok (map (missed p) (filter (due p org cutoff) (reservations d)))"
    using ok missed_admissible by (auto simp: db_ok_def list_all_iff due_def)
  ultimately show ?thesis
    by (simp add: MarkNoShows_def update_where_def sel upd Let_def)
qed

section \<open>Properties\<close>

lemma sample_commits: "commits sample_deps org"
  by (simp add: commits_def sample_deps_def)

definition booked_row :: row where
  "booked_row = \<lparr>r_id = 1, r_org = 1, r_resource = 7, r_holder = 3, r_start = 1000000000000,
     r_end = 5000000000000, r_state = StateBooked, r_note = ''lens'', r_return_note = [], r_photo = None,
     r_checked_out_at = None, r_returned_at = None, r_cancelled_at = None, r_created_at = 4, r_updated_at = 5\<rparr>"

definition booked_db :: db where
  "booked_db = sample_db\<lparr>reservations := [booked_row]\<rparr>"

definition out_db :: db where
  "out_db = sample_db\<lparr>reservations :=
     [booked_row\<lparr>r_state := StateCheckedOut, r_checked_out_at := Some 1000000000000\<rparr>]\<rparr>"

lemma booked_row_ok: "row_ok booked_row"
  by code_simp

lemma booked_db_ok: "db_ok booked_db"
  using booked_row_ok
  by (simp add: db_ok_def booked_db_def sample_db_def no_overlap_def) (simp add: booked_row_def)

lemma out_db_ok: "db_ok out_db"
proof -
  have "row_ok (booked_row\<lparr>r_state := StateCheckedOut, r_checked_out_at := Some 1000000000000\<rparr>)"
    by code_simp
  then show ?thesis
    by (simp add: db_ok_def out_db_def sample_db_def no_overlap_def) (simp add: booked_row_def)
qed

text \<open>
  C22: On a table that keeps its invariant, check-out does exactly this: no such row for the tenant, not
  the holder, not booked and not yet started are refused in that order with nothing changed; otherwise
  that one row is checked out at the database's time and the change is audited in the same transaction,
  and only a failing audit can undo it.
\<close>

theorem CheckOut_exact:
  assumes "commits p org" and "db_ok d" and "parseUUID p rid = Some i"
  shows "CheckOut p org rid a d =
     transition_spec p org i a StateBooked ActionCheckedOut (\<lambda>r. dep_now p < r_start r)
       (\<lambda>r. r\<lparr>r_state := StateCheckedOut, r_checked_out_at := Some (dep_sqlNow p),
              r_updated_at := dep_sqlNow p\<rparr>) d"
  unfolding CheckOut_def
  by (rule transition_refines [OF assms _ admissible_checkout]) (simp add: CheckOutReservation_def)

theorem CheckOut_exact_witness:
  "fst (CheckOut sample_deps ''1'' ''1'' sample_actor booked_db) \<noteq> Inl ErrWrongState \<and>
     map r_state (reservations (snd (CheckOut sample_deps ''1'' ''1'' sample_actor booked_db))) = [StateCheckedOut]"
proof -
  have "parseUUID sample_deps ''1'' = Some 1" by code_simp
  from CheckOut_exact [OF sample_commits booked_db_ok this, of "''1''" sample_actor]
  show ?thesis
    by (rule ssubst) code_simp
qed

text \<open>
  On a table that keeps its invariant, a return with a too long note or photo key is refused before
  the transaction; otherwise, for text the database can store, it does exactly what its contract says, recording the trimmed note, the
  photo key or none, and the database's time on that one checked-out row.
\<close>

theorem Return_exact:
  assumes "commits p org" and "db_ok d" and "parseUUID p rid = Some i"
    and utf: "pg_text (trim_space raw)" "pg_text key"
  shows "Return p org rid a raw key d =
     (if rune_count (trim_space raw) > MaxNoteBytes \<or> rune_count key > MaxPhotoKeyBytes then (Inl ErrInvalid, d)
      else transition_spec p org i a StateCheckedOut ActionReturned (\<lambda>_. False)
        (\<lambda>r. r\<lparr>r_state := StateReturned, r_returned_at := Some (dep_sqlNow p), r_return_note := trim_space raw,
               r_photo := (if key \<noteq> [] then Some key else None), r_updated_at := dep_sqlNow p\<rparr>) d)"
proof (cases "rune_count (trim_space raw) > MaxNoteBytes \<or> rune_count key > MaxPhotoKeyBytes")
  case False
  then have "rune_count (trim_space raw) \<le> MaxNoteBytes" "rune_count key \<le> MaxPhotoKeyBytes" by simp_all
  note adm = admissible_return [OF this]
  show ?thesis
    using False utf transition_refines [OF assms(1-3) _ adm]
    by (simp add: Return_def ReturnReservation_def)
qed (auto simp: Return_def Let_def)

theorem Return_exact_witness:
  "map r_return_note (reservations (snd (Return sample_deps ''1'' ''1'' sample_actor '' bent '' [] out_db))) = [''bent''] \<and>
     fst (Return sample_deps ''1'' ''1'' (sample_actor\<lparr>UserID := ''4''\<rparr>) '' bent '' [] out_db) = Inl ErrNotHolder"
proof -
  have i: "parseUUID sample_deps ''1'' = Some 1" by code_simp
  have utf: "pg_text (trim_space '' bent '')" "pg_text []" by code_simp+
  show ?thesis
    unfolding Return_exact [OF sample_commits out_db_ok i utf] by code_simp
qed

text \<open>
  Cancelling does exactly what its contract says: only the holder or somebody who may manage others'
  reservations, only while it is booked, and then exactly that row is cancelled.
\<close>

theorem Cancel_exact:
  assumes "commits p org" and "db_ok d" and "parseUUID p rid = Some i"
  shows "Cancel p org rid a d =
     transition_spec p org i a StateBooked ActionCancelled (\<lambda>_. False)
       (\<lambda>r. r\<lparr>r_state := StateCancelled, r_cancelled_at := Some (dep_sqlNow p), r_updated_at := dep_sqlNow p\<rparr>) d"
  unfolding Cancel_def
  by (rule transition_refines [OF assms _ admissible_cancel]) (simp add: CancelReservation_def)

theorem Cancel_exact_witness:
  "map r_state (reservations (snd (Cancel sample_deps ''1'' ''1'' sample_actor booked_db))) = [StateCancelled] \<and>
     fst (Cancel sample_deps ''1'' ''1'' sample_actor out_db) = Inl ErrWrongState"
proof -
  have i: "parseUUID sample_deps ''1'' = Some 1" by code_simp
  show ?thesis
    unfolding Cancel_exact [OF sample_commits booked_db_ok i] Cancel_exact [OF sample_commits out_db_ok i]
    by code_simp
qed

text \<open>
  On a table that keeps its invariant, a sweep marks exactly the tenant's booked reservations whose
  window ended by the cutoff, and each of them is audited as the system's act and its holder notified in
  the same transaction; the schema never refuses it, so it fails only when one of those effects fails,
  and then nothing is marked.
\<close>

theorem SweepNoShows_exact:
  assumes "commits p org" and "db_ok d" and "cutoff \<noteq> 0"
  shows "SweepNoShows p org cutoff d =
     (let marked = map (missed p) (filter (due p org cutoff) (reservations d)) in
      case sweep_effects p marked
             (d\<lparr>tenant := dep_parseUUID p org,
                reservations := map (\<lambda>r. if due p org cutoff r then missed p r else r) (reservations d)\<rparr>) of
        Inl e \<Rightarrow> (Inl (Wrapped e), d)
      | Inr d' \<Rightarrow> (Inr (map (toReservation p) marked), d'\<lparr>tenant := tenant d\<rparr>))"
proof -
  have "db_ok (d\<lparr>tenant := dep_parseUUID p org\<rparr>)" using assms(2) by (simp add: db_ok_def)
  from MarkNoShows_exact [OF this, of p org cutoff]
  show ?thesis
    using assms(1,3)
    by (simp add: SweepNoShows_def sweep_body_def commits_def timestamptz_def Let_def split: sum.split)
qed

definition two_due_db :: db where
  "two_due_db = booked_db\<lparr>reservations :=
     [booked_row, booked_row\<lparr>r_id := 2, r_holder := 4, r_start := 6000000000000, r_end := 7000000000000\<rparr>,
      booked_row\<lparr>r_id := 5, r_start := 8000000000000, r_end := 9000000000000\<rparr>]\<rparr>"

lemma two_due_db_ok: "db_ok two_due_db"
proof -
  have "list_all row_ok (reservations two_due_db)" by code_simp
  moreover have "no_overlap (reservations two_due_db)"
    by (simp add: no_overlap_def two_due_db_def booked_db_def overlaps_def booked_row_def)
  ultimately show ?thesis
    by (simp add: db_ok_def) (simp add: two_due_db_def booked_db_def sample_db_def booked_row_def)
qed

theorem SweepNoShows_exact_witness:
  "map r_state (reservations (snd (SweepNoShows sample_deps ''1'' 7000000000000 two_due_db))) =
     [StateNoShow, StateNoShow, StateBooked] \<and>
   length (effects (snd (SweepNoShows sample_deps ''1'' 7000000000000 two_due_db))) = 4"
proof -
  have c: "(7000000000000 :: time) \<noteq> 0" by simp
  show ?thesis
    unfolding SweepNoShows_exact [OF sample_commits two_due_db_ok c] by code_simp
qed

section \<open>Where the code and its comments part\<close>

text \<open>A retired resource can be booked: the foreign key the insert relies on does not read \<open>retired_at\<close>.\<close>

theorem retired_resource_bookable:
  "list_all (\<lambda>s. s_retired_at s \<noteq> None) (resources sample_db) \<and>
     \<not> isl (fst (Create sample_deps ''1'' sample_request sample_db))"
  by code_simp

text \<open>The reminder worker sends for a reservation that was cancelled.\<close>

theorem reminder_sent_for_cancelled:
  "length (snd (reminder_Work sample_deps (\<lambda>h. Inr h) (\<lambda>_. None) ''1'' ''1''
     (booked_db\<lparr>reservations :=
        [booked_row\<lparr>r_state := StateCancelled, r_cancelled_at := Some 900000000000\<rparr>]\<rparr>))) = 1"
  by code_simp

text \<open>The check enqueued for one reservation also marks another of the tenant's that ended earlier.\<close>

theorem no_show_check_marks_others:
  "map r_state (reservations (snd (noShowCheck_Work sample_deps ''1'' ''2'' two_due_db))) =
     [StateNoShow, StateNoShow, StateBooked]"
  by code_simp

end
