(* ===== verification/Paging.thy ===== *)
theory Paging
  imports Main
begin

text \<open>
  Keyset paging as the features of the reference application offer it, and the client that follows the
  cursors.  The locale \<open>keyset_listing\<close> states what a listing promises of one page; that following the
  cursors visits everything exactly once is proved here, for every feature that keeps the promise.
\<close>

section \<open>The client\<close>

text \<open>
  What a client does: ask for a page, then for the next one with the cursor it got, until there is none.
  \<open>list_page\<close> answers a query with the page's items and the cursor of the next page, empty on the last.
\<close>

fun walk :: "nat \<Rightarrow> ('q \<Rightarrow> ('v list \<times> string) option) \<Rightarrow> (string \<Rightarrow> 'q \<Rightarrow> 'q) \<Rightarrow> 'q \<Rightarrow> 'v list option" where
  "walk 0 list_page resume q = None"
| "walk (Suc fuel) list_page resume q =
     (case list_page q of
        None \<Rightarrow> None
      | Some (items, next) \<Rightarrow>
          if next = [] then Some items
          else map_option ((@) items) (walk fuel list_page resume (resume next q)))"

section \<open>Rows beyond a key\<close>

lemma filter_after_nth:
  assumes "sorted_wrt (\<lambda>x y. key x < (key y :: 'k :: linorder)) xs" and "0 < n" and "n \<le> length xs"
  shows "filter (\<lambda>x. key (xs ! (n - 1)) < key x) xs = drop n xs"
proof -
  have upto: "\<not> key (xs ! (n - 1)) < key x" if x: "x \<in> set (take n xs)" for x
  proof -
    from x obtain i where i: "i < n" "i < length xs" "x = xs ! i" by (auto simp: in_set_conv_nth)
    show ?thesis
    proof (cases "i = n - 1")
      case False
      then have "i < n - 1" "n - 1 < length xs" using i(1) assms(2,3) by simp_all
      from sorted_wrt_nth_less [OF assms(1) this] show ?thesis by (simp add: i(3))
    qed (simp add: i(3))
  qed
  have beyond: "x \<in> set (drop n xs) \<Longrightarrow> key (xs ! (n - 1)) < key x" for x
    using assms sorted_wrt_nth_less [OF assms(1)] by (auto simp: in_set_conv_nth)
  have "filter (\<lambda>x. key (xs ! (n - 1)) < key x) (take n xs @ drop n xs) = drop n xs"
    unfolding filter_append using upto beyond by (simp add: filter_id_conv)
  then show ?thesis by simp
qed

lemma strictly_sorted_by_key:
  assumes "inj_on key (set rs)" and "distinct rs"
  shows "sorted_wrt (\<lambda>x y. key x < (key y :: 'k :: linorder)) (sort_key key (filter P rs))"
proof -
  have "distinct (map key (sort_key key (filter P rs)))"
    using assms by (auto simp: distinct_map intro: inj_on_subset)
  moreover have "sorted (map key (sort_key key (filter P rs)))" by simp
  ultimately show ?thesis
    using strict_sorted_iff [of "map key (sort_key key (filter P rs))"] by (simp add: sorted_wrt_map)
qed

text \<open>
  Narrowing a sorted selection to what lies after its \<open>n\<close>-th row drops exactly the first \<open>n\<close> rows;
  \<open>after\<close> is the condition the selection was made with, upwards closed in the key.
\<close>

lemma filter_after_page:
  fixes key :: "'r \<Rightarrow> 'k :: linorder"
  assumes "sorted_wrt (\<lambda>x y. key x < key y) ms" and xs: "xs = filter after ms"
    and up: "\<And>x y. after x \<Longrightarrow> key x < key y \<Longrightarrow> after y"
    and n: "0 < n" "n \<le> length xs"
  shows "filter (\<lambda>r. key (xs ! (n - 1)) < key r) ms = drop n xs"
proof -
  have "xs ! (n - 1) \<in> set xs" using n by simp
  then have l: "after (xs ! (n - 1))" by (simp add: xs)
  have "filter (\<lambda>r. key (xs ! (n - 1)) < key r) ms = filter (\<lambda>r. key (xs ! (n - 1)) < key r) xs"
    unfolding xs filter_filter using up [OF l] by (intro filter_cong) (auto simp: xs)
  then show ?thesis
    using filter_after_nth [of key xs n] assms(1) n by (simp add: xs sorted_wrt_filter)
qed

section \<open>The contract of a listing\<close>

text \<open>
  \<open>pending q\<close> is what the query \<open>q\<close> has still to show, and \<open>None\<close> for a query the listing refuses.
  A page shows the first \<open>size q\<close> rows of it; when more remain it carries a cursor, and resuming with
  that cursor leaves exactly the rows not shown yet.
\<close>

locale keyset_listing =
  fixes list_page :: "'q \<Rightarrow> ('v list \<times> string) option" and resume :: "string \<Rightarrow> 'q \<Rightarrow> 'q"
    and pending :: "'q \<Rightarrow> 'r list option" and size :: "'q \<Rightarrow> nat" and view :: "'q \<Rightarrow> 'r \<Rightarrow> 'v"
  assumes size_pos: "pending q = Some xs \<Longrightarrow> 0 < size q"
    and last_page: "pending q = Some xs \<Longrightarrow> length xs \<le> size q \<Longrightarrow> list_page q = Some (map (view q) xs, [])"
    and inner_page: "pending q = Some xs \<Longrightarrow> size q < length xs \<Longrightarrow>
      \<exists>next. next \<noteq> [] \<and> list_page q = Some (map (view q) (take (size q) xs), next) \<and>
        pending (resume next q) = Some (drop (size q) xs)"
    and view_resume: "view (resume next q) = view q"
begin

lemma walk_pending:
  "pending q = Some xs \<Longrightarrow> length xs < fuel \<Longrightarrow> walk fuel list_page resume q = Some (map (view q) xs)"
proof (induction fuel arbitrary: q xs)
  case (Suc fuel)
  show ?case
  proof (cases "size q < length xs")
    case False
    then show ?thesis using last_page [OF Suc.prems(1)] by simp
  next
    case True
    from inner_page [OF Suc.prems(1) True] obtain next' where nx: "next' \<noteq> []"
      "list_page q = Some (map (view q) (take (size q) xs), next')"
      "pending (resume next' q) = Some (drop (size q) xs)" by blast
    have "walk fuel list_page resume (resume next' q) = Some (map (view q) (drop (size q) xs))"
      using Suc.IH [OF nx(3)] Suc.prems(2) True size_pos [OF Suc.prems(1)] by (simp add: view_resume)
    then show ?thesis using nx by (simp flip: map_append)
  qed
qed simp

end

end
