(* ===== verification/Reservation_Listing.thy ===== *)
theory Reservation_Listing
  imports Reservation_Commands Paging
begin

text \<open>
  Listing reservations: the filters (\<open>ListOptions.params\<close>), the keyset query with its look-ahead row
  (\<open>store/reservation.sql.go\<close>), the cursor (\<open>encodeCursor\<close>, \<open>decodeCursor\<close>) and \<open>List\<close> itself, with the
  theorem that following the cursors visits every matching reservation exactly once.
\<close>

section \<open>Cursors\<close>

definition cursorSeparator :: char where "cursorSeparator = CHR 0x1F"

text \<open>\<open>Time.UnixNano\<close> wraps outside the years an \<open>int64\<close> of nanoseconds spans; \<open>time.Unix(0, n)\<close> is its inverse.\<close>

definition unix_nano :: "time \<Rightarrow> int" where
  "unix_nano t = wrap64 (t - unix_offset * 1000000000)"

definition nano_time :: "int \<Rightarrow> time" where
  "nano_time n = n + unix_offset * 1000000000"

definition encodeCursor :: "time \<Rightarrow> string \<Rightarrow> string" where
  "encodeCursor start i =
     enc64 RawURLEncoding (bytes_of_string (show_int (unix_nano start) @ [cursorSeparator] @ i))"

definition decodeCursor :: "deps \<Rightarrow> string \<Rightarrow> (time option \<times> uuid option) option" where
  "decodeCursor p cursor =
     (if cursor = [] then Some (None, None)
      else case decode_string RawURLEncoding cursor of
        None \<Rightarrow> None
      | Some decoded \<Rightarrow>
     (case cut cursorSeparator (string_of_bytes decoded) of
        None \<Rightarrow> None
      | Some (before, rest) \<Rightarrow>
     (case atoi before of
        None \<Rightarrow> None
      | Some nanos \<Rightarrow>
     (case parseUUID p rest of
        None \<Rightarrow> None
      | Some i \<Rightarrow> Some (timestamptz (nano_time nanos), Some i)))))"

section \<open>The query\<close>

record list_params =
  lp_ResourceID :: "uuid option"
  lp_HolderID :: "uuid option"
  lp_States :: "string list"
  lp_WindowStart :: "time option"
  lp_WindowEnd :: "time option"
  lp_AfterStart :: "time option"
  lp_AfterID :: "uuid option"
  lp_PageSize :: int

text \<open>
  The conditions the listing and the count share.  An absent bound of the window range is unbounded; a
  range whose bounds coincide is empty and overlaps nothing.
\<close>

definition list_filter :: "deps \<Rightarrow> list_params \<Rightarrow> row \<Rightarrow> bool" where
  "list_filter p a r \<longleftrightarrow>
     (case lp_ResourceID a of None \<Rightarrow> True | Some i \<Rightarrow> r_resource r = i) \<and>
     (case lp_HolderID a of None \<Rightarrow> True | Some i \<Rightarrow> r_holder r = i) \<and>
     (lp_States a = [] \<or> r_state r \<in> set (lp_States a)) \<and>
     (case (map_option (dep_storeTime p) (lp_WindowStart a), map_option (dep_storeTime p) (lp_WindowEnd a)) of
        (None, _) \<Rightarrow> True
      | (Some s, None) \<Rightarrow> s < r_end r
      | (Some s, Some e) \<Rightarrow> s < e \<and> r_start r < e \<and> s < r_end r)"

text \<open>PostgreSQL refuses a range whose lower bound is above its upper bound.\<close>

definition window_error :: "deps \<Rightarrow> list_params \<Rightarrow> bool" where
  "window_error p a \<longleftrightarrow>
     (case (lp_WindowStart a, lp_WindowEnd a) of
        (Some s, Some e) \<Rightarrow> dep_storeTime p e < dep_storeTime p s
      | _ \<Rightarrow> False)"

definition sort_column :: "row \<Rightarrow> time \<times> uuid" where
  "sort_column r = (r_start r, r_id r)"

text \<open>The row comparison of the cursor condition, with SQL's unknown read as false.\<close>

definition after_cursor :: "deps \<Rightarrow> list_params \<Rightarrow> row \<Rightarrow> bool" where
  "after_cursor p a r \<longleftrightarrow>
     (case (map_option (dep_storeTime p) (lp_AfterStart a), lp_AfterID a) of
        (None, _) \<Rightarrow> True
      | (Some s, None) \<Rightarrow> s < r_start r
      | (Some s, Some i) \<Rightarrow> (s, i) < sort_column r)"

definition ListReservations :: "deps \<Rightarrow> list_params \<Rightarrow> db \<Rightarrow> res_error + row list" where
  "ListReservations p a d =
     (if window_error p a then Inl (PgError ''range'')
      else Inr (take (nat (lp_PageSize a))
             (sort_key sort_column
               (filter (\<lambda>r. visible d r \<and> list_filter p a r \<and> after_cursor p a r) (reservations d)))))"

definition CountReservations :: "deps \<Rightarrow> list_params \<Rightarrow> db \<Rightarrow> res_error + nat" where
  "CountReservations p a d =
     (if window_error p a then Inl (PgError ''range'')
      else Inr (length (filter (\<lambda>r. visible d r \<and> list_filter p a r) (reservations d))))"

section \<open>The use case\<close>

record list_options =
  lo_ResourceID :: string
  lo_HolderID :: string
  lo_States :: "string list"
  lo_From :: time
  lo_To :: time
  lo_Cursor :: string
  lo_PageSize :: int

definition optional_id :: "deps \<Rightarrow> string \<Rightarrow> res_error + uuid option" where
  "optional_id p s =
     (if s = [] then Inr None else case parseUUID p s of None \<Rightarrow> Inl ErrInvalid | Some i \<Rightarrow> Inr (Some i))"

definition page_size :: "int \<Rightarrow> int" where
  "page_size n = (if n \<le> 0 then DefaultPageSize else if n > MaxPageSize then MaxPageSize else n)"

definition params :: "deps \<Rightarrow> list_options \<Rightarrow> res_error + (list_params \<times> int)" where
  "params p o' =
     (let size = page_size (lo_PageSize o') in
      case optional_id p (lo_ResourceID o') of Inl e \<Rightarrow> Inl e | Inr res \<Rightarrow>
     (case optional_id p (lo_HolderID o') of Inl e \<Rightarrow> Inl e | Inr holder \<Rightarrow>
      if \<not> list_all State_valid (lo_States o') then Inl ErrInvalid
      else if (lo_From o' = 0) \<noteq> (lo_To o' = 0) then Inl ErrInvalid
      else if lo_From o' \<noteq> 0 \<and> \<not> lo_To o' > lo_From o' then Inl ErrInvalid
      else
        (case decodeCursor p (lo_Cursor o') of
           None \<Rightarrow> Inl ErrInvalid
         | Some (start, i) \<Rightarrow>
             Inr (\<lparr>lp_ResourceID = res, lp_HolderID = holder, lp_States = lo_States o',
                   lp_WindowStart = timestamptz (lo_From o'), lp_WindowEnd = timestamptz (lo_To o'),
                   lp_AfterStart = start, lp_AfterID = i, lp_PageSize = size + 1\<rparr>, size))))"

record page =
  pg_Reservations :: "reservation list"
  pg_NextCursor :: string
  pg_Total :: nat

text \<open>The loop over the rows: the look-ahead row becomes the cursor of the row before it.\<close>

fun page_loop :: "deps \<Rightarrow> row list \<Rightarrow> nat \<Rightarrow> nat \<Rightarrow> row list \<Rightarrow> page \<Rightarrow> page" where
  "page_loop p rows n i [] pg = pg"
| "page_loop p rows n i (r # rest) pg =
     (if i = n
      then (let lst = rows ! (n - 1)
            in pg\<lparr>pg_NextCursor := encodeCursor (r_start lst) (dep_uuidString p (r_id lst))\<rparr>)
      else page_loop p rows n (i + 1) rest (pg\<lparr>pg_Reservations := pg_Reservations pg @ [toReservation p r]\<rparr>))"

definition list_body :: "deps \<Rightarrow> list_params \<Rightarrow> body" where
  "list_body p a d =
     (case ListReservations p a d of
        Inl e \<Rightarrow> Inl e
      | Inr listed \<Rightarrow>
          (case CountReservations p a d of Inl e \<Rightarrow> Inl e | Inr cnt \<Rightarrow> Inr (listed, cnt, d)))"

definition ListPage :: "deps \<Rightarrow> string \<Rightarrow> list_options \<Rightarrow> db \<Rightarrow> (res_error + page) \<times> db" where
  "ListPage p orgID opts d =
     (case params p opts of
        Inl e \<Rightarrow> (Inl e, d)
      | Inr (a, n) \<Rightarrow>
          (case dep_within p orgID (list_body p a) d of
             (Inl e, d') \<Rightarrow> (Inl (Wrapped e), d')
           | (Inr (rows, cnt), d') \<Rightarrow>
               (Inr (page_loop p rows (nat n) 0 rows
                  \<lparr>pg_Reservations = [], pg_NextCursor = [], pg_Total = cnt\<rparr>), d')))"

section \<open>The cursor round trip\<close>

lemma show_int_no_sep: "cursorSeparator \<notin> set (show_int i)"
proof -
  have "cursorSeparator \<notin> set (show_nat n)" for n
    using show_nat_digits [of n] by (auto simp: list_all_iff cursorSeparator_def char_class_defs)
  then show ?thesis by (simp add: show_int_def cursorSeparator_def)
qed

lemma atoi_show_int:
  assumes "- (2 ^ 63) \<le> i" and "i < 2 ^ 63"
  shows "atoi (show_int i) = Some i"
proof (cases "i < 0")
  case True
  then have "nat (- i) \<le> 2 ^ 63" using assms by (simp add: nat_le_iff)
  with True show ?thesis by (simp add: show_int_def atoi_def show_nat_digits Let_def)
next
  case False
  then have "nat i < 2 ^ 63" using assms by (simp add: nat_less_iff)
  with False show ?thesis by (simp add: show_int_def)
qed

text \<open>The instants whose nanosecond count an \<open>int64\<close> holds (the years 1678 to 2262).\<close>

definition nano_range :: "time \<Rightarrow> bool" where
  "nano_range t \<longleftrightarrow> - (2 ^ 63) \<le> t - unix_offset * 1000000000 \<and> t - unix_offset * 1000000000 < 2 ^ 63"

lemma encodeCursor_not_Nil: "encodeCursor s i \<noteq> []"
proof -
  have "enc64 RawURLEncoding (b # bs) \<noteq> []" for b bs
    by (cases bs; cases "tl bs") (auto split: list.splits)
  moreover obtain c cs where "show_int (unix_nano s) @ [cursorSeparator] @ i = c # cs"
    by (cases "show_int (unix_nano s) @ [cursorSeparator] @ i") auto
  ultimately show ?thesis by (simp add: encodeCursor_def bytes_of_string_def)
qed

lemma decode_encodeCursor:
  assumes "nano_range s" and "dep_parseUUID p (dep_uuidString p i) = Some i"
  shows "decodeCursor p (encodeCursor s (dep_uuidString p i)) = Some (Some s, Some i)"
proof -
  have n: "unix_nano s = s - unix_offset * 1000000000"
    using assms(1) by (simp add: unix_nano_def nano_range_def wrap64_id)
  then have "atoi (show_int (unix_nano s)) = Some (unix_nano s)"
    using assms(1) by (simp add: atoi_show_int nano_range_def)
  moreover have "nano_time (unix_nano s) = s" by (simp add: n nano_time_def)
  moreover have "s \<noteq> 0" using assms(1) by (auto simp: nano_range_def unix_offset_def)
  ultimately show ?thesis
    using assms(2) encodeCursor_not_Nil [of s] cut_append [OF show_int_no_sep]
    by (simp add: decodeCursor_def encodeCursor_def parseUUID_def timestamptz_def del: bytes_of_string_append)
qed

section \<open>Following the cursors\<close>

definition matches :: "deps \<Rightarrow> string \<Rightarrow> list_params \<Rightarrow> db \<Rightarrow> row list" where
  "matches p org a d =
     sort_key sort_column
       (filter (\<lambda>r. dep_parseUUID p org = Some (r_org r) \<and> list_filter p a r) (reservations d))"

lemma page_loop_take:
  "i \<le> n \<Longrightarrow> page_loop p rows n i rest pg =
     pg\<lparr>pg_Reservations := pg_Reservations pg @ map (toReservation p) (take (n - i) rest),
        pg_NextCursor :=
          (if n - i < length rest
           then encodeCursor (r_start (rows ! (n - 1))) (dep_uuidString p (r_id (rows ! (n - 1))))
           else pg_NextCursor pg)\<rparr>"
proof (induction rest arbitrary: i pg)
  case (Cons r rest)
  then show ?case
    using Cons.IH [of "i + 1"] by (cases "i = n") (auto simp: Let_def take_Cons' Suc_diff_Suc)
qed simp

lemma matches_sorted:
  assumes "db_ok d"
  shows "sorted_wrt (\<lambda>x y. sort_column x < sort_column y) (matches p org a d)"
  unfolding matches_def using assms
  by (intro strictly_sorted_by_key) (auto simp: db_ok_def distinct_map inj_on_def sort_column_def)

text \<open>
  What the listing relies on: a working runner, identifiers whose text parses back, stored starts that
  the column keeps as they are and whose nanoseconds an \<open>int64\<close> holds, and a monotone time conversion.
\<close>

definition listable :: "deps \<Rightarrow> string \<Rightarrow> db \<Rightarrow> bool" where
  "listable p org d \<longleftrightarrow>
     commits p org \<and> db_ok d \<and> mono (dep_storeTime p) \<and>
     (\<forall>r\<in>set (reservations d).
        nano_range (r_start r) \<and> dep_storeTime p (r_start r) = r_start r \<and>
        dep_parseUUID p (dep_uuidString p (r_id r)) = Some (r_id r))"

lemma params_facts:
  assumes "params p opts = Inr (a, n)"
  shows "0 < n \<and> lp_PageSize a = n + 1" and "mono (dep_storeTime p) \<Longrightarrow> \<not> window_error p a"
    and "decodeCursor p cursor = Some (s, i) \<Longrightarrow>
      params p (opts\<lparr>lo_Cursor := cursor\<rparr>) = Inr (a\<lparr>lp_AfterStart := s, lp_AfterID := i\<rparr>, n)"
  using assms
  by (auto simp: params_def Let_def page_size_def DefaultPageSize_def MaxPageSize_def window_error_def
      timestamptz_def mono_def not_less split: sum.splits option.splits if_splits)

lemma list_filter_after [simp]:
  "list_filter p (a\<lparr>lp_AfterStart := s, lp_AfterID := i\<rparr>) = list_filter p a"
  by (simp add: list_filter_def fun_eq_iff)

lemma matches_after [simp]: "matches p org (a\<lparr>lp_AfterStart := s, lp_AfterID := i\<rparr>) d = matches p org a d"
  by (simp add: matches_def)

lemma ListPage_exact:
  assumes ok: "listable p org d" and a: "params p opts = Inr (a, n)"
    and xs: "xs = filter (after_cursor p a) (matches p org a d)"
  shows "fst (ListPage p org opts d) =
     Inr \<lparr>pg_Reservations = map (toReservation p) (take (nat n) xs),
          pg_NextCursor = (if nat n < length xs
            then encodeCursor (r_start (xs ! (nat n - 1))) (dep_uuidString p (r_id (xs ! (nat n - 1)))) else []),
          pg_Total = length (matches p org a d)\<rparr>"
proof -
  have n: "0 < n" "nat (lp_PageSize a) = Suc (nat n)" using params_facts(1) [OF a] by auto
  have w: "\<not> window_error p a" using params_facts(2) [OF a] ok by (simp add: listable_def)
  let ?d = "d\<lparr>tenant := dep_parseUUID p org\<rparr>"
  have rows: "ListReservations p a ?d = Inr (take (Suc (nat n)) xs)"
    by (simp add: ListReservations_def w n xs matches_def visible_def filter_sort conj_ac)
  have total: "CountReservations p a ?d = Inr (length (matches p org a d))"
    by (simp add: CountReservations_def w matches_def visible_def)
  have "commits p org" using ok by (simp add: listable_def)
  then show ?thesis
    using n(1) by (simp add: ListPage_def a commits_def list_body_def rows total page_loop_take min_def)
qed

lemma after_next:
  assumes "after_cursor p a r" and "sort_column r < sort_column q"
  shows "after_cursor p a q"
  using assms
  by (auto simp: after_cursor_def sort_column_def split: option.splits)

lemma after_last:
  assumes ok: "listable p org d" and xs: "xs = filter (after_cursor p a) (matches p org a d)"
    and n: "0 < n" "n < length xs" and l: "l = xs ! (n - 1)"
  shows "filter (after_cursor p (a\<lparr>lp_AfterStart := Some (r_start l), lp_AfterID := Some (r_id l)\<rparr>))
      (matches p org a d) = drop n xs"
proof -
  have "l \<in> set xs" using n l by simp
  then have "l \<in> set (reservations d)" by (auto simp: xs matches_def)
  then have st: "dep_storeTime p (r_start l) = r_start l" using ok by (simp add: listable_def)
  have eq: "after_cursor p (a\<lparr>lp_AfterStart := Some (r_start l), lp_AfterID := Some (r_id l)\<rparr>) =
      (\<lambda>r. sort_column l < sort_column r)"
    by (simp add: fun_eq_iff after_cursor_def st sort_column_def)
  have "db_ok d" using ok by (simp add: listable_def)
  then have "filter (\<lambda>r. sort_column l < sort_column r) (matches p org a d) = drop n xs"
    unfolding l using n by (intro filter_after_page [OF matches_sorted xs]) (auto dest: after_next)
  then show ?thesis unfolding eq .
qed

text \<open>The listing as a client sees it: the query is the environment with the options.\<close>

type_synonym list_query = "(deps \<times> string \<times> db) \<times> list_options"

fun listing :: "list_query \<Rightarrow> (reservation list \<times> string) option" where
  "listing ((p, org, d), opts) =
     (case fst (ListPage p org opts d) of Inl _ \<Rightarrow> None | Inr pg \<Rightarrow> Some (pg_Reservations pg, pg_NextCursor pg))"

fun resume :: "string \<Rightarrow> list_query \<Rightarrow> list_query" where
  "resume cursor (env, opts) = (env, opts\<lparr>lo_Cursor := cursor\<rparr>)"

fun pending :: "list_query \<Rightarrow> row list option" where
  "pending ((p, org, d), opts) =
     (if \<not> listable p org d then None
      else case params p opts of
        Inl _ \<Rightarrow> None | Inr (a, _) \<Rightarrow> Some (filter (after_cursor p a) (matches p org a d)))"

fun page_rows :: "list_query \<Rightarrow> nat" where
  "page_rows (_, opts) = nat (page_size (lo_PageSize opts))"

fun shown :: "list_query \<Rightarrow> row \<Rightarrow> reservation" where
  "shown ((p, _), _) = toReservation p"

lemma params_size: "params p opts = Inr (a, n) \<Longrightarrow> n = page_size (lo_PageSize opts)"
  by (auto simp: params_def Let_def split: sum.splits option.splits if_splits)

lemma listing_inner:
  assumes ok: "listable p org d" and a: "params p opts = Inr (a, n)"
    and xs: "xs = filter (after_cursor p a) (matches p org a d)" and more: "nat n < length xs"
  shows "\<exists>next. next \<noteq> [] \<and> listing ((p, org, d), opts) = Some (map (toReservation p) (take (nat n) xs), next) \<and>
    pending ((p, org, d), opts\<lparr>lo_Cursor := next\<rparr>) = Some (drop (nat n) xs)"
proof -
  define l where "l = xs ! (nat n - 1)"
  have n: "0 < nat n" using params_facts(1) [OF a] by simp
  have "l \<in> set xs" using more n by (simp add: l_def)
  then have "l \<in> set (reservations d)" by (auto simp: xs matches_def)
  then have "decodeCursor p (encodeCursor (r_start l) (dep_uuidString p (r_id l))) = Some (Some (r_start l), Some (r_id l))"
    using ok unfolding listable_def by (intro decode_encodeCursor) auto
  from params_facts(3) [OF a this] after_last [OF ok xs n more l_def] ok
  show ?thesis
    using more ListPage_exact [OF ok a xs] unfolding l_def
    by (intro exI [of _ "encodeCursor (r_start l) (dep_uuidString p (r_id l))"])
      (simp add: encodeCursor_not_Nil l_def)
qed

interpretation reservations_paging: keyset_listing listing resume pending page_rows shown
proof
  fix q :: list_query and xs
  assume pq: "pending q = Some xs"
  obtain p org d opts where q: "q = ((p, org, d), opts)" by (metis prod.exhaust)
  from pq obtain a n where ok: "listable p org d" and a: "params p opts = Inr (a, n)"
    and xs: "xs = filter (after_cursor p a) (matches p org a d)"
    by (auto simp: q split: if_splits sum.splits)
  note n = params_size [OF a, symmetric]
  show "0 < page_rows q" using params_facts(1) [OF a] by (simp add: q n)
  show "listing q = Some (map (shown q) xs, [])" if "length xs \<le> page_rows q"
    using ListPage_exact [OF ok a xs] that by (simp add: q n)
  show "\<exists>next. next \<noteq> [] \<and> listing q = Some (map (shown q) (take (page_rows q) xs), next) \<and>
      pending (resume next q) = Some (drop (page_rows q) xs)" if "page_rows q < length xs"
    using listing_inner [OF ok a xs] that by (simp add: q n)
next
  fix c and q :: list_query
  show "shown (resume c q) = shown q" by (cases q rule: shown.cases) (simp add: fun_eq_iff)
qed

section \<open>Properties\<close>


definition three_db :: db where
  "three_db = sample_db\<lparr>reservations :=
     [booked_row\<lparr>r_id := 3, r_start := 62135607800000000000, r_end := 62135609800000000000\<rparr>,
      booked_row\<lparr>r_id := 2, r_resource := 8, r_start := 62135597800000000000, r_end := 62135599800000000000\<rparr>,
      booked_row\<lparr>r_id := 1, r_start := 62135597800000000000, r_end := 62135599800000000000\<rparr>],
     resources := [\<lparr>s_id = 7, s_org = 1, s_retired_at = None\<rparr>, \<lparr>s_id = 8, s_org = 1, s_retired_at = None\<rparr>]\<rparr>"

definition two_a_page :: list_options where
  "two_a_page = \<lparr>lo_ResourceID = [], lo_HolderID = [], lo_States = [], lo_From = 0, lo_To = 0,
     lo_Cursor = [], lo_PageSize = 2\<rparr>"

lemma three_db_ok: "db_ok three_db"
proof -
  have "list_all row_ok (reservations three_db)" by code_simp
  moreover have "no_overlap (reservations three_db)"
    by (simp add: no_overlap_def three_db_def overlaps_def booked_row_def)
  ultimately show ?thesis
    by (simp add: db_ok_def) (simp add: three_db_def booked_row_def)
qed

lemma three_listable: "listable sample_deps ''1'' three_db"
proof -
  have "\<forall>r\<in>set (reservations three_db). nano_range (r_start r) \<and>
      dep_parseUUID sample_deps (dep_uuidString sample_deps (r_id r)) = Some (r_id r)"
    by code_simp
  then show ?thesis
    using sample_commits three_db_ok by (simp add: listable_def) (simp add: sample_deps_def mono_def)
qed


end
