(* ===== verification/Resource.thy ===== *)
theory Resource
  imports Encodings Utf8 "HOL-Library.Product_Lexorder" "HOL-Library.List_Lexorder" "HOL-Library.Char_ord"
begin

text \<open>
  The reference application's resource feature
  (\<open>examples/reference/app/internal/features/resource\<close>): the use case (\<open>resource.go\<close>), its queries
  (\<open>store/resource.sql.go\<close>), conversions and cursor (\<open>convert.go\<close>) and photo attachment (\<open>photo.go\<close>).

  As in the reservation feature the database is a record of the table with the tenant the transaction
  established, and each query is the meaning of its SQL text under row-level security and the table's
  constraints.  What is not in the repository is a field of \<open>res_deps\<close>: the tenant transaction runner, the
  UUID text form, PostgreSQL's \<open>lower()\<close> and the sort key of its collation, and the upload store.
\<close>

type_synonym uuid = "128 word"

section \<open>Data\<close>

definition MaxNameBytes :: nat where "MaxNameBytes = 200"
definition MaxDescriptionBytes :: nat where "MaxDescriptionBytes = 2000"
definition MaxLocationBytes :: nat where "MaxLocationBytes = 200"
definition MaxPhotoKeyBytes :: nat where "MaxPhotoKeyBytes = 512"
definition DefaultPageSize :: int where "DefaultPageSize = 50"
definition MaxPageSize :: int where "MaxPageSize = 200"

lemmas resource_bounds = MaxNameBytes_def MaxDescriptionBytes_def MaxLocationBytes_def MaxPhotoKeyBytes_def

datatype rs_error =
    ErrNotFound | ErrInvalid | ErrRetired | ErrNameTaken | ErrPhotoUnavailable
  | ErrNoRows
  | PgError string
  | TxError string
  | Wrapped rs_error

fun err_text :: "rs_error \<Rightarrow> string" where
  "err_text (PgError s) = s"
| "err_text (TxError s) = s"
| "err_text (Wrapped e) = err_text e"
| "err_text _ = ''resource''"

fun root :: "rs_error \<Rightarrow> rs_error" where
  "root (Wrapped e) = root e"
| "root e = e"

record rs_row =
  w_id :: uuid
  w_org :: uuid
  w_name :: string
  w_description :: string
  w_location :: string
  w_photo :: "string option"
  w_retired_at :: "time option"
  w_created_at :: time
  w_updated_at :: time

record rdb =
  rows :: "rs_row list"
  tenant :: "uuid option"

type_synonym rs_body = "rdb \<Rightarrow> rs_error + (rs_row list \<times> nat \<times> rdb)"

record upload =
  up_Available :: bool
  up_StorageKey :: string

record res_deps =
  rd_parseUUID :: "string \<Rightarrow> uuid option"
  rd_uuidString :: "uuid \<Rightarrow> string"
  rd_within :: "string \<Rightarrow> rs_body \<Rightarrow> rdb \<Rightarrow> (rs_error + (rs_row list \<times> nat)) \<times> rdb"
  rd_sqlNow :: time
  rd_freshID :: "rdb \<Rightarrow> uuid"
  rd_sqlLower :: "string \<Rightarrow> string"
  rd_goLower :: case_table
  rd_collate :: "string \<Rightarrow> string"
  rd_Finalize :: "(string \<Rightarrow> string \<Rightarrow> rs_error + upload) option"

section \<open>The table and its queries\<close>

definition visible :: "rdb \<Rightarrow> rs_row \<Rightarrow> bool" where
  "visible d r \<longleftrightarrow> tenant d = Some (w_org r)"

text \<open>The CHECK constraints of the table.\<close>

definition row_ok :: "rs_row \<Rightarrow> bool" where
  "row_ok r \<longleftrightarrow>
     1 \<le> rune_count (w_name r) \<and> rune_count (w_name r) \<le> MaxNameBytes \<and>
     rune_count (w_description r) \<le> MaxDescriptionBytes \<and> rune_count (w_location r) \<le> MaxLocationBytes \<and>
     (case w_photo r of None \<Rightarrow> True | Some k \<Rightarrow> 1 \<le> rune_count k \<and> rune_count k \<le> MaxPhotoKeyBytes)"

text \<open>The partial unique index: one name per organization among the resources in service.\<close>

definition index_keys :: "res_deps \<Rightarrow> rs_row list \<Rightarrow> (uuid \<times> string) list" where
  "index_keys p rs = map (\<lambda>r. (w_org r, rd_sqlLower p (w_name r))) (filter (\<lambda>r. w_retired_at r = None) rs)"

definition unique_names :: "res_deps \<Rightarrow> rs_row list \<Rightarrow> bool" where
  "unique_names p rs \<longleftrightarrow> distinct (index_keys p rs)"

definition constrained :: "res_deps \<Rightarrow> rs_row list \<Rightarrow> rs_row list \<Rightarrow> rdb \<Rightarrow> rs_error + (rs_row list \<times> rdb)" where
  "constrained p changed rs d =
     (if \<not> list_all row_ok changed then Inl (PgError ''resources_check'')
      else if \<not> unique_names p rs then Inl (PgError ''resources_org_name_unique'')
      else Inr (changed, d\<lparr>rows := rs\<rparr>))"

definition update_where ::
  "res_deps \<Rightarrow> (rs_row \<Rightarrow> bool) \<Rightarrow> (rs_row \<Rightarrow> rs_row) \<Rightarrow> rdb \<Rightarrow> rs_error + (rs_row \<times> rdb)" where
  "update_where p P f d =
     (case constrained p (map f (filter (\<lambda>r. visible d r \<and> P r) (rows d)))
             (map (\<lambda>r. if visible d r \<and> P r then f r else r) (rows d)) d of
        Inl e \<Rightarrow> Inl e
      | Inr ([], _) \<Rightarrow> Inl ErrNoRows
      | Inr (r # _, d') \<Rightarrow> Inr (r, d'))"

definition CreateResource :: "res_deps \<Rightarrow> string \<Rightarrow> string \<Rightarrow> string \<Rightarrow> rdb \<Rightarrow> rs_error + (rs_row \<times> rdb)" where
  "CreateResource p name description location d =
     (case tenant d of
        None \<Rightarrow> Inl (PgError ''org_id'')
      | Some org \<Rightarrow>
          (let r = \<lparr>w_id = rd_freshID p d, w_org = org, w_name = name, w_description = description,
                    w_location = location, w_photo = None, w_retired_at = None,
                    w_created_at = rd_sqlNow p, w_updated_at = rd_sqlNow p\<rparr>
           in if \<not> list_all pg_text [name, description, location] then Inl (PgError ''encoding'')
              else if w_id r \<in> w_id ` set (rows d) then Inl (PgError ''resources_pkey'')
              else (case constrained p [r] (rows d @ [r]) d of
                      Inl e \<Rightarrow> Inl e | Inr (_, d') \<Rightarrow> Inr (r, d'))))"

definition GetResource :: "uuid \<Rightarrow> rdb \<Rightarrow> rs_error + rs_row" where
  "GetResource i d =
     (case List.find (\<lambda>r. visible d r \<and> w_id r = i) (rows d) of None \<Rightarrow> Inl ErrNoRows | Some r \<Rightarrow> Inr r)"

definition UpdateResource :: "res_deps \<Rightarrow> uuid \<Rightarrow> string \<Rightarrow> string \<Rightarrow> string \<Rightarrow> rdb \<Rightarrow> rs_error + (rs_row \<times> rdb)" where
  "UpdateResource p i name description location d =
     (if \<not> list_all pg_text [name, description, location] then Inl (PgError ''encoding'')
      else update_where p (\<lambda>r. w_id r = i \<and> w_retired_at r = None)
        (\<lambda>r. r\<lparr>w_name := name, w_description := description, w_location := location,
               w_updated_at := rd_sqlNow p\<rparr>) d)"

definition SetResourcePhoto :: "res_deps \<Rightarrow> uuid \<Rightarrow> string option \<Rightarrow> rdb \<Rightarrow> rs_error + (rs_row \<times> rdb)" where
  "SetResourcePhoto p i photo d =
     (if \<not> pg_text (case photo of None \<Rightarrow> [] | Some k \<Rightarrow> k) then Inl (PgError ''encoding'') else
      update_where p (\<lambda>r. w_id r = i) (\<lambda>r. r\<lparr>w_photo := photo, w_updated_at := rd_sqlNow p\<rparr>) d)"

definition RetireResource :: "res_deps \<Rightarrow> uuid \<Rightarrow> rdb \<Rightarrow> rs_error + (rs_row \<times> rdb)" where
  "RetireResource p i d =
     update_where p (\<lambda>r. w_id r = i \<and> w_retired_at r = None)
       (\<lambda>r. r\<lparr>w_retired_at := Some (rd_sqlNow p), w_updated_at := rd_sqlNow p\<rparr>) d"

text \<open>The listing's sort column, as the collation orders it, with the identifier to break ties.\<close>

definition sort_column :: "res_deps \<Rightarrow> rs_row \<Rightarrow> string \<times> uuid" where
  "sort_column p r = (rd_collate p (rd_sqlLower p (w_name r)), w_id r)"

definition after_row :: "res_deps \<Rightarrow> string \<Rightarrow> uuid \<Rightarrow> rs_row \<Rightarrow> bool" where
  "after_row p afterName afterID r \<longleftrightarrow>
     afterName = [] \<or> (rd_collate p afterName, afterID) < sort_column p r"

definition ListResources ::
  "res_deps \<Rightarrow> bool \<Rightarrow> string \<Rightarrow> uuid \<Rightarrow> int \<Rightarrow> rdb \<Rightarrow> rs_error + rs_row list" where
  "ListResources p includeRetired afterName afterID pageSize d =
     (if \<not> pg_text afterName then Inl (PgError ''encoding'')
      else Inr (take (nat pageSize)
       (sort_key (sort_column p)
         (filter (\<lambda>r. visible d r \<and> (includeRetired \<or> w_retired_at r = None) \<and> after_row p afterName afterID r)
            (rows d)))))"

definition CountResources :: "bool \<Rightarrow> rdb \<Rightarrow> nat" where
  "CountResources includeRetired d =
     length (filter (\<lambda>r. visible d r \<and> (includeRetired \<or> w_retired_at r = None)) (rows d))"

section \<open>Conversions\<close>

definition timeOf :: "time option \<Rightarrow> time" where
  "timeOf v = (case v of None \<Rightarrow> 0 | Some t \<Rightarrow> t)"

record resource =
  ID :: string
  OrgID :: string
  Name :: string
  Description :: string
  Location :: string
  PhotoKey :: string
  RetiredAt :: time
  CreatedAt :: time
  UpdatedAt :: time

definition InService :: "resource \<Rightarrow> bool" where
  "InService r \<longleftrightarrow> RetiredAt r = 0"

definition toResource :: "res_deps \<Rightarrow> rs_row \<Rightarrow> resource" where
  "toResource p r =
     \<lparr>ID = rd_uuidString p (w_id r), OrgID = rd_uuidString p (w_org r), Name = w_name r,
      Description = w_description r, Location = w_location r,
      PhotoKey = (case w_photo r of None \<Rightarrow> [] | Some k \<Rightarrow> k), RetiredAt = timeOf (w_retired_at r),
      CreatedAt = w_created_at r, UpdatedAt = w_updated_at r\<rparr>"

definition cursorSeparator :: char where "cursorSeparator = CHR 0x1F"

definition encodeCursor :: "string \<Rightarrow> string \<Rightarrow> string" where
  "encodeCursor name i = enc64 RawURLEncoding (bytes_of_string (name @ [cursorSeparator] @ i))"

definition nil_uuid :: string where "nil_uuid = ''00000000-0000-0000-0000-000000000000''"

definition decodeCursor :: "res_deps \<Rightarrow> string \<Rightarrow> (string \<times> string) option" where
  "decodeCursor p cursor =
     (if cursor = [] then Some ([], nil_uuid)
      else case decode_string RawURLEncoding cursor of
        None \<Rightarrow> None
      | Some decoded \<Rightarrow>
     (case cut cursorSeparator (string_of_bytes decoded) of
        None \<Rightarrow> None
      | Some (before, rest) \<Rightarrow>
          if before = [] \<or> rest = [] then None
          else if rd_parseUUID p rest = None then None
          else Some (before, rest)))"

definition isNameConflict :: "rs_error \<Rightarrow> bool" where
  "isNameConflict e \<longleftrightarrow> contains (err_text e) ''resources_org_name_unique''"

section \<open>The use case\<close>

record details =
  dt_Name :: string
  dt_Description :: string
  dt_Location :: string

definition validate :: "details \<Rightarrow> rs_error + details" where
  "validate dt =
     (let n = \<lparr>dt_Name = trim_space (dt_Name dt), dt_Description = trim_space (dt_Description dt),
               dt_Location = trim_space (dt_Location dt)\<rparr>
      in if dt_Name n = [] then Inl ErrInvalid
         else if rune_count (dt_Name n) > MaxNameBytes then Inl ErrInvalid
         else if rune_count (dt_Description n) > MaxDescriptionBytes then Inl ErrInvalid
         else if rune_count (dt_Location n) > MaxLocationBytes then Inl ErrInvalid
         else Inr n)"

definition one :: "rs_error + (rs_row \<times> rdb) \<Rightarrow> rs_error + (rs_row list \<times> nat \<times> rdb)" where
  "one q = (case q of Inl e \<Rightarrow> Inl e | Inr (r, d) \<Rightarrow> Inr ([r], 0, d))"

definition Create :: "res_deps \<Rightarrow> string \<Rightarrow> details \<Rightarrow> rdb \<Rightarrow> (rs_error + resource) \<times> rdb" where
  "Create p orgID dt d =
     (case validate dt of
        Inl e \<Rightarrow> (Inl e, d)
      | Inr n \<Rightarrow>
          (case rd_within p orgID (\<lambda>d. one (CreateResource p (dt_Name n) (dt_Description n) (dt_Location n) d)) d of
             (Inl e, d') \<Rightarrow> (Inl (if isNameConflict e then ErrNameTaken else Wrapped e), d')
           | (Inr (rs, _), d') \<Rightarrow> (Inr (toResource p (hd rs)), d')))"

definition Get :: "res_deps \<Rightarrow> string \<Rightarrow> string \<Rightarrow> rdb \<Rightarrow> (rs_error + resource) \<times> rdb" where
  "Get p orgID resourceID d =
     (case rd_parseUUID p resourceID of
        None \<Rightarrow> (Inl ErrNotFound, d)
      | Some i \<Rightarrow>
          (case rd_within p orgID (\<lambda>d. case GetResource i d of Inl e \<Rightarrow> Inl e | Inr r \<Rightarrow> Inr ([r], 0, d)) d of
             (Inl e, d') \<Rightarrow> (Inl (if root e = ErrNoRows then ErrNotFound else Wrapped e), d')
           | (Inr (rs, _), d') \<Rightarrow> (Inr (toResource p (hd rs)), d')))"

definition distinguishMissing :: "uuid \<Rightarrow> rdb \<Rightarrow> rs_error" where
  "distinguishMissing i d =
     (case GetResource i d of
        Inl e \<Rightarrow> if root e = ErrNoRows then ErrNotFound else e
      | Inr _ \<Rightarrow> ErrRetired)"

definition or_missing :: "uuid \<Rightarrow> (rdb \<Rightarrow> rs_error + (rs_row \<times> rdb)) \<Rightarrow> rs_body" where
  "or_missing i q d =
     (case q d of
        Inl e \<Rightarrow> Inl (if root e = ErrNoRows then distinguishMissing i d else e)
      | Inr (r, d') \<Rightarrow> Inr ([r], 0, d'))"

definition Update :: "res_deps \<Rightarrow> string \<Rightarrow> string \<Rightarrow> details \<Rightarrow> rdb \<Rightarrow> (rs_error + resource) \<times> rdb" where
  "Update p orgID resourceID dt d =
     (case validate dt of
        Inl e \<Rightarrow> (Inl e, d)
      | Inr n \<Rightarrow>
     (case rd_parseUUID p resourceID of
        None \<Rightarrow> (Inl ErrNotFound, d)
      | Some i \<Rightarrow>
          (case rd_within p orgID
                  (or_missing i (UpdateResource p i (dt_Name n) (dt_Description n) (dt_Location n))) d of
             (Inl e, d') \<Rightarrow>
               (Inl (if isNameConflict e then ErrNameTaken
                     else if root e \<in> {ErrNotFound, ErrRetired} then e else Wrapped e), d')
           | (Inr (rs, _), d') \<Rightarrow> (Inr (toResource p (hd rs)), d'))))"

definition SetPhoto :: "res_deps \<Rightarrow> string \<Rightarrow> string \<Rightarrow> string \<Rightarrow> rdb \<Rightarrow> (rs_error + resource) \<times> rdb" where
  "SetPhoto p orgID resourceID key d =
     (if rune_count key > MaxPhotoKeyBytes then (Inl ErrInvalid, d)
      else (case rd_parseUUID p resourceID of
        None \<Rightarrow> (Inl ErrNotFound, d)
      | Some i \<Rightarrow>
          (case rd_within p orgID
                  (\<lambda>d. one (SetResourcePhoto p i (if key \<noteq> [] then Some key else None) d)) d of
             (Inl e, d') \<Rightarrow> (Inl (if root e = ErrNoRows then ErrNotFound else Wrapped e), d')
           | (Inr (rs, _), d') \<Rightarrow> (Inr (toResource p (hd rs)), d'))))"

definition Retire :: "res_deps \<Rightarrow> string \<Rightarrow> string \<Rightarrow> rdb \<Rightarrow> (rs_error + resource) \<times> rdb" where
  "Retire p orgID resourceID d =
     (case rd_parseUUID p resourceID of
        None \<Rightarrow> (Inl ErrNotFound, d)
      | Some i \<Rightarrow>
          (case rd_within p orgID (or_missing i (RetireResource p i)) d of
             (Inl e, d') \<Rightarrow> (Inl (if root e \<in> {ErrNotFound, ErrRetired} then e else Wrapped e), d')
           | (Inr (rs, _), d') \<Rightarrow> (Inr (toResource p (hd rs)), d')))"

record list_options =
  lo_IncludeRetired :: bool
  lo_Cursor :: string
  lo_PageSize :: int

record page =
  pg_Resources :: "resource list"
  pg_NextCursor :: string
  pg_Total :: nat

definition page_size :: "int \<Rightarrow> int" where
  "page_size n = (if n \<le> 0 then DefaultPageSize else if n > MaxPageSize then MaxPageSize else n)"

definition next_cursor :: "res_deps \<Rightarrow> rs_row \<Rightarrow> string" where
  "next_cursor p r = encodeCursor (to_lower (rd_goLower p) (w_name r)) (rd_uuidString p (w_id r))"

fun page_loop :: "res_deps \<Rightarrow> rs_row list \<Rightarrow> nat \<Rightarrow> nat \<Rightarrow> rs_row list \<Rightarrow> page \<Rightarrow> page" where
  "page_loop p rs n i [] pg = pg"
| "page_loop p rs n i (r # rest) pg =
     (if i = n then pg\<lparr>pg_NextCursor := next_cursor p (rs ! (n - 1))\<rparr>
      else page_loop p rs n (i + 1) rest (pg\<lparr>pg_Resources := pg_Resources pg @ [toResource p r]\<rparr>))"

definition list_body :: "res_deps \<Rightarrow> bool \<Rightarrow> string \<Rightarrow> uuid \<Rightarrow> int \<Rightarrow> rs_body" where
  "list_body p includeRetired afterName afterID n d =
     (case ListResources p includeRetired afterName afterID (n + 1) d of
        Inl e \<Rightarrow> Inl e
      | Inr listed \<Rightarrow> Inr (listed, CountResources includeRetired d, d))"

definition ListPage :: "res_deps \<Rightarrow> string \<Rightarrow> list_options \<Rightarrow> rdb \<Rightarrow> (rs_error + page) \<times> rdb" where
  "ListPage p orgID opts d =
     (let n = page_size (lo_PageSize opts) in
      case decodeCursor p (lo_Cursor opts) of
        None \<Rightarrow> (Inl ErrInvalid, d)
      | Some (afterName, afterIDText) \<Rightarrow>
     (case rd_parseUUID p afterIDText of
        None \<Rightarrow> (Inl ErrInvalid, d)
      | Some afterID \<Rightarrow>
          (case rd_within p orgID (list_body p (lo_IncludeRetired opts) afterName afterID n) d of
             (Inl e, d') \<Rightarrow> (Inl (Wrapped e), d')
           | (Inr (rs, cnt), d') \<Rightarrow>
               (Inr (page_loop p rs (nat n) 0 rs \<lparr>pg_Resources = [], pg_NextCursor = [], pg_Total = cnt\<rparr>), d'))))"

section \<open>Photos\<close>

text \<open>The third component of the result records whether the upload store was asked to finalize.\<close>

definition AttachPhoto ::
  "res_deps \<Rightarrow> string \<Rightarrow> string \<Rightarrow> string \<Rightarrow> string \<Rightarrow> rdb \<Rightarrow> (rs_error + resource) \<times> rdb \<times> bool" where
  "AttachPhoto p orgID resourceID uploadID ownerUserID d =
     (case rd_Finalize p of
        None \<Rightarrow> (Inl ErrPhotoUnavailable, d, False)
      | Some finalize \<Rightarrow>
          (case Get p orgID resourceID d of
             (Inl e, d') \<Rightarrow> (Inl e, d', False)
           | (Inr existing, d') \<Rightarrow>
               if \<not> InService existing then (Inl ErrRetired, d', False)
               else (case finalize uploadID ownerUserID of
                       Inl e \<Rightarrow> (Inl ErrPhotoUnavailable, d', True)
                     | Inr up \<Rightarrow>
                         if \<not> up_Available up then (Inl ErrPhotoUnavailable, d', True)
                         else (case SetPhoto p orgID resourceID (up_StorageKey up) d' of
                                 (res, d'') \<Rightarrow> (res, d'', True)))))"

end
