(* ===== verification/Resource_Laws.thy ===== *)
theory Resource_Laws
  imports Resource Paging
begin

text \<open>
  What the resource feature promises: every operation, for every tenant and in every order, keeps the
  table's invariant, touches only the tenant's own rows, and never changes a retired resource's details
  or when it was retired; following the cursors of a listing visits every matching resource exactly
  once; and a photo is attached only from an available upload to a resource in service.
\<close>

section \<open>Contracts\<close>

text \<open>The tenant transaction runner commits what the callback returned or does nothing.\<close>

definition transactional :: "res_deps \<Rightarrow> bool" where
  "transactional p \<longleftrightarrow>
     (\<forall>org bdy d. (\<exists>e. rd_within p org bdy d = (Inl e, d)) \<or>
        (\<exists>rs n d'. bdy (d\<lparr>tenant := rd_parseUUID p org\<rparr>) = Inr (rs, n, d') \<and>
           rd_within p org bdy d = (Inr (rs, n), d'\<lparr>tenant := tenant d\<rparr>)))"

text \<open>With a working database the callback's own result decides.\<close>

definition commits :: "res_deps \<Rightarrow> string \<Rightarrow> bool" where
  "commits p org \<longleftrightarrow>
     (\<forall>bdy d. rd_within p org bdy d =
        (case bdy (d\<lparr>tenant := rd_parseUUID p org\<rparr>) of
           Inl e \<Rightarrow> (Inl e, d)
         | Inr (rs, n, d') \<Rightarrow> (Inr (rs, n), d'\<lparr>tenant := tenant d\<rparr>)))"

section \<open>The invariant and legal evolution\<close>

definition table_ok :: "res_deps \<Rightarrow> rdb \<Rightarrow> bool" where
  "table_ok p d \<longleftrightarrow>
     distinct (map w_id (rows d)) \<and> list_all row_ok (rows d) \<and> unique_names p (rows d)"

definition same_resource :: "rs_row \<Rightarrow> rs_row \<Rightarrow> bool" where
  "same_resource r q \<longleftrightarrow> w_id q = w_id r \<and> w_org q = w_org r \<and> w_created_at q = w_created_at r"

definition frozen :: "rs_row \<Rightarrow> rs_row \<Rightarrow> bool" where
  "frozen r q \<longleftrightarrow>
     w_retired_at q = w_retired_at r \<and> w_name q = w_name r \<and> w_description q = w_description r \<and>
     w_location q = w_location r"

definition may_become :: "rs_row \<Rightarrow> rs_row \<Rightarrow> bool" where
  "may_become r q \<longleftrightarrow> same_resource r q \<and> (w_retired_at r \<noteq> None \<longrightarrow> frozen r q)"

definition row_step :: "uuid option \<Rightarrow> rs_row \<Rightarrow> rs_row \<Rightarrow> bool" where
  "row_step org r q \<longleftrightarrow> q = r \<or> org = Some (w_org r) \<and> may_become r q"

definition evolves :: "uuid option \<Rightarrow> rdb \<Rightarrow> rdb \<Rightarrow> bool" where
  "evolves org d d' \<longleftrightarrow>
     (\<exists>old new. rows d' = old @ new \<and> list_all2 (row_step org) (rows d) old \<and>
        (\<forall>r\<in>set new. org = Some (w_org r) \<and> w_retired_at r = None))"

lemma may_become_refl [simp]: "may_become r r"
  by (simp add: may_become_def same_resource_def frozen_def)

lemma may_become_trans: "may_become r q \<Longrightarrow> may_become q s \<Longrightarrow> may_become r s"
  by (auto simp: may_become_def same_resource_def frozen_def)

lemma row_stepD: "row_step org r q \<Longrightarrow> may_become r q"
  by (auto simp: row_step_def)

lemma evolves_same: "rows d' = rows d \<Longrightarrow> evolves org d d'"
  unfolding evolves_def
  by (intro exI [of _ "rows d"] exI [of _ "[]"]) (simp add: list.rel_refl row_step_def)

lemma table_ok_tenant [simp]: "table_ok p (d\<lparr>tenant := t\<rparr>) = table_ok p d"
  by (simp add: table_ok_def)

lemma evolves_tenant [simp]:
  "evolves org (d\<lparr>tenant := t\<rparr>) d' = evolves org d d'" "evolves org d (d'\<lparr>tenant := t\<rparr>) = evolves org d d'"
  by (simp_all add: evolves_def)

section \<open>Queries\<close>

definition query_ok :: "res_deps \<Rightarrow> rdb \<Rightarrow> rdb \<Rightarrow> bool" where
  "query_ok p d d' \<longleftrightarrow> table_ok p d' \<and> evolves (tenant d) d d'"

lemma rs_update_where_ok:
  assumes up: "update_where p P f d = Inr (r, d')" and ok: "table_ok p d"
    and step: "\<And>r. P r \<Longrightarrow> may_become r (f r)"
  shows "query_ok p d d'"
proof -
  let ?g = "\<lambda>r. if visible d r \<and> P r then f r else r"
  have d': "rows d' = map ?g (rows d)" and u: "unique_names p (map ?g (rows d))"
    and changed: "list_all row_ok (map f (filter (\<lambda>r. visible d r \<and> P r) (rows d)))"
    using up by (auto simp: update_where_def constrained_def split: if_splits list.splits)
  have ids: "map w_id (map ?g (rows d)) = map w_id (rows d)"
    using step by (auto simp: may_become_def same_resource_def)
  have "list_all row_ok (map ?g (rows d))" using changed ok by (auto simp: list_all_iff table_ok_def)
  then have "table_ok p d'"
    unfolding table_ok_def d' ids using ok u by (simp add: table_ok_def)
  moreover have "list_all2 (row_step (tenant d)) (rows d) (rows d')"
    unfolding d' by (auto simp: list_all2_map2 row_step_def visible_def step intro!: list.rel_refl_strong)
  then have "evolves (tenant d) d d'"
    unfolding evolves_def by (intro exI [of _ "rows d'"] exI [of _ "[]"]) simp
  ultimately show ?thesis by (simp add: query_ok_def)
qed

lemma CreateResource_ok:
  assumes "CreateResource p name description location d = Inr (r, d')" and "table_ok p d"
  shows "query_ok p d d'"
proof -
  from assms(1) obtain org where t: "tenant d = Some org" and org: "w_org r = org" "w_retired_at r = None"
    and d': "rows d' = rows d @ [r]" and new: "w_id r \<notin> w_id ` set (rows d)" "row_ok r" "unique_names p (rows d @ [r])"
    by (auto simp: CreateResource_def constrained_def Let_def split: option.splits if_splits sum.splits)
  have "evolves (tenant d) d d'"
    unfolding evolves_def d' using t org
    by (intro exI [of _ "rows d"] exI [of _ "[r]"]) (simp add: list.rel_refl row_step_def)
  then show ?thesis using assms(2) new by (simp add: query_ok_def table_ok_def d')
qed

lemma UpdateResource_ok: "UpdateResource p i n ds l d = Inr (r, d') \<Longrightarrow> table_ok p d \<Longrightarrow> query_ok p d d'"
  unfolding UpdateResource_def
  by (auto split: if_splits elim!: rs_update_where_ok simp: may_become_def same_resource_def)

lemma SetResourcePhoto_ok: "SetResourcePhoto p i photo d = Inr (r, d') \<Longrightarrow> table_ok p d \<Longrightarrow> query_ok p d d'"
  unfolding SetResourcePhoto_def
  by (auto split: if_splits elim!: rs_update_where_ok simp: may_become_def same_resource_def frozen_def)

lemma RetireResource_ok: "RetireResource p i d = Inr (r, d') \<Longrightarrow> table_ok p d \<Longrightarrow> query_ok p d d'"
  unfolding RetireResource_def
  by (auto elim!: rs_update_where_ok simp: may_become_def same_resource_def)

lemma query_ok_refl: "table_ok p d \<Longrightarrow> query_ok p d d"
  by (simp add: query_ok_def evolves_same)

lemmas queries_ok = CreateResource_ok UpdateResource_ok SetResourcePhoto_ok RetireResource_ok

section \<open>Operations\<close>

text \<open>A callback that keeps the invariant, whatever the runner does with it.\<close>

lemma rs_within_ok:
  assumes "transactional p" and "table_ok p d" and "rd_within p org bdy d = (res, d')"
    and "\<And>d rs n d'. table_ok p d \<Longrightarrow> bdy d = Inr (rs, n, d') \<Longrightarrow> query_ok p d d'"
  shows "table_ok p d' \<and> evolves (rd_parseUUID p org) d d'"
proof -
  consider e where "rd_within p org bdy d = (Inl e, d)"
    | rs n e where "bdy (d\<lparr>tenant := rd_parseUUID p org\<rparr>) = Inr (rs, n, e)"
      "rd_within p org bdy d = (Inr (rs, n), e\<lparr>tenant := tenant d\<rparr>)"
    using assms(1) unfolding transactional_def by meson
  then show ?thesis
  proof cases
    case 1
    then show ?thesis using assms(2,3) by (simp add: evolves_same)
  next
    case 2
    with assms(4) [of "d\<lparr>tenant := rd_parseUUID p org\<rparr>"] assms(2,3)
    show ?thesis by (auto simp: query_ok_def)
  qed
qed

lemma one_ok: "one q = Inr (rs, n, d') \<Longrightarrow> (\<And>r. q = Inr (r, d') \<Longrightarrow> P) \<Longrightarrow> P"
  by (auto simp: one_def split: sum.splits)

lemma or_missing_ok: "or_missing i q d = Inr (rs, n, d') \<Longrightarrow> (\<And>r. q d = Inr (r, d') \<Longrightarrow> P) \<Longrightarrow> P"
  by (auto simp: or_missing_def split: sum.splits)

datatype rs_command =
    Create_cmd details
  | Get_cmd string
  | Update_cmd string details
  | SetPhoto_cmd string string
  | Retire_cmd string
  | List_cmd list_options
  | Attach_cmd string string string

text \<open>The table after one operation of the use case, for the organization \<open>org\<close>.\<close>

fun run :: "res_deps \<Rightarrow> string \<Rightarrow> rs_command \<Rightarrow> rdb \<Rightarrow> rdb" where
  "run p org (Create_cmd dt) d = snd (Create p org dt d)"
| "run p org (Get_cmd i) d = snd (Get p org i d)"
| "run p org (Update_cmd i dt) d = snd (Update p org i dt d)"
| "run p org (SetPhoto_cmd i key) d = snd (SetPhoto p org i key d)"
| "run p org (Retire_cmd i) d = snd (Retire p org i d)"
| "run p org (List_cmd opts) d = snd (ListPage p org opts d)"
| "run p org (Attach_cmd i up owner) d = fst (snd (AttachPhoto p org i up owner d))"

definition op_ok :: "res_deps \<Rightarrow> string \<Rightarrow> rdb \<Rightarrow> rdb \<Rightarrow> bool" where
  "op_ok p org d d' \<longleftrightarrow> table_ok p d' \<and> evolves (rd_parseUUID p org) d d'"

lemma op_refl: "table_ok p d \<Longrightarrow> op_ok p org d d"
  by (simp add: op_ok_def evolves_same)

lemma op_within:
  assumes "rd_within p org bdy d = (res, d')" and "transactional p" and "table_ok p d"
    and "\<And>d rs n d'. table_ok p d \<Longrightarrow> bdy d = Inr (rs, n, d') \<Longrightarrow> query_ok p d d'"
  shows "op_ok p org d d'"
  using rs_within_ok [OF assms(2,3,1,4)] by (simp add: op_ok_def)

text \<open>A callback that only reads leaves the database as it was.\<close>

lemma read_within:
  assumes "rd_within p org bdy d = (res, d')" and "transactional p"
    and "\<And>d rs n d'. bdy d = Inr (rs, n, d') \<Longrightarrow> d' = d"
  shows "d' = d"
proof -
  from assms(2) consider e where "rd_within p org bdy d = (Inl e, d)"
    | rs n e where "bdy (d\<lparr>tenant := rd_parseUUID p org\<rparr>) = Inr (rs, n, e)"
      "rd_within p org bdy d = (Inr (rs, n), e\<lparr>tenant := tenant d\<rparr>)"
    unfolding transactional_def by meson
  then show ?thesis using assms(1) by cases (auto dest!: assms(3))
qed

lemma Create_ok: "transactional p \<Longrightarrow> table_ok p d \<Longrightarrow> op_ok p org d (snd (Create p org dt d))"
  by (auto simp: Create_def op_refl elim!: op_within one_ok dest: CreateResource_ok split: sum.split prod.split)

lemma SetPhoto_ok: "transactional p \<Longrightarrow> table_ok p d \<Longrightarrow> op_ok p org d (snd (SetPhoto p org i key d))"
  by (auto simp: SetPhoto_def op_refl elim!: op_within one_ok dest: SetResourcePhoto_ok
      split: sum.split prod.split option.split)

lemma Update_ok: "transactional p \<Longrightarrow> table_ok p d \<Longrightarrow> op_ok p org d (snd (Update p org i dt d))"
  by (auto simp: Update_def op_refl elim!: op_within or_missing_ok dest: UpdateResource_ok
      split: sum.split prod.split option.split)

lemma Retire_ok: "transactional p \<Longrightarrow> table_ok p d \<Longrightarrow> op_ok p org d (snd (Retire p org i d))"
  by (auto simp: Retire_def op_refl elim!: op_within or_missing_ok dest: RetireResource_ok
      split: sum.split prod.split option.split)

lemma Get_reads: "transactional p \<Longrightarrow> snd (Get p org i d) = d"
  by (auto simp: Get_def elim!: read_within split: sum.splits prod.split option.split)

lemma ListPage_reads: "transactional p \<Longrightarrow> snd (ListPage p org opts d) = d"
  by (auto simp: ListPage_def Let_def list_body_def elim!: read_within split: sum.splits prod.split option.split)

lemma AttachPhoto_ok:
  assumes "transactional p" and "table_ok p d"
  shows "op_ok p org d (fst (snd (AttachPhoto p org i up owner d)))"
proof (cases "Get p org i d")
  case (Pair res d')
  with Get_reads [OF assms(1), of org i d] have "d' = d" by simp
  then show ?thesis
    using Pair SetPhoto_ok [OF assms, of org i] op_refl [OF assms(2)]
    by (auto simp: AttachPhoto_def split: option.split sum.split prod.split) (metis snd_conv)
qed

lemma run_ok: "transactional p \<Longrightarrow> table_ok p d \<Longrightarrow> op_ok p org d (run p org c d)"
  by (cases c) (simp_all add: Create_ok Update_ok SetPhoto_ok Retire_ok AttachPhoto_ok Get_reads ListPage_reads op_refl)

section \<open>Every order of operations\<close>

text \<open>Tables reachable by operations of any organizations, in any order.\<close>

inductive reach :: "res_deps \<Rightarrow> rdb \<Rightarrow> rdb \<Rightarrow> bool" for p where
  start: "reach p d d"
| step: "reach p d d' \<Longrightarrow> reach p d (run p org c d')"

inductive_cases reachE: "reach p d d'"

lemma evolves_row:
  assumes "evolves org d d'" and "r \<in> set (rows d)"
  shows "\<exists>q\<in>set (rows d'). may_become r q"
proof -
  from assms(1) obtain old new where d': "rows d' = old @ new" and old: "list_all2 (row_step org) (rows d) old"
    unfolding evolves_def by blast
  from old assms(2) have "\<exists>q\<in>set old. row_step org r q" by induction auto
  then show ?thesis by (auto simp: d' dest: row_stepD)
qed

lemma row_step_foreign:
  "row_step org r q \<Longrightarrow> w_org q = w_org r \<and> (org \<noteq> Some (w_org r) \<longrightarrow> q = r)"
  by (auto simp: row_step_def may_become_def same_resource_def)

lemma evolves_isolated:
  assumes "evolves org d d'"
  shows "filter (\<lambda>r. org \<noteq> Some (w_org r)) (rows d') = filter (\<lambda>r. org \<noteq> Some (w_org r)) (rows d)"
proof -
  from assms obtain old new where "rows d' = old @ new" and old: "list_all2 (row_step org) (rows d) old"
    and "\<forall>r\<in>set new. org = Some (w_org r)"
    unfolding evolves_def by blast
  moreover from old have "filter (\<lambda>r. org \<noteq> Some (w_org r)) old = filter (\<lambda>r. org \<noteq> Some (w_org r)) (rows d)"
  proof induction
    case (Cons r rs q qs)
    then show ?case using row_step_foreign [OF Cons.hyps(1)] by (cases "org = Some (w_org r)") simp_all
  qed simp
  ultimately show ?thesis by simp
qed


text \<open>
  C25: An operation run for one organization leaves the rows of every other organization exactly as they
  were, even when it names their identifiers.
\<close>

theorem resources_isolated:
  assumes "transactional p" and "table_ok p d"
  shows "filter (\<lambda>r. rd_parseUUID p org \<noteq> Some (w_org r)) (rows (run p org c d)) =
     filter (\<lambda>r. rd_parseUUID p org \<noteq> Some (w_org r)) (rows d)"
  using run_ok [OF assms, of org c] by (simp add: op_ok_def evolves_isolated)

section \<open>Photos\<close>

lemma update_where_row: "update_where p P f d = Inr (r, d') \<Longrightarrow> \<exists>q. r = f q"
  by (auto simp: update_where_def constrained_def split: if_splits list.splits)

lemma within_success:
  assumes "transactional p" and "rd_within p org bdy d = (Inr (rs, n), d')"
  shows "\<exists>e. bdy (d\<lparr>tenant := rd_parseUUID p org\<rparr>) = Inr (rs, n, e)"
proof -
  from assms(1) have "(\<exists>e. rd_within p org bdy d = (Inl e, d)) \<or>
     (\<exists>rs n d'. bdy (d\<lparr>tenant := rd_parseUUID p org\<rparr>) = Inr (rs, n, d') \<and>
        rd_within p org bdy d = (Inr (rs, n), d'\<lparr>tenant := tenant d\<rparr>))"
    unfolding transactional_def by blast
  then show ?thesis using assms(2) by auto
qed

lemma SetPhoto_key:
  assumes "transactional p" and "SetPhoto p org i key d = (Inr r, d')"
  shows "PhotoKey r = key"
  using assms(2)
  by (auto simp: SetPhoto_def one_def SetResourcePhoto_def toResource_def
      dest!: within_success [OF assms(1)] update_where_row split: sum.splits if_splits option.splits prod.splits)

text \<open>
  Attaching a photo asks the upload store to finalize only for a resource the organization has in
  service, changes the table only after the store reported the upload available, and when it succeeds
  the resource's photo is the key that upload was stored under.
\<close>

theorem AttachPhoto_sound:
  assumes "transactional p" and "AttachPhoto p org i up owner d = (res, d', asked)"
  shows "(asked \<longrightarrow> (\<exists>x. fst (Get p org i d) = Inr x \<and> InService x)) \<and>
     (d' \<noteq> d \<or> (\<exists>r. res = Inr r) \<longrightarrow>
        asked \<and> (\<exists>f u. rd_Finalize p = Some f \<and> f up owner = Inr u \<and> up_Available u \<and>
          (res, d') = SetPhoto p org i (up_StorageKey u) d \<and> (\<forall>r. res = Inr r \<longrightarrow> PhotoKey r = up_StorageKey u)))"
proof (cases "Get p org i d")
  case (Pair got e)
  with Get_reads [OF assms(1), of org i d] have "e = d" by simp
  then show ?thesis
    using Pair assms(2)
    by (auto simp: AttachPhoto_def dest: SetPhoto_key [OF assms(1)] split: option.splits sum.splits prod.splits if_splits)
qed

section \<open>Following the cursors\<close>

definition matches :: "res_deps \<Rightarrow> string \<Rightarrow> bool \<Rightarrow> rdb \<Rightarrow> rs_row list" where
  "matches p org inc d =
     sort_key (sort_column p)
       (filter (\<lambda>r. rd_parseUUID p org = Some (w_org r) \<and> (inc \<or> w_retired_at r = None)) (rows d))"

text \<open>
  What the listing relies on: a working runner, identifiers whose text parses back, a collation that
  tells different texts apart, and names that Go and the database lower alike, to text that is not
  empty and holds no separator.
\<close>

definition listable_row :: "res_deps \<Rightarrow> rs_row \<Rightarrow> bool" where
  "listable_row p r \<longleftrightarrow>
     (let key = rd_sqlLower p (w_name r); i = rd_uuidString p (w_id r) in
      to_lower (rd_goLower p) (w_name r) = key \<and> key \<noteq> [] \<and> cursorSeparator \<notin> set key \<and> pg_text key \<and>
      i \<noteq> [] \<and> rd_parseUUID p i = Some (w_id r))"

definition listable :: "res_deps \<Rightarrow> string \<Rightarrow> rdb \<Rightarrow> bool" where
  "listable p org d \<longleftrightarrow>
     commits p org \<and> table_ok p d \<and> inj (rd_collate p) \<and> rd_parseUUID p nil_uuid \<noteq> None \<and>
     list_all (listable_row p) (rows d)"

lemma rs_page_loop_take:
  "i \<le> n \<Longrightarrow> page_loop p rs n i rest pg =
     pg\<lparr>pg_Resources := pg_Resources pg @ map (toResource p) (take (n - i) rest),
        pg_NextCursor := (if n - i < length rest then next_cursor p (rs ! (n - 1)) else pg_NextCursor pg)\<rparr>"
proof (induction rest arbitrary: i pg)
  case (Cons r rest)
  then show ?case
    using Cons.IH [of "i + 1"] by (cases "i = n") (auto simp: take_Cons' Suc_diff_Suc)
qed simp

lemma decode_next_cursor:
  assumes "listable_row p r"
  shows "decodeCursor p (next_cursor p r) = Some (rd_sqlLower p (w_name r), rd_uuidString p (w_id r))"
    and "next_cursor p r \<noteq> []"
proof -
  let ?k = "to_lower (rd_goLower p) (w_name r)" and ?i = "rd_uuidString p (w_id r)"
  have k: "?k \<noteq> []" "cursorSeparator \<notin> set ?k" "?k = rd_sqlLower p (w_name r)" "?i \<noteq> []" "rd_parseUUID p ?i \<noteq> None"
    using assms by (simp_all add: listable_row_def Let_def)
  have "enc64 RawURLEncoding (bytes_of_string (?k @ [cursorSeparator] @ ?i)) \<noteq> enc64 RawURLEncoding []"
    by (simp only: raw_url64.enc_inject) (simp flip: length_0_conv)
  then show ne: "next_cursor p r \<noteq> []" by (simp add: next_cursor_def encodeCursor_def)
  have "cut cursorSeparator (?k @ [cursorSeparator] @ ?i) = Some (?k, ?i)" using cut_append [OF k(2)] by simp
  then show "decodeCursor p (next_cursor p r) = Some (rd_sqlLower p (w_name r), ?i)"
    using ne k by (simp add: decodeCursor_def next_cursor_def encodeCursor_def del: bytes_of_string_append)
qed

lemma rs_matches_sorted:
  assumes "listable p org d"
  shows "sorted_wrt (\<lambda>x y. sort_column p x < sort_column p y) (matches p org inc d)"
  unfolding matches_def using assms
  by (intro strictly_sorted_by_key) (auto simp: listable_def table_ok_def distinct_map inj_on_def sort_column_def)

lemma after_row_up: "after_row p nm j x \<Longrightarrow> sort_column p x < sort_column p y \<Longrightarrow> after_row p nm j y"
  by (auto simp: after_row_def)

lemma page_size_pos: "0 < page_size n"
  by (simp add: page_size_def DefaultPageSize_def MaxPageSize_def)

lemma rs_ListPage_exact:
  assumes ok: "listable p org d" and c: "decodeCursor p (lo_Cursor opts) = Some (nm, jt)"
    and j: "rd_parseUUID p jt = Some j" and nm: "pg_text nm"
    and xs: "xs = filter (after_row p nm j) (matches p org (lo_IncludeRetired opts) d)"
    and n: "n = nat (page_size (lo_PageSize opts))"
  shows "fst (ListPage p org opts d) =
     Inr \<lparr>pg_Resources = map (toResource p) (take n xs),
          pg_NextCursor = (if n < length xs then next_cursor p (xs ! (n - 1)) else []),
          pg_Total = length (matches p org (lo_IncludeRetired opts) d)\<rparr>"
proof -
  let ?d = "d\<lparr>tenant := rd_parseUUID p org\<rparr>" and ?n = "page_size (lo_PageSize opts)"
  have n': "0 < n" "nat (?n + 1) = Suc n" using page_size_pos [of "lo_PageSize opts"] by (simp_all add: n)
  have l: "ListResources p (lo_IncludeRetired opts) nm j (?n + 1) ?d = Inr (take (Suc n) xs)"
    unfolding ListResources_def n'(2) xs by (simp add: nm matches_def visible_def filter_sort conj_ac)
  have "CountResources (lo_IncludeRetired opts) ?d = length (matches p org (lo_IncludeRetired opts) d)"
    by (simp add: CountResources_def matches_def visible_def)
  moreover have "commits p org" using ok by (simp add: listable_def)
  ultimately show ?thesis
    using n'(1) by (simp add: ListPage_def c j commits_def list_body_def l rs_page_loop_take min_def flip: n)
qed

text \<open>The listing as a client sees it: the query is the environment with the options.\<close>

type_synonym list_query = "(res_deps \<times> string \<times> rdb) \<times> list_options"

fun listing :: "list_query \<Rightarrow> (resource list \<times> string) option" where
  "listing ((p, org, d), opts) =
     (case fst (ListPage p org opts d) of Inl _ \<Rightarrow> None | Inr pg \<Rightarrow> Some (pg_Resources pg, pg_NextCursor pg))"

fun resume :: "string \<Rightarrow> list_query \<Rightarrow> list_query" where
  "resume cursor (env, opts) = (env, opts\<lparr>lo_Cursor := cursor\<rparr>)"

fun pending :: "list_query \<Rightarrow> rs_row list option" where
  "pending ((p, org, d), opts) =
     (if \<not> listable p org d then None
      else case decodeCursor p (lo_Cursor opts) of
        None \<Rightarrow> None
      | Some (nm, jt) \<Rightarrow>
     (case rd_parseUUID p jt of
        None \<Rightarrow> None
      | Some j \<Rightarrow> if pg_text nm then Some (filter (after_row p nm j) (matches p org (lo_IncludeRetired opts) d)) else None))"

fun page_rows :: "list_query \<Rightarrow> nat" where
  "page_rows (_, opts) = nat (page_size (lo_PageSize opts))"

fun shown :: "list_query \<Rightarrow> rs_row \<Rightarrow> resource" where
  "shown ((p, _), _) = toResource p"

lemma rs_listing_inner:
  assumes ok: "listable p org d" and c: "decodeCursor p (lo_Cursor opts) = Some (nm, jt)"
    and j: "rd_parseUUID p jt = Some j" and nm: "pg_text nm"
    and xs: "xs = filter (after_row p nm j) (matches p org (lo_IncludeRetired opts) d)"
    and n: "n = nat (page_size (lo_PageSize opts))" and more: "n < length xs"
  shows "\<exists>next. next \<noteq> [] \<and> listing ((p, org, d), opts) = Some (map (toResource p) (take n xs), next) \<and>
    pending ((p, org, d), opts\<lparr>lo_Cursor := next\<rparr>) = Some (drop n xs)"
proof -
  define l where "l = xs ! (n - 1)"
  have n': "0 < n" using page_size_pos by (simp add: n)
  have "l \<in> set xs" using more n' by (simp add: l_def)
  then have "l \<in> set (rows d)" by (auto simp: xs matches_def)
  then have row: "listable_row p l" using ok by (simp add: listable_def list_all_iff)
  note dec = decode_next_cursor [OF row]
  have after: "after_row p (rd_sqlLower p (w_name l)) (w_id l) = (\<lambda>r. sort_column p l < sort_column p r)"
    using row by (auto simp: fun_eq_iff after_row_def sort_column_def listable_row_def Let_def)
  have "filter (\<lambda>r. sort_column p l < sort_column p r) (matches p org (lo_IncludeRetired opts) d) = drop n xs"
    unfolding l_def using n' more
    by (intro filter_after_page [OF rs_matches_sorted [OF ok] xs]) (auto dest: after_row_up)
  then have "filter (after_row p (rd_sqlLower p (w_name l)) (w_id l)) (matches p org (lo_IncludeRetired opts) d) = drop n xs"
    unfolding after .
  then have "pending ((p, org, d), opts\<lparr>lo_Cursor := next_cursor p l\<rparr>) = Some (drop n xs)"
    using ok dec row by (simp add: listable_row_def Let_def)
  then show ?thesis
    using dec(2) more rs_ListPage_exact [OF ok c j nm xs n] unfolding l_def
    by (intro exI [of _ "next_cursor p (xs ! (n - 1))"]) simp
qed

interpretation resources_paging: keyset_listing listing resume pending page_rows shown
proof
  fix q :: list_query and xs
  assume pq: "pending q = Some xs"
  obtain p org d opts where q: "q = ((p, org, d), opts)" by (metis prod.exhaust)
  from pq obtain nm jt j where h: "listable p org d" "decodeCursor p (lo_Cursor opts) = Some (nm, jt)"
    "rd_parseUUID p jt = Some j" "pg_text nm" "xs = filter (after_row p nm j) (matches p org (lo_IncludeRetired opts) d)"
    by (auto simp: q split: if_splits option.splits)
  show "0 < page_rows q" using page_size_pos by (simp add: q)
  show "listing q = Some (map (shown q) xs, [])" if "length xs \<le> page_rows q"
    using rs_ListPage_exact [OF h refl] that by (simp add: q)
  show "\<exists>next. next \<noteq> [] \<and> listing q = Some (map (shown q) (take (page_rows q) xs), next) \<and>
      pending (resume next q) = Some (drop (page_rows q) xs)" if "page_rows q < length xs"
    using rs_listing_inner [OF h refl] that by (simp add: q)
next
  fix c and q :: list_query
  show "shown (resume c q) = shown q" by (cases q rule: shown.cases) (simp add: fun_eq_iff)
qed


section \<open>Witnesses\<close>

definition lab_parse :: "string \<Rightarrow> uuid option" where
  "lab_parse s =
     (if s = nil_uuid then Some 0 else if s = [] \<or> \<not> list_all is_digit s then None else Some (word_of_nat (digits_val s)))"

definition lab :: res_deps where
  "lab = \<lparr>rd_parseUUID = lab_parse,
     rd_uuidString = (\<lambda>i. show_nat (unat i)),
     rd_within = (\<lambda>org bdy d.
       case bdy (d\<lparr>tenant := lab_parse org\<rparr>) of
         Inl e \<Rightarrow> (Inl e, d) | Inr (rs, n, d') \<Rightarrow> (Inr (rs, n), d'\<lparr>tenant := tenant d\<rparr>)),
     rd_sqlNow = 77, rd_freshID = (\<lambda>d. word_of_nat (length (rows d)) + 1),
     rd_sqlLower = map lower_char, rd_goLower = map lower_char, rd_collate = (\<lambda>s. s),
     rd_Finalize = Some (\<lambda>up owner. if up = ''9'' then Inr \<lparr>up_Available = True, up_StorageKey = ''k/9''\<rparr> else Inl ErrNotFound)\<rparr>"

definition scope_row :: rs_row where
  "scope_row = \<lparr>w_id = 1, w_org = 1, w_name = ''Scope'', w_description = [], w_location = ''B2'', w_photo = None,
     w_retired_at = None, w_created_at = 5, w_updated_at = 5\<rparr>"

definition lab_db :: rdb where
  "lab_db = \<lparr>rows = [scope_row, scope_row\<lparr>w_id := 2, w_name := ''lathe''\<rparr>,
       scope_row\<lparr>w_id := 3, w_name := ''Saw'', w_retired_at := Some 6\<rparr>,
       scope_row\<lparr>w_id := 4, w_name := ''anvil''\<rparr>, scope_row\<lparr>w_id := 5, w_org := 2\<rparr>],
     tenant = None\<rparr>"

lemma lab_commits: "commits lab org"
  by (simp add: commits_def lab_def)

lemma lab_transactional: "transactional lab"
  by (simp add: transactional_def lab_def split: sum.split)

lemma lab_ok: "table_ok lab lab_db"
  by code_simp


theorem resources_isolated_witness:
  "filter (\<lambda>r. rd_parseUUID lab ''2'' \<noteq> Some (w_org r)) (rows (run lab ''2'' (Retire_cmd ''1'') lab_db)) =
     filter (\<lambda>r. rd_parseUUID lab ''2'' \<noteq> Some (w_org r)) (rows lab_db)"
  by (rule resources_isolated [OF lab_transactional lab_ok])

theorem AttachPhoto_sound_witness:
  "\<exists>f u. rd_Finalize lab = Some f \<and> f ''9'' ''3'' = Inr u \<and> up_Available u \<and> up_StorageKey u = ''k/9''"
proof -
  obtain res d' where a: "AttachPhoto lab ''1'' ''1'' ''9'' ''3'' lab_db = (Inr res, d', True)"
    and key: "PhotoKey res = ''k/9''"
  proof -
    have "case AttachPhoto lab ''1'' ''1'' ''9'' ''3'' lab_db of
        (Inr res, _, asked) \<Rightarrow> asked \<and> PhotoKey res = ''k/9'' | _ \<Rightarrow> False"
      by code_simp
    then show thesis using that by (auto split: prod.splits sum.splits)
  qed
  from AttachPhoto_sound [OF lab_transactional a] key show ?thesis by auto
qed


section \<open>A name that holds the separator\<close>

text \<open>
  \<open>validate\<close> accepts a name that holds the separator, and \<open>decodeCursor\<close> cuts at the first one: the
  cursor \<open>List\<close> issues after such a row is refused when it comes back, so the rest cannot be listed.
\<close>

lemma separator_cursor_refused:
  assumes "cursorSeparator \<in> set (to_lower (rd_goLower p) (w_name r))"
    and uuids: "\<And>s i. rd_parseUUID p s = Some i \<Longrightarrow> cursorSeparator \<notin> set s"
  shows "decodeCursor p (next_cursor p r) = None"
proof -
  obtain a b where k: "to_lower (rd_goLower p) (w_name r) = a @ cursorSeparator # b" "cursorSeparator \<notin> set a"
    using assms(1) by (metis split_list_first)
  let ?rest = "b @ [cursorSeparator] @ rd_uuidString p (w_id r)"
  have "cut cursorSeparator (to_lower (rd_goLower p) (w_name r) @ [cursorSeparator] @ rd_uuidString p (w_id r)) = Some (a, ?rest)"
    unfolding k using cut_append [OF k(2), of ?rest] by simp
  moreover have "rd_parseUUID p ?rest = None"
    using uuids [of ?rest] by (cases "rd_parseUUID p ?rest") auto
  moreover have "next_cursor p r \<noteq> []"
    using raw_url64.enc_inject [of "bytes_of_string (a @ cursorSeparator # ?rest)" "[]"]
    by (auto simp: next_cursor_def encodeCursor_def k bytes_of_string_def)
  ultimately show ?thesis
    by (simp add: decodeCursor_def next_cursor_def encodeCursor_def del: bytes_of_string_append)
qed

end
