(* ===== verification/Csp.thy ===== *)
theory Csp
  imports Encodings "HOL-Library.Product_Lexorder" "HOL-Library.List_Lexorder" "HOL-Library.Char_ord"
begin

text \<open>
  Content-Security-Policy values (\<open>runtime/secure/csp.go\<close>): which source expressions, hashes and report
  URIs an application may supply, and how a list of directives is rendered.  \<open>parse_csp\<close> is the reading
  a browser gives a rendered value; that rendering and reading agree is what makes a directive list mean
  what it says.
\<close>

section \<open>Source expressions\<close>

datatype csp_error =
    EmptySource
  | LongSource
  | BreakingSource string
  | UnsafeSource string
  | HashNoDigest string
  | HashNotBase64 string
  | HashWidth string nat
  | HashAlgorithm string
  | EmptyReportURI
  | UnusableReportURI string
  | ReportURIForm string

definition maxSourceLength :: nat where "maxSourceLength = 512"

definition unsafeKeywords :: "string list" where
  "unsafeKeywords =
     [[CHR 0x27] @ ''unsafe-inline'' @ [CHR 0x27], [CHR 0x27] @ ''unsafe-eval'' @ [CHR 0x27],
      [CHR 0x27] @ ''unsafe-hashes'' @ [CHR 0x27], [CHR 0x27] @ ''wasm-unsafe-eval'' @ [CHR 0x27], ''*'']"

definition apostrophe :: char where "apostrophe = CHR 0x27"

definition quoted :: "string \<Rightarrow> string" where
  "quoted s = apostrophe # s @ [apostrophe]"

definition source_byte :: "char \<Rightarrow> bool" where
  "source_byte c \<longleftrightarrow> 0x21 \<le> code c \<and> code c \<le> 0x7E \<and> c \<noteq> CHR '';'' \<and> c \<noteq> CHR '',''"

text \<open>Every byte is ASCII where \<open>strings.ToLower\<close> is applied, so it is the byte-wise map.\<close>

definition validSource :: "string \<Rightarrow> csp_error option" where
  "validSource source =
     (if source = [] then Some EmptySource
      else if length source > maxSourceLength then Some LongSource
      else if \<not> list_all source_byte source then Some (BreakingSource source)
      else if map lower_char source \<in> set unsafeKeywords then Some (UnsafeSource source)
      else None)"

section \<open>Hashes\<close>

definition hashAlgorithms :: "(string \<times> nat) list" where
  "hashAlgorithms = [(''sha256-'', 32), (''sha384-'', 48), (''sha512-'', 64)]"

fun first_decoding :: "encoding list \<Rightarrow> string \<Rightarrow> bytes option" where
  "first_decoding [] encoded = None"
| "first_decoding (e # es) encoded =
     (case decode_string e encoded of Some decoded \<Rightarrow> Some decoded | None \<Rightarrow> first_decoding es encoded)"

definition decodeBase64Any :: "string \<Rightarrow> bytes option" where
  "decodeBase64Any encoded =
     first_decoding [StdEncoding, RawStdEncoding, URLEncoding, RawURLEncoding] encoded"

fun hash_loop :: "string \<Rightarrow> string \<Rightarrow> (string \<times> nat) list \<Rightarrow> csp_error + string" where
  "hash_loop raw h [] = Inl (HashAlgorithm raw)"
| "hash_loop raw h ((prefix, digestBytes) # rest) =
     (case cut_prefix h prefix of
        None \<Rightarrow> hash_loop raw h rest
      | Some encoded \<Rightarrow>
          if encoded = [] then Inl (HashNoDigest raw)
          else (case decodeBase64Any encoded of
                  None \<Rightarrow> Inl (HashNotBase64 raw)
                | Some digest \<Rightarrow>
                    if length digest \<noteq> digestBytes then Inl (HashWidth raw (length digest))
                    else Inr (quoted h)))"

definition normalizeHash :: "string \<Rightarrow> csp_error + string" where
  "normalizeHash raw =
     (let h = trim_char apostrophe (trim_space raw)
      in case validSource (quoted h) of
           Some e \<Rightarrow> Inl e
         | None \<Rightarrow> hash_loop raw h hashAlgorithms)"

section \<open>Report URIs\<close>

datatype reportURIForm = reportURISameOrigin | reportURIExternal

definition classifyReportURI :: "string \<Rightarrow> csp_error + reportURIForm" where
  "classifyReportURI uri =
     (if uri = [] then Inl EmptyReportURI
      else if validSource uri \<noteq> None then Inl (UnusableReportURI uri)
      else if has_prefix uri ''/'' \<and> \<not> has_prefix uri ''//'' then Inr reportURISameOrigin
      else if has_prefix uri ''https://'' \<and> length uri > length ''https://'' then Inr reportURIExternal
      else Inl (ReportURIForm uri))"

section \<open>Directives\<close>

record directive =
  dname :: string
  dsources :: "string list"

text \<open>\<open>default-src\<close> first, then by name; the sort is stable.\<close>

definition directive_order :: "directive \<Rightarrow> bool \<times> string" where
  "directive_order d = (dname d \<noteq> ''default-src'', if dname d = ''default-src'' then [] else dname d)"

definition render_directive :: "directive \<Rightarrow> string" where
  "render_directive d = join '' '' (dname d # dsources d)"

definition render :: "directive list \<Rightarrow> string" where
  "render ds = join ''; '' (map render_directive (sort_key directive_order ds))"

definition nonce_source :: "string \<Rightarrow> string" where
  "nonce_source nonce = quoted (''nonce-'' @ nonce)"

definition add_nonce :: "string \<Rightarrow> directive \<Rightarrow> directive" where
  "add_nonce nonce d = (if dname d \<noteq> ''script-src'' then d else d\<lparr>dsources := dsources d @ [nonce_source nonce]\<rparr>)"

definition renderWithNonce :: "directive list \<Rightarrow> string \<Rightarrow> string" where
  "renderWithNonce ds nonce = render (map (add_nonce nonce) ds)"

section \<open>Reading a policy\<close>

text \<open>
  How a browser reads a serialized policy: tokens between semicolons, each stripped of spaces and split
  at spaces into a name and its source list.
\<close>

definition parse_directive :: "string \<Rightarrow> directive option" where
  "parse_directive token =
     (case filter (\<lambda>w. w \<noteq> []) (split_on (CHR '' '') token) of
        [] \<Rightarrow> None
      | n # srcs \<Rightarrow> Some \<lparr>dname = n, dsources = srcs\<rparr>)"

definition parse_csp :: "string \<Rightarrow> directive list" where
  "parse_csp s = List.map_filter parse_directive (split_on (CHR '';'') s)"

definition word_ok :: "string \<Rightarrow> bool" where
  "word_ok w \<longleftrightarrow> w \<noteq> [] \<and> list_all source_byte w"

definition directive_ok :: "directive \<Rightarrow> bool" where
  "directive_ok d \<longleftrightarrow> word_ok (dname d) \<and> list_all word_ok (dsources d)"

lemma source_byte_simps [simp]:
  "\<not> source_byte (CHR '' '')" "\<not> source_byte (CHR '';'')" "\<not> source_byte (CHR '','')"
  by (simp_all add: source_byte_def code_def)

lemma word_ok_chars: "word_ok w \<Longrightarrow> CHR '' '' \<notin> set w \<and> CHR '';'' \<notin> set w"
  by (auto simp: word_ok_def list_all_iff)

lemma validSource_word: "validSource s = None \<Longrightarrow> word_ok s"
  by (auto simp: validSource_def word_ok_def split: if_splits)

lemma split_words:
  "ws \<noteq> [] \<Longrightarrow> list_all word_ok ws \<Longrightarrow> split_on (CHR '' '') (join '' '' ws) = ws"
  by (rule split_on_join) (auto simp: list_all_iff dest: word_ok_chars)

lemma filter_words: "list_all word_ok ws \<Longrightarrow> filter (\<lambda>w. w \<noteq> []) ws = ws"
  by (auto simp: list_all_iff word_ok_def filter_id_conv)

lemma parse_render_directive:
  assumes "directive_ok d"
  shows "parse_directive (render_directive d) = Some d" "parse_directive (CHR '' '' # render_directive d) = Some d"
proof -
  have ok: "list_all word_ok (dname d # dsources d)" using assms by (simp add: directive_ok_def)
  have sp: "split_on (CHR '' '') (render_directive d) = dname d # dsources d"
    unfolding render_directive_def by (rule split_words [OF _ ok]) simp
  have "split_on (CHR '' '') (CHR '' '' # render_directive d) = [] # dname d # dsources d" by (simp add: sp)
  then show "parse_directive (CHR '' '' # render_directive d) = Some d"
    using filter_words [OF ok] by (simp add: parse_directive_def del: split_on.simps)
  show "parse_directive (render_directive d) = Some d"
    using filter_words [OF ok] by (simp add: parse_directive_def sp)
qed

lemma set_join: "set (join sep ws) \<subseteq> set sep \<union> (\<Union>w\<in>set ws. set w)"
  by (induction sep ws rule: join.induct) auto

lemma render_directive_no_semicolon:
  assumes "directive_ok d"
  shows "CHR '';'' \<notin> set (render_directive d)"
proof -
  have "\<forall>w\<in>set (dname d # dsources d). CHR '';'' \<notin> set w"
    using assms word_ok_chars by (auto simp: directive_ok_def list_all_iff)
  then show ?thesis
    using set_join [of "'' ''" "dname d # dsources d"] unfolding render_directive_def by fastforce
qed

lemma parse_joined:
  "list_all directive_ok ds \<Longrightarrow>
     parse_csp (join ''; '' (map render_directive ds)) = ds \<and>
     (ds \<noteq> [] \<longrightarrow> parse_csp (CHR '' '' # join ''; '' (map render_directive ds)) = ds)"
proof (induction ds)
  case (Cons d ds)
  then have d: "directive_ok d" and IH: "ds \<noteq> [] \<longrightarrow> parse_csp (CHR '' '' # join ''; '' (map render_directive ds)) = ds"
    by simp_all
  note sc = render_directive_no_semicolon [OF d] and pd = parse_render_directive [OF d]
  have sc': "CHR '';'' \<notin> set (CHR '' '' # render_directive d)" using sc by simp
  show ?case
  proof (cases "ds = []")
    case True
    then show ?thesis
      using split_on_no_sep [OF sc] split_on_no_sep [OF sc'] pd by (simp add: parse_csp_def map_filter_def)
  next
    case False
    let ?rest = "CHR '' '' # join ''; '' (map render_directive ds)"
    have j: "join ''; '' (map render_directive (d # ds)) = render_directive d @ CHR '';'' # ?rest"
      using False by (simp add: join_Cons)
    have "parse_csp (render_directive d @ CHR '';'' # ?rest) = d # parse_csp ?rest"
      unfolding parse_csp_def split_on_append [OF sc] by (simp add: map_filter_def pd)
    moreover have "parse_csp ((CHR '' '' # render_directive d) @ CHR '';'' # ?rest) = d # parse_csp ?rest"
      unfolding parse_csp_def split_on_append [OF sc'] by (simp add: map_filter_def pd)
    ultimately show ?thesis using IH False unfolding j by simp
  qed
qed (simp add: parse_csp_def parse_directive_def map_filter_def)

lemma parse_render: "list_all directive_ok ds \<Longrightarrow> parse_csp (render ds) = sort_key directive_order ds"
  unfolding render_def using parse_joined [of "sort_key directive_order ds"] by (simp add: list_all_iff)

section \<open>What a hash option lets through\<close>

definition hash_source :: "string \<Rightarrow> bool" where
  "hash_source s \<longleftrightarrow>
     (\<exists>prefix n encoded digest. (prefix, n) \<in> set hashAlgorithms \<and> s = quoted (prefix @ encoded) \<and>
        decodeBase64Any encoded = Some digest \<and> length digest = n) \<and> validSource s = None"

lemma hash_loop_Inr:
  "hash_loop raw h algs = Inr s \<Longrightarrow> \<exists>prefix n encoded digest. (prefix, n) \<in> set algs \<and> s = quoted (prefix @ encoded) \<and>
        h = prefix @ encoded \<and> decodeBase64Any encoded = Some digest \<and> length digest = n"
  by (induction raw h algs rule: hash_loop.induct) (auto simp: cut_prefix_Some split: option.splits if_splits)

lemma normalizeHash_Inr: "normalizeHash raw = Inr s \<Longrightarrow> hash_source s"
  by (auto simp: normalizeHash_def hash_source_def Let_def dest!: hash_loop_Inr split: option.splits)

lemma hash_source_valid: "hash_source s \<Longrightarrow> validSource s = None"
  by (simp add: hash_source_def)

end
