(* ===== verification/Secure.thy ===== *)
theory Secure
  imports Csp "HOL-Library.AList"
begin

text \<open>
  The security header policy (\<open>runtime/secure\<close>: \<open>deployment.go\<close>, \<open>policy.go\<close>, \<open>options.go\<close>).  An option
  is a function on the builder; \<open>policy_option\<close> lists the options the package offers, and \<open>newPolicy\<close>
  applies them, refuses the policy when any of them failed, and renders it.
\<close>

section \<open>Headers and closed value sets\<close>

definition HeaderCSP :: string where "HeaderCSP = ''Content-Security-Policy''"
definition HeaderCSPReportOnly :: string where "HeaderCSPReportOnly = ''Content-Security-Policy-Report-Only''"
definition HeaderHSTS :: string where "HeaderHSTS = ''Strict-Transport-Security''"
definition HeaderContentTypeOptions :: string where "HeaderContentTypeOptions = ''X-Content-Type-Options''"
definition HeaderReferrerPolicy :: string where "HeaderReferrerPolicy = ''Referrer-Policy''"
definition HeaderCOOP :: string where "HeaderCOOP = ''Cross-Origin-Opener-Policy''"
definition HeaderCORP :: string where "HeaderCORP = ''Cross-Origin-Resource-Policy''"
definition HeaderCOEP :: string where "HeaderCOEP = ''Cross-Origin-Embedder-Policy''"
definition HeaderPermissionsPolicy :: string where "HeaderPermissionsPolicy = ''Permissions-Policy''"
definition HeaderFrameOptions :: string where "HeaderFrameOptions = ''X-Frame-Options''"
definition HeaderCacheControl :: string where "HeaderCacheControl = ''Cache-Control''"

lemmas header_names =
  HeaderCSP_def HeaderCSPReportOnly_def HeaderHSTS_def HeaderContentTypeOptions_def HeaderReferrerPolicy_def
  HeaderCOOP_def HeaderCORP_def HeaderCOEP_def HeaderPermissionsPolicy_def HeaderFrameOptions_def
  HeaderCacheControl_def

definition second :: int where "second = 1000000000"

definition DefaultHSTSMaxAge :: int where "DefaultHSTSMaxAge = 365 * 24 * 3600 * second"

definition Development :: string where "Development = ''development''"
definition Production :: string where "Production = ''production''"

datatype sec_error =
    CspErr csp_error
  | NoDeployment string
  | BadDeployment string
  | NilOption
  | NeedsReason string string
  | DocumentOnly string
  | NoSources
  | NotSameOrigin string
  | NotExternal string
  | UnknownReferrer string
  | LeakingReferrer string
  | QuietReferrer string
  | UnknownEmbedder string
  | UnknownResource string
  | DefaultResource string
  | PermissionReason
  | EmptyFeature
  | LongFeature string
  | FeatureBytes string
  | WildcardItem string
  | ItemForm string
  | ItemBytes string
  | HstsDeployment string
  | HstsMaxAge
  | PreloadReduced

definition ParseDeployment :: "string \<Rightarrow> sec_error + string" where
  "ParseDeployment raw =
     (if raw = ''development'' \<or> raw = ''test'' then Inr Development
      else if raw = ''production'' then Inr Production
      else Inl (NoDeployment raw))"

definition ReferrerNoReferrer :: string where "ReferrerNoReferrer = ''no-referrer''"
definition ReferrerSameOrigin :: string where "ReferrerSameOrigin = ''same-origin''"
definition ReferrerStrictOrigin :: string where "ReferrerStrictOrigin = ''strict-origin''"
definition ReferrerStrictOriginWhenCrossOrigin :: string where
  "ReferrerStrictOriginWhenCrossOrigin = ''strict-origin-when-cross-origin''"
definition ReferrerOriginWhenCrossOrigin :: string where
  "ReferrerOriginWhenCrossOrigin = ''origin-when-cross-origin''"
definition ReferrerOrigin :: string where "ReferrerOrigin = ''origin''"
definition ReferrerUnsafeURL :: string where "ReferrerUnsafeURL = ''unsafe-url''"

definition leaksReferrerCrossOrigin :: "string \<Rightarrow> bool" where
  "leaksReferrerCrossOrigin p \<longleftrightarrow> p \<notin> {ReferrerNoReferrer, ReferrerSameOrigin}"

definition ReferrerPolicy_valid :: "string \<Rightarrow> bool" where
  "ReferrerPolicy_valid p \<longleftrightarrow>
     p \<in> {ReferrerNoReferrer, ReferrerSameOrigin, ReferrerStrictOrigin, ReferrerStrictOriginWhenCrossOrigin,
          ReferrerOriginWhenCrossOrigin, ReferrerOrigin, ReferrerUnsafeURL}"

definition ResourceSameOrigin :: string where "ResourceSameOrigin = ''same-origin''"
definition ResourceSameSite :: string where "ResourceSameSite = ''same-site''"
definition ResourceCrossOrigin :: string where "ResourceCrossOrigin = ''cross-origin''"
definition EmbedderRequireCorp :: string where "EmbedderRequireCorp = ''require-corp''"
definition EmbedderCredentialless :: string where "EmbedderCredentialless = ''credentialless''"

section \<open>Durations as text and as seconds\<close>

text \<open>\<open>time.Duration.String\<close>.\<close>

definition fraction :: "nat \<Rightarrow> nat \<Rightarrow> string" where
  "fraction v prec =
     (let digits = show_nat (v mod 10 ^ prec);
          padded = replicate (prec - length digits) (CHR ''0'') @ digits;
          kept = rev (dropWhile (\<lambda>c. c = CHR ''0'') (rev padded))
      in if kept = [] then [] else CHR ''.'' # kept)"

definition clock_string :: "nat \<Rightarrow> string" where
  "clock_string u =
     (let s = u div 10 ^ 9; m = s div 60; h = m div 60;
          secs = show_nat (s mod 60) @ fraction u 9 @ ''s''
      in if m = 0 then secs
         else if h = 0 then show_nat (m mod 60) @ ''m'' @ secs
         else show_nat h @ ''h'' @ show_nat (m mod 60) @ ''m'' @ secs)"

definition Duration_String :: "int \<Rightarrow> string" where
  "Duration_String d =
     (let u = nat \<bar>d\<bar>;
          body = (if u < 1000 then show_nat u @ ''ns''
             else if u < 1000000 then show_nat (u div 1000) @ fraction u 3 @ [CHR 0xC2, CHR 0xB5] @ ''s''
             else if u < 1000000000 then show_nat (u div 1000000) @ fraction u 6 @ ''ms''
             else clock_string u)
      in if d = 0 then ''0s'' else if d < 0 then CHR ''-'' # body else body)"

text \<open>
  \<open>int64(d.Seconds())\<close> for a positive duration.  \<open>Seconds\<close> adds the whole seconds and the remaining
  nanoseconds as \<open>float64\<close>; both are represented closely enough that truncation gives the whole seconds
  back, except when the remainder is so close to a second that the sum, rounded to 53 bits, is the next
  integer.  With \<open>2^k\<close> the largest power of two below the seconds, that happens when the missing
  nanoseconds are less than half a unit in the last place, \<open>2^(k-53)\<close> seconds.
\<close>

fun top_power :: "nat \<Rightarrow> nat" where
  "top_power n = (if n < 2 then 1 else 2 * top_power (n div 2))"

declare top_power.simps [simp del]

definition whole_seconds :: "int \<Rightarrow> int" where
  "whole_seconds d =
     (let sec = d div second; nsec = d mod second
      in if (second - nsec) * 2 ^ 53 < second * int (top_power (nat sec)) then sec + 1 else sec)"

section \<open>The builder\<close>

record waiver =
  Control :: string
  Detail :: string
  Reason :: string

definition Waiver_String :: "waiver \<Rightarrow> string" where
  "Waiver_String w = Control w @ '' weakened to '' @ Detail w @ '': '' @ Reason w"

datatype profile = profileDocument | profileAPI

record builder =
  b_deployment :: string
  b_profile :: profile
  b_connectSrc :: "string list"
  b_fontSrc :: "string list"
  b_formAction :: "string list"
  b_frameAncestors :: "string list"
  b_imgSrc :: "string list"
  b_scriptSrc :: "string list"
  b_styleSrc :: "string list"
  b_inlineStyleAttr :: bool
  b_reportOnly :: bool
  b_reportURI :: string
  b_hstsMaxAge :: int
  b_hstsIncludeSubdomains :: bool
  b_hstsPreload :: bool
  b_referrer :: string
  b_coop :: string
  b_corp :: string
  b_coep :: string
  b_permissions :: "(string \<times> string list) list"
  b_waivers :: "waiver list"
  b_errs :: "sec_error list"

definition fail :: "sec_error \<Rightarrow> builder \<Rightarrow> builder" where
  "fail e b = b\<lparr>b_errs := b_errs b @ [e]\<rparr>"

definition waive :: "string \<Rightarrow> string \<Rightarrow> string \<Rightarrow> builder \<Rightarrow> builder" where
  "waive control detail reason b =
     (if trim_space reason = [] then fail (NeedsReason control detail) b
      else b\<lparr>b_waivers := b_waivers b @ [\<lparr>Control = control, Detail = detail, Reason = reason\<rparr>]\<rparr>)"

definition documentOnly :: "string \<Rightarrow> (builder \<Rightarrow> builder) \<Rightarrow> builder \<Rightarrow> builder" where
  "documentOnly opt k b = (if b_profile b = profileDocument then k b else fail (DocumentOnly opt) b)"

text \<open>The sources that pass, appended to \<open>dst\<close>, and the errors of the others.\<close>

fun source_loop :: "string list \<Rightarrow> string list \<Rightarrow> builder \<Rightarrow> string list \<times> builder" where
  "source_loop dst [] b = (dst, b)"
| "source_loop dst (s # ss) b =
     (case validSource s of
        Some e \<Rightarrow> source_loop dst ss (fail (CspErr e) b)
      | None \<Rightarrow> source_loop (dst @ [s]) ss b)"

definition addSources :: "string list \<Rightarrow> string list \<Rightarrow> builder \<Rightarrow> string list \<times> builder" where
  "addSources dst sources b = (if sources = [] then (dst, fail NoSources b) else source_loop dst sources b)"

definition defaultPermissions :: "(string \<times> string list) list" where
  "defaultPermissions =
     [(''accelerometer'', []), (''ambient-light-sensor'', []), (''autoplay'', []), (''battery'', []),
      (''browsing-topics'', []), (''camera'', []), (''display-capture'', []), (''encrypted-media'', []),
      (''fullscreen'', [''self'']), (''geolocation'', []), (''gyroscope'', []), (''idle-detection'', []),
      (''local-fonts'', []), (''magnetometer'', []), (''microphone'', []), (''midi'', []), (''payment'', []),
      (''publickey-credentials-get'', []), (''screen-wake-lock'', []), (''serial'', []), (''usb'', []),
      (''xr-spatial-tracking'', [])]"

definition render_feature :: "string \<times> string list \<Rightarrow> string" where
  "render_feature f = fst f @ ''=('' @ join '' '' (snd f) @ '')''"

definition renderPermissions :: "(string \<times> string list) list \<Rightarrow> string" where
  "renderPermissions features = join '', '' (map render_feature (sort_key fst features))"

section \<open>The options\<close>

definition AllowReportOnly :: "string \<Rightarrow> builder \<Rightarrow> builder" where
  "AllowReportOnly reason b =
     waive ''content-security-policy'' ''report-only, not enforced'' reason (b\<lparr>b_reportOnly := True\<rparr>)"

definition WithReportURI :: "string \<Rightarrow> builder \<Rightarrow> builder" where
  "WithReportURI uri b =
     (case classifyReportURI uri of
        Inl e \<Rightarrow> fail (CspErr e) b
      | Inr form \<Rightarrow>
          if form \<noteq> reportURISameOrigin then fail (NotSameOrigin uri) b else b\<lparr>b_reportURI := uri\<rparr>)"

definition AllowExternalReportURI :: "string \<Rightarrow> string \<Rightarrow> builder \<Rightarrow> builder" where
  "AllowExternalReportURI reason uri b =
     (case classifyReportURI uri of
        Inl e \<Rightarrow> fail (CspErr e) b
      | Inr form \<Rightarrow>
          if form \<noteq> reportURIExternal then fail (NotExternal uri) b
          else (waive ''content-security-policy'' (''report-uri '' @ uri) reason b)\<lparr>b_reportURI := uri\<rparr>)"

fun hash_option_loop :: "string list \<Rightarrow> string list \<Rightarrow> builder \<Rightarrow> string list \<times> builder" where
  "hash_option_loop dst [] b = (dst, b)"
| "hash_option_loop dst (raw # rest) b =
     (case normalizeHash raw of
        Inl e \<Rightarrow> hash_option_loop dst rest (fail (CspErr e) b)
      | Inr h \<Rightarrow> hash_option_loop (dst @ [h]) rest b)"

definition WithScriptHashes :: "string list \<Rightarrow> builder \<Rightarrow> builder" where
  "WithScriptHashes hashes =
     documentOnly ''WithScriptHashes'' (\<lambda>b.
       case hash_option_loop (b_scriptSrc b) hashes b of (dst, b') \<Rightarrow> b'\<lparr>b_scriptSrc := dst\<rparr>)"

definition WithStyleHashes :: "string list \<Rightarrow> builder \<Rightarrow> builder" where
  "WithStyleHashes hashes =
     documentOnly ''WithStyleHashes'' (\<lambda>b.
       case hash_option_loop (b_styleSrc b) hashes b of (dst, b') \<Rightarrow> b'\<lparr>b_styleSrc := dst\<rparr>)"

definition WithHSTSPreload :: "builder \<Rightarrow> builder" where
  "WithHSTSPreload b = b\<lparr>b_hstsPreload := True\<rparr>"

definition WithReferrerPolicy :: "string \<Rightarrow> builder \<Rightarrow> builder" where
  "WithReferrerPolicy p b =
     (if \<not> ReferrerPolicy_valid p then fail (UnknownReferrer p) b
      else if leaksReferrerCrossOrigin p then fail (LeakingReferrer p) b
      else b\<lparr>b_referrer := p\<rparr>)"

definition WithCrossOriginEmbedderPolicy :: "string \<Rightarrow> builder \<Rightarrow> builder" where
  "WithCrossOriginEmbedderPolicy p b =
     (if p \<in> {EmbedderRequireCorp, EmbedderCredentialless} then b\<lparr>b_coep := p\<rparr> else fail (UnknownEmbedder p) b)"

definition AllowScriptSources :: "string \<Rightarrow> string list \<Rightarrow> builder \<Rightarrow> builder" where
  "AllowScriptSources reason sources =
     documentOnly ''AllowScriptSources'' (\<lambda>b.
       case addSources (b_scriptSrc b) sources b of
         (dst, b') \<Rightarrow> waive ''script-src'' (join '' '' sources) reason (b'\<lparr>b_scriptSrc := dst\<rparr>))"

definition AllowStyleSources :: "string \<Rightarrow> string list \<Rightarrow> builder \<Rightarrow> builder" where
  "AllowStyleSources reason sources =
     documentOnly ''AllowStyleSources'' (\<lambda>b.
       case addSources (b_styleSrc b) sources b of
         (dst, b') \<Rightarrow> waive ''style-src'' (join '' '' sources) reason (b'\<lparr>b_styleSrc := dst\<rparr>))"

definition AllowConnectSources :: "string \<Rightarrow> string list \<Rightarrow> builder \<Rightarrow> builder" where
  "AllowConnectSources reason sources =
     documentOnly ''AllowConnectSources'' (\<lambda>b.
       case addSources (b_connectSrc b) sources b of
         (dst, b') \<Rightarrow> waive ''connect-src'' (join '' '' sources) reason (b'\<lparr>b_connectSrc := dst\<rparr>))"

definition AllowImageSources :: "string \<Rightarrow> string list \<Rightarrow> builder \<Rightarrow> builder" where
  "AllowImageSources reason sources =
     documentOnly ''AllowImageSources'' (\<lambda>b.
       case addSources (b_imgSrc b) sources b of
         (dst, b') \<Rightarrow> waive ''img-src'' (join '' '' sources) reason (b'\<lparr>b_imgSrc := dst\<rparr>))"

definition AllowFontSources :: "string \<Rightarrow> string list \<Rightarrow> builder \<Rightarrow> builder" where
  "AllowFontSources reason sources =
     documentOnly ''AllowFontSources'' (\<lambda>b.
       case addSources (b_fontSrc b) sources b of
         (dst, b') \<Rightarrow> waive ''font-src'' (join '' '' sources) reason (b'\<lparr>b_fontSrc := dst\<rparr>))"

definition AllowFrameAncestors :: "string \<Rightarrow> string list \<Rightarrow> builder \<Rightarrow> builder" where
  "AllowFrameAncestors reason sources =
     documentOnly ''AllowFrameAncestors'' (\<lambda>b.
       case addSources [] sources b of
         (replaced, b') \<Rightarrow>
           if replaced = [] then b'
           else waive ''frame-ancestors'' (join '' '' replaced) reason (b'\<lparr>b_frameAncestors := replaced\<rparr>))"

definition AllowInlineStyleAttributes :: "string \<Rightarrow> builder \<Rightarrow> builder" where
  "AllowInlineStyleAttributes reason =
     documentOnly ''AllowInlineStyleAttributes'' (\<lambda>b.
       waive ''style-src-attr'' (quoted ''unsafe-inline'') reason (b\<lparr>b_inlineStyleAttr := True\<rparr>))"

definition AllowCrossOriginPopups :: "string \<Rightarrow> builder \<Rightarrow> builder" where
  "AllowCrossOriginPopups reason b =
     waive ''cross-origin-opener-policy'' ''same-origin-allow-popups'' reason
       (b\<lparr>b_coop := ''same-origin-allow-popups''\<rparr>)"

definition AllowCrossOriginResources :: "string \<Rightarrow> string \<Rightarrow> builder \<Rightarrow> builder" where
  "AllowCrossOriginResources reason p b =
     (if p \<in> {ResourceSameSite, ResourceCrossOrigin}
      then waive ''cross-origin-resource-policy'' p reason (b\<lparr>b_corp := p\<rparr>)
      else if p = ResourceSameOrigin then fail (DefaultResource p) b
      else fail (UnknownResource p) b)"

definition AllowReferrerPolicy :: "string \<Rightarrow> string \<Rightarrow> builder \<Rightarrow> builder" where
  "AllowReferrerPolicy reason p b =
     (if \<not> ReferrerPolicy_valid p then fail (UnknownReferrer p) b
      else if \<not> leaksReferrerCrossOrigin p then fail (QuietReferrer p) b
      else waive ''referrer-policy'' p reason (b\<lparr>b_referrer := p\<rparr>))"

definition feature_byte :: "char \<Rightarrow> bool" where
  "feature_byte c \<longleftrightarrow> is_lower c \<or> c = CHR ''-''"

definition validPermissionFeature :: "string \<Rightarrow> sec_error option" where
  "validPermissionFeature feature =
     (if feature = [] then Some EmptyFeature
      else if length feature > 64 then Some (LongFeature feature)
      else if \<not> list_all feature_byte feature then Some (FeatureBytes feature)
      else None)"

definition validPermissionAllowlistItem :: "string \<Rightarrow> sec_error option" where
  "validPermissionAllowlistItem item =
     (let qt = CHR 0x22 in
      if item = ''self'' \<or> item = ''src'' then None
      else if item = ''*'' then Some (WildcardItem item)
      else if \<not> has_prefix item (qt # ''https://'') \<or> \<not> has_suffix item [qt] \<or> length item \<le> 10
      then Some (ItemForm item)
      else if \<not> list_all source_byte item then Some (ItemBytes item)
      else None)"

fun item_loop :: "string list \<Rightarrow> string list \<Rightarrow> builder \<Rightarrow> string list \<times> builder" where
  "item_loop items [] b = (items, b)"
| "item_loop items (x # xs) b =
     (case validPermissionAllowlistItem x of
        Some e \<Rightarrow> item_loop items xs (fail e b)
      | None \<Rightarrow> item_loop (items @ [x]) xs b)"

definition allowed :: "(string \<times> string list) list \<Rightarrow> string \<Rightarrow> string list" where
  "allowed features f = (case map_of features f of None \<Rightarrow> [] | Some items \<Rightarrow> items)"

definition AllowPermission :: "string \<Rightarrow> string \<Rightarrow> string list \<Rightarrow> builder \<Rightarrow> builder" where
  "AllowPermission reason feature allowlist b =
     (if trim_space reason = [] then fail PermissionReason b
      else case validPermissionFeature feature of
        Some e \<Rightarrow> fail e b
      | None \<Rightarrow>
          (case item_loop [] allowlist b of
             (items, b1) \<Rightarrow>
               (let already = allowed (b_permissions b1) feature;
                    grantsSomethingNew = list_ex (\<lambda>item. item \<notin> set already) items;
                    b2 = b1\<lparr>b_permissions := AList.update feature items (b_permissions b1)\<rparr>
                in if grantsSomethingNew
                   then waive ''permissions-policy'' (render_feature (feature, items)) reason b2
                   else b2)))"

definition AllowReducedHSTS :: "string \<Rightarrow> duration \<Rightarrow> bool \<Rightarrow> builder \<Rightarrow> builder" where
  "AllowReducedHSTS reason maxAge includeSubdomains b =
     (if b_deployment b \<noteq> Production then fail (HstsDeployment (b_deployment b)) b
      else if sint maxAge \<le> 0 then fail HstsMaxAge b
      else waive ''strict-transport-security''
             (''max-age='' @ Duration_String (sint maxAge) @ (if includeSubdomains then [] else '', no includeSubDomains''))
             reason (b\<lparr>b_hstsMaxAge := sint maxAge, b_hstsIncludeSubdomains := includeSubdomains\<rparr>))"

text \<open>The options the package offers, and a nil one.\<close>

datatype policy_option =
    Nil_Option
  | Allow_ReportOnly string
  | With_ReportURI string
  | Allow_ExternalReportURI string string
  | With_ScriptHashes "string list"
  | With_StyleHashes "string list"
  | With_HSTSPreload
  | With_ReferrerPolicy string
  | With_CrossOriginEmbedderPolicy string
  | Allow_ScriptSources string "string list"
  | Allow_StyleSources string "string list"
  | Allow_ConnectSources string "string list"
  | Allow_ImageSources string "string list"
  | Allow_FontSources string "string list"
  | Allow_FrameAncestors string "string list"
  | Allow_InlineStyleAttributes string
  | Allow_CrossOriginPopups string
  | Allow_CrossOriginResources string string
  | Allow_ReferrerPolicy string string
  | Allow_Permission string string "string list"
  | Allow_ReducedHSTS string duration bool

primrec apply_option :: "policy_option \<Rightarrow> builder \<Rightarrow> builder" where
  "apply_option Nil_Option = fail NilOption"
| "apply_option (Allow_ReportOnly r) = AllowReportOnly r"
| "apply_option (With_ReportURI u) = WithReportURI u"
| "apply_option (Allow_ExternalReportURI r u) = AllowExternalReportURI r u"
| "apply_option (With_ScriptHashes hs) = WithScriptHashes hs"
| "apply_option (With_StyleHashes hs) = WithStyleHashes hs"
| "apply_option With_HSTSPreload = WithHSTSPreload"
| "apply_option (With_ReferrerPolicy p) = WithReferrerPolicy p"
| "apply_option (With_CrossOriginEmbedderPolicy p) = WithCrossOriginEmbedderPolicy p"
| "apply_option (Allow_ScriptSources r ss) = AllowScriptSources r ss"
| "apply_option (Allow_StyleSources r ss) = AllowStyleSources r ss"
| "apply_option (Allow_ConnectSources r ss) = AllowConnectSources r ss"
| "apply_option (Allow_ImageSources r ss) = AllowImageSources r ss"
| "apply_option (Allow_FontSources r ss) = AllowFontSources r ss"
| "apply_option (Allow_FrameAncestors r ss) = AllowFrameAncestors r ss"
| "apply_option (Allow_InlineStyleAttributes r) = AllowInlineStyleAttributes r"
| "apply_option (Allow_CrossOriginPopups r) = AllowCrossOriginPopups r"
| "apply_option (Allow_CrossOriginResources r p) = AllowCrossOriginResources r p"
| "apply_option (Allow_ReferrerPolicy r p) = AllowReferrerPolicy r p"
| "apply_option (Allow_Permission r f xs) = AllowPermission r f xs"
| "apply_option (Allow_ReducedHSTS r a i) = AllowReducedHSTS r a i"

section \<open>Building\<close>

record policy =
  built :: bool
  p_deployment :: string
  p_reportOnly :: bool
  p_directives :: "directive list"
  p_cspNoNonce :: string
  p_nonceEnabled :: bool
  p_hsts :: string
  p_referrer :: string
  p_coop :: string
  p_corp :: string
  p_coep :: string
  p_permissions :: string
  p_frameOption :: string
  p_waivers :: "waiver list"

definition Policy_valid :: "policy option \<Rightarrow> bool" where
  "Policy_valid p \<longleftrightarrow>
     (case p of None \<Rightarrow> False
      | Some p \<Rightarrow> built p \<and> (p_deployment p = Development \<or> p_deployment p = Production))"

definition CSPHeaderName :: "policy \<Rightarrow> string" where
  "CSPHeaderName p = (if p_reportOnly p then HeaderCSPReportOnly else HeaderCSP)"

definition self_source :: string where "self_source = quoted ''self''"
definition none_source :: string where "none_source = quoted ''none''"

definition profile_directives :: "builder \<Rightarrow> directive list" where
  "profile_directives b =
     (case b_profile b of
        profileDocument \<Rightarrow>
          [\<lparr>dname = ''default-src'', dsources = [none_source]\<rparr>,
           \<lparr>dname = ''base-uri'', dsources = [none_source]\<rparr>,
           \<lparr>dname = ''connect-src'', dsources = b_connectSrc b\<rparr>,
           \<lparr>dname = ''font-src'', dsources = b_fontSrc b\<rparr>,
           \<lparr>dname = ''form-action'', dsources = b_formAction b\<rparr>,
           \<lparr>dname = ''frame-ancestors'', dsources = b_frameAncestors b\<rparr>,
           \<lparr>dname = ''img-src'', dsources = b_imgSrc b\<rparr>,
           \<lparr>dname = ''object-src'', dsources = [none_source]\<rparr>,
           \<lparr>dname = ''script-src'', dsources = b_scriptSrc b\<rparr>,
           \<lparr>dname = ''style-src'', dsources = b_styleSrc b\<rparr>] @
          (if b_inlineStyleAttr b then [\<lparr>dname = ''style-src-attr'', dsources = [quoted ''unsafe-inline'']\<rparr>] else [])
      | profileAPI \<Rightarrow>
          [\<lparr>dname = ''default-src'', dsources = [none_source]\<rparr>,
           \<lparr>dname = ''base-uri'', dsources = [none_source]\<rparr>,
           \<lparr>dname = ''form-action'', dsources = [none_source]\<rparr>,
           \<lparr>dname = ''frame-ancestors'', dsources = [none_source]\<rparr>,
           \<lparr>dname = ''sandbox'', dsources = []\<rparr>])"

definition build_directives :: "builder \<Rightarrow> directive list" where
  "build_directives b =
     profile_directives b @
     (if b_reportURI b \<noteq> [] then [\<lparr>dname = ''report-uri'', dsources = [b_reportURI b]\<rparr>] else [])"

definition build_hsts :: "builder \<Rightarrow> string" where
  "build_hsts b =
     (if b_hstsMaxAge b > 0
      then ''max-age='' @ show_int (whole_seconds (b_hstsMaxAge b)) @
           (if b_hstsIncludeSubdomains b then ''; includeSubDomains'' else []) @
           (if b_hstsPreload b then ''; preload'' else [])
      else [])"

text \<open>The policy \<open>build\<close> returns.\<close>

definition built_policy :: "builder \<Rightarrow> policy" where
  "built_policy b =
     (let ds = build_directives b in
      \<lparr>built = True, p_deployment = b_deployment b, p_reportOnly = b_reportOnly b, p_directives = ds,
       p_cspNoNonce = render ds, p_nonceEnabled = list_ex (\<lambda>d. dname d = ''script-src'') ds,
       p_hsts = build_hsts b, p_referrer = b_referrer b, p_coop = b_coop b, p_corp = b_corp b,
       p_coep = b_coep b, p_permissions = renderPermissions (b_permissions b),
       p_frameOption = (if b_frameAncestors b = [none_source] \<or> b_profile b = profileAPI then ''DENY'' else []),
       p_waivers = b_waivers b\<rparr>)"

definition build :: "builder \<Rightarrow> sec_error + policy" where
  "build b =
     (if b_hstsPreload b \<and> b_hstsMaxAge b > 0 \<and>
         (b_hstsMaxAge b < DefaultHSTSMaxAge \<or> \<not> b_hstsIncludeSubdomains b)
      then Inl PreloadReduced
      else Inr (built_policy b))"

definition new_builder :: "profile \<Rightarrow> string \<Rightarrow> builder" where
  "new_builder p d =
     (let doc = p = profileDocument in
      \<lparr>b_deployment = d, b_profile = p,
       b_connectSrc = (if doc then [self_source] else []), b_fontSrc = (if doc then [self_source] else []),
       b_formAction = (if doc then [self_source] else []), b_frameAncestors = (if doc then [none_source] else []),
       b_imgSrc = (if doc then [self_source, ''data:''] else []),
       b_scriptSrc = (if doc then [self_source] else []), b_styleSrc = (if doc then [self_source] else []),
       b_inlineStyleAttr = False, b_reportOnly = False, b_reportURI = [],
       b_hstsMaxAge = (if d = Production then DefaultHSTSMaxAge else 0),
       b_hstsIncludeSubdomains = (d = Production), b_hstsPreload = False,
       b_referrer = ReferrerSameOrigin, b_coop = ''same-origin'', b_corp = ResourceSameOrigin, b_coep = [],
       b_permissions = defaultPermissions, b_waivers = [], b_errs = []\<rparr>)"

definition newPolicy :: "profile \<Rightarrow> string \<Rightarrow> policy_option list \<Rightarrow> sec_error list + policy" where
  "newPolicy p d opts =
     (if d \<noteq> Development \<and> d \<noteq> Production then Inl [BadDeployment d]
      else
        (let b = fold apply_option opts (new_builder p d) in
         if b_errs b \<noteq> [] then Inl (b_errs b)
         else case build b of Inl e \<Rightarrow> Inl [e] | Inr pol \<Rightarrow> Inr pol))"

definition NewDocumentPolicy :: "string \<Rightarrow> policy_option list \<Rightarrow> sec_error list + policy" where
  "NewDocumentPolicy = newPolicy profileDocument"

definition NewAPIPolicy :: "string \<Rightarrow> policy_option list \<Rightarrow> sec_error list + policy" where
  "NewAPIPolicy = newPolicy profileAPI"

end
