(* ===== verification/Secure_Laws.thy ===== *)
theory Secure_Laws
  imports Secure
begin

text \<open>
  What every policy the package builds promises, whatever options it was built with: its
  Content-Security-Policy reads back as exactly its directives, no unsafe keyword reaches it, and every
  weakening of a default is recorded as a waiver with a reason.
\<close>

section \<open>Options without errors\<close>

lemma errs_fail [simp]: "b_errs (fail e b) \<noteq> []"
  by (simp add: fail_def)

lemma source_loop_clean:
  "source_loop dst ss b = (dst', b') \<Longrightarrow> b_errs b' = [] \<Longrightarrow>
     b' = b \<and> dst' = dst @ ss \<and> list_all (\<lambda>s. validSource s = None) ss"
  by (induction dst ss b rule: source_loop.induct) (auto split: option.splits)

lemma addSources_clean:
  "addSources dst ss b = (dst', b') \<Longrightarrow> b_errs b' = [] \<Longrightarrow>
     b' = b \<and> dst' = dst @ ss \<and> list_all (\<lambda>s. validSource s = None) ss \<and> ss \<noteq> []"
  by (auto simp: addSources_def split: if_splits dest: source_loop_clean)

lemma hash_option_clean:
  "hash_option_loop dst hs b = (dst', b') \<Longrightarrow> b_errs b' = [] \<Longrightarrow>
     b' = b \<and> (\<exists>hs'. dst' = dst @ hs' \<and> list_all hash_source hs')"
proof (induction dst hs b rule: hash_option_loop.induct)
  case (2 dst raw rest b)
  then show ?case by (fastforce split: sum.splits dest: normalizeHash_Inr)
qed simp

lemma item_loop_clean:
  "item_loop items xs b = (items', b') \<Longrightarrow> b_errs b' = [] \<Longrightarrow>
     b' = b \<and> items' = items @ xs \<and> list_all (\<lambda>x. validPermissionAllowlistItem x = None) xs"
  by (induction items xs b rule: item_loop.induct) (auto split: option.splits)

section \<open>The invariant of the builder\<close>

definition waived :: "builder \<Rightarrow> string \<Rightarrow> bool" where
  "waived b c \<longleftrightarrow> (\<exists>w\<in>set (b_waivers b). Control w = c)"

definition all_sources :: "builder \<Rightarrow> string list" where
  "all_sources b =
     b_connectSrc b @ b_fontSrc b @ b_formAction b @ b_frameAncestors b @ b_imgSrc b @ b_scriptSrc b @ b_styleSrc b"

definition base :: "profile \<Rightarrow> string list \<Rightarrow> string list" where
  "base pr ss = (if pr = profileDocument then ss else [])"

text \<open>Every default that is still in place, or the waiver that explains why not.\<close>

definition csp_ok :: "profile \<Rightarrow> builder \<Rightarrow> bool" where
  "csp_ok pr b \<longleftrightarrow>
     (b_connectSrc b = base pr [self_source] \<or> waived b ''connect-src'') \<and>
     (b_fontSrc b = base pr [self_source] \<or> waived b ''font-src'') \<and>
     b_formAction b = base pr [self_source] \<and>
     (b_frameAncestors b = base pr [none_source] \<or> waived b ''frame-ancestors'') \<and>
     (b_imgSrc b = base pr [self_source, ''data:''] \<or> waived b ''img-src'') \<and>
     (\<forall>s\<in>set (b_scriptSrc b). s = self_source \<or> hash_source s \<or> waived b ''script-src'') \<and>
     (\<forall>s\<in>set (b_styleSrc b). s = self_source \<or> hash_source s \<or> waived b ''style-src'') \<and>
     (b_inlineStyleAttr b \<longrightarrow> waived b ''style-src-attr'') \<and>
     (b_reportOnly b \<longrightarrow> waived b ''content-security-policy'') \<and>
     (b_reportURI b = [] \<or> classifyReportURI (b_reportURI b) = Inr reportURISameOrigin \<or>
        classifyReportURI (b_reportURI b) = Inr reportURIExternal \<and> waived b ''content-security-policy'')"

definition headers_ok :: "builder \<Rightarrow> bool" where
  "headers_ok b \<longleftrightarrow>
     (b_coop b = ''same-origin'' \<or> waived b ''cross-origin-opener-policy'') \<and>
     (b_corp b = ResourceSameOrigin \<or> waived b ''cross-origin-resource-policy'') \<and>
     (b_referrer b \<in> {ReferrerSameOrigin, ReferrerNoReferrer} \<or> waived b ''referrer-policy'') \<and>
     ((\<forall>f. set (allowed (b_permissions b) f) \<subseteq> set (allowed defaultPermissions f)) \<or> waived b ''permissions-policy'') \<and>
     fst ` set defaultPermissions \<subseteq> fst ` set (b_permissions b) \<and>
     (b_deployment b = Production \<longrightarrow> b_hstsMaxAge b > 0 \<and>
        (b_hstsMaxAge b = DefaultHSTSMaxAge \<and> b_hstsIncludeSubdomains b \<or> waived b ''strict-transport-security'')) \<and>
     (b_deployment b \<noteq> Production \<longrightarrow> b_hstsMaxAge b = 0)"

definition builder_ok :: "profile \<Rightarrow> string \<Rightarrow> builder \<Rightarrow> bool" where
  "builder_ok pr d b \<longleftrightarrow>
     b_profile b = pr \<and> b_deployment b = d \<and> csp_ok pr b \<and> headers_ok b \<and>
     list_all (\<lambda>s. validSource s = None) (all_sources b) \<and>
     list_all (\<lambda>w. trim_space (Reason w) \<noteq> []) (b_waivers b) \<and>
     (pr = profileDocument \<longrightarrow> self_source \<in> set (b_scriptSrc b)) \<and>
     distinct (map fst (b_permissions b))"

lemmas builder_defs = builder_ok_def csp_ok_def headers_ok_def all_sources_def

lemma waived_simps [simp]:
  "waived (b\<lparr>b_waivers := ws @ [w]\<rparr>) c \<longleftrightarrow> waived (b\<lparr>b_waivers := ws\<rparr>) c \<or> Control w = c"
  by (auto simp: waived_def)

lemmas option_defs =
  AllowReportOnly_def WithReportURI_def AllowExternalReportURI_def WithScriptHashes_def WithStyleHashes_def
  WithHSTSPreload_def WithReferrerPolicy_def WithCrossOriginEmbedderPolicy_def AllowScriptSources_def
  AllowStyleSources_def AllowConnectSources_def AllowImageSources_def AllowFontSources_def
  AllowFrameAncestors_def AllowInlineStyleAttributes_def AllowCrossOriginPopups_def
  AllowCrossOriginResources_def AllowReferrerPolicy_def AllowPermission_def AllowReducedHSTS_def

lemma option_clean: "b_errs (apply_option x b) = [] \<Longrightarrow> b_errs b = []"
  by (cases x)
    (auto simp: option_defs documentOnly_def waive_def Let_def
      dest!: addSources_clean hash_option_clean item_loop_clean
      split: sum.splits if_splits option.splits prod.splits)

lemma allowed_update [simp]:
  "allowed (AList.update f items ps) g = (if g = f then items else allowed ps g)"
  by (simp add: allowed_def update_conv')

lemmas clean_dests = addSources_clean hash_option_clean item_loop_clean

lemma option_profile:
  "b_errs (apply_option x b) = [] \<Longrightarrow>
     b_profile (apply_option x b) = b_profile b \<and> b_deployment (apply_option x b) = b_deployment b"
  by (cases x)
    (auto simp: option_defs documentOnly_def waive_def Let_def dest!: clean_dests
      split: sum.splits if_splits option.splits prod.splits)

lemma option_sources:
  "b_errs (apply_option x b) = [] \<Longrightarrow> list_all (\<lambda>s. validSource s = None) (all_sources b) \<Longrightarrow>
     list_all (\<lambda>s. validSource s = None) (all_sources (apply_option x b))"
  by (cases x)
    (auto simp: option_defs documentOnly_def waive_def Let_def all_sources_def list_all_iff
      dest!: clean_dests hash_source_valid split: sum.splits if_splits option.splits prod.splits)

lemma option_reasons:
  "b_errs (apply_option x b) = [] \<Longrightarrow> list_all (\<lambda>w. trim_space (Reason w) \<noteq> []) (b_waivers b) \<Longrightarrow>
     list_all (\<lambda>w. trim_space (Reason w) \<noteq> []) (b_waivers (apply_option x b))"
  by (cases x)
    (auto simp: option_defs documentOnly_def waive_def Let_def
      dest!: clean_dests split: sum.splits if_splits option.splits prod.splits)

lemma option_self:
  "b_errs (apply_option x b) = [] \<Longrightarrow> self_source \<in> set (b_scriptSrc b) \<Longrightarrow>
     self_source \<in> set (b_scriptSrc (apply_option x b))"
  by (cases x)
    (auto simp: option_defs documentOnly_def waive_def Let_def
      dest!: clean_dests split: sum.splits if_splits option.splits prod.splits)

lemma option_keys:
  "b_errs (apply_option x b) = [] \<Longrightarrow> distinct (map fst (b_permissions b)) \<Longrightarrow>
     distinct (map fst (b_permissions (apply_option x b)))"
  by (cases x)
    (auto simp: option_defs documentOnly_def waive_def Let_def distinct_update
      dest!: clean_dests split: sum.splits if_splits option.splits prod.splits)

lemma waived_mono:
  "b_errs (apply_option x b) = [] \<Longrightarrow> waived b c \<Longrightarrow> waived (apply_option x b) c"
  by (cases x)
    (auto simp: option_defs documentOnly_def waive_def Let_def waived_def
      dest!: clean_dests split: sum.splits if_splits option.splits prod.splits)

text \<open>One option either leaves a part of the policy alone or records the waiver that names it.\<close>

lemma option_kept:
  assumes "b_errs (apply_option x b) = []"
  shows "b_connectSrc (apply_option x b) = b_connectSrc b \<or> waived (apply_option x b) ''connect-src''"
    and "b_fontSrc (apply_option x b) = b_fontSrc b \<or> waived (apply_option x b) ''font-src''"
    and "b_formAction (apply_option x b) = b_formAction b"
    and "b_frameAncestors (apply_option x b) = b_frameAncestors b \<or> waived (apply_option x b) ''frame-ancestors''"
    and "b_imgSrc (apply_option x b) = b_imgSrc b \<or> waived (apply_option x b) ''img-src''"
    and "b_inlineStyleAttr (apply_option x b) = b_inlineStyleAttr b \<or> waived (apply_option x b) ''style-src-attr''"
    and "b_reportOnly (apply_option x b) = b_reportOnly b \<or> waived (apply_option x b) ''content-security-policy''"
    and "b_coop (apply_option x b) = b_coop b \<or> waived (apply_option x b) ''cross-origin-opener-policy''"
    and "b_corp (apply_option x b) = b_corp b \<or> waived (apply_option x b) ''cross-origin-resource-policy''"
  using assms
  by (cases x;
      auto simp: option_defs documentOnly_def waive_def Let_def waived_def
        dest!: clean_dests split: sum.splits if_splits option.splits prod.splits)+

lemma option_script:
  assumes "b_errs (apply_option x b) = []"
  shows "\<exists>new. b_scriptSrc (apply_option x b) = b_scriptSrc b @ new \<and>
      (list_all hash_source new \<or> waived (apply_option x b) ''script-src'')"
    and "\<exists>new. b_styleSrc (apply_option x b) = b_styleSrc b @ new \<and>
      (list_all hash_source new \<or> waived (apply_option x b) ''style-src'')"
  using assms
  by (cases x;
      auto simp: option_defs documentOnly_def waive_def Let_def waived_def
        dest!: clean_dests split: sum.splits if_splits option.splits prod.splits)+

lemma option_report:
  assumes "b_errs (apply_option x b) = []"
  shows "b_reportURI (apply_option x b) = b_reportURI b \<or>
      classifyReportURI (b_reportURI (apply_option x b)) = Inr reportURISameOrigin \<or>
      classifyReportURI (b_reportURI (apply_option x b)) = Inr reportURIExternal \<and>
        waived (apply_option x b) ''content-security-policy''"
  using assms
  by (cases x;
      auto simp: option_defs documentOnly_def waive_def Let_def waived_def
        dest!: clean_dests split: sum.splits if_splits option.splits prod.splits)

lemma option_referrer:
  assumes "b_errs (apply_option x b) = []"
  shows "b_referrer (apply_option x b) = b_referrer b \<or>
      b_referrer (apply_option x b) \<in> {ReferrerSameOrigin, ReferrerNoReferrer} \<or>
      waived (apply_option x b) ''referrer-policy''"
  using assms
  by (cases x;
      auto simp: option_defs documentOnly_def waive_def Let_def waived_def leaksReferrerCrossOrigin_def
        dest!: clean_dests split: sum.splits if_splits option.splits prod.splits)

lemma option_permissions:
  assumes "b_errs (apply_option x b) = []"
  shows "(\<forall>f. set (allowed (b_permissions (apply_option x b)) f) \<subseteq> set (allowed (b_permissions b) f)) \<or>
      waived (apply_option x b) ''permissions-policy''"
    and "fst ` set (b_permissions b) \<subseteq> fst ` set (b_permissions (apply_option x b))"
  using assms
  by (cases x;
      auto simp: option_defs documentOnly_def waive_def Let_def waived_def list_ex_iff dom_update
        dest!: clean_dests split: sum.splits if_splits option.splits prod.splits)+

lemma option_hsts:
  assumes "b_errs (apply_option x b) = []"
  shows "b_hstsMaxAge (apply_option x b) = b_hstsMaxAge b \<and>
        b_hstsIncludeSubdomains (apply_option x b) = b_hstsIncludeSubdomains b \<or>
      waived (apply_option x b) ''strict-transport-security'' \<and> b_hstsMaxAge (apply_option x b) > 0 \<and>
        b_deployment b = Production"
  using assms
  by (cases x;
      auto simp: option_defs documentOnly_def waive_def Let_def waived_def
        dest!: clean_dests split: sum.splits if_splits option.splits prod.splits)

lemma kept_or_waived:
  assumes "x' = x \<or> w'" and "w \<Longrightarrow> w'" and "x = y \<or> w"
  shows "x' = y \<or> w'"
  using assms by blast

lemma csp_okD:
  assumes "csp_ok pr b"
  shows "b_connectSrc b = base pr [self_source] \<or> waived b ''connect-src''"
    and "b_fontSrc b = base pr [self_source] \<or> waived b ''font-src''"
    and "b_formAction b = base pr [self_source]"
    and "b_frameAncestors b = base pr [none_source] \<or> waived b ''frame-ancestors''"
    and "b_imgSrc b = base pr [self_source, ''data:''] \<or> waived b ''img-src''"
    and "\<forall>s\<in>set (b_scriptSrc b). s = self_source \<or> hash_source s \<or> waived b ''script-src''"
    and "\<forall>s\<in>set (b_styleSrc b). s = self_source \<or> hash_source s \<or> waived b ''style-src''"
    and "b_inlineStyleAttr b \<longrightarrow> waived b ''style-src-attr''"
    and "b_reportOnly b \<longrightarrow> waived b ''content-security-policy''"
    and "b_reportURI b = [] \<or> classifyReportURI (b_reportURI b) = Inr reportURISameOrigin \<or>
        classifyReportURI (b_reportURI b) = Inr reportURIExternal \<and> waived b ''content-security-policy''"
  using assms unfolding csp_ok_def by simp_all

lemma headers_okD:
  assumes "headers_ok b"
  shows "b_coop b = ''same-origin'' \<or> waived b ''cross-origin-opener-policy''"
    and "b_corp b = ResourceSameOrigin \<or> waived b ''cross-origin-resource-policy''"
    and "b_referrer b \<in> {ReferrerSameOrigin, ReferrerNoReferrer} \<or> waived b ''referrer-policy''"
    and "(\<forall>f. set (allowed (b_permissions b) f) \<subseteq> set (allowed defaultPermissions f)) \<or> waived b ''permissions-policy''"
    and "fst ` set defaultPermissions \<subseteq> fst ` set (b_permissions b)"
    and "b_deployment b = Production \<longrightarrow> b_hstsMaxAge b > 0 \<and>
        (b_hstsMaxAge b = DefaultHSTSMaxAge \<and> b_hstsIncludeSubdomains b \<or> waived b ''strict-transport-security'')"
    and "b_deployment b \<noteq> Production \<longrightarrow> b_hstsMaxAge b = 0"
  using assms unfolding headers_ok_def by simp_all

lemma option_csp:
  assumes "b_errs (apply_option x b) = []" and "csp_ok pr b"
  shows "csp_ok pr (apply_option x b)"
proof -
  note kept = option_kept [OF assms(1)] and mono = waived_mono [OF assms(1)] and ok = csp_okD [OF assms(2)]
  have script: "\<forall>s\<in>set (b_scriptSrc (apply_option x b)). s = self_source \<or> hash_source s \<or> waived (apply_option x b) ''script-src''"
    using option_script(1) [OF assms(1)] ok(6) mono [of "''script-src''"] by (auto simp: list_all_iff)
  have style: "\<forall>s\<in>set (b_styleSrc (apply_option x b)). s = self_source \<or> hash_source s \<or> waived (apply_option x b) ''style-src''"
    using option_script(2) [OF assms(1)] ok(7) mono [of "''style-src''"] by (auto simp: list_all_iff)
  have report: "b_reportURI (apply_option x b) = [] \<or> classifyReportURI (b_reportURI (apply_option x b)) = Inr reportURISameOrigin \<or>
      classifyReportURI (b_reportURI (apply_option x b)) = Inr reportURIExternal \<and> waived (apply_option x b) ''content-security-policy''"
    using option_report [OF assms(1)] ok(10) mono [of "''content-security-policy''"] by metis
  have inline: "b_inlineStyleAttr (apply_option x b) \<longrightarrow> waived (apply_option x b) ''style-src-attr''"
    using kept(6) ok(8) mono [of "''style-src-attr''"] by metis
  have only: "b_reportOnly (apply_option x b) \<longrightarrow> waived (apply_option x b) ''content-security-policy''"
    using kept(7) ok(9) mono [of "''content-security-policy''"] by metis
  note def = kept_or_waived [OF kept(1) mono ok(1)] kept_or_waived [OF kept(2) mono ok(2)] trans [OF kept(3) ok(3)]
    kept_or_waived [OF kept(4) mono ok(4)] kept_or_waived [OF kept(5) mono ok(5)]
  show ?thesis unfolding csp_ok_def by (intro conjI def script style inline only report)
qed

lemma option_headers:
  assumes "b_errs (apply_option x b) = []" and "headers_ok b"
  shows "headers_ok (apply_option x b)"
proof -
  note kept = option_kept(8,9) [OF assms(1)] and mono = waived_mono [OF assms(1)] and ok = headers_okD [OF assms(2)]
  have perms: "(\<forall>f. set (allowed (b_permissions (apply_option x b)) f) \<subseteq> set (allowed defaultPermissions f)) \<or>
      waived (apply_option x b) ''permissions-policy''"
    using option_permissions(1) [OF assms(1)] ok(4) mono by (meson subset_trans)
  have keys: "fst ` set defaultPermissions \<subseteq> fst ` set (b_permissions (apply_option x b))"
    using option_permissions(2) [OF assms(1)] ok(5) by (meson subset_trans)
  have ref: "b_referrer (apply_option x b) \<in> {ReferrerSameOrigin, ReferrerNoReferrer} \<or> waived (apply_option x b) ''referrer-policy''"
    using option_referrer [OF assms(1)] ok(3) mono [of "''referrer-policy''"] by metis
  have dep: "b_deployment (apply_option x b) = b_deployment b" using option_profile [OF assms(1)] by simp
  have hsts: "b_deployment b = Production \<longrightarrow> b_hstsMaxAge (apply_option x b) > 0 \<and>
      (b_hstsMaxAge (apply_option x b) = DefaultHSTSMaxAge \<and> b_hstsIncludeSubdomains (apply_option x b) \<or>
       waived (apply_option x b) ''strict-transport-security'')"
    "b_deployment b \<noteq> Production \<longrightarrow> b_hstsMaxAge (apply_option x b) = 0"
    using option_hsts [OF assms(1)] ok(6,7) mono [of "''strict-transport-security''"] by metis+
  show ?thesis
    unfolding headers_ok_def dep
    by (intro conjI kept_or_waived [OF kept(1) mono ok(1)] kept_or_waived [OF kept(2) mono ok(2)] ref perms keys hsts)
qed

lemma option_ok:
  assumes "b_errs (apply_option x b) = []" and "builder_ok pr d b"
  shows "builder_ok pr d (apply_option x b)"
  using assms(2) option_profile [OF assms(1)] option_sources [OF assms(1)] option_reasons [OF assms(1)]
    option_self [OF assms(1)] option_keys [OF assms(1)] option_csp [OF assms(1)] option_headers [OF assms(1)]
  by (simp add: builder_ok_def)

lemma options_ok:
  "b_errs (fold apply_option opts b) = [] \<Longrightarrow>
     b_errs b = [] \<and> (builder_ok pr d b \<longrightarrow> builder_ok pr d (fold apply_option opts b))"
proof (induction opts arbitrary: b)
  case (Cons x opts)
  then show ?case using option_clean [of x b] option_ok [of x b] by auto
qed simp

lemma source_consts:
  "validSource self_source = None" "validSource none_source = None" "validSource ''data:'' = None"
  by code_simp+

lemma default_keys: "distinct (map fst defaultPermissions)"
  by code_simp

lemma new_builder_ok: "builder_ok pr d (new_builder pr d)"
  using source_consts default_keys
  by (auto simp: builder_defs new_builder_def base_def Let_def DefaultHSTSMaxAge_def second_def waived_def)

lemma newPolicy_Inr:
  assumes "newPolicy pr d opts = Inr p"
  obtains b where "builder_ok pr d b" "build b = Inr p" "d = Development \<or> d = Production"
proof -
  let ?b = "fold apply_option opts (new_builder pr d)"
  from assms have "b_errs ?b = []" "build ?b = Inr p" "d = Development \<or> d = Production"
    by (auto simp: newPolicy_def Let_def split: if_splits sum.splits)
  then show thesis using options_ok new_builder_ok that by blast
qed

section \<open>Properties\<close>

definition recorded :: "policy \<Rightarrow> string \<Rightarrow> bool" where
  "recorded p c \<longleftrightarrow> (\<exists>w\<in>set (p_waivers p). Control w = c)"

text \<open>The source lists of the documented default policies.\<close>

definition default_sources :: "profile \<Rightarrow> (string \<times> string list) list" where
  "default_sources pr =
     (case pr of
        profileDocument \<Rightarrow>
          [(''default-src'', [none_source]), (''base-uri'', [none_source]), (''connect-src'', [self_source]),
           (''font-src'', [self_source]), (''form-action'', [self_source]), (''frame-ancestors'', [none_source]),
           (''img-src'', [self_source, ''data:'']), (''object-src'', [none_source]), (''script-src'', [self_source]),
           (''style-src'', [self_source])]
      | profileAPI \<Rightarrow>
          [(''default-src'', [none_source]), (''base-uri'', [none_source]), (''form-action'', [none_source]),
           (''frame-ancestors'', [none_source]), (''sandbox'', [])])"

text \<open>
  A directive is the default one, or a waiver names it, or it adds only hashes of exact content to
  scripts or styles, or it sends reports to the application itself (elsewhere only with a waiver).
\<close>

definition explained :: "profile \<Rightarrow> policy \<Rightarrow> directive \<Rightarrow> bool" where
  "explained pr p dd \<longleftrightarrow>
     (dname dd, dsources dd) \<in> set (default_sources pr) \<or> recorded p (dname dd) \<or>
     dname dd \<in> {''script-src'', ''style-src''} \<and> (\<forall>s\<in>set (dsources dd). s = self_source \<or> hash_source s) \<or>
     dname dd = ''report-uri'' \<and>
       (\<exists>u. dsources dd = [u] \<and> (classifyReportURI u = Inr reportURISameOrigin \<or> recorded p ''content-security-policy''))"

lemma default_hsts: "whole_seconds DefaultHSTSMaxAge = 31536000"
  by (simp add: whole_seconds_def DefaultHSTSMaxAge_def second_def top_power.simps)

lemma build_Inr:
  assumes "build b = Inr p"
  shows "p_directives p = build_directives b" "p_cspNoNonce p = render (p_directives p)" "p_hsts p = build_hsts b"
    "p_referrer p = b_referrer b" "p_coop p = b_coop b" "p_corp p = b_corp b" "p_reportOnly p = b_reportOnly b"
    "p_permissions p = renderPermissions (b_permissions b)" "p_waivers p = b_waivers b" "built p"
    "p_deployment p = b_deployment b"
    "p_frameOption p = (if b_frameAncestors b = [none_source] \<or> b_profile b = profileAPI then ''DENY'' else [])"
    "p_nonceEnabled p = list_ex (\<lambda>d. dname d = ''script-src'') (p_directives p)"
  using assms by (auto simp: build_def built_policy_def Let_def split: if_split_asm)

lemma recorded_build: "build b = Inr p \<Longrightarrow> recorded p c \<longleftrightarrow> waived b c"
  by (simp add: recorded_def waived_def build_Inr)

lemma explained_kept:
  "ss = x \<or> recorded p n \<Longrightarrow> (n, x) \<in> set (default_sources pr) \<Longrightarrow> explained pr p \<lparr>dname = n, dsources = ss\<rparr>"
  by (auto simp: explained_def)

lemma explained_hashes:
  "\<forall>s\<in>set ss. s = self_source \<or> hash_source s \<or> recorded p n \<Longrightarrow> n \<in> {''script-src'', ''style-src''} \<Longrightarrow>
     explained pr p \<lparr>dname = n, dsources = ss\<rparr>"
  unfolding explained_def by auto

lemma explained_recorded: "recorded p n \<Longrightarrow> explained pr p \<lparr>dname = n, dsources = ss\<rparr>"
  by (simp add: explained_def)

lemma report_explained:
  "u = [] \<or> classifyReportURI u = Inr reportURISameOrigin \<or>
     classifyReportURI u = Inr reportURIExternal \<and> recorded p ''content-security-policy'' \<Longrightarrow>
   u \<noteq> [] \<Longrightarrow> explained pr p \<lparr>dname = ''report-uri'', dsources = [u]\<rparr>"
  unfolding explained_def by auto

lemma build_explained:
  assumes ok: "builder_ok pr d b" and b: "build b = Inr p" and dd: "dd \<in> set (p_directives p)"
  shows "explained pr p dd"
proof -
  have csp: "csp_ok pr b" and pr: "b_profile b = pr" using ok by (simp_all add: builder_ok_def)
  note w = csp_okD [OF csp, folded recorded_build [OF b]]
  have "list_all (explained pr p) (profile_directives b)"
  proof (cases pr)
    case profileAPI
    then show ?thesis
      unfolding profile_directives_def pr
      by (simp del: insert_iff) (intro conjI explained_kept; simp add: default_sources_def)
  next
    case profileDocument
    note w' = w [unfolded profileDocument base_def, simplified]
    show ?thesis
      unfolding profile_directives_def pr profileDocument
      by (simp, intro conjI impI explained_kept [OF w'(1)] explained_kept [OF w'(2)] explained_kept [OF disjI1 [OF w'(3)]]
          explained_kept [OF w'(4)] explained_kept [OF w'(5)] explained_hashes [OF w'(6)] explained_hashes [OF w'(7)]
          explained_recorded [OF w'(8) [THEN mp]] explained_kept [OF disjI1 [OF refl]])
        (simp_all add: default_sources_def)
  qed
  then show ?thesis
    using dd report_explained [OF w(10)]
    by (auto simp: build_Inr(1) [OF b] build_directives_def list_all_iff split: if_splits)
qed

lemma hsts_explained:
  assumes ok: "builder_ok pr d b" and b: "build b = Inr p"
  shows "d = Production \<Longrightarrow> has_prefix (p_hsts p) ''max-age='' \<and>
      (has_prefix (p_hsts p) ''max-age=31536000; includeSubDomains'' \<or> recorded p ''strict-transport-security'')"
    and "d \<noteq> Production \<Longrightarrow> p_hsts p = []"
proof -
  have h: "headers_ok b" and dep: "b_deployment b = d" using ok by (simp_all add: builder_ok_def)
  note hd = headers_okD(6,7) [OF h, unfolded dep]
  have show_max: "show_int 31536000 = ''31536000''"
    by (simp add: show_int_def show_nat.simps digit_char_def) code_simp
  have pre: "''max-age=31536000; includeSubDomains'' = ''max-age='' @ ''31536000'' @ ''; includeSubDomains''" by simp
  show "p_hsts p = []" if "d \<noteq> Production" using hd(2) that by (simp add: build_Inr(3) [OF b] build_hsts_def)
  assume "d = Production"
  with hd(1) have pos: "b_hstsMaxAge b > 0" and
    alt: "b_hstsMaxAge b = DefaultHSTSMaxAge \<and> b_hstsIncludeSubdomains b \<or> waived b ''strict-transport-security''"
    by simp_all
  from pos have "has_prefix (p_hsts p) ''max-age=''" by (simp add: build_Inr(3) [OF b] build_hsts_def has_prefix_def)
  moreover have "has_prefix (p_hsts p) ''max-age=31536000; includeSubDomains''"
    if "b_hstsMaxAge b = DefaultHSTSMaxAge" "b_hstsIncludeSubdomains b"
    using pos that unfolding pre
    by (simp add: build_Inr(3) [OF b] build_hsts_def has_prefix_def default_hsts show_max)
  ultimately show "has_prefix (p_hsts p) ''max-age='' \<and>
      (has_prefix (p_hsts p) ''max-age=31536000; includeSubDomains'' \<or> recorded p ''strict-transport-security'')"
    using alt by (auto simp: recorded_build [OF b])
qed


lemma directive_words: "list_all word_ok [''default-src'', ''base-uri'', ''connect-src'', ''font-src'', ''form-action'',
    ''frame-ancestors'', ''img-src'', ''object-src'', ''script-src'', ''style-src'', ''style-src-attr'', ''sandbox'',
    ''report-uri'', none_source, self_source, quoted ''unsafe-inline'']"
  by code_simp

lemma classify_valid: "classifyReportURI u = Inr f \<Longrightarrow> validSource u = None"
  by (auto simp: classifyReportURI_def split: if_splits)

lemma all_sourcesD:
  "list_all P (all_sources b) \<Longrightarrow>
     list_all P (b_connectSrc b) \<and> list_all P (b_fontSrc b) \<and> list_all P (b_formAction b) \<and>
     list_all P (b_frameAncestors b) \<and> list_all P (b_imgSrc b) \<and> list_all P (b_scriptSrc b) \<and> list_all P (b_styleSrc b)"
  by (auto simp: all_sources_def)

text \<open>The sources of a built policy are valid ones, except the waived style attribute keyword.\<close>

lemma build_sources:
  assumes ok: "builder_ok pr d b" and b: "build b = Inr p" and dd: "dd \<in> set (p_directives p)"
  shows "word_ok (dname dd) \<and> (list_all (\<lambda>s. validSource s = None) (dsources dd) \<or>
     dname dd = ''style-src-attr'' \<and> dsources dd = [quoted ''unsafe-inline''] \<and> recorded p ''style-src-attr'')"
proof -
  let ?v = "\<lambda>s. validSource s = None"
  have csp: "csp_ok pr b" and pr: "b_profile b = pr" and all: "list_all ?v (all_sources b)"
    using ok by (simp_all add: builder_ok_def)
  note v = all_sourcesD [OF all] and rep = csp_okD(10) [OF csp]
  note attr = csp_okD(8) [OF csp, folded recorded_build [OF b]]
  have uri: "b_reportURI b \<noteq> [] \<Longrightarrow> validSource (b_reportURI b) = None" using rep classify_valid by blast
  let ?ok = "\<lambda>dd. word_ok (dname dd) \<and> (list_all ?v (dsources dd) \<or>
     dname dd = ''style-src-attr'' \<and> dsources dd = [quoted ''unsafe-inline''] \<and> recorded p ''style-src-attr'')"
  have "list_all ?ok (profile_directives b)"
    using v attr directive_words source_consts unfolding profile_directives_def
    by (cases "b_profile b") simp_all
  then show ?thesis
    using dd uri directive_words by (auto simp: build_Inr(1) [OF b] build_directives_def list_all_iff split: if_splits)
qed

lemma nonce_word: "bs \<noteq> [] \<Longrightarrow> word_ok (nonce_source (enc64 RawURLEncoding bs))"
proof -
  have "list_all source_byte url_alphabet" by code_simp
  then have "list_all source_byte (enc64 RawURLEncoding bs)"
    using set_enc64 [of RawURLEncoding bs] by (auto simp: list_all_iff)
  moreover have "list_all source_byte (apostrophe # ''nonce-'')" by code_simp
  ultimately show ?thesis by (simp add: word_ok_def nonce_source_def quoted_def)
qed

text \<open>
  C8: The Content-Security-Policy of every policy that can be built reads back, in a browser, as exactly
  the directives the options asked for, with the nonce of a response added to \<open>script-src\<close> and nowhere
  else; and no directive holds an unsafe keyword or the wildcard, in any letter case, except
  \<open>'unsafe-inline'\<close> in \<open>style-src-attr\<close>, which is waived by name.
\<close>

theorem csp_reads_back:
  assumes "newPolicy pr d opts = Inr p"
  shows "parse_csp (p_cspNoNonce p) = sort_key directive_order (p_directives p) \<and>
     (\<forall>bs. bs \<noteq> [] \<longrightarrow> parse_csp (renderWithNonce (p_directives p) (enc64 RawURLEncoding bs)) =
        sort_key directive_order (map (add_nonce (enc64 RawURLEncoding bs)) (p_directives p))) \<and>
     (\<forall>dd\<in>set (p_directives p). \<forall>s\<in>set (dsources dd). map lower_char s \<in> set unsafeKeywords \<longrightarrow>
        dname dd = ''style-src-attr'' \<and> recorded p ''style-src-attr'')"
proof -
  from assms obtain b where ok: "builder_ok pr d b" and b: "build b = Inr p" by (elim newPolicy_Inr)
  note src = build_sources [OF ok b]
  have inline: "word_ok (quoted ''unsafe-inline'')" and script: "word_ok ''script-src''"
    using directive_words by simp_all
  have words: "directive_ok dd" if "dd \<in> set (p_directives p)" for dd
    using src [OF that] inline by (auto simp: directive_ok_def list_all_iff dest: validSource_word)
  then have "list_all directive_ok (p_directives p)" by (simp add: list_all_iff)
  from parse_render [OF this] have plain: "parse_csp (p_cspNoNonce p) = sort_key directive_order (p_directives p)"
    by (simp add: build_Inr(2) [OF b])
  have nonce: "parse_csp (renderWithNonce (p_directives p) (enc64 RawURLEncoding bs)) =
        sort_key directive_order (map (add_nonce (enc64 RawURLEncoding bs)) (p_directives p))" if "bs \<noteq> []" for bs
    unfolding renderWithNonce_def
    using words nonce_word [OF that] script
    by (intro parse_render) (auto simp: list_all_iff directive_ok_def add_nonce_def)
  have safe: "dname dd = ''style-src-attr'' \<and> recorded p ''style-src-attr''"
    if "dd \<in> set (p_directives p)" "s \<in> set (dsources dd)" "map lower_char s \<in> set unsafeKeywords" for dd s
    using src [OF that(1)] that(2,3) by (auto simp: list_all_iff validSource_def split: if_splits)
  show ?thesis using plain nonce safe by blast
qed

section \<open>Witnesses\<close>

definition sample_options :: "policy_option list" where
  "sample_options =
     [With_ReportURI ''/csp'', Allow_InlineStyleAttributes ''announcer'', Allow_ConnectSources ''maps'' [''https://maps.example''],
      Allow_Permission ''scanner'' ''camera'' [''self'']]"

definition sample_builder :: builder where
  "sample_builder = fold apply_option sample_options (new_builder profileDocument Production)"

definition sample_policy :: policy where
  "sample_policy = built_policy sample_builder"

lemma sample_built: "newPolicy profileDocument Production sample_options = Inr sample_policy"
proof -
  have "b_errs sample_builder = []" "\<not> b_hstsPreload sample_builder"
    by code_simp+
  then show ?thesis by (simp add: newPolicy_def build_def sample_policy_def sample_builder_def)
qed

lemma sample_fields:
  "p_waivers sample_policy = b_waivers sample_builder" "p_directives sample_policy = build_directives sample_builder"
  by (simp_all add: sample_policy_def built_policy_def Let_def)


theorem csp_reads_back_witness:
  "map dname (parse_csp (p_cspNoNonce sample_policy)) =
     [''default-src'', ''base-uri'', ''connect-src'', ''font-src'', ''form-action'', ''frame-ancestors'', ''img-src'',
      ''object-src'', ''report-uri'', ''script-src'', ''style-src'', ''style-src-attr'']"
proof -
  have "map dname (sort_key directive_order (build_directives sample_builder)) =
     [''default-src'', ''base-uri'', ''connect-src'', ''font-src'', ''form-action'', ''frame-ancestors'', ''img-src'',
      ''object-src'', ''report-uri'', ''script-src'', ''style-src'', ''style-src-attr'']"
    by code_simp
  then show ?thesis using csp_reads_back [OF sample_built] by (simp add: sample_fields)
qed

section \<open>A reduction that removes the protection\<close>

text \<open>
  \<open>AllowReducedHSTS\<close> accepts any positive duration, and the header carries whole seconds: for less than
  a second it is \<open>max-age=0\<close>, which tells a browser to forget the host.
\<close>

lemma reduced_hsts_vanishes:
  assumes "0 < sint maxAge" and "sint maxAge < second" and "trim_space reason \<noteq> []"
  shows "\<exists>p. newPolicy pr Production [Allow_ReducedHSTS reason maxAge incl] = Inr p \<and>
     has_prefix (p_hsts p) ''max-age=0''"
proof -
  let ?b = "apply_option (Allow_ReducedHSTS reason maxAge incl) (new_builder pr Production)"
  have div: "sint maxAge div second = 0" "sint maxAge mod second = sint maxAge"
    using assms by (simp_all add: div_pos_pos_trivial mod_pos_pos_trivial)
  have one: "top_power 0 = 1" by (simp add: top_power.simps)
  have shown: "show_int 0 = ''0''" by code_simp
  have zero: "whole_seconds (sint maxAge) = 0"
    using assms(2) by (simp add: whole_seconds_def Let_def div one) (simp add: second_def)
  have "b_errs ?b = []" "\<not> b_hstsPreload ?b" "b_hstsMaxAge ?b = sint maxAge"
    using assms by (simp_all add: AllowReducedHSTS_def waive_def new_builder_def Let_def)
  moreover from this have "has_prefix (build_hsts ?b) ''max-age=0''"
    using assms(1) shown by (simp add: build_hsts_def zero has_prefix_def)
  ultimately show ?thesis
    by (simp add: newPolicy_def build_def Let_def built_policy_def)
qed

end
