(* ===== verification/Secure_Middleware.thy ===== *)
theory Secure_Middleware
  imports Secure_Laws
begin

text \<open>
  Writing the policy onto responses (\<open>runtime/secure\<close>: \<open>Policy.apply\<close>, \<open>middleware.go\<close>, \<open>nonce.go\<close>).  A handler is
  the sequence of things it does to its response writer, with arbitrary edits of the header map in
  between; the model records every header block that reaches the client.
\<close>

section \<open>Header maps\<close>

text \<open>An absent header is the empty list of values; the names used are in canonical form.\<close>

type_synonym header = "string \<Rightarrow> string list"

definition header_set :: "header \<Rightarrow> string \<Rightarrow> string \<Rightarrow> header" where
  "header_set h k v = h(k := [v])"

definition header_del :: "header \<Rightarrow> string \<Rightarrow> header" where
  "header_del h k = h(k := [])"

definition header_get :: "header \<Rightarrow> string \<Rightarrow> string" where
  "header_get h k = (case h k of [] \<Rightarrow> [] | v # _ \<Rightarrow> v)"

definition set_or_del :: "header \<Rightarrow> string \<Rightarrow> string \<Rightarrow> header" where
  "set_or_del h k v = (if v \<noteq> [] then header_set h k v else header_del h k)"

definition csp_headers :: "policy \<Rightarrow> case_table \<Rightarrow> string \<Rightarrow> header \<Rightarrow> header" where
  "csp_headers p tbl nonce h =
     (if nonce \<noteq> [] then
        (let h1 = header_set h (CSPHeaderName p) (renderWithNonce (p_directives p) nonce)
         in if contains (to_lower tbl (header_get h1 HeaderCacheControl)) ''no-store'' then h1
            else header_set h1 HeaderCacheControl ''no-store'')
      else header_set h (CSPHeaderName p) (p_cspNoNonce p))"

definition Policy_apply :: "policy \<Rightarrow> case_table \<Rightarrow> string \<Rightarrow> header \<Rightarrow> header" where
  "Policy_apply p tbl nonce h =
     (let h1 = csp_headers p tbl nonce h;
          h2 = header_del h1 (if p_reportOnly p then HeaderCSP else HeaderCSPReportOnly);
          h3 = set_or_del h2 HeaderHSTS (p_hsts p);
          h4 = header_set h3 HeaderContentTypeOptions ''nosniff'';
          h5 = header_set h4 HeaderReferrerPolicy (p_referrer p);
          h6 = header_set h5 HeaderCOOP (p_coop p);
          h7 = header_set h6 HeaderCORP (p_corp p);
          h8 = header_set h7 HeaderPermissionsPolicy (p_permissions p);
          h9 = set_or_del h8 HeaderCOEP (p_coep p)
      in set_or_del h9 HeaderFrameOptions (p_frameOption p))"

section \<open>The nonce\<close>

definition nonceByteLength :: nat where "nonceByteLength = 16"

definition newNonce :: "rand_source \<Rightarrow> string option" where
  "newNonce rand = map_option (enc64 RawURLEncoding) (rand nonceByteLength)"

text \<open>
  \<open>nonceState.get\<close>: the value of the slot afterwards (\<open>None\<close> is the panic without randomness); the caller
  is given that value, and told whether the policy has nonces at all.
\<close>

definition nonceState_get :: "bool \<Rightarrow> rand_source \<Rightarrow> string \<Rightarrow> string option" where
  "nonceState_get enabled rand val =
     (if \<not> enabled then Some val else if val = [] then newNonce rand else Some val)"

section \<open>One response\<close>

record response =
  hdr :: header
  applied :: bool
  nonce_value :: string
  committed :: bool
  hijacked :: bool
  blocks :: "(int \<times> header) list"

definition fresh_response :: "header \<Rightarrow> response" where
  "fresh_response h = \<lparr>hdr = h, applied = False, nonce_value = [], committed = False, hijacked = False, blocks = []\<rparr>"

text \<open>
  The \<open>net/http\<close> writer underneath: a status below 100 or above 999 panics (\<open>None\<close>); an informational
  status other than 101 sends the header map as a block of its own; any other status commits it; once
  committed or hijacked nothing more is sent.
\<close>

definition informational :: "int \<Rightarrow> bool" where
  "informational status \<longleftrightarrow> 100 \<le> status \<and> status \<le> 199 \<and> status \<noteq> 101"

definition base_WriteHeader :: "int \<Rightarrow> response \<Rightarrow> response option" where
  "base_WriteHeader status st =
     (if committed st \<or> hijacked st then Some st
      else if status < 100 \<or> status > 999 then None
      else if informational status then Some (st\<lparr>blocks := blocks st @ [(status, hdr st)]\<rparr>)
      else Some (st\<lparr>blocks := blocks st @ [(status, hdr st)], committed := True\<rparr>))"

definition apply_now :: "policy \<Rightarrow> case_table \<Rightarrow> response \<Rightarrow> response" where
  "apply_now p tbl st = st\<lparr>hdr := Policy_apply p tbl (nonce_value st) (hdr st)\<rparr>"

definition applyPolicy :: "policy \<Rightarrow> case_table \<Rightarrow> response \<Rightarrow> response" where
  "applyPolicy p tbl st = (if applied st then st else apply_now p tbl (st\<lparr>applied := True\<rparr>))"

datatype act =
    Edit "header \<Rightarrow> header"
  | Nonce_act rand_source
  | WriteHeader_act int
  | Write_act
  | Flush_act
  | Hijack_act bool

text \<open>
  One act; the second component is \<open>True\<close> when it panicked.  \<open>flusher\<close> says whether the writer
  underneath can flush; the argument of \<open>Hijack_act\<close> whether the takeover succeeds.
\<close>

fun step :: "policy \<Rightarrow> case_table \<Rightarrow> bool \<Rightarrow> act \<Rightarrow> response \<Rightarrow> response \<times> bool" where
  "step p tbl flusher (Edit f) st = (st\<lparr>hdr := f (hdr st)\<rparr>, False)"
| "step p tbl flusher (Nonce_act rand) st =
     (case nonceState_get (p_nonceEnabled p) rand (nonce_value st) of
        None \<Rightarrow> (st, True)
      | Some n \<Rightarrow> (st\<lparr>nonce_value := n\<rparr>, False))"
| "step p tbl flusher (WriteHeader_act status) st =
     (let st' = (if informational status then apply_now p tbl st else applyPolicy p tbl st)
      in case base_WriteHeader status st' of None \<Rightarrow> (st', True) | Some st'' \<Rightarrow> (st'', False))"
| "step p tbl flusher Write_act st =
     (let st' = applyPolicy p tbl st
      in case base_WriteHeader 200 st' of None \<Rightarrow> (st', True) | Some st'' \<Rightarrow> (st'', False))"
| "step p tbl flusher Flush_act st =
     (let st' = applyPolicy p tbl st
      in if \<not> flusher then (st', False)
         else case base_WriteHeader 200 st' of None \<Rightarrow> (st', True) | Some st'' \<Rightarrow> (st'', False))"
| "step p tbl flusher (Hijack_act ok) st =
     (let st' = apply_now p tbl st
      in if ok then (st'\<lparr>hijacked := True, applied := True\<rparr>, False) else (st', False))"

fun run :: "policy \<Rightarrow> case_table \<Rightarrow> bool \<Rightarrow> act list \<Rightarrow> response \<Rightarrow> response" where
  "run p tbl flusher [] st = st"
| "run p tbl flusher (a # as) st =
     (case step p tbl flusher a st of (st', panicked) \<Rightarrow> if panicked then st' else run p tbl flusher as st')"

text \<open>
  The middleware around one handler: the deferred \<open>applyPolicy\<close>, and then the server's implicit 200 or
  the status \<open>status\<close> a recovery mounted outside sends.  \<open>None\<close> is the panic for a policy that no
  constructor produced.
\<close>

definition serve ::
  "policy option \<Rightarrow> case_table \<Rightarrow> bool \<Rightarrow> header \<Rightarrow> act list \<Rightarrow> int \<Rightarrow> response option" where
  "serve p tbl flusher h acts status =
     (if \<not> Policy_valid p then None
      else case p of None \<Rightarrow> None | Some p \<Rightarrow>
        (let st = applyPolicy p tbl (run p tbl flusher acts (fresh_response h))
         in base_WriteHeader status st))"

section \<open>What a block carries\<close>

definition csp_value :: "policy \<Rightarrow> string \<Rightarrow> string" where
  "csp_value p nonce = (if nonce = [] then p_cspNoNonce p else renderWithNonce (p_directives p) nonce)"

text \<open>
  The header map of a protected block: every header of the policy with the policy's value and no other,
  exactly one of the two Content-Security-Policy headers, and no caching when a nonce is named.
\<close>

definition carries :: "policy \<Rightarrow> case_table \<Rightarrow> string \<Rightarrow> header \<Rightarrow> bool" where
  "carries p tbl nonce h \<longleftrightarrow>
     h (CSPHeaderName p) = [csp_value p nonce] \<and>
     h (if p_reportOnly p then HeaderCSP else HeaderCSPReportOnly) = [] \<and>
     h HeaderHSTS = (if p_hsts p = [] then [] else [p_hsts p]) \<and>
     h HeaderContentTypeOptions = [''nosniff''] \<and> h HeaderReferrerPolicy = [p_referrer p] \<and>
     h HeaderCOOP = [p_coop p] \<and> h HeaderCORP = [p_corp p] \<and>
     h HeaderPermissionsPolicy = [p_permissions p] \<and>
     h HeaderCOEP = (if p_coep p = [] then [] else [p_coep p]) \<and>
     h HeaderFrameOptions = (if p_frameOption p = [] then [] else [p_frameOption p]) \<and>
     (nonce \<noteq> [] \<longrightarrow> contains (to_lower tbl (header_get h HeaderCacheControl)) ''no-store'')"

lemma header_names_distinct:
  "distinct [HeaderCSP, HeaderCSPReportOnly, HeaderHSTS, HeaderContentTypeOptions, HeaderReferrerPolicy,
     HeaderCOOP, HeaderCORP, HeaderCOEP, HeaderPermissionsPolicy, HeaderFrameOptions, HeaderCacheControl]"
  "distinct [HeaderCacheControl, HeaderFrameOptions, HeaderPermissionsPolicy, HeaderCOEP, HeaderCORP, HeaderCOOP,
     HeaderReferrerPolicy, HeaderContentTypeOptions, HeaderHSTS, HeaderCSPReportOnly, HeaderCSP]"
  by code_simp+

text \<open>The inequalities between the names, in both directions.\<close>

lemmas header_neqs = header_names_distinct [simplified]

lemma no_store_lower: "contains (to_lower tbl ''no-store'') ''no-store''"
  by (simp add: to_lower_def) code_simp

lemma csp_headers_carry:
  "csp_headers p tbl nonce h (CSPHeaderName p) = [csp_value p nonce]"
  "k \<noteq> CSPHeaderName p \<Longrightarrow> k \<noteq> HeaderCacheControl \<Longrightarrow> csp_headers p tbl nonce h k = h k"
  "nonce \<noteq> [] \<Longrightarrow> contains (to_lower tbl (header_get (csp_headers p tbl nonce h) HeaderCacheControl)) ''no-store''"
  using no_store_lower
  by (auto simp: csp_headers_def csp_value_def Let_def header_set_def header_get_def CSPHeaderName_def header_neqs)

definition one_or_none :: "string \<Rightarrow> string list" where
  "one_or_none v = (if v = [] then [] else [v])"

lemma set_or_del_upd: "set_or_del h k v = h(k := one_or_none v)"
  by (simp add: set_or_del_def header_set_def header_del_def one_or_none_def)

lemmas apply_upds = Policy_apply_def Let_def set_or_del_upd header_set_def header_del_def

lemma Policy_apply_carries: "carries p tbl nonce (Policy_apply p tbl nonce h)"
proof -
  let ?g = "Policy_apply p tbl nonce h"
  note c = csp_headers_carry [where p = p and tbl = tbl and nonce = nonce and h = h]
  have cc: "?g HeaderCacheControl = csp_headers p tbl nonce h HeaderCacheControl"
    by (simp add: apply_upds header_neqs)
  then have store: "nonce \<noteq> [] \<longrightarrow> contains (to_lower tbl (header_get ?g HeaderCacheControl)) ''no-store''"
    using c(3) by (simp add: header_get_def)
  have "?g (CSPHeaderName p) = csp_headers p tbl nonce h (CSPHeaderName p)"
    by (cases "p_reportOnly p") (simp_all add: apply_upds CSPHeaderName_def header_neqs)
  then have csp: "?g (CSPHeaderName p) = [csp_value p nonce]" using c(1) by simp
  have other: "?g (if p_reportOnly p then HeaderCSP else HeaderCSPReportOnly) = []"
    by (cases "p_reportOnly p") (simp_all add: apply_upds header_neqs)
  have rest: "?g HeaderHSTS = one_or_none (p_hsts p)" "?g HeaderContentTypeOptions = [''nosniff'']"
    "?g HeaderReferrerPolicy = [p_referrer p]" "?g HeaderCOOP = [p_coop p]" "?g HeaderCORP = [p_corp p]"
    "?g HeaderPermissionsPolicy = [p_permissions p]" "?g HeaderCOEP = one_or_none (p_coep p)"
    "?g HeaderFrameOptions = one_or_none (p_frameOption p)"
    by (simp_all add: apply_upds header_neqs)
  show ?thesis
    unfolding carries_def using csp other rest [unfolded one_or_none_def] store by (intro conjI)
qed

section \<open>Every block is protected\<close>

text \<open>
  While the handler runs, a response whose policy was applied for good is committed or hijacked, as long
  as the writer underneath can flush; every block sent so far carries the policy, with the nonce minted
  before it or none.
\<close>

definition nonce_of :: "response \<Rightarrow> string \<Rightarrow> bool" where
  "nonce_of st n \<longleftrightarrow> n = [] \<or> n = nonce_value st"

definition sent_ok :: "policy \<Rightarrow> case_table \<Rightarrow> response \<Rightarrow> bool" where
  "sent_ok p tbl st \<longleftrightarrow> (\<forall>(c, h)\<in>set (blocks st). \<exists>n. nonce_of st n \<and> carries p tbl n h)"

definition running_ok :: "policy \<Rightarrow> case_table \<Rightarrow> response \<Rightarrow> bool" where
  "running_ok p tbl st \<longleftrightarrow> sent_ok p tbl st \<and> (applied st \<longrightarrow> committed st \<or> hijacked st)"

definition stopped_ok :: "policy \<Rightarrow> case_table \<Rightarrow> response \<Rightarrow> bool" where
  "stopped_ok p tbl st \<longleftrightarrow>
     sent_ok p tbl st \<and>
     (applied st \<longrightarrow> committed st \<or> hijacked st \<or> carries p tbl (nonce_value st) (hdr st))"

lemma apply_now_simps [simp]:
  "applied (apply_now p tbl st) = applied st" "committed (apply_now p tbl st) = committed st"
  "hijacked (apply_now p tbl st) = hijacked st" "blocks (apply_now p tbl st) = blocks st"
  "nonce_value (apply_now p tbl st) = nonce_value st"
  "nonce_value st = n \<Longrightarrow> carries p tbl n (hdr (apply_now p tbl st))"
  by (auto simp add: apply_now_def Policy_apply_carries)

lemma sent_ok_cong: "blocks st' = blocks st \<Longrightarrow> nonce_value st' = nonce_value st \<Longrightarrow> sent_ok p tbl st' = sent_ok p tbl st"
  by (simp add: sent_ok_def nonce_of_def)

lemma applyPolicy_simps [simp]:
  "applied (applyPolicy p tbl st)" "committed (applyPolicy p tbl st) = committed st"
  "hijacked (applyPolicy p tbl st) = hijacked st" "blocks (applyPolicy p tbl st) = blocks st"
  "nonce_value (applyPolicy p tbl st) = nonce_value st"
  by (simp_all add: applyPolicy_def)

lemma applyPolicy_ok:
  "stopped_ok p tbl st \<Longrightarrow> stopped_ok p tbl (applyPolicy p tbl st)"
  unfolding stopped_ok_def
  by (auto simp: applyPolicy_def sent_ok_def nonce_of_def)

lemma running_stopped: "running_ok p tbl st \<Longrightarrow> stopped_ok p tbl st"
  by (auto simp: running_ok_def stopped_ok_def)

lemma base_WriteHeader_ok:
  assumes "base_WriteHeader c st = Some st'" and "sent_ok p tbl st"
    and "committed st \<or> hijacked st \<or> carries p tbl (nonce_value st) (hdr st)"
  shows "sent_ok p tbl st' \<and> nonce_value st' = nonce_value st \<and> applied st' = applied st \<and>
    (\<not> informational c \<longrightarrow> committed st' \<or> hijacked st') \<and> (committed st \<longrightarrow> committed st') \<and> hijacked st' = hijacked st"
  using assms
  by (auto simp: base_WriteHeader_def sent_ok_def nonce_of_def split: if_splits)

lemma commit_ok:
  assumes "base_WriteHeader c (applyPolicy p tbl st) = Some st'" and "running_ok p tbl st" and "\<not> informational c"
  shows "running_ok p tbl st'"
proof -
  have s: "stopped_ok p tbl (applyPolicy p tbl st)" using assms(2) by (intro applyPolicy_ok running_stopped)
  then have "sent_ok p tbl (applyPolicy p tbl st)"
    "committed (applyPolicy p tbl st) \<or> hijacked (applyPolicy p tbl st) \<or>
      carries p tbl (nonce_value (applyPolicy p tbl st)) (hdr (applyPolicy p tbl st))"
    using applyPolicy_simps(1) unfolding stopped_ok_def by blast+
  from base_WriteHeader_ok [OF assms(1) this] show ?thesis using assms(3) by (auto simp: running_ok_def)
qed

lemma inform_ok:
  assumes "base_WriteHeader c (apply_now p tbl st) = Some st'" and "running_ok p tbl st"
  shows "running_ok p tbl st'"
proof -
  have "sent_ok p tbl (apply_now p tbl st)" using assms(2) by (simp add: running_ok_def sent_ok_def nonce_of_def)
  from base_WriteHeader_ok [OF assms(1) this] show ?thesis using assms(2) by (auto simp: running_ok_def)
qed

lemma edit_ok: "running_ok p tbl st \<Longrightarrow> running_ok p tbl (st\<lparr>hdr := h\<rparr>)"
  by (simp add: running_ok_def sent_ok_def nonce_of_def)

lemma mint_ok:
  "running_ok p tbl st \<Longrightarrow> nonce_value st = [] \<or> n = nonce_value st \<Longrightarrow> running_ok p tbl (st\<lparr>nonce_value := n\<rparr>)"
  by (auto simp: running_ok_def sent_ok_def nonce_of_def)

lemma hijack_ok: "running_ok p tbl st \<Longrightarrow> running_ok p tbl (st\<lparr>hijacked := True, applied := True\<rparr>)"
  by (simp add: running_ok_def sent_ok_def nonce_of_def)

lemma apply_now_ok: "running_ok p tbl st \<Longrightarrow> running_ok p tbl (apply_now p tbl st)"
  unfolding apply_now_def by (rule edit_ok)

lemma step_ok:
  assumes ok: "running_ok p tbl st" and s: "step p tbl True a st = (st', panicked)"
  shows "if panicked then stopped_ok p tbl st' else running_ok p tbl st'"
proof -
  note now = apply_now_ok [OF ok] and stop = applyPolicy_ok [OF running_stopped [OF ok]]
  have commit: "if panicked then stopped_ok p tbl st' else running_ok p tbl st'"
    if "(case base_WriteHeader c (applyPolicy p tbl st) of None \<Rightarrow> (applyPolicy p tbl st, True) | Some x \<Rightarrow> (x, False))
      = (st', panicked)" "\<not> informational c" for c
    using that stop commit_ok [OF _ ok that(2)] by (cases "base_WriteHeader c (applyPolicy p tbl st)") auto
  have final: "\<not> informational 200" by (simp add: informational_def)
  show ?thesis
  proof (cases a)
    case (Edit f)
    then show ?thesis using s edit_ok [OF ok] by auto
  next
    case (Nonce_act rand)
    then show ?thesis
      using s running_stopped [OF ok] mint_ok [OF ok]
      by (auto simp: nonceState_get_def split: option.splits if_splits)
  next
    case (WriteHeader_act c)
    then show ?thesis
      using s running_stopped [OF now] inform_ok [OF _ ok] commit [of c]
      by (cases "informational c"; cases "base_WriteHeader c (apply_now p tbl st)") (auto simp: Let_def)
  next
    case Write_act
    then show ?thesis using s commit [OF _ final] by (simp add: Let_def)
  next
    case Flush_act
    then show ?thesis using s commit [OF _ final] by (simp add: Let_def)
  next
    case (Hijack_act ok')
    then show ?thesis using s now hijack_ok [OF now] by (cases ok') (auto simp: Let_def)
  qed
qed

lemma run_stopped: "running_ok p tbl st \<Longrightarrow> stopped_ok p tbl (run p tbl True as st)"
proof (induction as arbitrary: st)
  case (Cons a as)
  obtain st' b where s: "step p tbl True a st = (st', b)" by fastforce
  show ?case using step_ok [OF Cons.prems s] Cons.IH s by (cases b) simp_all
qed (simp add: running_stopped)

lemma fresh_running: "running_ok p tbl (fresh_response h)"
  by (simp add: running_ok_def sent_ok_def fresh_response_def)

text \<open>
  C9: Whatever a handler does to its response, with any edits of the header map, any order of status,
  body, flush and takeover calls, and whether or not it panics, every header block that reaches the
  client, informational ones included, carries the policy's headers with the policy's values, and the
  nonce minted for this response if it names one; as long as the writer underneath can flush.  A policy
  that no constructor produced serves nothing.
\<close>

theorem served_blocks_protected:
  assumes "serve (Some p) tbl True h acts status = Some st" and "(c, g) \<in> set (blocks st)"
  shows "Policy_valid (Some p) \<and> (\<exists>n. carries p tbl n g \<and> (n = [] \<or> n = nonce_value st))"
proof -
  let ?st = "applyPolicy p tbl (run p tbl True acts (fresh_response h))"
  from assms(1) have v: "Policy_valid (Some p)" and b: "base_WriteHeader status ?st = Some st"
    by (auto simp: serve_def Let_def split: if_splits)
  have "stopped_ok p tbl ?st" by (intro applyPolicy_ok run_stopped fresh_running)
  then have "sent_ok p tbl ?st" "committed ?st \<or> hijacked ?st \<or> carries p tbl (nonce_value ?st) (hdr ?st)"
    using applyPolicy_simps(1) unfolding stopped_ok_def by blast+
  from base_WriteHeader_ok [OF b this] assms(2) v show ?thesis
    unfolding sent_ok_def nonce_of_def by fastforce
qed

definition weakening_handler :: "act list" where
  "weakening_handler =
     [WriteHeader_act 103, Edit (\<lambda>h. (h(HeaderHSTS := []))(HeaderReferrerPolicy := [''unsafe-url''])), Write_act,
      Edit (\<lambda>h. h(HeaderCSP := []))]"

theorem served_blocks_protected_witness:
  "\<exists>st g. serve (Some sample_policy) (\<lambda>s. s) True (\<lambda>_. []) weakening_handler 200 = Some st \<and>
     map fst (blocks st) = [103, 200] \<and> (200, g) \<in> set (blocks st) \<and> g HeaderReferrerPolicy = [''same-origin'']"
proof -
  have valid: "Policy_valid (Some sample_policy)" and ref: "p_referrer sample_policy = ''same-origin''"
  proof -
    have "b_referrer sample_builder = ''same-origin''" "b_deployment sample_builder = Production" by code_simp+
    then show "Policy_valid (Some sample_policy)" "p_referrer sample_policy = ''same-origin''"
      by (simp_all add: Policy_valid_def sample_policy_def built_policy_def Let_def)
  qed
  obtain st where st: "serve (Some sample_policy) (\<lambda>s. s) True (\<lambda>_. []) weakening_handler 200 = Some st"
    and m: "map fst (blocks st) = [103, 200]"
    using valid by (simp add: serve_def weakening_handler_def Let_def applyPolicy_def apply_now_def
        base_WriteHeader_def informational_def fresh_response_def)
  then obtain g where g: "(200, g) \<in> set (blocks st)" by (cases "blocks st") (auto simp: map_eq_Cons_conv)
  with served_blocks_protected [OF st g] ref have "g HeaderReferrerPolicy = [''same-origin'']"
    by (auto simp: carries_def)
  with st m g show ?thesis by (intro exI [of _ st] exI [of _ g] conjI)
qed

section \<open>A writer that cannot flush\<close>

text \<open>
  \<open>Flush\<close> marks the policy as applied even when the writer underneath cannot flush and nothing is
  committed; what the handler changes afterwards is then sent as it is.
\<close>

lemma failed_flush_loses_policy:
  assumes "Policy_valid (Some p)"
  shows "\<exists>st. serve (Some p) tbl False h [Flush_act, Edit (\<lambda>_. (\<lambda>_. [])), Write_act] 200 = Some st \<and>
     blocks st = [(200, \<lambda>_. [])]"
  using assms
  by (simp add: serve_def Let_def applyPolicy_def apply_now_def base_WriteHeader_def informational_def
      fresh_response_def)

end
