(* ===== verification/Logging.thy ===== *)
theory Logging
  imports Encodings Utf8
begin

text \<open>
  Structured logging (\<open>runtime/logging\<close>): request and correlation identifiers (\<open>id.go\<close>, \<open>middleware.go\<close>,
  \<open>context.go\<close>) and central redaction (\<open>redact.go\<close>).  Unicode's letter, digit and case tables are the
  argument \<open>u\<close>; on ASCII they are computed.
\<close>

section \<open>Identifiers\<close>

definition MaxIDLength :: nat where "MaxIDLength = 128"
definition idByteLength :: nat where "idByteLength = 16"
definition RequestIDKey :: string where "RequestIDKey = ''request_id''"
definition CorrelationIDKey :: string where "CorrelationIDKey = ''correlation_id''"

text \<open>\<open>None\<close> is the panic when the system has no randomness.\<close>

definition NewID :: "rand_source \<Rightarrow> string option" where
  "NewID rand = map_option (enc64 RawURLEncoding) (rand idByteLength)"

definition id_byte :: "char \<Rightarrow> bool" where
  "id_byte c \<longleftrightarrow> is_lower c \<or> is_upper c \<or> is_digit c \<or> c = CHR ''-'' \<or> c = CHR ''_''"

definition ValidID :: "string \<Rightarrow> bool" where
  "ValidID s \<longleftrightarrow> \<not> (s = [] \<or> length s > MaxIDLength) \<and> list_all id_byte s"

definition resolveID :: "rand_source \<Rightarrow> string \<Rightarrow> bool \<Rightarrow> string option" where
  "resolveID rand inbound trust = (if trust \<and> ValidID inbound then Some inbound else NewID rand)"

definition DefaultRequestIDHeader :: string where "DefaultRequestIDHeader = ''X-Request-Id''"
definition DefaultCorrelationIDHeader :: string where "DefaultCorrelationIDHeader = ''X-Correlation-Id''"

record middleware_options =
  TrustInbound :: bool
  RequestIDHeader :: string
  CorrelationIDHeader :: string

text \<open>
  What \<open>Middleware\<close> hands to the next handler: the context values, the attributes added to the logger,
  and the response headers.  The two identifiers draw their randomness one after the other.
\<close>

record log_context =
  lc_RequestID :: string
  lc_CorrelationID :: string
  lc_attrs :: "(string \<times> string) list"
  lc_headers :: "(string \<times> string) list"

definition Middleware ::
  "middleware_options \<Rightarrow> (string \<Rightarrow> string) \<Rightarrow> rand_source \<Rightarrow> rand_source \<Rightarrow> log_context option" where
  "Middleware opts inbound rand1 rand2 =
     (let requestHeader = (if RequestIDHeader opts = [] then DefaultRequestIDHeader else RequestIDHeader opts);
          correlationHeader = (if CorrelationIDHeader opts = [] then DefaultCorrelationIDHeader else CorrelationIDHeader opts)
      in case resolveID rand1 (inbound requestHeader) (TrustInbound opts) of
           None \<Rightarrow> None
         | Some requestID \<Rightarrow>
             (case resolveID rand2 (inbound correlationHeader) (TrustInbound opts) of
                None \<Rightarrow> None
              | Some correlationID \<Rightarrow>
                  Some \<lparr>lc_RequestID = requestID, lc_CorrelationID = correlationID,
                        lc_attrs = [(RequestIDKey, requestID), (CorrelationIDKey, correlationID)],
                        lc_headers = [(requestHeader, requestID), (correlationHeader, correlationID)]\<rparr>))"

section \<open>Which keys are sensitive\<close>

definition defaultDenyFragments :: "string list" where
  "defaultDenyFragments =
     [''password'', ''passwd'', ''secret'', ''token'', ''authorization'', ''cookie'', ''apikey'', ''session'',
      ''csrf'', ''privatekey'', ''credential'']"

definition boundedFragments :: "string list" where
  "boundedFragments = [''session'']"

definition DefaultDenyKeys :: "string list" where
  "DefaultDenyKeys =
     [''apikey'', ''authorization'', ''cookie'', ''credential'', ''csrf'', ''passwd'', ''password'', ''privatekey'',
      ''secret'', ''session'', ''token'']"

text \<open>\<open>[]rune(s)\<close>, each rune as its encoding; a byte that starts no rune becomes U+FFFD.\<close>

function runes :: "string \<Rightarrow> string list" where
  "runes s =
     (case s of
        [] \<Rightarrow> []
      | _ # _ \<Rightarrow>
          (case rune_width s of
             None \<Rightarrow> [CHR 0xEF, CHR 0xBF, CHR 0xBD] # runes (drop 1 s)
           | Some n \<Rightarrow> take n s # runes (drop n s)))"
  by pat_completeness auto
termination
  by (relation "measure length") (auto dest: rune_width_bounds)

declare runes.simps [simp del]

record unicode =
  u_IsLetter :: "string \<Rightarrow> bool"
  u_IsDigit :: "string \<Rightarrow> bool"
  u_IsUpper :: "string \<Rightarrow> bool"
  u_Lower :: case_table

definition IsLetter :: "unicode \<Rightarrow> string \<Rightarrow> bool" where
  "IsLetter u r = (case r of [c] \<Rightarrow> is_lower c \<or> is_upper c | _ \<Rightarrow> u_IsLetter u r)"

definition IsDigit :: "unicode \<Rightarrow> string \<Rightarrow> bool" where
  "IsDigit u r = (case r of [c] \<Rightarrow> is_digit c | _ \<Rightarrow> u_IsDigit u r)"

definition IsUpper :: "unicode \<Rightarrow> string \<Rightarrow> bool" where
  "IsUpper u r = (case r of [c] \<Rightarrow> is_upper c | _ \<Rightarrow> u_IsUpper u r)"

definition flush :: "unicode \<Rightarrow> string list \<Rightarrow> string list \<Rightarrow> string list" where
  "flush u words current = (if current \<noteq> [] then words @ [to_lower (u_Lower u) (concat current)] else words)"

text \<open>The loop over the runes; \<open>prev\<close> is the rune before, absent at the first.\<close>

fun segments_loop ::
  "unicode \<Rightarrow> string option \<Rightarrow> string list \<Rightarrow> string list \<Rightarrow> string list \<Rightarrow> string list" where
  "segments_loop u prev words current [] = flush u words current"
| "segments_loop u prev words current (r # rs) =
     (if \<not> IsLetter u r \<and> \<not> IsDigit u r then segments_loop u (Some r) (flush u words current) [] rs
      else if (case prev of None \<Rightarrow> False | Some q \<Rightarrow> IsUpper u r \<and> \<not> IsUpper u q)
      then segments_loop u (Some r) (flush u words current) [r] rs
      else segments_loop u (Some r) words (current @ [r]) rs)"

definition normalizeKeySegments :: "unicode \<Rightarrow> string \<Rightarrow> string list" where
  "normalizeKeySegments u key = segments_loop u None [] [] (runes key)"

definition normalizeKey :: "unicode \<Rightarrow> string \<Rightarrow> string" where
  "normalizeKey u key = concat (normalizeKeySegments u key)"

definition matchesBoundedFragment :: "string list \<Rightarrow> string \<Rightarrow> bool" where
  "matchesBoundedFragment words fragment \<longleftrightarrow>
     fragment \<in> set words \<and>
     (length words = 1 \<or> list_ex (\<lambda>w. w = ''id'' \<or> w = ''key'' \<or> w = ''token'') words)"

fun denied_loop :: "string list \<Rightarrow> string \<Rightarrow> string list \<Rightarrow> bool" where
  "denied_loop words joined [] = False"
| "denied_loop words joined (fragment # rest) =
     (if fragment \<in> set boundedFragments
      then (if matchesBoundedFragment words fragment then True else denied_loop words joined rest)
      else if contains joined fragment then True
      else denied_loop words joined rest)"

definition isDeniedKey :: "unicode \<Rightarrow> string \<Rightarrow> string list \<Rightarrow> bool" where
  "isDeniedKey u key fragments =
     (let words = normalizeKeySegments u key
      in if words = [] then False else denied_loop words (concat words) fragments)"

definition IsSensitiveKey :: "unicode \<Rightarrow> string \<Rightarrow> string list \<Rightarrow> bool" where
  "IsSensitiveKey u key extra = isDeniedKey u key (defaultDenyFragments @ extra)"

section \<open>Redacting attributes\<close>

text \<open>
  A log value: a scalar with its text, a group of attributes, or a \<open>LogValuer\<close> that stands for another
  value.  \<open>Resolve\<close> follows at most a hundred of those and then gives an error value.
\<close>

datatype sval = Scalar string | Group "(string \<times> sval) list" | Valuer sval

type_synonym attr = "string \<times> sval"

definition too_many :: string where "too_many = ''LogValue called too many times''"

fun resolve_loop :: "nat \<Rightarrow> sval \<Rightarrow> sval" where
  "resolve_loop 0 v = Scalar too_many"
| "resolve_loop (Suc n) (Valuer v) = resolve_loop n v"
| "resolve_loop (Suc n) v = v"

definition Resolve :: "sval \<Rightarrow> sval" where
  "Resolve v = resolve_loop 100 v"

definition empty_group :: "sval \<Rightarrow> bool" where
  "empty_group v \<longleftrightarrow> v = Group []"

text \<open>\<open>slog.GroupValue\<close> and \<open>Record.AddAttrs\<close> leave empty groups out.\<close>

definition nonempty :: "attr list \<Rightarrow> attr list" where
  "nonempty as = filter (\<lambda>a. \<not> empty_group (snd a)) as"

record redacting =
  fragments :: "string list"
  placeholder :: string

definition RedactPlaceholder :: string where "RedactPlaceholder = ''[REDACTED]''"

record redact_options =
  ExtraDenyKeys :: "string list"
  Placeholder :: string

definition newRedactingHandler :: "unicode \<Rightarrow> redact_options \<Rightarrow> redacting" where
  "newRedactingHandler u opts =
     \<lparr>fragments = defaultDenyFragments @ map (normalizeKey u) (ExtraDenyKeys opts),
      placeholder = (if Placeholder opts = [] then RedactPlaceholder else Placeholder opts)\<rparr>"

lemma resolve_loop_size: "size (resolve_loop n v) \<le> size v \<or> (\<exists>t. resolve_loop n v = Scalar t)"
  by (induction n v rule: resolve_loop.induct) auto

lemma group_member_size: "(k, w) \<in> set as \<Longrightarrow> size w < size (Group as)"
  by (induction as) (auto simp: less_Suc_eq_le)

lemma resolved_member_size:
  assumes "Resolve v = Group as" and "(k, w) \<in> set as"
  shows "size w < size v"
proof -
  from assms(1) resolve_loop_size [of 100 v] have "size (Group as) \<le> size v" by (auto simp: Resolve_def)
  then show ?thesis using group_member_size [OF assms(2)] by simp
qed

function redactAttr :: "unicode \<Rightarrow> redacting \<Rightarrow> attr \<Rightarrow> attr" where
  "redactAttr u h (key, v) =
     (if isDeniedKey u key (fragments h) then (key, Scalar (placeholder h))
      else (case Resolve v of
              Group as \<Rightarrow> (key, Group (nonempty (map (redactAttr u h) as)))
            | w \<Rightarrow> (key, w)))"
  by pat_completeness auto
termination
  by (relation "measure (\<lambda>(u, h, k, v). size v)") (auto dest: resolved_member_size)

declare redactAttr.simps [simp del]

definition redact_record :: "unicode \<Rightarrow> redacting \<Rightarrow> attr list \<Rightarrow> attr list" where
  "redact_record u h as = nonempty (map (redactAttr u h) as)"

section \<open>Identifiers are always safe to log\<close>

lemma url_alphabet_id: "list_all id_byte url_alphabet"
  by code_simp

lemma NewID_valid:
  assumes "fills rand" and "NewID rand = Some s"
  shows "ValidID s \<and> length s = 22"
proof -
  from assms obtain bs where bs: "rand idByteLength = Some bs" "length bs = 16" and s: "s = enc64 RawURLEncoding bs"
    by (auto simp: NewID_def fills_def idByteLength_def)
  have len: "length s = 22" using length_enc64_raw [of RawURLEncoding bs] bs(2) by (simp add: s encoded_len_def)
  have "list_all id_byte s" using set_enc64 [of RawURLEncoding bs] url_alphabet_id by (auto simp: s list_all_iff)
  then show ?thesis using len by (auto simp: ValidID_def MaxIDLength_def)
qed

text \<open>
  The identifiers a request is given are always safe to place in a log line or a header: bounded,
  non-empty and made of letters, digits, hyphens and underscores; they are the client's own only when
  inbound identifiers are trusted and the client's value is itself such an identifier, and the logger
  and the response carry the same two values as the context.
\<close>

theorem Middleware_ids_safe:
  assumes "fills rand1" and "fills rand2" and "Middleware opts inbound rand1 rand2 = Some c"
  shows "ValidID (lc_RequestID c) \<and> ValidID (lc_CorrelationID c) \<and>
     map snd (lc_attrs c) = [lc_RequestID c, lc_CorrelationID c] \<and>
     map snd (lc_headers c) = [lc_RequestID c, lc_CorrelationID c] \<and>
     (\<not> TrustInbound opts \<longrightarrow> NewID rand1 = Some (lc_RequestID c) \<and> NewID rand2 = Some (lc_CorrelationID c))"
  using assms NewID_valid [OF assms(1)] NewID_valid [OF assms(2)]
  by (auto simp: Middleware_def Let_def resolveID_def split: option.splits if_splits)

theorem Middleware_ids_safe_witness:
  "\<exists>c. Middleware \<lparr>TrustInbound = True, RequestIDHeader = [], CorrelationIDHeader = []\<rparr>
       (\<lambda>k. if k = DefaultRequestIDHeader then ''req-1'' else ''bad id'') (\<lambda>n. Some (replicate n 7)) (\<lambda>n. Some (replicate n 8)) = Some c \<and>
     lc_RequestID c = ''req-1'' \<and> ValidID (lc_CorrelationID c)"
proof -
  have f: "fills (\<lambda>n. Some (replicate n b))" for b :: byte by (simp add: fills_def)
  let ?o = "\<lparr>TrustInbound = True, RequestIDHeader = [], CorrelationIDHeader = []\<rparr>"
  let ?i = "\<lambda>k. if k = DefaultRequestIDHeader then ''req-1'' else ''bad id''"
  have v: "ValidID ''req-1''" "\<not> ValidID ''bad id''" "DefaultCorrelationIDHeader \<noteq> DefaultRequestIDHeader" by code_simp+
  then obtain c where c: "Middleware ?o ?i (\<lambda>n. Some (replicate n 7)) (\<lambda>n. Some (replicate n 8)) = Some c"
    "lc_RequestID c = ''req-1''"
    by (simp add: Middleware_def resolveID_def NewID_def)
  with Middleware_ids_safe [OF f f c(1)] show ?thesis by blast
qed

section \<open>Which keys are denied\<close>

text \<open>On an ASCII key the words, joined, are its letters and digits in lower case.\<close>

definition alnum :: "char \<Rightarrow> bool" where
  "alnum c \<longleftrightarrow> is_lower c \<or> is_upper c \<or> is_digit c"

definition squeezed :: "string \<Rightarrow> string" where
  "squeezed key = map lower_char (filter alnum key)"

lemma runes_ascii: "list_all is_ascii s \<Longrightarrow> runes s = map (\<lambda>c. [c]) s"
  by (induction s) (simp_all add: runes.simps rune_width_def)

lemma concat_flush:
  assumes "\<forall>r\<in>set current. \<exists>c. r = [c] \<and> is_ascii c"
  shows "concat (flush u words current) = concat words @ map lower_char (concat current)"
proof -
  have "list_all is_ascii (concat current)" using assms by (auto simp: list_all_iff)
  then show ?thesis by (simp add: flush_def to_lower_def)
qed

lemma segments_ascii:
  "list_all is_ascii s \<Longrightarrow> \<forall>r\<in>set current. \<exists>c. r = [c] \<and> is_ascii c \<Longrightarrow>
     concat (segments_loop u prev words current (map (\<lambda>c. [c]) s)) =
       concat words @ map lower_char (concat current) @ squeezed s"
proof (induction s arbitrary: prev words current)
  case Nil
  then show ?case by (simp add: concat_flush squeezed_def)
next
  case (Cons c s)
  have sq: "squeezed (c # s) = (if alnum c then [lower_char c] else []) @ squeezed s" by (simp add: squeezed_def)
  have al: "IsLetter u [c] \<or> IsDigit u [c] \<longleftrightarrow> alnum c" by (auto simp: IsLetter_def IsDigit_def alnum_def)
  have cur: "\<forall>r\<in>set (current @ [[c]]). \<exists>c. r = [c] \<and> is_ascii c" using Cons.prems by auto
  have single: "\<forall>r\<in>set [[c]]. \<exists>c. r = [c] \<and> is_ascii c" using Cons.prems by auto
  show ?case
    using Cons.prems al Cons.IH [OF _ cur] Cons.IH [OF _ single] Cons.IH [of "[]"]
    by (auto simp: sq concat_flush)
qed

lemma normalizeKey_ascii: "list_all is_ascii key \<Longrightarrow> normalizeKey u key = squeezed key"
  using segments_ascii [of key "[]" u None "[]"]
  by (simp add: normalizeKey_def normalizeKeySegments_def runes_ascii)

lemma denied_loop_iff:
  "denied_loop words joined frags \<longleftrightarrow>
     (\<exists>f\<in>set frags. if f \<in> set boundedFragments then matchesBoundedFragment words f else contains joined f)"
  by (induction words joined frags rule: denied_loop.induct) auto

lemma isDenied_contains:
  assumes "list_all is_ascii key" and "f \<in> set frags" and "f \<notin> set boundedFragments" and "f \<noteq> []"
    and "contains (squeezed key) f"
  shows "isDeniedKey u key frags"
proof -
  have k: "concat (normalizeKeySegments u key) = squeezed key"
    using normalizeKey_ascii [OF assms(1)] by (simp add: normalizeKey_def)
  have "normalizeKeySegments u key \<noteq> []" using assms(4,5) k by (auto simp: contains_iff)
  then show ?thesis using assms(2,3,5) k by (auto simp: isDeniedKey_def denied_loop_iff Let_def)
qed

section \<open>What redaction leaves\<close>

text \<open>The scalars of an attribute with the keys on the way to them, as a handler behind the redaction sees them.\<close>

function leaves :: "attr \<Rightarrow> (string list \<times> string) list" where
  "leaves (key, v) =
     (case Resolve v of
        Scalar t \<Rightarrow> [([key], t)]
      | Group as \<Rightarrow> map (\<lambda>(path, t). (key # path, t)) (concat (map leaves as))
      | Valuer _ \<Rightarrow> [])"
  by pat_completeness auto
termination
  by (relation "measure (\<lambda>(k, v). size v)") (auto dest: resolved_member_size)

declare leaves.simps [simp del]

lemma Resolve_simps [simp]: "Resolve (Scalar t) = Scalar t" "Resolve (Group as) = Group as"
  by (simp_all add: Resolve_def eval_nat_numeral)

lemma resolve_loop_final: "resolve_loop n v \<noteq> Valuer w"
  by (induction n v rule: resolve_loop.induct) auto

lemma Resolve_final [simp]: "Resolve v \<noteq> Valuer w"
  by (simp add: Resolve_def resolve_loop_final)

lemma leaves_simps [simp]:
  "leaves (key, Scalar t) = [([key], t)]"
  "leaves (key, Group as) = map (\<lambda>(path, t). (key # path, t)) (concat (map leaves as))"
  by (simp_all add: leaves.simps)

lemma leaves_nonempty: "concat (map leaves (nonempty as)) = concat (map leaves as)"
  by (induction as) (auto simp: nonempty_def empty_group_def)

definition clean_path :: "unicode \<Rightarrow> redacting \<Rightarrow> string list \<Rightarrow> bool" where
  "clean_path u h path \<longleftrightarrow> \<not> list_ex (\<lambda>k. isDeniedKey u k (fragments h)) path"

definition visible_leaves :: "unicode \<Rightarrow> redacting \<Rightarrow> (string list \<times> string) list \<Rightarrow> (string list \<times> string) list" where
  "visible_leaves u h ls = filter (\<lambda>l. clean_path u h (fst l)) ls"

lemma clean_Cons: "clean_path u h (k # path) \<longleftrightarrow> \<not> isDeniedKey u k (fragments h) \<and> clean_path u h path"
  by (simp add: clean_path_def)

lemma visible_push:
  "visible_leaves u h (map (\<lambda>(path, t). (k # path, t)) ls) =
     (if isDeniedKey u k (fragments h) then [] else map (\<lambda>(path, t). (k # path, t)) (visible_leaves u h ls))"
  by (induction ls) (auto simp: visible_leaves_def clean_Cons)

lemma visible_concat: "visible_leaves u h (concat lss) = concat (map (visible_leaves u h) lss)"
  by (induction lss) (simp_all add: visible_leaves_def)

lemma redact_leaves:
  "list_all (\<lambda>l. clean_path u h (fst l) \<or> snd l = placeholder h) (leaves (redactAttr u h a)) \<and>
     visible_leaves u h (leaves (redactAttr u h a)) = visible_leaves u h (leaves a)"
proof (induction u h a rule: redactAttr.induct)
  case (1 u h key v)
  show ?case
  proof (cases "isDeniedKey u key (fragments h)")
    case True
    then have "visible_leaves u h (leaves (key, v)) = []" "visible_leaves u h [([key], t)] = []" for t
      by (auto simp: leaves.simps [of key v] visible_push split: sval.split)
        (simp_all add: visible_leaves_def clean_Cons)
    then show ?thesis using True by (simp add: redactAttr.simps)
  next
    case False
    show ?thesis
    proof (cases "Resolve v")
      case (Group as)
      have IH: "list_all (\<lambda>l. clean_path u h (fst l) \<or> snd l = placeholder h) (leaves (redactAttr u h a)) \<and>
          visible_leaves u h (leaves (redactAttr u h a)) = visible_leaves u h (leaves a)" if "a \<in> set as" for a
        using "1" [OF False Group that] .
      have same: "visible_leaves u h (concat (map leaves (map (redactAttr u h) as))) = visible_leaves u h (concat (map leaves as))"
        unfolding visible_concat using IH by (auto intro!: arg_cong [where f = concat])
      have safe: "list_all (\<lambda>l. clean_path u h (fst l) \<or> snd l = placeholder h) (concat (map leaves (map (redactAttr u h) as)))"
        using IH by (auto simp: list_all_iff)
      have l: "leaves (key, v) = map (\<lambda>(path, t). (key # path, t)) (concat (map leaves as))"
        by (simp add: leaves.simps Group)
      have r: "leaves (redactAttr u h (key, v)) =
          map (\<lambda>(path, t). (key # path, t)) (concat (map leaves (map (redactAttr u h) as)))"
        by (simp add: redactAttr.simps False Group leaves_nonempty del: map_map)
      show ?thesis
        unfolding l r visible_push same using safe False by (auto simp: list_all_iff clean_Cons) fastforce
    qed (use False in \<open>auto simp: redactAttr.simps leaves.simps visible_leaves_def clean_path_def\<close>)
  qed
qed

text \<open>
  C19: Whatever a record holds, groups in groups and values that compute themselves included, the handler
  behind the redaction sees the placeholder for everything under a denied key, at any depth, and sees
  everything else unchanged and in order.
\<close>

theorem redaction_exact:
  "list_all (\<lambda>l. clean_path u h (fst l) \<or> snd l = placeholder h) (concat (map leaves (redact_record u h as))) \<and>
   visible_leaves u h (concat (map leaves (redact_record u h as))) = visible_leaves u h (concat (map leaves as))"
proof -
  have "visible_leaves u h (concat (map leaves (map (redactAttr u h) as))) = visible_leaves u h (concat (map leaves as))"
    unfolding visible_concat using redact_leaves by (auto intro!: arg_cong [where f = concat])
  moreover have "list_all (\<lambda>l. clean_path u h (fst l) \<or> snd l = placeholder h) (concat (map leaves (map (redactAttr u h) as)))"
    using redact_leaves by (auto simp: list_all_iff)
  ultimately show ?thesis by (simp add: redact_record_def leaves_nonempty del: map_map)
qed


definition no_tables :: unicode where
  "no_tables = \<lparr>u_IsLetter = (\<lambda>_. False), u_IsDigit = (\<lambda>_. False), u_IsUpper = (\<lambda>_. False), u_Lower = (\<lambda>s. s)\<rparr>"


section \<open>Extra keys given to \<open>IsSensitiveKey\<close>\<close>

text \<open>
  The exported test takes extra keys as they are, while a handler normalizes them: a key the logger
  redacts because of a configured extra is not sensitive to the other stores that ask.
\<close>

lemma extra_key_not_normalized:
  "isDeniedKey no_tables ''db_pin'' (fragments (newRedactingHandler no_tables \<lparr>ExtraDenyKeys = [''db_pin''], Placeholder = []\<rparr>)) \<and>
   \<not> IsSensitiveKey no_tables ''db_pin'' [''db_pin'']"
  by code_simp

end
