(* ===== verification/Log_Text.thy ===== *)
theory Log_Text
  imports Logging
begin

text \<open>
  The development handler (\<open>runtime/logging/text_handler.go\<close>) and the chain a logger builds from it:
  attributes and groups added with \<open>With\<close>, redaction in front, one line per record.  The time is the text
  \<open>time.Format\<close> gives it, and Unicode's table of printable runes is an argument.
\<close>

section \<open>Quoting\<close>

definition hex_char :: "nat \<Rightarrow> char" where
  "hex_char d = (''0123456789abcdef'' ! (d mod 16))"

fun hex_digits :: "nat \<Rightarrow> nat \<Rightarrow> string" where
  "hex_digits 0 n = []"
| "hex_digits (Suc k) n = hex_digits k (n div 16) @ [hex_char n]"

text \<open>The code point of a rune given by its encoding.\<close>

definition rune_value :: "string \<Rightarrow> nat" where
  "rune_value r =
     (case map code r of
        [a] \<Rightarrow> a
      | [a, b] \<Rightarrow> a mod 32 * 64 + b mod 64
      | [a, b, c] \<Rightarrow> a mod 16 * 4096 + b mod 64 * 64 + c mod 64
      | [a, b, c, d] \<Rightarrow> a mod 8 * 262144 + b mod 64 * 4096 + c mod 64 * 64 + d mod 64
      | _ \<Rightarrow> 0)"

definition backslash :: char where "backslash = CHR 0x5C"
definition dquote :: char where "dquote = CHR 0x22"

definition ascii_print :: "char \<Rightarrow> bool" where
  "ascii_print c \<longleftrightarrow> 0x20 \<le> code c \<and> code c < 0x7F"

text \<open>\<open>appendEscapedRune\<close> for \<open>Quote\<close>: a rune of one byte is ASCII, a longer one is looked up.\<close>

definition escape_ascii :: "char \<Rightarrow> string" where
  "escape_ascii c =
     (if c = dquote \<or> c = backslash then [backslash, c]
      else if ascii_print c then [c]
      else if code c = 7 then [backslash, CHR ''a'']
      else if code c = 8 then [backslash, CHR ''b'']
      else if code c = 12 then [backslash, CHR ''f'']
      else if code c = 10 then [backslash, CHR ''n'']
      else if code c = 13 then [backslash, CHR ''r'']
      else if code c = 9 then [backslash, CHR ''t'']
      else if code c = 11 then [backslash, CHR ''v'']
      else backslash # CHR ''x'' # hex_digits 2 (code c))"

definition escape_rune :: "(string \<Rightarrow> bool) \<Rightarrow> string \<Rightarrow> string" where
  "escape_rune printable r =
     (case r of
        [c] \<Rightarrow> escape_ascii c
      | _ \<Rightarrow>
          if printable r then r
          else if rune_value r < 0x10000 then backslash # CHR ''u'' # hex_digits 4 (rune_value r)
          else backslash # CHR ''U'' # hex_digits 8 (rune_value r))"

function quote_body :: "(string \<Rightarrow> bool) \<Rightarrow> string \<Rightarrow> string" where
  "quote_body printable s =
     (case s of
        [] \<Rightarrow> []
      | c # rest \<Rightarrow>
          (case rune_width s of
             None \<Rightarrow> backslash # CHR ''x'' # hex_digits 2 (code c) @ quote_body printable rest
           | Some n \<Rightarrow> escape_rune printable (take n s) @ quote_body printable (drop n s)))"
  by pat_completeness auto
termination
  by (relation "measure (\<lambda>(p, s). length s)") (auto dest: rune_width_bounds)

declare quote_body.simps [simp del]

definition Quote :: "(string \<Rightarrow> bool) \<Rightarrow> string \<Rightarrow> string" where
  "Quote printable s = dquote # quote_body printable s @ [dquote]"

section \<open>The handler\<close>

definition needsQuote :: "string \<Rightarrow> bool" where
  "needsQuote s \<longleftrightarrow>
     s = [] \<or> list_ex (\<lambda>c. code c \<le> 32 \<or> c = dquote \<or> c = CHR ''='' \<or> c = backslash) s"

definition formatValue :: "(string \<Rightarrow> bool) \<Rightarrow> string \<Rightarrow> string" where
  "formatValue printable s = (if needsQuote s then Quote printable s else s)"

text \<open>\<open>Resolve\<close> never leaves a \<open>LogValuer\<close>; that case stands for no output.\<close>

function writeAttr :: "(string \<Rightarrow> bool) \<Rightarrow> string \<Rightarrow> attr \<Rightarrow> string" where
  "writeAttr printable prefix (k, v) =
     (let key = prefix @ k in
      case Resolve v of
        Group as \<Rightarrow>
          concat (map (\<lambda>a. writeAttr printable (if key = [] then [] else key @ ''.'') a) as)
      | Scalar t \<Rightarrow> CHR '' '' # key @ CHR ''='' # formatValue printable t
      | Valuer _ \<Rightarrow> [])"
  by pat_completeness auto
termination
  by (relation "measure (\<lambda>(p, pr, k, v). size v)") (auto dest: resolved_member_size)

declare writeAttr.simps [simp del]

record text_handler =
  th_level :: int
  th_color :: bool
  th_prefix :: string
  th_attrs :: "attr list"

definition levelLabel :: "int \<Rightarrow> string \<times> string" where
  "levelLabel level =
     (if level < 0 then (''DEBUG'', ''2'') else if level < 4 then (''INFO '', ''36'')
      else if level < 8 then (''WARN '', ''33'') else (''ERROR'', ''31''))"

definition formatLevel :: "text_handler \<Rightarrow> int \<Rightarrow> string" where
  "formatLevel h level =
     (case levelLabel level of (label, ansi) \<Rightarrow>
        if \<not> th_color h then label
        else [CHR 0x1B] @ ''['' @ ansi @ ''m'' @ label @ [CHR 0x1B] @ ''[0m'')"

definition text_Enabled :: "text_handler \<Rightarrow> int \<Rightarrow> bool" where
  "text_Enabled h level \<longleftrightarrow> level \<ge> th_level h"

definition text_WithAttrs :: "attr list \<Rightarrow> text_handler \<Rightarrow> text_handler" where
  "text_WithAttrs attrs h =
     (if attrs = [] then h
      else h\<lparr>th_attrs := th_attrs h @ map (\<lambda>(k, v). (th_prefix h @ k, v)) attrs\<rparr>)"

definition text_WithGroup :: "string \<Rightarrow> text_handler \<Rightarrow> text_handler" where
  "text_WithGroup name h = (if name = [] then h else h\<lparr>th_prefix := th_prefix h @ name @ ''.''\<rparr>)"

record log_record =
  rec_clock :: string
  rec_level :: int
  rec_message :: string
  rec_attrs :: "attr list"

definition text_Handle :: "(string \<Rightarrow> bool) \<Rightarrow> text_handler \<Rightarrow> log_record \<Rightarrow> string" where
  "text_Handle printable h r =
     rec_clock r @ '' '' @ formatLevel h (rec_level r) @ '' '' @ rec_message r @
     concat (map (writeAttr printable []) (th_attrs h)) @
     concat (map (writeAttr printable (th_prefix h)) (rec_attrs r)) @ [CHR 0x0A]"

section \<open>The redacting chain\<close>

text \<open>\<open>redactingHandler\<close> around the text handler: attributes are redacted as they arrive.\<close>

type_synonym logger = "redacting \<times> text_handler"

definition WithAttrs :: "unicode \<Rightarrow> attr list \<Rightarrow> logger \<Rightarrow> logger" where
  "WithAttrs u attrs l =
     (if attrs = [] then l else (fst l, text_WithAttrs (map (redactAttr u (fst l)) attrs) (snd l)))"

definition WithGroup :: "string \<Rightarrow> logger \<Rightarrow> logger" where
  "WithGroup name l = (fst l, text_WithGroup name (snd l))"

definition Handle :: "unicode \<Rightarrow> (string \<Rightarrow> bool) \<Rightarrow> logger \<Rightarrow> log_record \<Rightarrow> string" where
  "Handle u printable l r =
     text_Handle printable (snd l) (r\<lparr>rec_attrs := redact_record u (fst l) (rec_attrs r)\<rparr>)"

record text_options =
  to_level :: "int option"
  to_redact :: redact_options
  to_color :: bool

definition NewTextHandler :: "unicode \<Rightarrow> text_options \<Rightarrow> logger" where
  "NewTextHandler u opts =
     (newRedactingHandler u (to_redact opts),
      \<lparr>th_level = (case to_level opts of None \<Rightarrow> 0 | Some l \<Rightarrow> l), th_color = to_color opts, th_prefix = [],
       th_attrs = []\<rparr>)"

datatype derive = With "attr list" | In_group string

fun derived :: "unicode \<Rightarrow> derive list \<Rightarrow> logger \<Rightarrow> logger" where
  "derived u [] l = l"
| "derived u (With attrs # ds) l = derived u ds (WithAttrs u attrs l)"
| "derived u (In_group name # ds) l = derived u ds (WithGroup name l)"

section \<open>Secrets do not reach the line\<close>

text \<open>Two attributes that differ only in values under denied keys.\<close>

inductive alike :: "unicode \<Rightarrow> redacting \<Rightarrow> attr \<Rightarrow> attr \<Rightarrow> bool" for u h where
  denied: "isDeniedKey u k (fragments h) \<Longrightarrow> alike u h (k, v) (k, w)"
| same: "Resolve v = Resolve w \<Longrightarrow> alike u h (k, v) (k, w)"
| inside: "Resolve v = Group as \<Longrightarrow> Resolve w = Group bs \<Longrightarrow> list_all2 (alike u h) as bs \<Longrightarrow> alike u h (k, v) (k, w)"

lemma redact_alike: "alike u h a b \<Longrightarrow> redactAttr u h a = redactAttr u h b"
proof (induction rule: alike.induct)
  case (inside v as w bs k)
  then have "map (redactAttr u h) as = map (redactAttr u h) bs"
    by (intro nth_equalityI) (auto simp: list_all2_conv_all_nth)
  then show ?case using inside.hyps by (simp add: redactAttr.simps)
qed (simp_all add: redactAttr.simps)

lemma redact_all_alike: "list_all2 (alike u h) as bs \<Longrightarrow> map (redactAttr u h) as = map (redactAttr u h) bs"
  by (intro nth_equalityI) (auto simp: list_all2_conv_all_nth redact_alike)

fun derive_alike :: "unicode \<Rightarrow> redacting \<Rightarrow> derive \<Rightarrow> derive \<Rightarrow> bool" where
  "derive_alike u h (With as) (With bs) = list_all2 (alike u h) as bs"
| "derive_alike u h (In_group m) (In_group n) = (m = n)"
| "derive_alike u h _ _ = False"

lemma WithAttrs_alike: "list_all2 (alike u (fst l)) as bs \<Longrightarrow> WithAttrs u as l = WithAttrs u bs l"
  using redact_all_alike [of u "fst l" as bs] by (auto simp: WithAttrs_def)

lemma fst_derive [simp]: "fst (WithAttrs u as l) = fst l" "fst (WithGroup n l) = fst l"
  by (simp_all add: WithAttrs_def WithGroup_def)

lemma derived_alike:
  "list_all2 (derive_alike u (fst l)) ds es \<Longrightarrow> derived u ds l = derived u es l"
proof (induction ds arbitrary: es l)
  case (Cons d ds)
  then obtain e es' where es: "es = e # es'" "derive_alike u (fst l) d e" "list_all2 (derive_alike u (fst l)) ds es'"
    by (auto simp: list_all2_Cons1)
  then show ?case
    using Cons.IH [of _ es'] WithAttrs_alike by (cases d; cases e) auto
qed simp

lemma fst_derived [simp]: "fst (derived u ds l) = fst l"
  by (induction u ds l rule: derived.induct) simp_all

text \<open>
  C21: What stands under a denied key never influences what is logged: two loggers derived by the same
  steps, given records with the same time, level and message, write the same line whenever their
  attributes differ only in values under denied keys, however deep in groups or behind values that
  compute themselves.
\<close>

theorem log_secrets_invisible:
  assumes "l = NewTextHandler u opts"
    and "list_all2 (derive_alike u (fst l)) ds es"
    and "list_all2 (alike u (fst l)) as bs"
  shows "Handle u printable (derived u ds l) (r\<lparr>rec_attrs := as\<rparr>) =
     Handle u printable (derived u es l) (r\<lparr>rec_attrs := bs\<rparr>)"
  using derived_alike [OF assms(2)] redact_all_alike [OF assms(3)]
  by (simp add: Handle_def redact_record_def)

definition dev_options :: text_options where
  "dev_options = \<lparr>to_level = None, to_redact = \<lparr>ExtraDenyKeys = [], Placeholder = []\<rparr>, to_color = False\<rparr>"

definition sample_record :: "attr list \<Rightarrow> log_record" where
  "sample_record as = \<lparr>rec_clock = ''12:00:00.000'', rec_level = 0, rec_message = ''hello'', rec_attrs = as\<rparr>"

theorem log_secrets_invisible_witness:
  "Handle no_tables (\<lambda>_. True) (derived no_tables [In_group ''req''] (NewTextHandler no_tables dev_options))
     (sample_record [(''user'', Group [(''id'', Scalar ''7''), (''Api-Key'', Valuer (Scalar ''hunter2''))])]) =
   Handle no_tables (\<lambda>_. True) (derived no_tables [In_group ''req''] (NewTextHandler no_tables dev_options))
     (sample_record [(''user'', Group [(''id'', Scalar ''7''), (''Api-Key'', Group [])])])"
proof -
  let ?l = "NewTextHandler no_tables dev_options"
  have d: "isDeniedKey no_tables ''Api-Key'' (fragments (fst ?l))" by code_simp
  have inner: "list_all2 (alike no_tables (fst ?l)) [(''id'', Scalar ''7''), (''Api-Key'', Valuer (Scalar ''hunter2''))]
      [(''id'', Scalar ''7''), (''Api-Key'', Group [])]"
    using d by (simp add: alike.same alike.denied)
  have "list_all2 (alike no_tables (fst ?l))
      [(''user'', Group [(''id'', Scalar ''7''), (''Api-Key'', Valuer (Scalar ''hunter2''))])]
      [(''user'', Group [(''id'', Scalar ''7''), (''Api-Key'', Group [])])]"
    using alike.inside [OF _ _ inner, of _ _ "''user''"] by simp
  from log_secrets_invisible [OF refl _ this, of "[In_group ''req'']" "[In_group ''req'']" "\<lambda>_. True" "sample_record []"]
  show ?thesis by (simp add: sample_record_def)
qed

section \<open>One record, one line\<close>

definition newline :: char where "newline = CHR 0x0A"

lemma hex_no_newline: "newline \<notin> set (hex_digits k n)"
proof (induction k arbitrary: n)
  case (Suc k)
  have "''0123456789abcdef'' ! d \<in> set ''0123456789abcdef''" if "d < 16" for d
    using that by (intro nth_mem) simp
  from this [of "n mod 16"] have "hex_char n \<noteq> newline" by (auto simp: hex_char_def newline_def)
  then show ?case using Suc by simp
qed simp

lemma escape_ascii_no_newline: "newline \<notin> set (escape_ascii c)"
  using hex_no_newline [of 2 "code c"]
  by (auto simp: escape_ascii_def newline_def backslash_def dquote_def ascii_print_def code_def)

lemma rune_bytes:
  assumes "rune_width s = Some n" and "1 < n"
  shows "newline \<notin> set (take n s)"
  using assms
  by (auto simp: rune_width_def newline_def second_ok_def continuation_def in_range_def code_def
      split: list.splits if_splits)

lemma escape_rune_no_newline:
  assumes "rune_width s = Some n"
  shows "newline \<notin> set (escape_rune printable (take n s))"
proof (cases "n = 1")
  case True
  with rune_width_bounds [OF assms] obtain c where "take n s = [c]" by (cases s) auto
  then show ?thesis by (simp add: escape_rune_def escape_ascii_no_newline)
next
  case False
  then have "1 < n" using rune_width_bounds [OF assms] by simp
  then have "newline \<notin> set (take n s)" using rune_bytes [OF assms] by simp
  moreover obtain a b r where "take n s = a # b # r"
    using \<open>1 < n\<close> rune_width_bounds [OF assms] by (cases s; cases "tl s") (auto simp: take_Cons' split: if_splits)
  ultimately show ?thesis
    using hex_no_newline by (auto simp: escape_rune_def backslash_def newline_def)
qed

lemma quote_no_newline: "newline \<notin> set (quote_body printable s)"
proof (induction printable s rule: quote_body.induct)
  case (1 printable s)
  show ?case
  proof (cases s)
    case (Cons c rest)
    show ?thesis
    proof (cases "rune_width s")
      case None
      have "quote_body printable s = backslash # CHR ''x'' # hex_digits 2 (code c) @ quote_body printable rest"
        by (subst quote_body.simps) (simp add: Cons None [unfolded Cons])
      then show ?thesis using 1(1) [OF Cons None] hex_no_newline [of 2 "code c"] by (simp add: backslash_def newline_def)
    next
      case (Some n)
      have "quote_body printable s = escape_rune printable (take n s) @ quote_body printable (drop n s)"
        by (subst quote_body.simps) (simp add: Cons Some [unfolded Cons])
      then show ?thesis using 1(2) [OF Cons Some] escape_rune_no_newline [OF Some] by simp
    qed
  qed (simp add: quote_body.simps)
qed

lemma formatValue_no_newline: "newline \<notin> set (formatValue printable s)"
proof (cases "needsQuote s")
  case True
  have "dquote \<noteq> newline" by (simp add: dquote_def newline_def)
  then show ?thesis using True quote_no_newline [of printable s] by (simp add: formatValue_def Quote_def)
next
  case False
  have "code newline \<le> 32" by code_simp
  then show ?thesis using False by (auto simp: formatValue_def needsQuote_def list_ex_iff)
qed

text \<open>Attributes whose keys, at every depth, hold no line break.\<close>

inductive plain :: "attr \<Rightarrow> bool" where
  scalar: "newline \<notin> set k \<Longrightarrow> Resolve v = Scalar t \<Longrightarrow> plain (k, v)"
| grouped: "newline \<notin> set k \<Longrightarrow> Resolve v = Group as \<Longrightarrow> list_all plain as \<Longrightarrow> plain (k, v)"

lemma writeAttr_no_newline:
  "plain a \<Longrightarrow> newline \<notin> set prefix \<Longrightarrow> newline \<notin> set (writeAttr printable prefix a)"
proof (induction arbitrary: prefix rule: plain.induct)
  case (scalar k v t)
  then show ?case using formatValue_no_newline by (auto simp: writeAttr.simps newline_def)
next
  case (grouped k v as)
  then show ?case by (auto simp: writeAttr.simps list_all_iff newline_def split: if_splits)
qed

lemma redact_plain: "plain a \<Longrightarrow> plain (redactAttr u h a)"
proof (induction rule: plain.induct)
  case (grouped k v as)
  then have "list_all plain (nonempty (map (redactAttr u h) as))" by (auto simp: nonempty_def list_all_iff)
  then show ?case using grouped.hyps by (auto simp: redactAttr.simps intro: plain.intros)
qed (auto simp: redactAttr.simps intro: plain.scalar)

definition logger_plain :: "logger \<Rightarrow> bool" where
  "logger_plain l \<longleftrightarrow> list_all plain (th_attrs (snd l)) \<and> newline \<notin> set (th_prefix (snd l))"

lemma prefix_plain: "plain (k, v) \<Longrightarrow> newline \<notin> set p \<Longrightarrow> plain (p @ k, v)"
  by (auto elim!: plain.cases intro: plain.intros)

fun derive_plain :: "derive \<Rightarrow> bool" where
  "derive_plain (With as) = list_all plain as"
| "derive_plain (In_group n) = (newline \<notin> set n)"

lemma derived_plain: "logger_plain l \<Longrightarrow> list_all derive_plain ds \<Longrightarrow> logger_plain (derived u ds l)"
proof (induction u ds l rule: derived.induct)
  case (2 u attrs ds l)
  have "logger_plain (WithAttrs u attrs l)"
  proof -
    have "plain (th_prefix (snd l) @ fst (redactAttr u (fst l) a), snd (redactAttr u (fst l) a))" if "a \<in> set attrs" for a
      using 2 that redact_plain [of a u "fst l"] by (intro prefix_plain) (auto simp: logger_plain_def list_all_iff)
    then show ?thesis
      using 2 by (auto simp: logger_plain_def WithAttrs_def text_WithAttrs_def list_all_iff case_prod_unfold)
  qed
  then show ?case using 2 by simp
next
  case (3 u name ds l)
  then have "logger_plain (WithGroup name l)"
    by (auto simp: logger_plain_def WithGroup_def text_WithGroup_def newline_def)
  then show ?case using 3 by simp
qed simp

lemma level_no_newline: "newline \<notin> set (formatLevel h level)"
  by (auto simp: formatLevel_def levelLabel_def newline_def)

text \<open>
  A record is written as exactly one line, whatever its values hold: when the message, the keys and
  the group names have no line break, the only line break of the output is its last byte.
\<close>

theorem log_single_line:
  assumes "list_all derive_plain ds" and "list_all plain (rec_attrs r)"
    and "newline \<notin> set (rec_clock r)" and "newline \<notin> set (rec_message r)"
  shows "\<exists>line. Handle u printable (derived u ds (NewTextHandler u opts)) r = line @ [newline] \<and> newline \<notin> set line"
proof -
  let ?l = "derived u ds (NewTextHandler u opts)"
  have l: "logger_plain ?l" using assms(1) by (intro derived_plain) (simp_all add: logger_plain_def NewTextHandler_def)
  have a: "list_all plain (redact_record u (fst ?l) (rec_attrs r))"
    using assms(2) redact_plain by (auto simp: redact_record_def nonempty_def list_all_iff)
  have "newline \<notin> set (concat (map (writeAttr printable []) (th_attrs (snd ?l))))"
    "newline \<notin> set (concat (map (writeAttr printable (th_prefix (snd ?l))) (redact_record u (fst ?l) (rec_attrs r))))"
    using l a writeAttr_no_newline by (auto simp: logger_plain_def list_all_iff)
  then show ?thesis
    using assms(3,4) level_no_newline
    by (auto simp: Handle_def text_Handle_def newline_def simp del: append_assoc simp add: append_assoc [symmetric])
qed

theorem log_single_line_witness:
  "\<exists>line. Handle no_tables (\<lambda>_. True) (derived no_tables [In_group ''req''] (NewTextHandler no_tables dev_options))
     (sample_record [(''note'', Scalar [CHR ''a'', newline, CHR ''b''])]) = line @ [newline] \<and> newline \<notin> set line"
  by (rule log_single_line) (auto simp: sample_record_def newline_def intro!: plain.scalar)

end
