(* ===== verification/Json.thy ===== *)
theory Json
  imports Utf8
begin

text \<open>
  The parts of \<open>encoding/json\<close> the cursor codec uses, on byte strings: the string literal \<open>Marshal\<close>
  writes (with its HTML escaping), and the reader's view of white space, string literals and integer
  literals.  A malformed UTF-8 sequence becomes U+FFFD on both sides, as in Go.
\<close>

section \<open>Code points\<close>

definition byte_char :: "nat \<Rightarrow> char" where
  "byte_char n = char_of n"

text \<open>\<open>utf8.AppendRune\<close> on the basic plane and above, for code points that are not surrogates.\<close>

definition utf8_encode :: "nat \<Rightarrow> string" where
  "utf8_encode r =
     (if r < 128 then [byte_char r]
      else if r < 2048 then [byte_char (192 + r div 64), byte_char (128 + r mod 64)]
      else if r < 65536 then
        [byte_char (224 + r div 4096), byte_char (128 + r div 64 mod 64), byte_char (128 + r mod 64)]
      else
        [byte_char (240 + r div 262144), byte_char (128 + r div 4096 mod 64),
         byte_char (128 + r div 64 mod 64), byte_char (128 + r mod 64)])"

definition replacement :: string where
  "replacement = utf8_encode 65533"

definition hex_digit :: "nat \<Rightarrow> char" where
  "hex_digit n = (if n < 10 then byte_char (48 + n) else byte_char (87 + n))"

definition hex_val :: "char \<Rightarrow> nat option" where
  "hex_val c =
     (if is_digit c then Some (code c - 48)
      else if 97 \<le> code c \<and> code c \<le> 102 then Some (code c - 87)
      else if 65 \<le> code c \<and> code c \<le> 70 then Some (code c - 55)
      else None)"

section \<open>Writing strings\<close>

definition quote :: char where "quote = CHR 0x22"
definition backslash :: char where "backslash = CHR 0x5C"

definition u_escape :: "nat \<Rightarrow> string" where
  "u_escape n =
     [backslash, CHR ''u'', hex_digit (n div 4096 mod 16), hex_digit (n div 256 mod 16),
      hex_digit (n div 16 mod 16), hex_digit (n mod 16)]"

text \<open>One ASCII character inside a literal; \<open><\<close>, \<open>>\<close> and \<open>&\<close> are escaped for HTML.\<close>

definition escape_char :: "char \<Rightarrow> string" where
  "escape_char c =
     (if c = quote \<or> c = backslash then [backslash, c]
      else if code c = 8 then [backslash, CHR ''b'']
      else if code c = 12 then [backslash, CHR ''f'']
      else if code c = 10 then [backslash, CHR ''n'']
      else if code c = 13 then [backslash, CHR ''r'']
      else if code c = 9 then [backslash, CHR ''t'']
      else if code c < 32 \<or> code c = 60 \<or> code c = 62 \<or> code c = 38 then u_escape (code c)
      else [c])"

text \<open>A multi-byte rune is copied, except the two line separators.\<close>

definition escape_rune :: "string \<Rightarrow> string" where
  "escape_rune s =
     (if s = utf8_encode 8232 then u_escape 8232
      else if s = utf8_encode 8233 then u_escape 8233
      else s)"

function escape_string :: "string \<Rightarrow> string" where
  "escape_string s =
     (case s of
        [] \<Rightarrow> []
      | c # cs \<Rightarrow>
          if is_ascii c then escape_char c @ escape_string cs
          else (case rune_width s of
                  None \<Rightarrow> u_escape 65533 @ escape_string cs
                | Some n \<Rightarrow> escape_rune (take n s) @ escape_string (drop n s)))"
  by pat_completeness auto
termination
  by (relation "measure length") (auto dest: rune_width_bounds)

definition json_string :: "string \<Rightarrow> string" where
  "json_string s = [quote] @ escape_string s @ [quote]"

section \<open>Reading\<close>

definition is_json_space :: "char \<Rightarrow> bool" where
  "is_json_space c \<longleftrightarrow> code c \<in> {32, 9, 10, 13}"

definition skip_ws :: "string \<Rightarrow> string" where
  "skip_ws s = dropWhile is_json_space s"

text \<open>Four hexadecimal digits.\<close>

definition get_u4 :: "string \<Rightarrow> (nat \<times> string) option" where
  "get_u4 s =
     (case s of
        a # b # c # d # rest \<Rightarrow>
          (case (hex_val a, hex_val b, hex_val c, hex_val d) of
             (Some i, Some j, Some k, Some l) \<Rightarrow> Some (((i * 16 + j) * 16 + k) * 16 + l, rest)
           | _ \<Rightarrow> None)
      | _ \<Rightarrow> None)"

text \<open>
  After \<open>\u\<close>: a surrogate is combined with a second escape when that completes a pair; an unpaired one
  is replaced and the text after it read again.
\<close>

definition unescape_u :: "string \<Rightarrow> (string \<times> string) option" where
  "unescape_u s =
     (case get_u4 s of
        None \<Rightarrow> None
      | Some (r, rest) \<Rightarrow>
          if r < 55296 \<or> 57343 < r then Some (utf8_encode r, rest)
          else
            (case rest of
               b # u # rest' \<Rightarrow>
                 if b = backslash \<and> u = CHR ''u'' then
                   (case get_u4 rest' of
                      Some (r', rest'') \<Rightarrow>
                        if r < 56320 \<and> 56320 \<le> r' \<and> r' \<le> 57343
                        then Some (utf8_encode ((r - 55296) * 1024 + (r' - 56320) + 65536), rest'')
                        else Some (replacement, rest)
                    | None \<Rightarrow> Some (replacement, rest))
                 else Some (replacement, rest)
             | _ \<Rightarrow> Some (replacement, rest)))"

definition unescape :: "string \<Rightarrow> (string \<times> string) option" where
  "unescape s =
     (case s of
        [] \<Rightarrow> None
      | c # rest \<Rightarrow>
          if c = quote \<or> c = backslash \<or> c = CHR ''/'' then Some ([c], rest)
          else if c = CHR ''b'' then Some ([byte_char 8], rest)
          else if c = CHR ''f'' then Some ([byte_char 12], rest)
          else if c = CHR ''n'' then Some ([byte_char 10], rest)
          else if c = CHR ''r'' then Some ([byte_char 13], rest)
          else if c = CHR ''t'' then Some ([byte_char 9], rest)
          else if c = CHR ''u'' then unescape_u rest
          else None)"

lemma get_u4_shorter: "get_u4 s = Some (r, rest) \<Longrightarrow> length rest < length s"
  by (auto simp: get_u4_def split: list.splits option.splits)

lemma unescape_u_shorter: "unescape_u s = Some (out, rest) \<Longrightarrow> length rest < length s"
  by (auto simp: unescape_u_def split: option.splits if_splits list.splits dest!: get_u4_shorter)

lemma unescape_shorter: "unescape s = Some (out, rest) \<Longrightarrow> length rest < length s"
  by (auto simp: unescape_def split: list.splits if_splits dest: unescape_u_shorter)

text \<open>The rest of a literal after its opening quote: its value and what follows the closing quote.\<close>

function unquote :: "string \<Rightarrow> (string \<times> string) option" where
  "unquote s =
     (case s of
        [] \<Rightarrow> None
      | c # cs \<Rightarrow>
          if c = quote then Some ([], cs)
          else if c = backslash then
            (case unescape cs of
               None \<Rightarrow> None
             | Some (out, rest) \<Rightarrow> map_option (apfst ((@) out)) (unquote rest))
          else if code c < 32 then None
          else
            (case rune_width s of
               None \<Rightarrow> map_option (apfst ((@) replacement)) (unquote cs)
             | Some n \<Rightarrow> map_option (apfst ((@) (take n s))) (unquote (drop n s))))"
  by pat_completeness auto
termination
  by (relation "measure length") (auto dest: rune_width_bounds unescape_shorter)

declare escape_string.simps [simp del] unquote.simps [simp del]

lemma unquote_shorter: "unquote s = Some (out, rest) \<Longrightarrow> length rest < length s"
proof (induction s arbitrary: out rest rule: unquote.induct)
  case (1 s)
  show ?case
  proof (cases s)
    case (Cons c cs)
    then show ?thesis
      using "1.prems" "1.IH" rune_width_bounds [of s]
      by (subst (asm) unquote.simps)
        (fastforce split: if_splits option.splits dest: unescape_shorter)
  qed (use "1.prems" in \<open>simp add: unquote.simps\<close>)
qed

text \<open>
  An integer literal in the range of \<open>int64\<close>.  A literal with a fraction or exponent is well-formed JSON
  but not an \<open>int64\<close>: its point or exponent is left for the caller, which expects a delimiter there.
\<close>

definition integer :: "string \<Rightarrow> (int \<times> string) option" where
  "integer s =
     (let neg = (s \<noteq> [] \<and> hd s = CHR ''-'');
          bdy = (if neg then tl s else s);
          ds = takeWhile is_digit bdy;
          v = (if neg then - int (digits_val ds) else int (digits_val ds))
      in if ds = [] \<or> (hd ds = CHR ''0'' \<and> length ds > 1) \<or> v < - (2 ^ 63) \<or> 2 ^ 63 \<le> v then None
         else Some (v, dropWhile is_digit bdy))"

section \<open>The round trip of string literals\<close>

lemma rune_width_take: "rune_width s = Some n \<Longrightarrow> rune_width (take n s @ t) = Some n"
  by (auto simp: rune_width_def split: list.splits if_splits)

lemma hex_val_hex_digit [simp]: "n < 16 \<Longrightarrow> hex_val (hex_digit n) = Some n"
  by (auto simp: hex_val_def hex_digit_def byte_char_def code_def is_digit_def)

lemma four_digits: "n < 65536 \<Longrightarrow>
   ((n div 4096 mod 16 * 16 + n div 256 mod 16) * 16 + n div 16 mod 16) * 16 + n mod 16 = (n :: nat)"
  using div_mult_mod_eq [of n 16] div_mult_mod_eq [of "n div 16" 16] div_mult_mod_eq [of "n div 16 div 16" 16]
  by (simp flip: div_mult2_eq)

lemma unescape_u_escape:
  assumes "n < 55296"
  shows "unescape (tl (u_escape n) @ t) = Some (utf8_encode n, t)"
proof -
  have "get_u4 (drop 2 (u_escape n) @ t) = Some (n, t)"
    using four_digits [of n] assms by (simp add: get_u4_def u_escape_def numeral_2_eq_2)
  then show ?thesis
    using assms by (simp add: unescape_def unescape_u_def u_escape_def quote_def backslash_def)
qed

lemma unquote_u_escape:
  "n < 55296 \<Longrightarrow> unquote (u_escape n @ t) = map_option (apfst ((@) (utf8_encode n))) (unquote t)"
  using unescape_u_escape [of n t]
  by (subst unquote.simps) (simp add: u_escape_def quote_def backslash_def)

lemma unquote_simple_escape:
  assumes "unescape (e # t) = Some (out, t)"
  shows "unquote (backslash # e # t) = map_option (apfst ((@) out)) (unquote t)"
  using assms by (subst unquote.simps) (simp add: quote_def backslash_def)

lemma byte_char_code: "code c = n \<Longrightarrow> [byte_char n] = [c]"
  by (auto simp: byte_char_def code_def)

lemma unquote_escape_char:
  assumes "is_ascii c"
  shows "unquote (escape_char c @ t) = map_option (apfst ((@) [c])) (unquote t)"
proof -
  consider (self) "c = quote \<or> c = backslash"
    | (short) "c \<noteq> quote" "c \<noteq> backslash" "code c \<in> {8, 9, 10, 12, 13}"
    | (hex) "c \<noteq> quote" "c \<noteq> backslash" "code c \<notin> {8, 9, 10, 12, 13}" "code c < 32 \<or> code c \<in> {60, 62, 38}"
    | (raw) "c \<noteq> quote" "c \<noteq> backslash" "\<not> code c < 32" "code c \<notin> {60, 62, 38}"
    by auto
  then show ?thesis
  proof cases
    case self
    then show ?thesis
      using unquote_simple_escape [of c t "[c]"] by (auto simp: escape_char_def unescape_def)
  next
    case short
    obtain e where e: "escape_char c = [backslash, e]" and u: "unescape (e # t) = Some ([c], t)"
      using short byte_char_code [of c, OF refl] that
      by (auto simp: escape_char_def unescape_def quote_def backslash_def)
    then show ?thesis using unquote_simple_escape [OF u] by simp
  next
    case hex
    then have "escape_char c = u_escape (code c)" "code c < 128" by (auto simp: escape_char_def)
    moreover have "utf8_encode (code c) = [c]" using calculation(2) byte_char_code [of c] by (simp add: utf8_encode_def)
    ultimately show ?thesis using unquote_u_escape [of "code c" t] by simp
  next
    case raw
    then have "escape_char c = [c]" by (auto simp: escape_char_def)
    then show ?thesis
      using raw assms by (subst unquote.simps) (simp add: rune_width_def)
  qed
qed

lemma unquote_escape_rune:
  assumes w: "rune_width s = Some n" and c: "\<not> is_ascii (hd s)"
  shows "unquote (escape_rune (take n s) @ t) = map_option (apfst ((@) (take n s))) (unquote t)"
proof -
  obtain d ds where s: "take n s = d # ds" and d: "d = hd s"
    using rune_width_bounds [OF w] by (cases s; cases n) auto
  have plain: "unquote (take n s @ t) = map_option (apfst ((@) (take n s))) (unquote t)"
  proof -
    have len: "length (take n s) = n" using rune_width_bounds [OF w] by simp
    have split: "take n (take n s @ t) = take n s" "drop n (take n s @ t) = t" using len by simp_all
    have d': "d \<noteq> quote" "d \<noteq> backslash" "\<not> code d < 32"
      using c d by (auto simp: quote_def backslash_def is_ascii_def code_def)
    show ?thesis
      using rune_width_take [OF w, of t] split d' unfolding s by (subst unquote.simps) simp
  qed
  show ?thesis
    using plain unquote_u_escape [of 8232 t] unquote_u_escape [of 8233 t] by (simp add: escape_rune_def)
qed

text \<open>Reading a written literal gives the string back.\<close>

lemma unquote_escape_string: "valid_string s \<Longrightarrow> unquote (escape_string s @ quote # t) = Some (s, t)"
proof (induction s rule: escape_string.induct)
  case (1 s)
  show ?case
  proof (cases s)
    case Nil
    then show ?thesis by (simp add: escape_string.simps unquote.simps)
  next
    case (Cons c cs)
    from "1.prems" obtain n where n: "rune_width s = Some n" and v: "valid_string (drop n s)"
      by (subst (asm) valid_string.simps) (auto simp: Cons split: option.splits)
    show ?thesis
    proof (cases "is_ascii c")
      case True
      then have "n = 1" using n Cons by (simp add: rune_width_def)
      then show ?thesis
        using "1.IH"(1) [OF Cons True] v Cons True unquote_escape_char [OF True, of "escape_string cs @ quote # t"]
        by (subst escape_string.simps) simp
    next
      case False
      then show ?thesis
        using "1.IH"(3) [OF Cons False n v] n Cons unquote_escape_rune [OF n, of "escape_string (drop n s) @ quote # t"]
        by (subst escape_string.simps) (simp flip: append_assoc)
    qed
  qed
qed

lemma integer_show_int:
  assumes "- (2 ^ 63) \<le> i" and "i < 2 ^ 63" and "t \<noteq> []" and "\<not> is_digit (hd t)"
  shows "integer (show_int i @ t) = Some (i, t)"
proof -
  have t: "takeWhile is_digit (show_nat n @ t) = show_nat n" "dropWhile is_digit (show_nat n @ t) = t" for n
    using show_nat_digits [of n] assms(3,4) by (cases t; auto simp: list_all_iff takeWhile_append dropWhile_append)+
  have lead: "\<not> (hd (show_nat n) = CHR ''0'' \<and> length (show_nat n) > 1)" "hd (show_nat n) \<noteq> CHR ''-''" for n
    using canonical_show_nat [of n] show_nat_digits [of n]
    by (cases "show_nat n"; auto simp: canonical_digits_def char_class_defs)+
  show ?thesis
    using assms(1,2) t lead by (auto simp: integer_def show_int_def Let_def)
qed

section \<open>Hexadecimal digests\<close>

text \<open>\<open>hex.EncodeToString\<close>.\<close>

definition hex_encode :: "bytes \<Rightarrow> string" where
  "hex_encode bs = concat (map (\<lambda>b. [hex_digit (unat b div 16), hex_digit (unat b mod 16)]) bs)"

lemma hex_encode_ascii: "list_all is_ascii (hex_encode bs)"
proof -
  have "is_ascii (hex_digit n)" if "n < 16" for n
    using that by (simp add: hex_digit_def byte_char_def is_ascii_def code_def)
  moreover have "unat b div 16 < 16" for b :: byte
    using byte_bound [of b] by (simp add: less_mult_imp_div_less)
  ultimately show ?thesis by (auto simp: hex_encode_def list_all_iff)
qed

lemma length_hex_encode [simp]: "length (hex_encode bs) = 2 * length bs"
  by (induction bs) (simp_all add: hex_encode_def)

end
