(* ===== verification/Framing.thy ===== *)
theory Framing
  imports Hashes
begin

text \<open>
  Length-prefixed framing (\<open>writeLengthPrefixed\<close> and \<open>writeUint64\<close> of \<open>runtime/pagination/cursor.go\<close>).
  The locale states what a framing promises: a frame can be split off whatever follows it in one way
  only.  Counted sequences of frames are frames again, which is how the signing input and the query
  fingerprint are built.
\<close>

definition writeUint64 :: "nat \<Rightarrow> bytes" where
  "writeUint64 n = put_uint64 (word_of_nat n)"

definition writeLengthPrefixed :: "bytes \<Rightarrow> bytes" where
  "writeLengthPrefixed data = writeUint64 (length data) @ data"

definition counted :: "('a \<Rightarrow> bytes) \<Rightarrow> 'a list \<Rightarrow> bytes" where
  "counted enc xs = writeUint64 (length xs) @ concat (map enc xs)"

locale framing =
  fixes enc :: "'a \<Rightarrow> bytes"
    and fits :: "'a \<Rightarrow> bool"
  assumes split_frame: "fits x \<Longrightarrow> fits y \<Longrightarrow> enc x @ s = enc y @ t \<Longrightarrow> x = y \<and> s = t"
begin

lemma frame_iff: "fits x \<Longrightarrow> fits y \<Longrightarrow> enc x @ s = enc y @ t \<longleftrightarrow> x = y \<and> s = t"
  using split_frame by blast

lemma frame_inject: "fits x \<Longrightarrow> fits y \<Longrightarrow> enc x = enc y \<longleftrightarrow> x = y"
  using frame_iff [of x y "[]" "[]"] by simp

lemma split_frames:
  "list_all fits xs \<Longrightarrow> list_all fits ys \<Longrightarrow> length xs = length ys \<Longrightarrow>
     concat (map enc xs) @ s = concat (map enc ys) @ t \<Longrightarrow> xs = ys \<and> s = t"
proof (induction xs arbitrary: ys)
  case (Cons x xs)
  from Cons.prems(3) obtain y ys' where ys: "ys = y # ys'" by (cases ys) auto
  from Cons.prems ys have e: "enc x @ concat (map enc xs) @ s = enc y @ concat (map enc ys') @ t"
    and f: "fits x" "fits y" by simp_all
  from split_frame [OF f e] Cons.IH [of ys'] Cons.prems ys show ?case by simp
qed simp

end

lemma length_writeUint64 [simp]: "length (writeUint64 n) = 8"
  by (simp add: writeUint64_def)

lemma writeUint64_split:
  assumes "m < 2 ^ 64" and "n < 2 ^ 64" and "writeUint64 m @ s = writeUint64 n @ t"
  shows "m = n \<and> s = t"
proof -
  have "writeUint64 m = writeUint64 n" "s = t"
    using assms(3) by (simp_all add: append_eq_append_conv)
  moreover have "unat (word_of_nat k :: 64 word) = k" if "k < 2 ^ 64" for k
    using that by (simp add: unat_of_nat take_bit_nat_eq_self)
  ultimately show ?thesis
    using assms(1,2) unfolding writeUint64_def put_uint64_inject by metis
qed

definition short :: "'a list \<Rightarrow> bool" where
  "short xs \<longleftrightarrow> length xs < 2 ^ 64"

interpretation byte_frame: framing writeLengthPrefixed short
proof
  fix x y s t
  assume f: "short x" "short y" and e: "writeLengthPrefixed x @ s = writeLengthPrefixed y @ t"
  then have "length x = length y \<and> x @ s = y @ t"
    by (intro writeUint64_split) (simp_all add: writeLengthPrefixed_def short_def)
  then show "x = y \<and> s = t" by auto
qed

context framing
begin

lemma split_counted:
  assumes "short xs" "list_all fits xs" "short ys" "list_all fits ys"
    and "counted enc xs @ s = counted enc ys @ t"
  shows "xs = ys \<and> s = t"
proof -
  from assms have "length xs = length ys \<and> concat (map enc xs) @ s = concat (map enc ys) @ t"
    by (intro writeUint64_split) (simp_all add: counted_def short_def)
  then show ?thesis using split_frames assms(2,4) by blast
qed

end

text \<open>The frames of the query fingerprint: a value list, and one parameter with its values.\<close>

definition string_frame :: "string \<Rightarrow> bytes" where
  "string_frame s = writeLengthPrefixed (bytes_of_string s)"

definition entry_frame :: "string \<times> string list \<Rightarrow> bytes" where
  "entry_frame e = string_frame (fst e) @ counted string_frame (snd e)"

definition short_entry :: "string \<times> string list \<Rightarrow> bool" where
  "short_entry e \<longleftrightarrow> short (fst e) \<and> short (snd e) \<and> list_all short (snd e)"

interpretation text_frame: framing string_frame short
proof
  fix x y s t
  assume "short x" "short y" "string_frame x @ s = string_frame y @ t"
  then show "x = y \<and> s = t"
    using byte_frame.split_frame [of "bytes_of_string x" "bytes_of_string y" s t]
    by (simp add: string_frame_def short_def)
qed

interpretation parameter_frame: framing entry_frame short_entry
proof
  fix x y s t
  assume f: "short_entry x" "short_entry y" and e: "entry_frame x @ s = entry_frame y @ t"
  have "fst x = fst y \<and> counted string_frame (snd x) @ s = counted string_frame (snd y) @ t"
    using f e by (intro text_frame.split_frame) (simp_all add: entry_frame_def short_entry_def)
  moreover from this have "snd x = snd y \<and> s = t"
    using f by (intro text_frame.split_counted) (simp_all add: short_entry_def)
  ultimately show "x = y \<and> s = t" by (simp add: prod_eq_iff)
qed

end
