(* ===== verification/Cursor.thy ===== *)
theory Cursor
  imports Json Encodings Framing Report "HOL-Library.List_Lexorder" "HOL-Library.Char_ord"
begin

text \<open>
  Signed cursors: the signing keys and their ring (\<open>runtime/pagination/key.go\<close>), the cursor codec
  (\<open>cursor.go\<close>) and the request reader (\<open>request.go\<close>).

  The clock is an argument of the operations that read it.  The payload reader is \<open>encoding/json\<close> on
  the one struct it fills: every value that is not of the struct's shape is refused, as a syntax error,
  a type error or an unknown field, and the caller reports the three alike.
\<close>

section \<open>Keys\<close>

definition MinKeyBytes :: nat where "MinKeyBytes = 32"
definition MaxKeyIDBytes :: nat where "MaxKeyIDBytes = 32"
definition MaxRetiredKeys :: nat where "MaxRetiredKeys = 8"
definition redactedKeyMaterial :: string where "redactedKeyMaterial = ''[REDACTED]''"

datatype key_error =
    ErrKeyID string
  | ErrKeySecret nat
  | ErrKeyEncoding
  | ErrDuplicateKeyID string
  | ErrTooManyRetiredKeys nat
  | ErrGenerate

record key =
  key_id :: string
  key_secret :: bytes

definition key_id_char :: "char \<Rightarrow> bool" where
  "key_id_char c \<longleftrightarrow> is_lower c \<or> is_digit c \<or> c = CHR ''-'' \<or> c = CHR ''_''"

definition validKeyID :: "string \<Rightarrow> bool" where
  "validKeyID i \<longleftrightarrow> i \<noteq> [] \<and> length i \<le> MaxKeyIDBytes \<and> list_all key_id_char i"

definition NewKey :: "string \<Rightarrow> bytes \<Rightarrow> key_error + key" where
  "NewKey i secret =
     (if \<not> validKeyID i then Inl (ErrKeyID i)
      else if length secret < MinKeyBytes then Inl (ErrKeySecret (length secret))
      else Inr \<lparr>key_id = i, key_secret = secret\<rparr>)"

definition decodeKeySecret :: "string \<Rightarrow> bytes option" where
  "decodeKeySecret raw =
     (case decode_string StdEncoding raw of
        Some secret \<Rightarrow> Some secret
      | None \<Rightarrow> decode_string RawStdEncoding raw)"

definition ParseKey :: "string \<Rightarrow> key_error + key" where
  "ParseKey encoded =
     (case cut CHR '':'' encoded of
        None \<Rightarrow> Inl ErrKeyEncoding
      | Some (i, rawSecret) \<Rightarrow>
          if rawSecret = [] then Inl ErrKeyEncoding
          else (case decodeKeySecret rawSecret of
                  None \<Rightarrow> Inl ErrKeyEncoding
                | Some secret \<Rightarrow> NewKey i secret))"

definition GenerateKey :: "rand_source \<Rightarrow> string \<Rightarrow> key_error + key" where
  "GenerateKey rand i =
     (case rand MinKeyBytes of None \<Rightarrow> Inl ErrGenerate | Some secret \<Rightarrow> NewKey i secret)"

definition Key_String :: "key \<Rightarrow> string" where "Key_String k = redactedKeyMaterial"
definition Key_GoString :: "key \<Rightarrow> string" where "Key_GoString k = redactedKeyMaterial"
definition Key_LogValue :: "key \<Rightarrow> string" where "Key_LogValue k = ''key '' @ key_id k"
definition Key_MarshalJSON :: "key \<Rightarrow> string" where "Key_MarshalJSON k = json_string redactedKeyMaterial"

record key_ring =
  active :: key
  retired :: "key list"

fun retired_check :: "string set \<Rightarrow> key list \<Rightarrow> key_error option" where
  "retired_check seen [] = None"
| "retired_check seen (k # ks) =
     (if key_id k = [] then Some (ErrKeyID [])
      else if key_id k \<in> seen then Some (ErrDuplicateKeyID (key_id k))
      else retired_check (insert (key_id k) seen) ks)"

definition NewKeyRing :: "key \<Rightarrow> key list \<Rightarrow> key_error + key_ring" where
  "NewKeyRing act ret =
     (if key_id act = [] then Inl (ErrKeyID [])
      else if length ret > MaxRetiredKeys then Inl (ErrTooManyRetiredKeys (length ret))
      else (case retired_check {key_id act} ret of
              Some err \<Rightarrow> Inl err
            | None \<Rightarrow> Inr \<lparr>active = act, retired = ret\<rparr>))"

definition ActiveID :: "key_ring \<Rightarrow> string" where "ActiveID r = key_id (active r)"
definition IDs :: "key_ring \<Rightarrow> string list" where "IDs r = key_id (active r) # map key_id (retired r)"
definition KeyRing_String :: "key_ring \<Rightarrow> string" where
  "KeyRing_String r = ''cursor key ring '' @ join '','' (IDs r)"

definition find :: "key_ring \<Rightarrow> string \<Rightarrow> key option" where
  "find r i = (if i = key_id (active r) then Some (active r) else List.find (\<lambda>k. i = key_id k) (retired r))"

section \<open>Bindings\<close>

definition TokenVersion :: string where "TokenVersion = ''nc1''"
definition MaxTokenBytes :: nat where "MaxTokenBytes = 4096"
definition MaxCursorValues :: nat where "MaxCursorValues = 8"
definition MaxCursorValueBytes :: nat where "MaxCursorValueBytes = 256"

datatype cursor_error =
    ErrCursorMalformed
  | ErrCursorVersion string
  | ErrCursorSignature
  | ErrCursorExpired time
  | ErrCursorBinding
  | ErrCursorDirection string string
  | ErrBinding
  | ErrDirection string
  | ErrCursorValues
  | ErrTTL duration
  | ErrConflictingCursors
  | ErrUnconstructedLimits
  | ErrParam param_error

type_synonym direction = string

definition Forward :: direction where "Forward = ''forward''"
definition Backward :: direction where "Backward = ''backward''"

definition Direction_Valid :: "direction \<Rightarrow> bool" where
  "Direction_Valid d \<longleftrightarrow> d = Forward \<or> d = Backward"

definition ParseDirection :: "string \<Rightarrow> cursor_error + direction" where
  "ParseDirection raw = (if \<not> Direction_Valid raw then Inl (ErrDirection raw) else Inr raw)"

record binding =
  fingerprint :: string

text \<open>
  The filters as the entries of the Go map in whatever order the range statement yields them; the
  values of a key are looked up again by that key.
\<close>

definition binding_input :: "string \<Rightarrow> (string \<times> string list) list \<Rightarrow> bytes" where
  "binding_input resource filters =
     string_frame resource @
     counted entry_frame (map (\<lambda>k. (k, the (map_of filters k))) (sort (map fst filters)))"

definition NewBinding :: "string \<Rightarrow> (string \<times> string list) list \<Rightarrow> binding" where
  "NewBinding resource filters = \<lparr>fingerprint = hex_encode (sha256 (binding_input resource filters))\<rparr>"

definition Binding_IsZero :: "binding \<Rightarrow> bool" where
  "Binding_IsZero b \<longleftrightarrow> fingerprint b = []"

section \<open>The payload\<close>

record payload =
  pl_Direction :: string
  pl_Binding :: string
  pl_ExpiresAt :: int
  pl_Values :: "string list"

definition marshal :: "payload \<Rightarrow> string" where
  \<open>marshal p =
     ''{"d":'' @ json_string (pl_Direction p) @ '',"b":'' @ json_string (pl_Binding p) @
     '',"x":'' @ show_int (pl_ExpiresAt p) @ '',"v":['' @ join '','' (map json_string (pl_Values p)) @ '']}''\<close>

definition null_value :: "string \<Rightarrow> string option" where
  "null_value s = cut_prefix s ''null''"

definition string_value :: "string \<Rightarrow> (string \<times> string) option" where
  "string_value s = (case s of [] \<Rightarrow> None | c # cs \<Rightarrow> if c = quote then unquote cs else None)"

lemma string_value_shorter: "string_value s = Some (v, rest) \<Longrightarrow> length rest < length s"
  by (auto simp: string_value_def split: list.splits if_splits dest: unquote_shorter)

lemma null_value_shorter: "null_value s = Some rest \<Longrightarrow> length rest < length s"
  by (auto simp: null_value_def cut_prefix_Some)

lemma skip_ws_le: "length (skip_ws s) \<le> length s"
  by (simp add: skip_ws_def length_dropWhile_le)

text \<open>
  An array read into a string slice.  A null element leaves what the slice held at that index before
  (nothing, the first time the field is read).
\<close>

definition element :: "string list \<Rightarrow> nat \<Rightarrow> string \<Rightarrow> (string \<times> string) option" where
  "element old i s =
     (case string_value s of
        Some r \<Rightarrow> Some r
      | None \<Rightarrow> map_option (Pair (if i < length old then old ! i else [])) (null_value s))"

lemma element_shorter: "element old i s = Some (v, rest) \<Longrightarrow> length rest < length s"
  by (auto simp: element_def split: option.splits dest: string_value_shorter null_value_shorter)

function elements :: "string list \<Rightarrow> string list \<Rightarrow> string \<Rightarrow> (string list \<times> string) option" where
  "elements old acc s =
     (case element old (length acc) s of
        None \<Rightarrow> None
      | Some (v, rest) \<Rightarrow>
          (case skip_ws rest of
             [] \<Rightarrow> None
           | c # rest' \<Rightarrow>
               if c = CHR '','' then elements old (acc @ [v]) (skip_ws rest')
               else if c = CHR '']'' then Some (acc @ [v], rest')
               else None))"
  by pat_completeness auto

lemma skip_ws_Cons: "skip_ws rest = c # rest' \<Longrightarrow> length rest < n \<Longrightarrow> length (skip_ws rest') < n"
  using skip_ws_le [of rest] skip_ws_le [of rest'] by simp

lemma skip_ws_Cons_le: "skip_ws rest = c # rest' \<Longrightarrow> length rest < n \<Longrightarrow> k \<le> length (skip_ws rest') \<Longrightarrow> k < n"
  using skip_ws_Cons [of rest c rest' n] by simp

termination elements
  by (relation "measure (\<lambda>(old, acc, s). length s)") (auto dest: element_shorter skip_ws_Cons)

declare elements.simps [simp del]

lemma elements_shorter: "elements old acc s = Some (vs, rest) \<Longrightarrow> length rest < length s"
proof (induction old acc s rule: elements.induct)
  case (1 old acc s)
  from "1.prems" obtain v r c r' where e: "element old (length acc) s = Some (v, r)" "skip_ws r = c # r'"
    by (subst (asm) elements.simps) (auto split: option.splits list.splits)
  have l: "length r < length s" "Suc (length r') \<le> length r"
    using element_shorter [OF e(1)] skip_ws_le [of r] e(2) by simp_all
  show ?case
    using "1.prems" e l "1.IH" [OF e(1) _ e(2)] skip_ws_le [of r']
    by (subst (asm) elements.simps) (auto split: if_splits)
qed

definition array_value :: "string list \<Rightarrow> string \<Rightarrow> (string list \<times> string) option" where
  "array_value old s =
     (case s of
        [] \<Rightarrow> None
      | c # cs \<Rightarrow>
          if c \<noteq> CHR ''['' then None
          else (case skip_ws cs of
                  [] \<Rightarrow> None
                | d # ds \<Rightarrow> if d = CHR '']'' then Some ([], ds) else elements old [] (d # ds)))"

lemma array_value_shorter: "array_value old s = Some (vs, rest) \<Longrightarrow> length rest < length s"
  using skip_ws_le [of "tl s"]
  by (auto simp: array_value_def split: list.splits if_splits dest!: elements_shorter)

text \<open>
  One member of the object.  Field names match exactly or up to ASCII case; null leaves a scalar field
  as it is and empties the slice.
\<close>

definition field_is :: "char \<Rightarrow> string \<Rightarrow> bool" where
  "field_is f k \<longleftrightarrow> map lower_char k = [f]"

definition member_value :: "string \<Rightarrow> payload \<Rightarrow> string \<Rightarrow> (payload \<times> string) option" where
  "member_value k p s =
     (case null_value s of
        Some rest \<Rightarrow>
          if field_is CHR ''d'' k \<or> field_is CHR ''b'' k \<or> field_is CHR ''x'' k then Some (p, rest)
          else if field_is CHR ''v'' k then Some (p\<lparr>pl_Values := []\<rparr>, rest)
          else None
      | None \<Rightarrow>
          if field_is CHR ''d'' k then map_option (\<lambda>(v, rest). (p\<lparr>pl_Direction := v\<rparr>, rest)) (string_value s)
          else if field_is CHR ''b'' k then map_option (\<lambda>(v, rest). (p\<lparr>pl_Binding := v\<rparr>, rest)) (string_value s)
          else if field_is CHR ''x'' k then map_option (\<lambda>(v, rest). (p\<lparr>pl_ExpiresAt := v\<rparr>, rest)) (integer s)
          else if field_is CHR ''v'' k
            then map_option (\<lambda>(v, rest). (p\<lparr>pl_Values := v\<rparr>, rest)) (array_value (pl_Values p) s)
          else None)"

definition member :: "payload \<Rightarrow> string \<Rightarrow> (payload \<times> string) option" where
  "member p s =
     (case string_value s of
        None \<Rightarrow> None
      | Some (k, rest) \<Rightarrow>
          (case skip_ws rest of
             [] \<Rightarrow> None
           | c # rest' \<Rightarrow> if c = CHR '':'' then member_value k p (skip_ws rest') else None))"

lemma integer_shorter: "integer s = Some (v, rest) \<Longrightarrow> length rest \<le> length s"
  using length_dropWhile_le [of is_digit s] length_dropWhile_le [of is_digit "tl s"]
  by (auto simp: integer_def Let_def split: if_splits)

lemma member_value_shorter: "member_value k p s = Some (p', rest) \<Longrightarrow> length rest \<le> length s"
  by (auto simp: member_value_def split: option.splits if_splits
      dest!: null_value_shorter string_value_shorter integer_shorter array_value_shorter)

lemma member_shorter: "member p s = Some (p', rest) \<Longrightarrow> length rest < length s"
  by (auto simp: member_def split: option.splits list.splits if_splits
      dest!: member_value_shorter string_value_shorter intro: skip_ws_Cons_le)

function members :: "payload \<Rightarrow> string \<Rightarrow> (payload \<times> string) option" where
  "members p s =
     (case member p s of
        None \<Rightarrow> None
      | Some (p', rest) \<Rightarrow>
          (case skip_ws rest of
             [] \<Rightarrow> None
           | c # rest' \<Rightarrow>
               if c = CHR '','' then members p' (skip_ws rest')
               else if c = CHR ''}'' then Some (p', rest')
               else None))"
  by pat_completeness auto
termination members
  by (relation "measure (\<lambda>(p, s). length s)") (auto dest: member_shorter skip_ws_Cons)

declare members.simps [simp del]

definition zero_payload :: payload where
  "zero_payload = \<lparr>pl_Direction = [], pl_Binding = [], pl_ExpiresAt = 0, pl_Values = []\<rparr>"

text \<open>The first value of the body, and then the end of it: only white space may follow.\<close>

definition first_value :: "string \<Rightarrow> (payload \<times> string) option" where
  "first_value bdy =
     (case skip_ws bdy of
        [] \<Rightarrow> None
      | c # cs \<Rightarrow>
          if c = CHR ''{'' then
            (case skip_ws cs of
               [] \<Rightarrow> None
             | d # ds \<Rightarrow> if d = CHR ''}'' then Some (zero_payload, ds) else members zero_payload (d # ds))
          else map_option (Pair zero_payload) (null_value (c # cs)))"

definition decode_payload :: "string \<Rightarrow> payload option" where
  "decode_payload bdy =
     (case first_value bdy of
        None \<Rightarrow> None
      | Some (p, rest) \<Rightarrow> if skip_ws rest = [] then Some p else None)"

section \<open>The codec\<close>

record cursor =
  cu_Direction :: direction
  cu_Values :: "string list"
  cu_ExpiresAt :: time

record codec =
  ring :: key_ring
  ttl :: duration

definition NewCodec :: "key_ring option \<Rightarrow> duration \<Rightarrow> cursor_error option + codec" where
  "NewCodec r t =
     (case r of
        None \<Rightarrow> Inl None
      | Some r' \<Rightarrow> if t \<le>s 0 then Inl (Some (ErrTTL t)) else Inr \<lparr>ring = r', ttl = t\<rparr>)"

definition signing_input :: "string \<Rightarrow> string \<Rightarrow> bytes \<Rightarrow> bytes" where
  "signing_input version keyID bdy =
     writeLengthPrefixed (bytes_of_string version) @ writeLengthPrefixed (bytes_of_string keyID) @
     writeLengthPrefixed bdy"

definition sign :: "key \<Rightarrow> string \<Rightarrow> string \<Rightarrow> bytes \<Rightarrow> bytes" where
  "sign k version keyID bdy = hmac_sha256 (key_secret k) (signing_input version keyID bdy)"

definition checkValues :: "string list \<Rightarrow> cursor_error option" where
  "checkValues values =
     (if values = [] then Some ErrCursorValues
      else if length values > MaxCursorValues then Some ErrCursorValues
      else if list_all (\<lambda>v. length v \<le> MaxCursorValueBytes \<and> valid_string v) values then None
      else Some ErrCursorValues)"

definition Encode :: "codec \<Rightarrow> time \<Rightarrow> binding \<Rightarrow> direction \<Rightarrow> string list \<Rightarrow> cursor_error + string" where
  "Encode c now b dir values =
     (if Binding_IsZero b then Inl ErrBinding
      else if \<not> Direction_Valid dir then Inl (ErrDirection dir)
      else (case checkValues values of
        Some err \<Rightarrow> Inl err
      | None \<Rightarrow>
          (let bdy = bytes_of_string (marshal
                 \<lparr>pl_Direction = dir, pl_Binding = fingerprint b,
                  pl_ExpiresAt = wrap64 (time_unix (time_add now (ttl c))), pl_Values = values\<rparr>);
               k = active (ring c);
               tag = sign k TokenVersion (key_id k) bdy;
               token = join ''.'' [TokenVersion, key_id k, enc64 RawURLEncoding bdy, enc64 RawURLEncoding tag]
           in if length token > MaxTokenBytes then Inl ErrCursorValues else Inr token)))"

definition claims :: "time \<Rightarrow> binding \<Rightarrow> bytes \<Rightarrow> cursor_error + cursor" where
  "claims now b bdy =
     (case decode_payload (string_of_bytes bdy) of
        None \<Rightarrow> Inl ErrCursorMalformed
      | Some decoded \<Rightarrow>
     (case ParseDirection (pl_Direction decoded) of
        Inl _ \<Rightarrow> Inl ErrCursorMalformed
      | Inr dir \<Rightarrow>
     (case checkValues (pl_Values decoded) of
        Some _ \<Rightarrow> Inl ErrCursorMalformed
      | None \<Rightarrow>
          (let expiresAt = time_Unix (pl_ExpiresAt decoded)
           in if \<not> now < expiresAt then Inl (ErrCursorExpired expiresAt)
              else if pl_Binding decoded \<noteq> fingerprint b then Inl ErrCursorBinding
              else Inr \<lparr>cu_Direction = dir, cu_Values = pl_Values decoded, cu_ExpiresAt = expiresAt\<rparr>))))"

definition Decode :: "codec \<Rightarrow> time \<Rightarrow> binding \<Rightarrow> string \<Rightarrow> cursor_error + cursor" where
  "Decode c now b token =
     (if Binding_IsZero b then Inl ErrBinding
      else if token = [] \<or> length token > MaxTokenBytes then Inl ErrCursorMalformed
      else
        (case split_on CHR ''.'' token of
           [version, keyID, encodedBody, encodedTag] \<Rightarrow>
             if version \<noteq> TokenVersion then Inl (ErrCursorVersion version)
             else if \<not> validKeyID keyID then Inl ErrCursorMalformed
             else (case decode_string RawURLEncoding encodedBody of
               None \<Rightarrow> Inl ErrCursorMalformed
             | Some bdy \<Rightarrow>
             (case decode_string RawURLEncoding encodedTag of
               None \<Rightarrow> Inl ErrCursorMalformed
             | Some tag \<Rightarrow>
             (case find (ring c) keyID of
               None \<Rightarrow> Inl ErrCursorSignature
             | Some k \<Rightarrow>
                 if \<not> constant_time_compare tag (sign k version keyID bdy) then Inl ErrCursorSignature
                 else claims now b bdy)))
         | _ \<Rightarrow> Inl ErrCursorMalformed))"

section \<open>Requests\<close>

record page_request =
  pr_Limit :: int
  pr_Direction :: direction
  pr_Cursor :: "cursor option"

text \<open>\<open>Page.Cursor\<close> and \<open>HasCursor\<close> are one option: the cursor is meaningful only when present.\<close>

definition ParsePage :: "codec \<Rightarrow> time \<Rightarrow> binding \<Rightarrow> url_values \<Rightarrow> limits \<Rightarrow> cursor_error + page_request" where
  "ParsePage c now b query lim =
     (if Binding_IsZero b then Inl ErrBinding
      else if defaultSize lim = 0 then Inl ErrUnconstructedLimits
      else (case parseLimit query lim of Inl e \<Rightarrow> Inl (ErrParam e) | Inr limit \<Rightarrow>
     (case single query AfterParam of Inl e \<Rightarrow> Inl (ErrParam e) | Inr (after, hasAfter) \<Rightarrow>
     (case single query BeforeParam of Inl e \<Rightarrow> Inl (ErrParam e) | Inr (before, hasBefore) \<Rightarrow>
      if hasAfter \<and> hasBefore then Inl ErrConflictingCursors
      else
        (let dir = (if hasBefore then Backward else Forward);
             token = (if hasBefore then before else after)
         in if \<not> hasAfter \<and> \<not> hasBefore
            then Inr \<lparr>pr_Limit = limit, pr_Direction = dir, pr_Cursor = None\<rparr>
            else (case Decode c now b token of
                    Inl e \<Rightarrow> Inl e
                  | Inr cur \<Rightarrow>
                      if cu_Direction cur \<noteq> dir then Inl (ErrCursorDirection (cu_Direction cur) dir)
                      else Inr \<lparr>pr_Limit = limit, pr_Direction = dir, pr_Cursor = Some cur\<rparr>))))))"

end
