(* ===== verification/Cursor_Laws.thy ===== *)
theory Cursor_Laws
  imports Cursor
begin

text \<open>
  What the cursor codec promises: a cursor it issued reads back under any ring that still holds its key,
  an accepted cursor was signed by a key of the ring for this very query, and two queries share a
  fingerprint input only when they are the same query.
\<close>

section \<open>The payload round trip\<close>

lemma string_value_json: "valid_string s \<Longrightarrow> string_value (json_string s @ t) = Some (s, t)"
  using unquote_escape_string [of s t] by (simp add: string_value_def json_string_def)

lemma json_string_Cons: "json_string s @ t = quote # (escape_string s @ quote # t)"
  by (simp add: json_string_def)

lemma skip_ws_id [simp]: "\<not> is_json_space c \<Longrightarrow> skip_ws (c # cs) = c # cs"
  by (simp add: skip_ws_def)

lemma not_space [simp]:
  "\<not> is_json_space quote" "\<not> is_json_space CHR '',''" "\<not> is_json_space CHR '']''" "\<not> is_json_space CHR ''}''"
  "\<not> is_json_space CHR '':''" "\<not> is_json_space CHR ''{''" "\<not> is_json_space CHR ''[''"
  by (simp_all add: is_json_space_def code_def quote_def)

lemma skip_json [simp]: "skip_ws (json_string s @ t) = json_string s @ t"
  by (simp add: json_string_Cons)

lemma null_json [simp]: "null_value (json_string s @ t) = None"
  by (simp add: json_string_Cons null_value_def cut_prefix_def has_prefix_def quote_def)

lemma elements_join:
  assumes "list_all valid_string vs" and "vs \<noteq> []"
  shows "elements old acc (join '','' (map json_string vs) @ CHR '']'' # t) = Some (acc @ vs, t)"
  using assms
proof (induction vs arbitrary: acc)
  case (Cons v vs)
  have el: "element old i (json_string v @ s) = Some (v, s)" for i s
    using Cons.prems(1) by (simp add: element_def string_value_json)
  show ?case
  proof (cases vs)
    case Nil
    then show ?thesis by (subst elements.simps) (simp add: el)
  next
    case (Cons w ws)
    have "skip_ws (join '','' (map json_string vs) @ s) = join '','' (map json_string vs) @ s" for s
      by (cases ws) (simp_all add: Cons)
    then show ?thesis
      using Cons.IH [of "acc @ [v]"] Cons.prems Cons
      by (subst elements.simps) (simp add: el join_Cons)
  qed
qed simp

lemma array_join:
  assumes "list_all valid_string vs" and "vs \<noteq> []"
  shows "array_value old (CHR ''['' # join '','' (map json_string vs) @ CHR '']'' # t) = Some (vs, t)"
proof -
  obtain r where r: "join '','' (map json_string vs) @ CHR '']'' # t = quote # r"
    using assms(2) by (cases vs; cases "tl vs") (auto simp: json_string_Cons)
  have "quote \<noteq> CHR '']''" by (simp add: quote_def)
  then show ?thesis
    using elements_join [OF assms, of old "[]" t] unfolding r array_value_def by simp
qed

lemma unquote_key: "c \<in> {CHR ''d'', CHR ''b'', CHR ''x'', CHR ''v''} \<Longrightarrow> unquote (c # quote # t) = Some ([c], t)"
proof -
  assume c: "c \<in> {CHR ''d'', CHR ''b'', CHR ''x'', CHR ''v''}"
  then have "is_ascii c" "escape_char c = [c]"
    by (auto simp: char_class_defs escape_char_def quote_def backslash_def)
  moreover have "unquote (quote # t) = Some ([], t)" by (subst unquote.simps) simp
  ultimately show ?thesis using unquote_escape_char [of c "quote # t"] by simp
qed

lemma member_key:
  assumes "c \<in> {CHR ''d'', CHR ''b'', CHR ''x'', CHR ''v''}" and "skip_ws t = t"
  shows "member p (quote # c # quote # CHR '':'' # t) = member_value [c] p t"
  using unquote_key [OF assms(1)] assms(2) by (simp add: member_def string_value_def)

lemma field_is_key [simp]:
  "field_is f [c] \<longleftrightarrow> f = c" if "c \<in> {CHR ''d'', CHR ''b'', CHR ''x'', CHR ''v''}"
  using that by (auto simp: field_is_def lower_char_def is_upper_def code_def)

lemma show_int_head: "\<exists>c cs. show_int i = c # cs \<and> (is_digit c \<or> c = CHR ''-'')"
proof (cases "i < 0")
  case False
  then show ?thesis
    using show_nat_digits [of "nat i"] by (cases "show_nat (nat i)") (auto simp: show_int_def)
qed (simp add: show_int_def)

lemma skip_show_int [simp]: "skip_ws (show_int i @ t) = show_int i @ t"
  and null_show_int [simp]: "null_value (show_int i @ t) = None"
proof -
  obtain c cs where c: "show_int i = c # cs" "is_digit c \<or> c = CHR ''-''" using show_int_head by blast
  then show "skip_ws (show_int i @ t) = show_int i @ t" "null_value (show_int i @ t) = None"
    by (auto simp: is_json_space_def char_class_defs null_value_def cut_prefix_def has_prefix_def)
qed

lemma quote_chr: "CHR 0x22 = quote"
  by (simp add: quote_def)

definition payload_ok :: "payload \<Rightarrow> bool" where
  "payload_ok p \<longleftrightarrow>
     valid_string (pl_Direction p) \<and> valid_string (pl_Binding p) \<and>
     - (2 ^ 63) \<le> pl_ExpiresAt p \<and> pl_ExpiresAt p < 2 ^ 63 \<and>
     pl_Values p \<noteq> [] \<and> list_all valid_string (pl_Values p)"

lemma decode_marshal:
  assumes "payload_ok p"
  shows "decode_payload (marshal p) = Some p"
proof -
  let ?v = "CHR ''['' # join '','' (map json_string (pl_Values p)) @ [CHR '']'', CHR ''}'']"
  let ?x = "show_int (pl_ExpiresAt p) @ CHR '','' # quote # CHR ''v'' # quote # CHR '':'' # ?v"
  let ?b = "json_string (pl_Binding p) @ CHR '','' # quote # CHR ''x'' # quote # CHR '':'' # ?x"
  let ?d = "json_string (pl_Direction p) @ CHR '','' # quote # CHR ''b'' # quote # CHR '':'' # ?b"
  have m: "marshal p = CHR ''{'' # quote # CHR ''d'' # quote # CHR '':'' # ?d"
    by (simp add: marshal_def quote_def)
  have arr: "array_value old ?v = Some (pl_Values p, ''}'')" for old
    using array_join [of "pl_Values p" old "''}''"] assms by (simp add: payload_ok_def)
  have nullv: "null_value ?v = None" by (simp add: null_value_def cut_prefix_def has_prefix_def)
  have num: "integer ?x = Some (pl_ExpiresAt p, CHR '','' # quote # CHR ''v'' # quote # CHR '':'' # ?v)"
    using assms by (intro integer_show_int) (simp_all add: payload_ok_def char_class_defs)
  have str: "string_value (json_string s @ t) = Some (s, t)" if "s \<in> {pl_Direction p, pl_Binding p}" for s t
    using that assms by (auto simp: payload_ok_def intro: string_value_json)
  have v: "members q (quote # CHR ''v'' # quote # CHR '':'' # ?v) = Some (q\<lparr>pl_Values := pl_Values p\<rparr>, [])" for q
    by (subst members.simps) (simp add: member_key member_value_def nullv arr)
  have x: "members q (quote # CHR ''x'' # quote # CHR '':'' # ?x) =
      Some (q\<lparr>pl_ExpiresAt := pl_ExpiresAt p, pl_Values := pl_Values p\<rparr>, [])" for q
    by (subst members.simps) (simp add: member_key member_value_def num v)
  have b: "members q (quote # CHR ''b'' # quote # CHR '':'' # ?b) =
      Some (q\<lparr>pl_Binding := pl_Binding p, pl_ExpiresAt := pl_ExpiresAt p, pl_Values := pl_Values p\<rparr>, [])" for q
    by (subst members.simps) (simp add: member_key member_value_def str x)
  have "members zero_payload (quote # CHR ''d'' # quote # CHR '':'' # ?d) = Some (p, [])"
    by (subst members.simps) (simp add: member_key member_value_def str b zero_payload_def)
  moreover have "quote \<noteq> CHR ''}''" by (simp add: quote_def)
  ultimately show ?thesis
    by (simp add: decode_payload_def first_value_def m skip_ws_def)
qed

section \<open>Rings\<close>

lemma retired_check_distinct:
  "retired_check seen ks = None \<Longrightarrow> distinct (map key_id ks) \<and> key_id ` set ks \<inter> seen = {}"
  by (induction seen ks rule: retired_check.induct) (auto split: if_splits)

lemma ring_finds:
  assumes "NewKeyRing act ret = Inr r" and "k \<in> set (act # ret)"
  shows "find r (key_id k) = Some k"
proof -
  have r: "r = \<lparr>active = act, retired = ret\<rparr>" and "retired_check {key_id act} ret = None"
    using assms(1) by (auto simp: NewKeyRing_def split: if_splits option.splits)
  then have d: "distinct (map key_id (act # ret))" using retired_check_distinct by force
  have "List.find (\<lambda>q. key_id k = key_id q) (act # ret) = Some k"
    using find_by_key [OF d assms(2)] by (simp add: eq_commute)
  then show ?thesis by (auto simp: find_def r split: if_splits)
qed

section \<open>Tokens\<close>

lemma key_id_no_dot: "validKeyID i \<Longrightarrow> CHR ''.'' \<notin> set i"
  by (auto simp: validKeyID_def list_all_iff key_id_char_def char_class_defs)

lemma enc64_no_dot: "CHR ''.'' \<notin> set (enc64 RawURLEncoding bs)"
  using set_enc64 [of RawURLEncoding bs] by (auto simp: url_alphabet_def)

lemma NewBinding_facts [simp]:
  "\<not> Binding_IsZero (NewBinding r f)" "valid_string (fingerprint (NewBinding r f))"
  by (auto simp: NewBinding_def Binding_IsZero_def valid_ascii hex_encode_ascii simp flip: length_0_conv)

lemma Direction_Valid_string: "Direction_Valid d \<Longrightarrow> valid_string d"
  by (rule valid_ascii) (auto simp: Direction_Valid_def Forward_def Backward_def is_ascii_def code_def)

lemma checkValues_None:
  "checkValues vs = None \<longleftrightarrow> vs \<noteq> [] \<and> length vs \<le> MaxCursorValues \<and>
     list_all (\<lambda>v. length v \<le> MaxCursorValueBytes \<and> valid_string v) vs"
  by (auto simp: checkValues_def)

text \<open>The instants a Go \<open>time.Time\<close> of year 1 or later can hold.\<close>

definition representable :: "time \<Rightarrow> bool" where
  "representable t \<longleftrightarrow> 0 \<le> t \<and> t < 2 ^ 63 * 1000000000"

lemma zdiv_less:
  assumes "a < b * c" and "0 < c"
  shows "a div c < (b :: int)"
proof (rule ccontr)
  assume "\<not> a div c < b"
  then have "b * c \<le> a div c * c" using assms(2) by (simp add: mult_right_mono)
  also have "\<dots> \<le> a" using div_mult_mod_eq [of a c] pos_mod_sign [OF assms(2), of a] by linarith
  finally show False using assms(1) by simp
qed

lemma unix_round:
  assumes "representable t"
  shows "wrap64 (time_unix t) = time_unix t" and "time_Unix (time_unix t) = t div 1000000000 * 1000000000"
    and "- (2 ^ 63) \<le> time_unix t" and "time_unix t < 2 ^ 63"
proof -
  have "0 \<le> t div 1000000000" "t div 1000000000 < 2 ^ 63"
    using assms by (auto simp: representable_def pos_imp_zdiv_nonneg_iff intro: zdiv_less)
  then show "wrap64 (time_unix t) = time_unix t" "time_Unix (time_unix t) = t div 1000000000 * 1000000000"
    "- (2 ^ 63) \<le> time_unix t" "time_unix t < 2 ^ 63"
    by (simp_all add: time_unix_def time_Unix_def wrap64_id unix_offset_def)
qed

lemma claims_marshal:
  assumes "payload_ok p" and "Direction_Valid (pl_Direction p)" and "checkValues (pl_Values p) = None"
    and "now < time_Unix (pl_ExpiresAt p)" and "pl_Binding p = fingerprint b"
  shows "claims now b (bytes_of_string (marshal p)) =
     Inr \<lparr>cu_Direction = pl_Direction p, cu_Values = pl_Values p, cu_ExpiresAt = time_Unix (pl_ExpiresAt p)\<rparr>"
  using assms by (simp add: claims_def decode_marshal ParseDirection_def Let_def)

section \<open>Properties\<close>

definition token_of :: "key \<Rightarrow> payload \<Rightarrow> string" where
  "token_of k p =
     (let bdy = bytes_of_string (marshal p)
      in join ''.'' [TokenVersion, key_id k, enc64 RawURLEncoding bdy,
           enc64 RawURLEncoding (sign k TokenVersion (key_id k) bdy)])"

lemma Decode_token_of:
  assumes "\<not> Binding_IsZero b" and "validKeyID (key_id k)" and "find (ring c) (key_id k) = Some k"
    and "length (token_of k p) \<le> MaxTokenBytes"
  shows "Decode c now b (token_of k p) = claims now b (bytes_of_string (marshal p))"
proof -
  let ?bdy = "bytes_of_string (marshal p)"
  let ?parts = "[TokenVersion, key_id k, enc64 RawURLEncoding ?bdy,
      enc64 RawURLEncoding (sign k TokenVersion (key_id k) ?bdy)]"
  have "CHR ''.'' \<notin> set TokenVersion" by (simp add: TokenVersion_def)
  then have split: "split_on CHR ''.'' (token_of k p) = ?parts"
    unfolding token_of_def Let_def using enc64_no_dot key_id_no_dot [OF assms(2)]
    by (intro split_on_join) auto
  have ne: "token_of k p \<noteq> []" by (simp add: token_of_def TokenVersion_def Let_def)
  show ?thesis
    using assms ne unfolding Decode_def split by simp
qed

lemma decode_issued:
  assumes key: "NewKey i secret = Inr k" "NewKeyRing k ret = Inr (ring c)"
    and rotated: "NewKeyRing act' ret' = Inr (ring c')" "k \<in> set (act' # ret')"
    and enc: "Encode c now (NewBinding resource filters) dir values = Inr token"
    and t: "t = time_add now (ttl c)" "representable t" and fresh: "now' < t div 1000000000 * 1000000000"
  shows "Decode c' now' (NewBinding resource filters) token =
     Inr \<lparr>cu_Direction = dir, cu_Values = values, cu_ExpiresAt = t div 1000000000 * 1000000000\<rparr>"
proof -
  let ?p = "\<lparr>pl_Direction = dir, pl_Binding = fingerprint (NewBinding resource filters),
      pl_ExpiresAt = time_unix t, pl_Values = values\<rparr>"
  have k: "active (ring c) = k" "validKeyID (key_id k)"
    using key by (auto simp: NewKey_def NewKeyRing_def split: if_splits option.splits dest: sym)
  have e: "Direction_Valid dir" "checkValues values = None" "token = token_of k ?p" "length token \<le> MaxTokenBytes"
    using enc unix_round(1) [OF t(2)]
    by (auto simp: Encode_def token_of_def Let_def k t(1) split: if_splits option.splits)
  have ok: "payload_ok ?p"
    using e(1,2) unix_round [OF t(2)] Direction_Valid_string
    by (auto simp: payload_ok_def checkValues_None list_all_iff)
  have "Decode c' now' (NewBinding resource filters) token =
      claims now' (NewBinding resource filters) (bytes_of_string (marshal ?p))"
    using Decode_token_of [OF NewBinding_facts(1) k(2) ring_finds [OF rotated]] e(3,4) by simp
  also have "\<dots> = Inr \<lparr>cu_Direction = dir, cu_Values = values, cu_ExpiresAt = t div 1000000000 * 1000000000\<rparr>"
    using claims_marshal [OF ok, of now' "NewBinding resource filters"] e(1,2) fresh unix_round(2) [OF t(2)] by simp
  finally show ?thesis .
qed

text \<open>
  C4: A cursor issued for a query reads back, until the second it expires, as the direction and sort key
  it was issued with, under every ring that still holds its key: the ring that issued it, and any ring
  it has since been rotated into, as its active or as a retired key.
\<close>

theorem Decode_Encode:
  assumes key: "NewKey i secret = Inr k" "NewKeyRing k ret = Inr (ring c)"
    and rotated: "NewKeyRing act' ret' = Inr (ring c')" "k \<in> set (act' # ret')"
    and enc: "Encode c now (NewBinding resource filters) dir values = Inr token"
    and t: "t = time_add now (ttl c)" "representable t" and fresh: "now' < t div 1000000000 * 1000000000"
  shows "Decode c' now' (NewBinding resource filters) token =
     Inr \<lparr>cu_Direction = dir, cu_Values = values, cu_ExpiresAt = t div 1000000000 * 1000000000\<rparr>"
  using decode_issued [OF key rotated enc t fresh] .


text \<open>
  A concrete codec for the witnesses: one key, rotated into a ring where it is retired.
\<close>

definition sample_key :: key where
  "sample_key = \<lparr>key_id = ''k1'', key_secret = replicate 32 7\<rparr>"

definition newer_key :: key where
  "newer_key = \<lparr>key_id = ''k2'', key_secret = replicate 32 9\<rparr>"

definition sample_codec :: codec where
  "sample_codec = \<lparr>ring = \<lparr>active = sample_key, retired = []\<rparr>, ttl = 60000000000\<rparr>"

definition rotated_codec :: codec where
  "rotated_codec = \<lparr>ring = \<lparr>active = newer_key, retired = [sample_key]\<rparr>, ttl = 60000000000\<rparr>"

lemma sample_rings:
  "NewKey ''k1'' (replicate 32 7) = Inr sample_key"
  "NewKeyRing sample_key [] = Inr (ring sample_codec)"
  "NewKeyRing newer_key [sample_key] = Inr (ring rotated_codec)"
  by (simp_all add: NewKey_def validKeyID_def MaxKeyIDBytes_def MinKeyBytes_def key_id_char_def char_class_defs
      sample_key_def newer_key_def NewKeyRing_def MaxRetiredKeys_def sample_codec_def rotated_codec_def)

lemma length_enc64_le: "length (enc64 RawURLEncoding bs) \<le> 2 * length bs"
proof -
  have "(r * 8 + 5) div 6 \<le> 2 * r" if "r < 3" for r :: nat
    using that by (auto simp: less_Suc_eq numeral_3_eq_3)
  from this [of "length bs mod 3"] show ?thesis
    using div_mult_mod_eq [of "length bs" 3] length_enc64_raw [OF raw_not_padded(1), of bs]
    unfolding encoded_len_def by linarith
qed

lemma length_sign [simp]: "length (sign k v i bdy) = 32"
  using hmac256.tag_width by (simp add: sign_def)

lemma length_json_plain:
  "list_all (\<lambda>c. escape_char c = [c] \<and> is_ascii c) s \<Longrightarrow> length (json_string s) = length s + 2"
proof -
  assume "list_all (\<lambda>c. escape_char c = [c] \<and> is_ascii c) s"
  then have "length (escape_string s) = length s"
    by (induction s) (simp_all add: escape_string.simps)
  then show ?thesis by (simp add: json_string_def)
qed

lemma hex_encode_plain: "list_all (\<lambda>c. escape_char c = [c] \<and> is_ascii c) (hex_encode bs)"
proof -
  have "list_all (\<lambda>n. escape_char (hex_digit n) = [hex_digit n]) [0..<16]" by code_simp
  then have "escape_char (hex_digit n) = [hex_digit n]" if "n < 16" for n
    using that by (auto simp: list_all_iff)
  moreover have "unat b div 16 < 16" for b :: byte
    using byte_bound [of b] by (simp add: less_mult_imp_div_less)
  ultimately show ?thesis
    using hex_encode_ascii [of bs] by (auto simp: hex_encode_def list_all_iff)
qed

definition sample_now :: time where "sample_now = 62135596800000000000"

definition sample_binding :: binding where "sample_binding = NewBinding ''rows'' [(''q'', [''x''])]"

lemma sample_Encode:
  "Encode sample_codec sample_now sample_binding Forward [''a''] = Inr (token_of sample_key
     \<lparr>pl_Direction = Forward, pl_Binding = fingerprint sample_binding, pl_ExpiresAt = 60, pl_Values = [''a'']\<rparr>)"
proof -
  let ?p = "\<lparr>pl_Direction = Forward, pl_Binding = fingerprint sample_binding, pl_ExpiresAt = 60, pl_Values = [''a'']\<rparr>"
  have fp: "length (json_string (fingerprint sample_binding)) = 66"
    using length_json_plain [OF hex_encode_plain] by (simp add: sample_binding_def NewBinding_def)
  have lit: "length (json_string Forward) = 9" "length (json_string ''a'') = 3" "length (show_int 60) = 2"
    by code_simp+
  have "length (marshal ?p) \<le> 200" by (simp add: marshal_def fp lit)
  then have "length (token_of sample_key ?p) \<le> MaxTokenBytes"
    using length_enc64_le [of "bytes_of_string (marshal ?p)"]
      length_enc64_le [of "sign sample_key TokenVersion (key_id sample_key) (bytes_of_string (marshal ?p))"]
    by (simp add: token_of_def Let_def TokenVersion_def sample_key_def MaxTokenBytes_def)
  moreover have "wrap64 (time_unix (time_add sample_now (ttl sample_codec))) = 60" by code_simp
  moreover have "checkValues [''a''] = None" by code_simp
  ultimately show ?thesis
    by (simp add: Encode_def token_of_def Let_def sample_binding_def Direction_Valid_def sample_codec_def)
qed

theorem Decode_Encode_witness:
  "\<exists>token. Encode sample_codec sample_now sample_binding Forward [''a''] = Inr token \<and>
     Decode rotated_codec (sample_now + 30000000000) sample_binding token =
       Inr \<lparr>cu_Direction = Forward, cu_Values = [''a''], cu_ExpiresAt = sample_now + 60000000000\<rparr>"
proof -
  have t: "time_add sample_now (ttl sample_codec) = sample_now + 60000000000" by code_simp
  have "representable (sample_now + 60000000000)" by (simp add: representable_def sample_now_def)
  from Decode_Encode [OF sample_rings(1,2,3) _ sample_Encode [unfolded sample_binding_def] t [symmetric] this,
      of "sample_now + 30000000000"]
  show ?thesis
    using sample_Encode unfolding sample_binding_def by (simp add: sample_now_def)
qed

section \<open>Fingerprints and requests\<close>

lemma signing_input_inject:
  assumes "short v" "short i" "short bdy" "short v'" "short i'" "short bdy'"
  shows "signing_input v i bdy = signing_input v' i' bdy' \<longleftrightarrow> v = v' \<and> i = i' \<and> bdy = bdy'"
  using assms byte_frame.frame_iff byte_frame.frame_inject
  by (simp add: signing_input_def short_def)

definition entries :: "(string \<times> string list) list \<Rightarrow> (string \<times> string list) list" where
  "entries f = map (\<lambda>k. (k, the (map_of f k))) (sort (map fst f))"

lemma entries_mem: "distinct (map fst f) \<Longrightarrow> set (entries f) = set f"
  by (force simp: entries_def)

lemma map_of_entries: "distinct (map fst f) \<Longrightarrow> map_of (entries f) = map_of f"
  using entries_mem [of f] by (intro map_of_inject_set [THEN iffD2]) (simp_all add: entries_def comp_def)

lemma entries_eq:
  assumes "distinct (map fst f)" "distinct (map fst g)"
  shows "entries f = entries g \<longleftrightarrow> map_of f = map_of g"
proof
  assume "entries f = entries g"
  then show "map_of f = map_of g" using map_of_entries assms by metis
next
  assume m: "map_of f = map_of g"
  then have "set (map fst f) = set (map fst g)" by (metis dom_map_of_conv_image_fst set_map)
  then have "sort (map fst f) = sort (map fst g)"
    using assms by (intro sorted_distinct_set_unique) simp_all
  then show "entries f = entries g" by (simp add: entries_def m)
qed

definition short_query :: "string \<Rightarrow> (string \<times> string list) list \<Rightarrow> bool" where
  "short_query r f \<longleftrightarrow> short r \<and> short f \<and> list_all short_entry f"

text \<open>
  The bytes a query's fingerprint hashes determine the query and nothing else about the request: they
  agree exactly when the resource and every filter with its values in order agree, whatever order the
  filters were listed in.
\<close>

theorem binding_input_exact:
  assumes "distinct (map fst f)" "distinct (map fst g)" "short_query r f" "short_query q g"
  shows "binding_input r f = binding_input q g \<longleftrightarrow> r = q \<and> map_of f = map_of g"
proof -
  have sh: "short (entries h)" "list_all short_entry (entries h)" if "short_query s h" "distinct (map fst h)" for s h
    using that entries_mem [of h] by (auto simp: short_query_def short_def entries_def list_all_iff)
  have "binding_input r f = binding_input q g \<longleftrightarrow> r = q \<and> counted entry_frame (entries f) = counted entry_frame (entries g)"
    using assms(3,4) text_frame.frame_iff by (simp add: binding_input_def entries_def short_query_def)
  also have "counted entry_frame (entries f) = counted entry_frame (entries g) \<longleftrightarrow> entries f = entries g"
    using parameter_frame.split_counted [OF sh [OF assms(3,1)] sh [OF assms(4,2)], of "[]" "[]"] by auto
  finally show ?thesis using entries_eq [OF assms(1,2)] by simp
qed

theorem binding_input_exact_witness:
  "binding_input ''rows'' [(''b'', [''1'']), (''a'', [])] = binding_input ''rows'' [(''a'', []), (''b'', [''1''])] \<and>
   binding_input ''rows'' [(''b'', [''1'', ''2''])] \<noteq> binding_input ''rows'' [(''b'', [''2'', ''1''])]"
  using binding_input_exact [of "[(''b'', [''1'']), (''a'', [])]" "[(''a'', []), (''b'', [''1''])]" "''rows''" "''rows''"]
    binding_input_exact [of "[(''b'', [''1'', ''2''])]" "[(''b'', [''2'', ''1''])]" "''rows''" "''rows''"]
  by (auto simp: short_query_def short_def short_entry_def fun_eq_iff)

text \<open>
  A parsed page request asks for between one row and the collection's maximum (never above 200); it
  carries a cursor exactly when the request carried one, and that cursor verified for this query, has
  not expired and was issued for the direction it is used in.
\<close>

theorem ParsePage_sound:
  assumes lim: "NewLimits d m = Inr lim" and page: "ParsePage c now b query lim = Inr pg"
  shows "1 \<le> pr_Limit pg \<and> pr_Limit pg \<le> m \<and> m \<le> 200 \<and>
     (case pr_Cursor pg of
        None \<Rightarrow> single query AfterParam = Inr ([], False) \<and> single query BeforeParam = Inr ([], False) \<and>
                pr_Direction pg = Forward
      | Some cur \<Rightarrow>
          (\<exists>token. single query (if pr_Direction pg = Backward then BeforeParam else AfterParam) = Inr (token, True) \<and>
             Decode c now b token = Inr cur) \<and>
          cu_Direction cur = pr_Direction pg \<and> now < cu_ExpiresAt cur)"
proof -
  have l: "1 \<le> d" "d \<le> m" "m \<le> 200" "lim = \<lparr>defaultSize = d, maxSize = m\<rparr>"
    using lim by (auto simp: NewLimits_def MaxPageLimit_def split: if_splits)
  have absent: "single query n = Inr (v, False) \<Longrightarrow> v = []" for n v
    by (auto simp: single_def split: option.splits list.splits if_splits)
  have limit: "parseLimit query lim = Inr k \<Longrightarrow> 1 \<le> k \<and> k \<le> m" for k
    using l by (auto simp: parseLimit_def split: sum.splits option.splits if_splits)
  have exp: "Decode c now b token = Inr cur \<Longrightarrow> now < cu_ExpiresAt cur" for token cur
    by (auto simp: Decode_def claims_def Let_def split: if_splits option.splits list.splits sum.splits)
  have "Forward \<noteq> Backward" by (simp add: Forward_def Backward_def)
  then show ?thesis
    using page l(3) limit absent exp
    by (auto simp: ParsePage_def Let_def split: if_splits sum.splits)
qed

lemma sample_Decode:
  "Encode sample_codec sample_now sample_binding Forward [''a''] = Inr token \<Longrightarrow>
     Decode sample_codec sample_now sample_binding token =
       Inr \<lparr>cu_Direction = Forward, cu_Values = [''a''], cu_ExpiresAt = sample_now + 60000000000\<rparr>"
proof -
  assume e: "Encode sample_codec sample_now sample_binding Forward [''a''] = Inr token"
  have t: "time_add sample_now (ttl sample_codec) = sample_now + 60000000000" by code_simp
  have "representable (sample_now + 60000000000)" by (simp add: representable_def sample_now_def)
  from decode_issued [OF sample_rings(1,2,2) _ e [unfolded sample_binding_def] t [symmetric] this, of sample_now]
  show ?thesis unfolding sample_binding_def by (simp add: sample_now_def)
qed

theorem ParsePage_sound_witness:
  "\<exists>token pg. ParsePage sample_codec sample_now sample_binding
     [AfterParam \<mapsto> [token], LimitParam \<mapsto> [''25'']] \<lparr>defaultSize = 20, maxSize = 100\<rparr> = Inr pg \<and>
     pr_Limit pg \<le> 100 \<and> pr_Cursor pg \<noteq> None"
proof -
  obtain token where e: "Encode sample_codec sample_now sample_binding Forward [''a''] = Inr token"
    using sample_Encode by blast
  have lim: "NewLimits 20 100 = Inr \<lparr>defaultSize = 20, maxSize = 100\<rparr>" by (simp add: NewLimits_def MaxPageLimit_def)
  let ?q = "[AfterParam \<mapsto> [token], LimitParam \<mapsto> [''25'']]"
  have "token \<noteq> []" using sample_Decode [OF e] by (auto simp: Decode_def split: if_splits)
  then have params: "single ?q AfterParam = Inr (token, True)" "single ?q BeforeParam = Inr ([], False)"
    "parseLimit ?q \<lparr>defaultSize = 20, maxSize = 100\<rparr> = Inr 25"
    by (simp_all add: single_def parseLimit_def decimalValue_def AfterParam_def BeforeParam_def LimitParam_def
        atoi_def digits_val_def digit_val_def char_class_defs)
  obtain pg where pg: "ParsePage sample_codec sample_now sample_binding ?q \<lparr>defaultSize = 20, maxSize = 100\<rparr> = Inr pg"
    "pr_Cursor pg \<noteq> None"
    using params sample_Decode [OF e] by (auto simp: ParsePage_def sample_binding_def Let_def)
  show ?thesis
    using ParsePage_sound [OF lim pg(1)] pg by (intro exI [of _ token] exI [of _ pg]) (auto split: option.splits)
qed

end
