(* ===== verification/Base32.thy ===== *)
theory Base32
  imports Encodings
begin

text \<open>
  Go's \<open>encoding/base32\<close> without padding, as positional notation: five bytes and eight characters are
  the same forty-bit number in base 256 and base 32.  A final group is padded with zeros to its right; a
  final group of one, three or six characters carries no whole byte and yields none, as in Go's decoder.
\<close>

section \<open>Positional notation\<close>

definition of_digits :: "nat \<Rightarrow> nat list \<Rightarrow> nat" where
  "of_digits b ds = foldl (\<lambda>n d. n * b + d) 0 ds"

primrec digits_of :: "nat \<Rightarrow> nat \<Rightarrow> nat \<Rightarrow> nat list" where
  "digits_of b 0 n = []"
| "digits_of b (Suc k) n = digits_of b k (n div b) @ [n mod b]"

lemma length_digits_of [simp]: "length (digits_of b k n) = k"
  by (induction k arbitrary: n) simp_all

lemma digits_of_less: "0 < b \<Longrightarrow> d \<in> set (digits_of b k n) \<Longrightarrow> d < b"
  by (induction k arbitrary: n) auto

lemma of_digits_snoc [simp]: "of_digits b (ds @ [d]) = of_digits b ds * b + d"
  by (simp add: of_digits_def)

lemma of_digits_Nil [simp]: "of_digits b [] = 0"
  by (simp add: of_digits_def)

lemma of_digits_digits_of: "of_digits b (digits_of b k n) = n mod b ^ k"
  by (induction k arbitrary: n) (simp_all add: mod_mult2_eq mult.commute)

lemma digits_of_of_digits: "list_all (\<lambda>d. d < b) ds \<Longrightarrow> digits_of b (length ds) (of_digits b ds) = ds"
  by (induction ds rule: rev_induct) simp_all

lemma of_digits_less: "list_all (\<lambda>d. d < b) ds \<Longrightarrow> of_digits b ds < b ^ length ds"
proof (induction ds rule: rev_induct)
  case (snoc d ds)
  then have "of_digits b ds + 1 \<le> b ^ length ds" "d < b" by auto
  then have "(of_digits b ds + 1) * b \<le> b ^ length ds * b" by (intro mult_le_mono1)
  with \<open>d < b\<close> show ?case by (simp add: mult.commute)
qed simp

lemma take_digits_of: "take c (digits_of b (c + j) n) = digits_of b c (n div b ^ j)"
  by (induction j arbitrary: n) (simp_all add: div_mult2_eq)

section \<open>The encoding\<close>

definition base32_alphabet :: string where
  "base32_alphabet = ''ABCDEFGHIJKLMNOPQRSTUVWXYZ234567''"

definition group_chars :: "nat \<Rightarrow> nat" where
  "group_chars m = (m * 8 + 4) div 5"

definition group_bytes :: "nat \<Rightarrow> nat" where
  "group_bytes c = (if c = 8 then 5 else if c = 7 then 4 else if c = 5 then 3 else if c = 4 then 2
     else if c = 2 then 1 else 0)"

definition enc_group :: "bytes \<Rightarrow> string" where
  "enc_group bs =
     map ((!) base32_alphabet)
       (take (group_chars (length bs))
         (digits_of 32 8 (of_digits 256 (map unat bs) * 256 ^ (5 - length bs))))"

definition dec_group :: "nat list \<Rightarrow> bytes" where
  "dec_group ds =
     map word_of_nat
       (take (group_bytes (length ds)) (digits_of 256 5 (of_digits 32 ds * 32 ^ (8 - length ds))))"

function enc32 :: "bytes \<Rightarrow> string" where
  "enc32 bs = (if bs = [] then [] else enc_group (take 5 bs) @ enc32 (drop 5 bs))"
  by pat_completeness auto
termination
  by (relation "measure length") auto

function dec32 :: "string \<Rightarrow> bytes option" where
  "dec32 s =
     (if s = [] then Some []
      else case those (map (value_of base32_alphabet) (take 8 s)) of
        None \<Rightarrow> None
      | Some ds \<Rightarrow> map_option ((@) (dec_group ds)) (dec32 (drop 8 s)))"
  by pat_completeness auto
termination
  by (relation "measure length") auto

declare enc32.simps [simp del] dec32.simps [simp del]

text \<open>\<open>DecodeString\<close> first removes line breaks.\<close>

definition decode32 :: "string \<Rightarrow> bytes option" where
  "decode32 s = dec32 (filter (\<lambda>c. c \<noteq> CHR 0x0A \<and> c \<noteq> CHR 0x0D) s)"

section \<open>The round trip\<close>

lemma group_cases: "0 < m \<Longrightarrow> m \<le> 5 \<Longrightarrow> m \<in> {1, 2, 3, 4, 5 :: nat}"
  by auto

lemma group_counts:
  assumes "0 < m" "m \<le> (5 :: nat)"
  shows "group_bytes (group_chars m) = m" "group_chars m \<le> 8" "(32 :: nat) ^ (8 - group_chars m) dvd 256 ^ (5 - m)"
    "0 < group_chars m"
  using group_cases [OF assms] by (auto simp: group_bytes_def group_chars_def)

lemma length_base32: "length base32_alphabet = 32"
  by (simp add: base32_alphabet_def)

lemma value_of_alphabet: "d < 32 \<Longrightarrow> value_of base32_alphabet (base32_alphabet ! d) = Some d"
  by (rule value_of_nth) (simp_all add: base32_alphabet_def)

lemma values_of_digits:
  "list_all (\<lambda>d. d < 32) ds \<Longrightarrow> those (map (value_of base32_alphabet) (map ((!) base32_alphabet) ds)) = Some ds"
  by (induction ds) (simp_all add: value_of_alphabet)

definition group_digits :: "bytes \<Rightarrow> nat list" where
  "group_digits bs = take (group_chars (length bs))
     (digits_of 32 8 (of_digits 256 (map unat bs) * 256 ^ (5 - length bs)))"

lemma dec_group_digits:
  assumes "0 < length bs" "length bs \<le> 5"
  shows "dec_group (group_digits bs) = bs"
proof -
  define m where "m = length bs"
  define c where "c = group_chars m"
  define N where "N = of_digits 256 (map unat bs) * 256 ^ (5 - m)"
  have m: "0 < m" "m \<le> 5" using assms by (simp_all add: m_def)
  note counts = group_counts [OF m, folded c_def]
  have small: "list_all (\<lambda>d. d < 256) (map unat bs)" by (simp add: list_all_iff)
  have "of_digits 256 (map unat bs) < 256 ^ m" using of_digits_less [OF small] by (simp add: m_def)
  then have "N < 256 ^ m * 256 ^ (5 - m)" by (simp add: N_def)
  then have N: "N < 32 ^ 8" using m by (simp flip: power_add)
  have "group_digits bs = take c (digits_of 32 (c + (8 - c)) N)"
    using counts(2) by (simp add: group_digits_def c_def N_def m_def)
  then have ds: "group_digits bs = digits_of 32 c (N div 32 ^ (8 - c))"
    by (simp only: take_digits_of)
  have "N div 32 ^ (8 - c) < 32 ^ c"
    using N counts(2) by (intro less_mult_imp_div_less) (simp flip: power_add)
  then have "of_digits 32 (group_digits bs) * 32 ^ (8 - c) = N"
    using counts(3) by (simp add: ds of_digits_digits_of N_def dvd_mult)
  then have "dec_group (group_digits bs) = map word_of_nat (take m (digits_of 256 (m + (5 - m)) N))"
    using counts(1) m by (simp add: dec_group_def ds)
  also have "\<dots> = map word_of_nat (digits_of 256 m (of_digits 256 (map unat bs)))"
    by (simp only: take_digits_of) (simp add: N_def)
  also have "\<dots> = bs"
    using digits_of_of_digits [OF small] by (simp add: m_def comp_def byte_of_unat)
  finally show ?thesis .
qed

lemma enc_group_digits: "enc_group bs = map ((!) base32_alphabet) (group_digits bs)"
  by (simp add: enc_group_def group_digits_def)

lemma group_digits_less: "list_all (\<lambda>d. d < 32) (group_digits bs)"
  using digits_of_less [of 32] by (auto simp: group_digits_def list_all_iff dest!: in_set_takeD)

lemma length_enc_group: "length bs \<le> 5 \<Longrightarrow> length (enc_group bs) = group_chars (length bs)"
  using group_counts(2) [of "length bs"] by (cases "bs = []") (auto simp: enc_group_def group_chars_def)

lemma dec32_enc32: "dec32 (enc32 bs) = Some bs"
proof (induction bs rule: enc32.induct)
  case (1 bs)
  show ?case
  proof (cases "bs = []")
    case False
    let ?g = "take 5 bs"
    have g: "0 < length ?g" "length ?g \<le> 5" using False by auto
    have len: "length (enc_group ?g) = group_chars (length ?g)" by (rule length_enc_group) simp
    have split: "take 8 (enc_group ?g @ enc32 (drop 5 bs)) = enc_group ?g \<and>
      drop 8 (enc_group ?g @ enc32 (drop 5 bs)) = enc32 (drop 5 bs)"
    proof (cases "length bs \<le> 5")
      case True
      then show ?thesis using len group_counts(2) [OF g] by (simp add: enc32.simps)
    next
      case False
      then have "length (enc_group ?g) = 8" using len by (simp add: group_chars_def)
      then show ?thesis by simp
    qed
    have ne: "enc_group ?g @ enc32 (drop 5 bs) \<noteq> []" using len group_counts(4) [OF g] by auto
    have vals: "those (map (value_of base32_alphabet) (enc_group ?g)) = Some (group_digits ?g)"
      using values_of_digits [OF group_digits_less, of ?g] by (simp only: enc_group_digits)
    have "dec32 (enc_group ?g @ enc32 (drop 5 bs)) = map_option ((@) (dec_group (group_digits ?g))) (dec32 (enc32 (drop 5 bs)))"
      unfolding dec32.simps [of "enc_group ?g @ enc32 (drop 5 bs)"] if_not_P [OF ne]
        split [THEN conjunct1] split [THEN conjunct2] vals option.case ..
    then show ?thesis
      using False 1 dec_group_digits [OF g] by (subst enc32.simps) simp
  qed (simp add: enc32.simps dec32.simps)
qed

lemma set_enc32: "set (enc32 bs) \<subseteq> set base32_alphabet"
proof (induction bs rule: enc32.induct)
  case (1 bs)
  have "set (enc_group xs) \<subseteq> set base32_alphabet" for xs
    using group_digits_less [of xs] length_base32 by (auto simp: enc_group_digits list_all_iff intro!: nth_mem)
  with 1 show ?case by (subst enc32.simps) auto
qed

lemma decode32_enc32: "decode32 (enc32 bs) = Some bs"
proof -
  have "filter (\<lambda>c. c \<noteq> CHR 0x0A \<and> c \<noteq> CHR 0x0D) (enc32 bs) = enc32 bs"
    using set_enc32 [of bs] by (auto simp: filter_id_conv base32_alphabet_def)
  then show ?thesis by (simp add: decode32_def dec32_enc32)
qed

interpretation base32: byte_codec enc32 decode32
  by unfold_locales (rule decode32_enc32)

end
