(* ===== verification/Totp.thy ===== *)
theory Totp
  imports Base32 Hashes
begin

text \<open>
  \<open>modules/totp\<close>: shared secrets, one-time codes and their verification (\<open>totp.go\<close>), and recovery codes
  (\<open>recovery.go\<close>).  HMAC-SHA-1 and base32 are modelled in \<open>Hashes\<close> and \<open>Base32\<close>; the random source is an
  argument, and so is the part of \<open>strings.ToUpper\<close> that concerns non-ASCII text.
\<close>

section \<open>Secrets\<close>

definition Period :: int where "Period = 30"
definition Digits :: nat where "Digits = 6"
definition SecretBytes :: nat where "SecretBytes = 20"
definition MaxSkewSteps :: int where "MaxSkewSteps = 2"
definition DefaultSkewSteps :: int where "DefaultSkewSteps = 1"

datatype totp_error = ErrSecret | ErrCode | ErrBeforeEpoch int | ErrRandom | ErrLabel | ErrRecoveryCode

record secret =
  secret_key :: bytes

definition SecretFromBytes :: "bytes \<Rightarrow> totp_error + secret" where
  "SecretFromBytes key = (if length key \<noteq> SecretBytes then Inl ErrSecret else Inr \<lparr>secret_key = key\<rparr>)"

definition NewSecret :: "rand_source \<Rightarrow> totp_error + secret" where
  "NewSecret rand = (case rand SecretBytes of None \<Rightarrow> Inl ErrRandom | Some key \<Rightarrow> Inr \<lparr>secret_key = key\<rparr>)"

definition ParseSecret :: "case_table \<Rightarrow> string \<Rightarrow> totp_error + secret" where
  "ParseSecret tbl encoded =
     (let cleaned = to_upper tbl (filter (\<lambda>c. c \<noteq> CHR '' '' \<and> c \<noteq> CHR ''-'' \<and> c \<noteq> CHR ''='') encoded)
      in if cleaned = [] then Inl ErrSecret
         else (case decode32 cleaned of None \<Rightarrow> Inl ErrSecret | Some key \<Rightarrow> SecretFromBytes key))"

definition Secret_IsZero :: "secret \<Rightarrow> bool" where
  "Secret_IsZero s \<longleftrightarrow> secret_key s = []"

definition Secret_Bytes :: "secret \<Rightarrow> bytes" where "Secret_Bytes s = secret_key s"

definition Secret_Base32 :: "secret \<Rightarrow> string" where
  "Secret_Base32 s = (if Secret_IsZero s then [] else enc32 (secret_key s))"

definition redacted :: string where "redacted = ''[REDACTED]''"
definition Secret_String :: "secret \<Rightarrow> string" where "Secret_String s = redacted"
definition Secret_GoString :: "secret \<Rightarrow> string" where "Secret_GoString s = redacted"
definition Secret_MarshalJSON :: "secret \<Rightarrow> string" where
  \<open>Secret_MarshalJSON s = ''"[REDACTED]"''\<close>
definition Secret_MarshalText :: "secret \<Rightarrow> string" where "Secret_MarshalText s = redacted"
definition Secret_LogValue :: "secret \<Rightarrow> string" where "Secret_LogValue s = redacted"

section \<open>Provisioning\<close>

text \<open>\<open>net/url\<close>'s escaping: unreserved characters stay, a path segment also keeps six reserved ones.\<close>

definition hex_upper :: "nat \<Rightarrow> char" where
  "hex_upper n = (if n < 10 then char_of (48 + n) else char_of (55 + n))"

definition percent :: "char \<Rightarrow> string" where
  "percent c = [CHR ''%'', hex_upper (code c div 16), hex_upper (code c mod 16)]"

definition unreserved :: "char \<Rightarrow> bool" where
  "unreserved c \<longleftrightarrow> is_lower c \<or> is_upper c \<or> is_digit c \<or> c \<in> set ''-_.~''"

definition PathEscape :: "string \<Rightarrow> string" where
  "PathEscape s = concat (map (\<lambda>c. if unreserved c \<or> c \<in> set ''$&+:=@'' then [c] else percent c) s)"

definition QueryEscape :: "string \<Rightarrow> string" where
  "QueryEscape s = concat (map (\<lambda>c. if unreserved c then [c] else if c = CHR '' '' then ''+'' else percent c) s)"

text \<open>\<open>url.Values.Encode\<close> writes the keys in order; the five keys are fixed, so their order is too.\<close>

definition ProvisioningURI :: "secret \<Rightarrow> string \<Rightarrow> string \<Rightarrow> totp_error + string" where
  "ProvisioningURI s issuer account =
     (if Secret_IsZero s then Inl ErrSecret
      else if issuer = [] \<or> account = [] then Inl ErrLabel
      else if list_ex (\<lambda>c. c \<in> {CHR '':'', CHR 0x0A, CHR 0x0D}) issuer \<or>
              list_ex (\<lambda>c. c \<in> {CHR '':'', CHR 0x0A, CHR 0x0D}) account then Inl ErrLabel
      else Inr (''otpauth://totp/'' @ PathEscape (issuer @ '':'' @ account) @ ''?'' @
             join ''&'' [''algorithm=SHA1'', ''digits='' @ show_nat Digits, ''issuer='' @ QueryEscape issuer,
               ''period='' @ show_int Period, ''secret='' @ QueryEscape (Secret_Base32 s)]))"

section \<open>Codes\<close>

text \<open>Go's integer division rounds towards zero.\<close>

definition Step :: "time \<Rightarrow> int" where
  "Step at = (let u = time_unix at in if 0 \<le> u then u div Period else - (- u div Period))"

definition StartOfStep :: "int \<Rightarrow> time" where
  "StartOfStep step = time_Unix (wrap64 (step * Period))"

primrec pow10 :: "nat \<Rightarrow> nat" where
  "pow10 0 = 1"
| "pow10 (Suc n) = pow10 n * 10"

definition zero_padded :: "nat \<Rightarrow> nat \<Rightarrow> string" where
  "zero_padded width n = replicate (width - length (show_nat n)) CHR ''0'' @ show_nat n"

text \<open>RFC 4226's dynamic truncation: a four-byte window chosen by the low nibble of the last byte.\<close>

definition truncate :: "bytes \<Rightarrow> nat" where
  "truncate h =
     (let offset = unat (last h) mod 16
      in unat (get_uint32 (take 4 (drop offset h))) mod 2 ^ 31)"

definition Code :: "secret \<Rightarrow> int \<Rightarrow> totp_error + string" where
  "Code s step =
     (if Secret_IsZero s then Inl ErrSecret
      else if step < 0 then Inl (ErrBeforeEpoch step)
      else Inr (zero_padded Digits
             (truncate (hmac_sha1 (secret_key s) (put_uint64 (word_of_int step))) mod pow10 Digits)))"

definition NormalizeCode :: "string \<Rightarrow> totp_error + string" where
  "NormalizeCode submitted =
     (let cleaned = filter (\<lambda>c. c \<noteq> CHR '' '') (trim_space submitted)
      in if length cleaned \<noteq> Digits then Inl ErrCode
         else if \<not> list_all is_digit cleaned then Inl ErrCode
         else Inr cleaned)"

text \<open>The loop over the candidate steps: the last match and whether there was one; \<open>None\<close> when a code fails.\<close>

fun verify_loop :: "secret \<Rightarrow> string \<Rightarrow> int list \<Rightarrow> int \<times> bool \<Rightarrow> (int \<times> bool) option" where
  "verify_loop s cleaned [] acc = Some acc"
| "verify_loop s cleaned (step # steps) (matchedStep, matched) =
     (case Code s step of
        Inl _ \<Rightarrow> None
      | Inr candidate \<Rightarrow>
          (let equal = constant_time_compare (bytes_of_string candidate) (bytes_of_string cleaned)
           in verify_loop s cleaned steps (if equal then step else matchedStep, matched \<or> equal)))"

definition Verify :: "secret \<Rightarrow> string \<Rightarrow> time \<Rightarrow> int \<Rightarrow> int \<times> bool" where
  "Verify s submitted at skewSteps =
     (if Secret_IsZero s \<or> skewSteps < 0 \<or> skewSteps > MaxSkewSteps then (0, False)
      else (case NormalizeCode submitted of
        Inl _ \<Rightarrow> (0, False)
      | Inr cleaned \<Rightarrow>
          (let current = Step at
           in (case verify_loop s cleaned (map (\<lambda>offset. current + offset) [- skewSteps..skewSteps]) (0, False) of
                 None \<Rightarrow> (0, False)
               | Some (matchedStep, matched) \<Rightarrow> if \<not> matched then (0, False) else (matchedStep, True)))))"

section \<open>Recovery codes\<close>

definition RecoveryCodeCount :: nat where "RecoveryCodeCount = 10"
definition RecoveryCodeCharacters :: nat where "RecoveryCodeCharacters = 10"
definition RecoveryCodeGroup :: nat where "RecoveryCodeGroup = 5"
definition recoveryAlphabet :: string where "recoveryAlphabet = ''0123456789ABCDEFGHJKMNPQRSTVWXYZ''"

record recovery_code =
  rc_value :: string

text \<open>The builder loops of \<open>newRecoveryCode\<close> and \<open>ParseRecoveryCode\<close>: a hyphen before every later group.\<close>

fun grouped :: "nat \<Rightarrow> string \<Rightarrow> string" where
  "grouped i [] = []"
| "grouped i (c # cs) = (if i > 0 \<and> i mod RecoveryCodeGroup = 0 then [CHR ''-''] else []) @ c # grouped (i + 1) cs"

definition newRecoveryCode :: "rand_source \<Rightarrow> totp_error + recovery_code" where
  "newRecoveryCode rand =
     (case rand RecoveryCodeCharacters of
        None \<Rightarrow> Inl ErrRandom
      | Some raw \<Rightarrow> Inr \<lparr>rc_value = grouped 0 (map (\<lambda>b. recoveryAlphabet ! (unat b mod 32)) raw)\<rparr>)"

text \<open>Each code reads the source again; the readings are a sequence of sources.\<close>

fun new_codes :: "rand_source list \<Rightarrow> totp_error + recovery_code list" where
  "new_codes [] = Inr []"
| "new_codes (r # rs) =
     (case newRecoveryCode r of
        Inl e \<Rightarrow> Inl e
      | Inr c \<Rightarrow> (case new_codes rs of Inl e \<Rightarrow> Inl e | Inr cs \<Rightarrow> Inr (c # cs)))"

definition NewRecoveryCodes :: "(nat \<Rightarrow> rand_source) \<Rightarrow> totp_error + recovery_code list" where
  "NewRecoveryCodes rand = new_codes (map rand [0..<RecoveryCodeCount])"

definition transcribe :: "char \<Rightarrow> string" where
  "transcribe c =
     (if c \<in> set ''- '' then []
      else if c \<in> set ''iIlL'' then ''1''
      else if c \<in> set ''oO'' then ''0''
      else [upper_char c])"

text \<open>
  The rune loops act on single bytes here: a byte outside ASCII is kept, and since no alphabet character
  is one, such a submission is refused with the same error as in the code.
\<close>

definition ParseRecoveryCode :: "string \<Rightarrow> totp_error + recovery_code" where
  "ParseRecoveryCode submitted =
     (let cleaned = concat (map transcribe (trim_space submitted))
      in if length cleaned \<noteq> RecoveryCodeCharacters then Inl ErrRecoveryCode
         else if \<not> list_all (\<lambda>c. c \<in> set recoveryAlphabet) cleaned then Inl ErrRecoveryCode
         else Inr \<lparr>rc_value = grouped 0 cleaned\<rparr>)"

definition RecoveryCode_Value :: "recovery_code \<Rightarrow> string" where "RecoveryCode_Value c = rc_value c"
definition RecoveryCode_IsZero :: "recovery_code \<Rightarrow> bool" where "RecoveryCode_IsZero c \<longleftrightarrow> rc_value c = []"

definition RecoveryCode_Digest :: "recovery_code \<Rightarrow> bytes" where
  "RecoveryCode_Digest c =
     (if RecoveryCode_IsZero c then []
      else sha256 (bytes_of_string (filter (\<lambda>x. x \<noteq> CHR ''-'') (rc_value c))))"

definition RecoveryCode_String :: "recovery_code \<Rightarrow> string" where "RecoveryCode_String c = redacted"

section \<open>Lemmas\<close>

lemma length_zero_padded: "length (show_nat n) \<le> w \<Longrightarrow> length (zero_padded w n) = w"
  by (simp add: zero_padded_def)

lemma show_nat_length: "n < 10 ^ k \<Longrightarrow> 0 < k \<Longrightarrow> length (show_nat n) \<le> k"
proof (induction k arbitrary: n)
  case (Suc k)
  show ?case
  proof (cases "n < 10")
    case False
    then have "0 < k" using Suc.prems(1) by (cases k) auto
    moreover have "n div 10 < 10 ^ k" using Suc.prems(1) by (intro less_mult_imp_div_less) (simp add: mult.commute)
    ultimately show ?thesis using Suc.IH [of "n div 10"] False by (simp add: show_nat.simps [of n])
  qed (simp add: show_nat.simps)
qed simp

lemma pow10_eq: "pow10 n = 10 ^ n"
  by (induction n) simp_all

lemma Code_digits:
  assumes "Code s step = Inr c"
  shows "length c = Digits \<and> list_all is_digit c"
proof -
  obtain n where c: "c = zero_padded Digits (n mod pow10 Digits)"
    using assms by (auto simp: Code_def split: if_splits)
  have "n mod pow10 Digits < 10 ^ 6" by (simp add: pow10_eq Digits_def)
  then have "length (show_nat (n mod pow10 Digits)) \<le> Digits"
    using show_nat_length [of _ 6] by (simp add: Digits_def)
  then show ?thesis
    using show_nat_digits [of "n mod pow10 Digits"]
    by (auto simp: c length_zero_padded) (auto simp: zero_padded_def list_all_iff char_class_defs)
qed

lemma digits_visible: "list_all is_digit s \<Longrightarrow> list_all visible_char s"
  by (auto simp: list_all_iff visible_char_def char_class_defs)

lemma NormalizeCode_digits:
  assumes "length c = Digits" "list_all is_digit c"
  shows "NormalizeCode c = Inr c"
proof -
  have "filter (\<lambda>x. x \<noteq> CHR '' '') c = c"
    using assms(2) by (auto simp: filter_id_conv list_all_iff char_class_defs)
  then show ?thesis
    using assms trim_space_visible [OF digits_visible] by (simp add: NormalizeCode_def)
qed

lemma verify_loop_eq:
  "verify_loop s c steps (m, b) =
     (if \<exists>x\<in>set steps. isl (Code s x) then None
      else let hits = filter (\<lambda>x. Code s x = Inr c) steps
           in Some (if hits = [] then m else last hits, b \<or> hits \<noteq> []))"
proof (induction steps arbitrary: m b)
  case (Cons x xs)
  show ?case
  proof (cases "Code s x")
    case (Inr d)
    then show ?thesis
      using Cons.IH by (cases "c = d") (auto simp: Let_def split: if_splits)
  qed simp
qed simp

lemma Code_isl: "\<not> Secret_IsZero s \<Longrightarrow> isl (Code s x) \<longleftrightarrow> x < 0"
  by (auto simp: Code_def)

lemma last_filter_upto:
  assumes "filter P [i..j] \<noteq> []"
  shows "last (filter P [i..j]) = x \<longleftrightarrow> i \<le> x \<and> x \<le> j \<and> P x \<and> (\<forall>y\<in>{x<..j}. \<not> P y)"
proof -
  let ?l = "last (filter P [i..j])"
  have l: "?l \<in> set (filter P [i..j])" using assms last_in_set by blast
  have max: "y \<le> ?l" if y: "y \<in> set (filter P [i..j])" for y
  proof -
    have s: "sorted (filter P [i..j])" by (rule sorted_wrt_filter) simp
    obtain xs x where xs: "filter P [i..j] = xs @ [x]" using assms by (cases "filter P [i..j]" rule: rev_cases) auto
    then show ?thesis using s y by (auto simp: sorted_append)
  qed
  have l': "i \<le> ?l" "?l \<le> j" "P ?l" using l by auto
  show ?thesis
  proof (intro iffI conjI ballI)
    fix y assume "?l = x" "y \<in> {x<..j}"
    then show "\<not> P y" using max [of y] l'(1) by auto
  next
    assume r: "i \<le> x \<and> x \<le> j \<and> P x \<and> (\<forall>y\<in>{x<..j}. \<not> P y)"
    then have "x \<le> ?l" using max [of x] by simp
    moreover have "\<not> x < ?l" using r l'(2,3) by auto
    ultimately show "?l = x" by simp
  qed (use l' in auto)
qed

lemma map_add_upto: "map (\<lambda>k. a + k) [i..j] = [a + i..a + (j :: int)]"
  by (induction i j rule: upto.induct) (simp add: upto.simps [of "a + _"] upto.simps)

section \<open>Properties\<close>

text \<open>
  C24: Verification accepts a submission exactly when it normalises to six digits, the allowed drift is
  within bounds and reaches no moment before the epoch, and the digits are the code of some step within
  the drift of now; the step it reports is the latest such step, so refusing that step and everything
  before it refuses every replay of the same digits in the window.
\<close>

theorem Totp_Verify_exact:
  "Verify s submitted at skew = (step, True) \<longleftrightarrow>
     \<not> Secret_IsZero s \<and> 0 \<le> skew \<and> skew \<le> MaxSkewSteps \<and> skew \<le> Step at \<and>
     (\<exists>c. NormalizeCode submitted = Inr c \<and> Step at - skew \<le> step \<and> step \<le> Step at + skew \<and>
        Code s step = Inr c \<and> (\<forall>later\<in>{step<..Step at + skew}. Code s later \<noteq> Inr c))"
proof (cases "Secret_IsZero s \<or> skew < 0 \<or> skew > MaxSkewSteps \<or> isl (NormalizeCode submitted)")
  case True
  then show ?thesis by (cases "NormalizeCode submitted") (auto simp: Verify_def)
next
  case False
  then obtain c where c: "NormalizeCode submitted = Inr c" and ok: "\<not> Secret_IsZero s" "0 \<le> skew" "skew \<le> MaxSkewSteps"
    by (cases "NormalizeCode submitted") auto
  have win: "map (\<lambda>offset. Step at + offset) [- skew..skew] = [Step at - skew..Step at + skew]"
    using map_add_upto [of "Step at" "- skew" skew] by simp
  have neg: "(\<exists>x\<in>set [Step at - skew..Step at + skew]. isl (Code s x)) \<longleftrightarrow> Step at < skew"
    using ok by (auto simp: Code_isl intro!: bexI [of _ "Step at - skew"])
  let ?hits = "filter (\<lambda>x. Code s x = Inr c) [Step at - skew..Step at + skew]"
  have loop: "verify_loop s c (map (\<lambda>offset. Step at + offset) [- skew..skew]) (0, False) =
      (if Step at < skew then None else Some (if ?hits = [] then 0 else last ?hits, ?hits \<noteq> []))"
    unfolding win verify_loop_eq neg Let_def by simp
  have v: "Verify s submitted at skew =
      (if Step at < skew \<or> ?hits = [] then (0, False) else (last ?hits, True))"
    using ok by (simp add: Verify_def c loop)
  show ?thesis
  proof (cases "Step at < skew \<or> ?hits = []")
    case True
    then show ?thesis using v c by (auto simp: filter_empty_conv)
  next
    case nonempty: False
    then show ?thesis
      using v ok c last_filter_upto [of "\<lambda>x. Code s x = Inr c" "Step at - skew" "Step at + skew" step] by auto
  qed
qed

definition sample_secret :: secret where
  "sample_secret = \<lparr>secret_key = replicate 20 0\<rparr>"

theorem Totp_Verify_exact_witness:
  "\<exists>c. Code sample_secret 5 = Inr c \<and> Verify sample_secret c (StartOfStep 5) 0 = (5, True)"
proof -
  have ns: "\<not> Secret_IsZero sample_secret" by (simp add: Secret_IsZero_def sample_secret_def)
  then obtain c where c: "Code sample_secret 5 = Inr c" by (cases "Code sample_secret 5") (auto simp: Code_def)
  have "Step (StartOfStep 5) = 5" by code_simp
  then have "Verify sample_secret c (StartOfStep 5) 0 = (5, True)"
    using ns c NormalizeCode_digits [of c] Code_digits [OF c]
    by (subst Totp_Verify_exact) (simp add: MaxSkewSteps_def)
  with c show ?thesis by blast
qed

text \<open>
  A stored secret reads back from its base32 form however it was retyped: in either case and with
  spaces, hyphens or padding anywhere.
\<close>

theorem ParseSecret_retyped:
  assumes "length (secret_key s) = SecretBytes" and "list_all is_ascii typed"
    and "map upper_char (filter (\<lambda>c. c \<noteq> CHR '' '' \<and> c \<noteq> CHR ''-'' \<and> c \<noteq> CHR ''='') typed) = Secret_Base32 s"
  shows "ParseSecret tbl typed = Inr s"
proof -
  have k: "secret_key s \<noteq> []" using assms(1) by (auto simp: SecretBytes_def)
  have up: "to_upper tbl (filter (\<lambda>c. c \<noteq> CHR '' '' \<and> c \<noteq> CHR ''-'' \<and> c \<noteq> CHR ''='') typed) = enc32 (secret_key s)"
    using assms(2,3) k by (simp add: to_upper_def list_all_iff Secret_Base32_def Secret_IsZero_def)
  moreover have "enc32 (secret_key s) \<noteq> []" using k base32.dec_enc [of "secret_key s"] by (auto simp: decode32_def dec32.simps)
  ultimately show ?thesis
    using assms(1) base32.dec_enc by (simp add: ParseSecret_def SecretFromBytes_def)
qed

theorem ParseSecret_retyped_witness:
  "ParseSecret (\<lambda>s. s) ''aaaa-AAAA aaaa aaaa aaaa aaaa aaaa AAAA=='' = Inr sample_secret"
proof (rule ParseSecret_retyped)
  show "length (secret_key sample_secret) = SecretBytes" by (simp add: sample_secret_def SecretBytes_def)
  show "list_all is_ascii ''aaaa-AAAA aaaa aaaa aaaa aaaa aaaa AAAA==''" by code_simp
  show "map upper_char (filter (\<lambda>c. c \<noteq> CHR '' '' \<and> c \<noteq> CHR ''-'' \<and> c \<noteq> CHR ''='')
      ''aaaa-AAAA aaaa aaaa aaaa aaaa aaaa AAAA=='') = Secret_Base32 sample_secret"
    by code_simp
qed

section \<open>Recovery codes\<close>

lemma filter_grouped: "CHR ''-'' \<notin> set cs \<Longrightarrow> filter (\<lambda>x. x \<noteq> CHR ''-'') (grouped i cs) = cs"
  by (induction i cs rule: grouped.induct) auto

lemma transcribe_alphabet: "c \<in> set recoveryAlphabet \<Longrightarrow> transcribe c = [c] \<and> visible_char c"
proof -
  have "list_all (\<lambda>c. transcribe c = [c] \<and> visible_char c) recoveryAlphabet" by code_simp
  then show "c \<in> set recoveryAlphabet \<Longrightarrow> transcribe c = [c] \<and> visible_char c" by (simp add: list_all_iff)
qed

lemma transcribe_grouped:
  "list_all (\<lambda>c. c \<in> set recoveryAlphabet) cs \<Longrightarrow>
     concat (map transcribe (grouped i cs)) = cs \<and> list_all visible_char (grouped i cs)"
  by (induction i cs rule: grouped.induct)
    (simp_all add: transcribe_alphabet, simp_all add: transcribe_def visible_char_def code_def)

lemma newRecoveryCode_shape:
  assumes "fills rand" and "newRecoveryCode rand = Inr c"
  shows "\<exists>cs. rc_value c = grouped 0 cs \<and> length cs = RecoveryCodeCharacters \<and>
     list_all (\<lambda>c. c \<in> set recoveryAlphabet) cs"
proof -
  obtain raw where raw: "rand RecoveryCodeCharacters = Some raw"
    and c: "rc_value c = grouped 0 (map (\<lambda>b. recoveryAlphabet ! (unat b mod 32)) raw)"
    using assms(2) by (auto simp: newRecoveryCode_def split: option.splits)
  have "length recoveryAlphabet = 32" by (simp add: recoveryAlphabet_def)
  then have "list_all (\<lambda>c. c \<in> set recoveryAlphabet) (map (\<lambda>b. recoveryAlphabet ! (unat b mod 32)) raw)"
    by (auto simp: list_all_iff)
  moreover have "length raw = RecoveryCodeCharacters" using assms(1) raw by (simp add: fills_def)
  ultimately show ?thesis using c by (intro exI [of _ "map (\<lambda>b. recoveryAlphabet ! (unat b mod 32)) raw"]) simp
qed

text \<open>
  Every issued recovery code reads back as itself, typed as it was shown or in any transcription that
  differs in case, hyphens, spaces or the characters people confuse; so the digest stored for it is the
  digest of what is typed.
\<close>

theorem recovery_code_transcribed:
  assumes "fills rand" and "newRecoveryCode rand = Inr c"
  shows "ParseRecoveryCode (RecoveryCode_Value c) = Inr c \<and>
     (\<forall>typed. concat (map transcribe (trim_space typed)) = filter (\<lambda>x. x \<noteq> CHR ''-'') (RecoveryCode_Value c) \<longrightarrow>
        ParseRecoveryCode typed = Inr c)"
proof -
  obtain cs where cs: "rc_value c = grouped 0 cs" "length cs = RecoveryCodeCharacters"
    "list_all (\<lambda>c. c \<in> set recoveryAlphabet) cs"
    using newRecoveryCode_shape [OF assms] by blast
  have "CHR ''-'' \<notin> set recoveryAlphabet" by (simp add: recoveryAlphabet_def)
  then have dash: "CHR ''-'' \<notin> set cs" using cs(3) by (auto simp: list_all_iff)
  have parse: "ParseRecoveryCode typed = Inr c" if "concat (map transcribe (trim_space typed)) = cs" for typed
    using that cs by (simp add: ParseRecoveryCode_def flip: cs(1))
  have "concat (map transcribe (trim_space (rc_value c))) = cs"
    using transcribe_grouped [OF cs(3), of 0] cs(1) trim_space_visible by simp
  then show ?thesis
    using parse filter_grouped [OF dash] cs(1) by (simp add: RecoveryCode_Value_def)
qed

definition sample_rand :: rand_source where
  "sample_rand n = (if n = 10 then Some [0, 0, 1, 1, 0, 0, 0, 0, 0, 0] else None)"

theorem recovery_code_transcribed_witness:
  "ParseRecoveryCode ''ooIlo 00000'' = Inr \<lparr>rc_value = ''00110-00000''\<rparr>"
proof -
  have new: "newRecoveryCode sample_rand = Inr \<lparr>rc_value = ''00110-00000''\<rparr>"
    by (simp add: newRecoveryCode_def sample_rand_def RecoveryCodeCharacters_def recoveryAlphabet_def RecoveryCodeGroup_def)
  have fill: "fills sample_rand" by (simp add: fills_def sample_rand_def)
  have "concat (map transcribe (trim_space ''ooIlo 00000'')) =
      filter (\<lambda>x. x \<noteq> CHR ''-'') (RecoveryCode_Value \<lparr>rc_value = ''00110-00000''\<rparr>)"
    by code_simp
  then show ?thesis
    using recovery_code_transcribed [OF fill new] by blast
qed

end
