(* ===== verification/Json_Value.thy ===== *)
theory Json_Value
  imports Json
begin

text \<open>
  JSON documents as \<open>encoding/json\<close> reads and writes them: the value type, the reader of \<open>Decoder.Decode\<close>
  (its scanner first accepts or refuses the whole value, naming the byte it stopped at), the indented
  writer of \<open>Encoder\<close> without HTML escaping, and the round trip.
\<close>

section \<open>Values\<close>

datatype json =
    JNull
  | JBool bool
  | JNum string
  | JStr string
  | JArr "json list"
  | JObj "(string \<times> json) list"

text \<open>
  A refused document: the input ended inside a value (\<open>io.ErrUnexpectedEOF\<close>), or the scanner stopped at
  the first byte of the remaining input (a \<open>SyntaxError\<close>, whose offset counts that byte).
\<close>

datatype fault = Unexpected_end | Bad_byte string

definition fault_offset :: "string \<Rightarrow> string \<Rightarrow> nat" where
  "fault_offset data rest = length data - length rest + 1"

definition maxNestingDepth :: nat where "maxNestingDepth = 10000"

section \<open>Reading\<close>

text \<open>Where a string literal that \<open>unquote\<close> refuses goes wrong; \<open>k\<close> hexadecimal digits are still due.\<close>

fun string_fault :: "nat \<Rightarrow> string \<Rightarrow> fault" where
  "string_fault k [] = Unexpected_end"
| "string_fault (Suc k) (c # cs) = (if hex_val c = None then Bad_byte (c # cs) else string_fault k cs)"
| "string_fault 0 (c # cs) =
     (if c = backslash then
        (case cs of
           [] \<Rightarrow> Unexpected_end
         | e # es \<Rightarrow>
             if e = CHR ''u'' then string_fault 4 es
             else if e \<in> {quote, backslash, CHR ''/'', CHR ''b'', CHR ''f'', CHR ''n'', CHR ''r'', CHR ''t''}
             then string_fault 0 es
             else Bad_byte cs)
      else if code c < 32 then Bad_byte (c # cs)
      else string_fault 0 cs)"

definition read_string :: "string \<Rightarrow> fault + (string \<times> string)" where
  "read_string s = (case unquote s of None \<Rightarrow> Inl (string_fault 0 s) | Some r \<Rightarrow> Inr r)"

fun read_word :: "string \<Rightarrow> json \<Rightarrow> string \<Rightarrow> fault + (json \<times> string)" where
  "read_word [] v s = Inr (v, s)"
| "read_word (w # ws) v [] = Inl Unexpected_end"
| "read_word (w # ws) v (c # cs) = (if c = w then read_word ws v cs else Inl (Bad_byte (c # cs)))"

text \<open>The parts of a number literal.\<close>

definition read_digits :: "string \<Rightarrow> fault + (string \<times> string)" where
  "read_digits s =
     (case s of
        [] \<Rightarrow> Inl Unexpected_end
      | c # cs \<Rightarrow> if is_digit c then Inr (takeWhile is_digit s, dropWhile is_digit s) else Inl (Bad_byte s))"

definition read_int_part :: "string \<Rightarrow> fault + (string \<times> string)" where
  "read_int_part s =
     (case s of
        c # cs \<Rightarrow> if c = CHR ''0'' then Inr ([c], cs) else read_digits s
      | [] \<Rightarrow> Inl Unexpected_end)"

definition read_fraction :: "string \<Rightarrow> fault + (string \<times> string)" where
  "read_fraction s =
     (case s of
        c # cs \<Rightarrow> if c = CHR ''.'' then map_sum id (apfst (Cons c)) (read_digits cs) else Inr ([], s)
      | [] \<Rightarrow> Inr ([], s))"

definition read_exponent :: "string \<Rightarrow> fault + (string \<times> string)" where
  "read_exponent s =
     (case s of
        c # cs \<Rightarrow>
          if c = CHR ''e'' \<or> c = CHR ''E'' then
            (case cs of
               d # ds \<Rightarrow>
                 if d = CHR ''+'' \<or> d = CHR ''-''
                 then map_sum id (apfst (\<lambda>l. c # d # l)) (read_digits ds)
                 else map_sum id (apfst (Cons c)) (read_digits cs)
             | [] \<Rightarrow> Inl Unexpected_end)
          else Inr ([], s)
      | [] \<Rightarrow> Inr ([], s))"

definition read_number :: "string \<Rightarrow> fault + (json \<times> string)" where
  "read_number s =
     (let sign = (if s \<noteq> [] \<and> hd s = CHR ''-'' then ''-'' else []) in
      case read_int_part (drop (length sign) s) of
        Inl e \<Rightarrow> Inl e
      | Inr (i, r) \<Rightarrow>
          (case read_fraction r of
             Inl e \<Rightarrow> Inl e
           | Inr (f, r') \<Rightarrow>
               (case read_exponent r' of
                  Inl e \<Rightarrow> Inl e
                | Inr (x, r'') \<Rightarrow> Inr (JNum (sign @ i @ f @ x), r''))))"

definition read_scalar :: "char \<Rightarrow> string \<Rightarrow> fault + (json \<times> string)" where
  "read_scalar c cs =
     (if c = quote then map_sum id (apfst JStr) (read_string cs)
      else if c = CHR ''t'' then read_word ''rue'' (JBool True) cs
      else if c = CHR ''f'' then read_word ''alse'' (JBool False) cs
      else if c = CHR ''n'' then read_word ''ull'' JNull cs
      else if c = CHR ''-'' \<or> is_digit c then read_number (c # cs)
      else Inl (Bad_byte (c # cs)))"

text \<open>
  \<open>read_value n d s\<close> reads one value at nesting depth \<open>d\<close>; \<open>read_elems\<close> and \<open>read_members\<close> read what
  follows the bracket of a non-empty array or object.  The first argument bounds the recursion; twice
  the length of the input is enough.
\<close>

fun read_value :: "nat \<Rightarrow> nat \<Rightarrow> string \<Rightarrow> fault + (json \<times> string)"
  and read_elems :: "nat \<Rightarrow> nat \<Rightarrow> string \<Rightarrow> fault + (json list \<times> string)"
  and read_members :: "nat \<Rightarrow> nat \<Rightarrow> string \<Rightarrow> fault + ((string \<times> json) list \<times> string)"
where
  "read_value 0 d s = Inl Unexpected_end"
| "read_value (Suc n) d s =
     (case skip_ws s of
        [] \<Rightarrow> Inl Unexpected_end
      | c # cs \<Rightarrow>
          if c = CHR ''{'' \<or> c = CHR ''['' then
            if maxNestingDepth \<le> d then Inl (Bad_byte (c # cs))
            else if c = CHR ''{'' then
              (case skip_ws cs of
                 [] \<Rightarrow> Inl Unexpected_end
               | b # bs \<Rightarrow>
                   if b = CHR ''}'' then Inr (JObj [], bs)
                   else map_sum id (apfst JObj) (read_members n (Suc d) (b # bs)))
            else
              (case skip_ws cs of
                 [] \<Rightarrow> Inl Unexpected_end
               | b # bs \<Rightarrow>
                   if b = CHR '']'' then Inr (JArr [], bs)
                   else map_sum id (apfst JArr) (read_elems n (Suc d) (b # bs)))
          else read_scalar c cs)"
| "read_elems 0 d s = Inl Unexpected_end"
| "read_elems (Suc n) d s =
     (case read_value n d s of
        Inl e \<Rightarrow> Inl e
      | Inr (v, r) \<Rightarrow>
          (case skip_ws r of
             [] \<Rightarrow> Inl Unexpected_end
           | c # cs \<Rightarrow>
               if c = CHR '','' then map_sum id (apfst (Cons v)) (read_elems n d cs)
               else if c = CHR '']'' then Inr ([v], cs)
               else Inl (Bad_byte (c # cs))))"
| "read_members 0 d s = Inl Unexpected_end"
| "read_members (Suc n) d s =
     (case skip_ws s of
        [] \<Rightarrow> Inl Unexpected_end
      | c # cs \<Rightarrow>
          if c \<noteq> quote then Inl (Bad_byte (c # cs))
          else
            (case read_string cs of
               Inl e \<Rightarrow> Inl e
             | Inr (k, r) \<Rightarrow>
                 (case skip_ws r of
                    [] \<Rightarrow> Inl Unexpected_end
                  | c # cs \<Rightarrow>
                      if c \<noteq> CHR '':'' then Inl (Bad_byte (c # cs))
                      else
                        (case read_value n d cs of
                           Inl e \<Rightarrow> Inl e
                         | Inr (v, r) \<Rightarrow>
                             (case skip_ws r of
                                [] \<Rightarrow> Inl Unexpected_end
                              | c # cs \<Rightarrow>
                                  if c = CHR '','' then map_sum id (apfst (Cons (k, v))) (read_members n d cs)
                                  else if c = CHR ''}'' then Inr ([(k, v)], cs)
                                  else Inl (Bad_byte (c # cs)))))))"

definition read_json :: "string \<Rightarrow> fault + (json \<times> string)" where
  "read_json s = read_value (2 * length s + 1) 0 s"

section \<open>Writing\<close>

text \<open>\<open>SetEscapeHTML(false)\<close> leaves the three HTML characters as they are.\<close>

definition escape_raw :: "char \<Rightarrow> string" where
  "escape_raw c = (if code c \<in> {60, 62, 38} then [c] else escape_char c)"

function escape_text :: "string \<Rightarrow> string" where
  "escape_text s =
     (case s of
        [] \<Rightarrow> []
      | c # cs \<Rightarrow>
          if is_ascii c then escape_raw c @ escape_text cs
          else (case rune_width s of
                  None \<Rightarrow> u_escape 65533 @ escape_text cs
                | Some n \<Rightarrow> escape_rune (take n s) @ escape_text (drop n s)))"
  by pat_completeness auto
termination
  by (relation "measure length") (auto dest: rune_width_bounds)

declare escape_text.simps [simp del]

text \<open>A line break and two blanks per level, as \<open>SetIndent("", "  ")\<close> asks.\<close>

definition line_break :: "nat \<Rightarrow> string" where
  "line_break n = CHR 0x0A # replicate (2 * n) (CHR '' '')"

fun write_value :: "nat \<Rightarrow> json \<Rightarrow> string" where
  "write_value n JNull = ''null''"
| "write_value n (JBool b) = (if b then ''true'' else ''false'')"
| "write_value n (JNum l) = l"
| "write_value n (JStr s) = [quote] @ escape_text s @ [quote]"
| "write_value n (JArr vs) =
     (if vs = [] then ''[]''
      else ''['' @ line_break (Suc n) @ join ('','' @ line_break (Suc n)) (map (write_value (Suc n)) vs) @
           line_break n @ '']'')"
| "write_value n (JObj kvs) =
     (if kvs = [] then ''{}''
      else ''{'' @ line_break (Suc n) @
           join ('','' @ line_break (Suc n))
             (map (\<lambda>kv. [quote] @ escape_text (fst kv) @ [quote] @ '': '' @ write_value (Suc n) (snd kv)) kvs) @
           line_break n @ ''}'')"

section \<open>The recursion bound is enough\<close>

lemma skip_ws_bound: "length (skip_ws s) \<le> length s"
  by (simp add: skip_ws_def length_dropWhile_le)

lemma skip_ws_shorter: "skip_ws s = c # cs \<Longrightarrow> length cs < length s"
  using skip_ws_bound [of s] by simp

lemma read_string_shorter: "read_string s = Inr (v, r) \<Longrightarrow> length r < length s"
  by (auto simp: read_string_def split: option.splits dest: unquote_shorter)

lemma read_word_le: "read_word ws v s = Inr (w, r) \<Longrightarrow> length r \<le> length s"
  by (induction ws v s rule: read_word.induct) (auto split: if_splits)

lemma read_digits_shorter: "read_digits s = Inr (l, r) \<Longrightarrow> length r < length s"
  using length_dropWhile_le [of is_digit "tl s"] by (auto simp: read_digits_def split: list.splits if_splits)

lemma read_number_shorter:
  assumes "read_number s = Inr (v, r)"
  shows "length r < length s"
proof -
  have i: "length r < length s" if "read_int_part s = Inr (l, r)" for s l r
    using that read_digits_shorter [of s] by (auto simp: read_int_part_def split: list.splits if_splits)
  have f: "length r \<le> length s" if "read_fraction s = Inr (l, r)" for s l r
    using that by (auto simp: read_fraction_def map_sum_def split: list.splits if_splits sum.splits dest!: read_digits_shorter)
  have x: "length r \<le> length s" if "read_exponent s = Inr (l, r)" for s l r
    using that by (auto simp: read_exponent_def map_sum_def split: list.splits if_splits sum.splits dest!: read_digits_shorter)
  show ?thesis
    using assms by (auto simp: read_number_def Let_def split: sum.splits prod.splits if_splits dest!: i f x)
qed

lemma map_sum_InrD: "map_sum id (apfst f) x = Inr (v, r) \<Longrightarrow> \<exists>u. x = Inr (u, r) \<and> v = f u"
  by (cases x) auto

lemma read_scalar_shorter: "read_scalar c cs = Inr (v, r) \<Longrightarrow> length r < Suc (length cs)"
  by (auto simp: read_scalar_def le_imp_less_Suc split: if_splits
      dest!: map_sum_InrD read_string_shorter read_word_le read_number_shorter)

lemma read_shorter:
  "read_value n d s = Inr (v, r) \<Longrightarrow> length r < length s"
  "read_elems n d s = Inr (vs, r) \<Longrightarrow> length r < length s"
  "read_members n d s = Inr (kvs, r) \<Longrightarrow> length r < length s"
proof (induction n d s and n d s and n d s arbitrary: v r and vs r and kvs r
    rule: read_value_read_elems_read_members.induct)
  case (2 n d s)
  then show ?case
    by (fastforce split: list.splits if_splits dest!: map_sum_InrD skip_ws_shorter read_scalar_shorter)
next
  case (4 n d s)
  then show ?case
    by (fastforce split: list.splits if_splits sum.splits prod.splits dest!: map_sum_InrD skip_ws_shorter)
next
  case (6 n d s)
  then show ?case
    by (fastforce split: list.splits if_splits sum.splits prod.splits
        dest!: map_sum_InrD skip_ws_shorter read_string_shorter)
qed simp_all

lemma read_bound:
  "(2 * length s < n \<longrightarrow> n \<le> m \<longrightarrow> read_value m d s = read_value n d s) \<and>
   (2 * length s + 1 < n \<longrightarrow> n \<le> m \<longrightarrow> read_elems m d s = read_elems n d s) \<and>
   (2 * length s < n \<longrightarrow> n \<le> m \<longrightarrow> read_members m d s = read_members n d s)"
proof (induction n arbitrary: s m d)
  case (Suc n)
  note ih = Suc.IH [THEN conjunct1, rule_format]
    Suc.IH [THEN conjunct2, THEN conjunct1, rule_format] Suc.IH [THEN conjunct2, THEN conjunct2, rule_format]
  show ?case
  proof (cases m)
    case m: (Suc k)
    have v: "read_value (Suc k) d s = read_value (Suc n) d s" if b: "2 * length s < Suc n" "n \<le> k"
    proof (cases "skip_ws s")
      case (Cons c cs)
      have "read_members k (Suc d) (skip_ws cs) = read_members n (Suc d) (skip_ws cs)"
        "read_elems k (Suc d) (skip_ws cs) = read_elems n (Suc d) (skip_ws cs)"
        using b skip_ws_shorter [OF Cons] skip_ws_bound [of cs] by (auto intro!: ih)
      then show ?thesis using Cons by (cases "skip_ws cs") (simp_all, metis)
    qed simp
    have e: "read_elems (Suc k) d s = read_elems (Suc n) d s" if b: "2 * length s < n" "n \<le> k"
    proof (cases "read_value n d s")
      case (Inr vr)
      obtain w r where vr: "vr = (w, r)" by (cases vr)
      then have "length r < length s" using read_shorter(1) Inr by simp
      moreover have "read_elems k d cs = read_elems n d cs" if "skip_ws r = c # cs" for c cs
        using calculation b skip_ws_shorter [OF that] by (auto intro!: ih)
      moreover have "read_value k d s = read_value n d s" using b by (auto intro!: ih)
      ultimately show ?thesis using Inr vr by (cases "skip_ws r") simp_all
    next
      case (Inl f)
      moreover have "read_value k d s = read_value n d s" using b by (auto intro!: ih)
      ultimately show ?thesis by simp
    qed
    have m: "read_members (Suc k) d s = read_members (Suc n) d s" if b: "2 * length s < Suc n" "n \<le> k"
    proof -
      have "read_value k d es = read_value n d es"
        if "skip_ws s = c # cs" "read_string cs = Inr (w, r)" "skip_ws r = e # es" for c cs w r e es
        using b skip_ws_shorter [OF that(1)] read_string_shorter [OF that(2)] skip_ws_shorter [OF that(3)]
        by (auto intro!: ih)
      moreover have "read_members k d us = read_members n d us"
        if "skip_ws s = c # cs" "read_string cs = Inr (w, r)" "skip_ws r = e # es" "read_value n d es = Inr (u, q)"
          "skip_ws q = y # us" for c cs w r e es u q y us
        using b skip_ws_shorter [OF that(1)] read_string_shorter [OF that(2)] skip_ws_shorter [OF that(3)]
          read_shorter(1) [OF that(4)] skip_ws_shorter [OF that(5)]
        by (auto intro!: ih)
      ultimately show ?thesis by (simp split: list.split sum.split prod.split)
    qed
    show ?thesis using v e m \<open>m = Suc k\<close> by simp
  qed simp
qed simp

lemma read_json_bound: "2 * length s < n \<Longrightarrow> read_value n 0 s = read_json s"
  unfolding read_json_def using read_bound [of s "2 * length s + 1" n 0] by simp

section \<open>The round trip\<close>

text \<open>
  The documents the tool writes: integers, valid strings, nesting within the reader's limit.  The
  height of a value is the number of brackets open at its deepest point.
\<close>

fun json_ok :: "json \<Rightarrow> bool" where
  "json_ok (JNum l) \<longleftrightarrow> (\<exists>i. l = show_int i)"
| "json_ok (JStr s) \<longleftrightarrow> valid_string s"
| "json_ok (JArr vs) \<longleftrightarrow> (\<forall>v\<in>set vs. json_ok v)"
| "json_ok (JObj kvs) \<longleftrightarrow> (\<forall>kv\<in>set kvs. valid_string (fst kv) \<and> json_ok (snd kv))"
| "json_ok JNull \<longleftrightarrow> True"
| "json_ok (JBool b) \<longleftrightarrow> True"

fun height :: "json \<Rightarrow> nat" where
  "height (JArr vs) = Suc (fold max (map height vs) 0)"
| "height (JObj kvs) = Suc (fold max (map (\<lambda>kv. height (snd kv)) kvs) 0)"
| "height v = 0"

lemma fold_max_ge: "m \<le> fold max ns (m :: nat)" "n \<in> set ns \<Longrightarrow> n \<le> fold max ns m"
proof (induction ns arbitrary: m)
  case (Cons a ns)
  { case 1 then show ?case using Cons.IH(1) [of "max a m"] by simp }
  { case 2 then show ?case using Cons.IH(1) [of "max a m"] Cons.IH(2) by auto }
qed simp_all

lemma height_member:
  "v \<in> set vs \<Longrightarrow> height v < height (JArr vs)"
  "kv \<in> set kvs \<Longrightarrow> height (snd kv) < height (JObj kvs)"
  using fold_max_ge(2) [of "height v" "map height vs"]
    fold_max_ge(2) [of "height (snd kv)" "map (\<lambda>kv. height (snd kv)) kvs"]
  by (auto simp: less_Suc_eq_le)

text \<open>What may follow a value without being read as part of it.\<close>

definition ends_value :: "string \<Rightarrow> bool" where
  "ends_value t \<longleftrightarrow> t = [] \<or> (\<not> is_digit (hd t) \<and> hd t \<notin> {CHR ''.'', CHR ''e'', CHR ''E''})"

lemma skip_ws_break [simp]: "skip_ws (line_break n @ t) = skip_ws t"
proof -
  have "dropWhile is_json_space (replicate k (CHR '' '') @ t) = dropWhile is_json_space t" for k
    by (induction k) (auto simp: is_json_space_def code_def)
  then show ?thesis by (simp add: skip_ws_def line_break_def is_json_space_def code_def)
qed

lemma skip_ws_solid [simp]: "\<not> is_json_space c \<Longrightarrow> skip_ws (c # t) = c # t"
  by (simp add: skip_ws_def)

lemma ends_value_break [simp]: "ends_value (line_break n @ t)" "ends_value (CHR '','' # t)"
  by (simp_all add: ends_value_def line_break_def char_class_defs)

lemma unquote_escape_raw:
  assumes "is_ascii c"
  shows "unquote (escape_raw c @ t) = map_option (apfst ((@) [c])) (unquote t)"
proof (cases "code c \<in> {60, 62, 38}")
  case True
  then have "c \<noteq> quote" "c \<noteq> backslash" "\<not> code c < 32" by (auto simp: quote_def backslash_def code_def)
  then show ?thesis using True assms by (subst unquote.simps) (simp add: escape_raw_def rune_width_def)
qed (simp add: escape_raw_def unquote_escape_char [OF assms])

lemma unquote_escape_text: "valid_string s \<Longrightarrow> unquote (escape_text s @ quote # t) = Some (s, t)"
proof (induction s rule: escape_text.induct)
  case (1 s)
  show ?case
  proof (cases s)
    case Nil
    then show ?thesis by (simp add: escape_text.simps unquote.simps)
  next
    case (Cons c cs)
    from "1.prems" obtain n where n: "rune_width s = Some n" and v: "valid_string (drop n s)"
      by (subst (asm) valid_string.simps) (auto simp: Cons split: option.splits)
    show ?thesis
    proof (cases "is_ascii c")
      case True
      then have "n = 1" using n Cons by (simp add: rune_width_def)
      then show ?thesis
        using "1.IH"(1) [OF Cons True] v Cons True unquote_escape_raw [OF True, of "escape_text cs @ quote # t"]
        by (subst escape_text.simps) simp
    next
      case False
      then show ?thesis
        using "1.IH"(3) [OF Cons False n v] n Cons unquote_escape_rune [OF n, of "escape_text (drop n s) @ quote # t"]
        by (subst escape_text.simps) (simp flip: append_assoc)
    qed
  qed
qed

lemma read_string_escape_text: "valid_string s \<Longrightarrow> read_string (escape_text s @ quote # t) = Inr (s, t)"
  by (simp add: read_string_def unquote_escape_text)

lemma read_digits_show_nat:
  assumes "t = [] \<or> \<not> is_digit (hd t)"
  shows "read_digits (show_nat n @ t) = Inr (show_nat n, t)"
proof -
  obtain c cs where c: "show_nat n = c # cs" by (cases "show_nat n") auto
  have "is_digit c" "list_all is_digit cs" using show_nat_digits [of n] c by auto
  moreover have "takeWhile is_digit (show_nat n @ t) = show_nat n" "dropWhile is_digit (show_nat n @ t) = t"
    using show_nat_digits [of n] assms by (cases t; auto simp: list_all_iff takeWhile_append dropWhile_append)+
  ultimately show ?thesis by (simp add: read_digits_def c)
qed

lemma read_number_show_int:
  assumes "ends_value t"
  shows "read_number (show_int i @ t) = Inr (JNum (show_int i), t)"
proof -
  have rest: "read_fraction t = Inr ([], t)" "read_exponent t = Inr ([], t)"
    using assms by (auto simp: read_fraction_def read_exponent_def ends_value_def split: list.splits)
  have dig: "t = [] \<or> \<not> is_digit (hd t)" using assms by (auto simp: ends_value_def)
  have int: "read_int_part (show_nat n @ t) = Inr (show_nat n, t)" for n
  proof -
    obtain c cs where c: "show_nat n = c # cs" by (cases "show_nat n") auto
    have "c = CHR ''0'' \<Longrightarrow> cs = []"
      using canonical_show_nat [of n] c by (auto simp: canonical_digits_def)
    then show ?thesis using read_digits_show_nat [OF dig, of n] c by (auto simp: read_int_part_def)
  qed
  have lead: "hd (show_nat n) \<noteq> CHR ''-''" for n
    using show_nat_digits [of n] by (cases "show_nat n") (auto simp: char_class_defs)
  show ?thesis
    using lead int rest by (auto simp: read_number_def show_int_def Let_def)
qed

text \<open>Every written value starts with a byte that opens it.\<close>

lemma show_int_start: "\<exists>c cs. show_int i = c # cs \<and> (c = CHR ''-'' \<or> is_digit c)"
proof -
  have "\<exists>c cs. show_nat n = c # cs \<and> is_digit c" for n
    using show_nat_digits [of n] by (cases "show_nat n") auto
  then show ?thesis by (metis show_int_def)
qed

lemma write_value_head:
  assumes "json_ok v"
  shows "\<exists>c cs. write_value k v = c # cs \<and> \<not> is_json_space c \<and> c \<noteq> CHR '']'' \<and> c \<noteq> CHR ''}''"
proof (cases v)
  case (JNum l)
  then obtain c cs where "l = c # cs" "c = CHR ''-'' \<or> is_digit c" using assms show_int_start by (metis json_ok.simps(1))
  then show ?thesis using JNum by (auto simp: is_json_space_def char_class_defs)
qed (use assms in \<open>auto simp: is_json_space_def code_def quote_def\<close>)

text \<open>
  \<open>reads d s v t\<close>: given a large enough bound, the reader takes \<open>v\<close> from \<open>s\<close> and leaves \<open>t\<close>.
\<close>

definition reads :: "nat \<Rightarrow> string \<Rightarrow> json \<Rightarrow> string \<Rightarrow> bool" where
  "reads d s v t \<longleftrightarrow> (\<exists>N. \<forall>n\<ge>N. read_value n d s = Inr (v, t))"

lemma reads_ws:
  assumes "reads d s v t" and "skip_ws s' = skip_ws s"
  shows "reads d s' v t"
proof -
  have "read_value n d s' = read_value n d s" for n using assms(2) by (cases n) simp_all
  then show ?thesis using assms(1) by (simp add: reads_def)
qed

lemma reads_scalar:
  assumes "read_scalar c cs = Inr (v, t)" and "c \<notin> {CHR ''{'', CHR ''[''}" and "\<not> is_json_space c"
  shows "reads d (c # cs) v t"
proof -
  have "read_value n d (c # cs) = Inr (v, t)" if "n \<ge> 1" for n
    using assms that by (cases n) auto
  then show ?thesis unfolding reads_def by blast
qed

lemma read_elems_written:
  assumes "vs \<noteq> []" and "\<And>v u. v \<in> set vs \<Longrightarrow> ends_value u \<Longrightarrow> reads d (w v @ u) v u"
  shows "\<exists>N. \<forall>n\<ge>N. read_elems n d (join ('','' @ line_break k) (map w vs) @ line_break m @ CHR '']'' # t) = Inr (vs, t)"
  using assms
proof (induction vs)
  case (Cons v vs)
  let ?u = "line_break m @ CHR '']'' # t"
  show ?case
  proof (cases "vs = []")
    case True
    from Cons.prems(2) [of v ?u] obtain N where "\<forall>n\<ge>N. read_value n d (w v @ ?u) = Inr (v, ?u)"
      by (auto simp: reads_def)
    then have "read_elems n d (w v @ ?u) = Inr ([v], t)" if "n \<ge> Suc N" for n
      using that by (cases n) (auto simp: is_json_space_def code_def)
    then show ?thesis using True by auto
  next
    case False
    let ?r = "join ('','' @ line_break k) (map w vs) @ ?u"
    from Cons.prems(2) [of v "CHR '','' # line_break k @ ?r"] obtain N where
      N: "\<forall>n\<ge>N. read_value n d (w v @ CHR '','' # line_break k @ ?r) = Inr (v, CHR '','' # line_break k @ ?r)"
      by (auto simp: reads_def)
    from Cons.IH [OF False] Cons.prems(2) obtain M where M: "\<forall>n\<ge>M. read_elems n d ?r = Inr (vs, t)" by auto
    have ws: "read_elems n d (line_break k @ s) = read_elems n d s" for n s
    proof (cases n)
      case (Suc i)
      have "read_value i d (line_break k @ s) = read_value i d s" by (cases i) simp_all
      then show ?thesis using Suc by simp
    qed simp
    have "read_elems n d (w v @ CHR '','' # line_break k @ ?r) = Inr (v # vs, t)" if "n \<ge> Suc (max N M)" for n
      using that N M by (cases n) (auto simp: ws is_json_space_def code_def)
    then show ?thesis using False by (auto simp: join_Cons)
  qed
qed simp

lemma read_members_written:
  assumes "kvs \<noteq> []"
    and "\<And>kv u. kv \<in> set kvs \<Longrightarrow> ends_value u \<Longrightarrow> valid_string (fst kv) \<and> reads d (w kv @ u) (snd kv) u"
  shows "\<exists>N. \<forall>n\<ge>N. read_members n d (join ('','' @ line_break k)
           (map (\<lambda>kv. [quote] @ escape_text (fst kv) @ [quote] @ '': '' @ w kv) kvs) @ line_break m @ CHR ''}'' # t) = Inr (kvs, t)"
  using assms
proof (induction kvs)
  case (Cons kv kvs)
  obtain key v where kv: "kv = (key, v)" by (cases kv)
  let ?u = "line_break m @ CHR ''}'' # t"
  let ?f = "\<lambda>kv. [quote] @ escape_text (fst kv) @ [quote] @ '': '' @ w kv"
  have one: "\<exists>N. \<forall>n\<ge>N. read_members n d (?f kv @ u) =
      (case skip_ws u of
         [] \<Rightarrow> Inl Unexpected_end
       | c # cs \<Rightarrow>
           if c = CHR '','' then map_sum id (apfst (Cons (key, v))) (read_members (n - 1) d cs)
           else if c = CHR ''}'' then Inr ([(key, v)], cs) else Inl (Bad_byte (c # cs)))"
    if u: "ends_value u" for u
  proof -
    have "reads d (CHR '' '' # w kv @ u) v u"
      using Cons.prems(2) [of kv u] u kv
      by - (rule reads_ws [of _ "w kv @ u"], auto simp: skip_ws_def is_json_space_def code_def)
    then obtain N where "\<forall>n\<ge>N. read_value n d (CHR '' '' # w kv @ u) = Inr (v, u)" by (auto simp: reads_def)
    moreover have "read_string (escape_text key @ quote # s) = Inr (key, s)" for s
      using Cons.prems(2) [of kv] u kv by (auto intro: read_string_escape_text)
    ultimately have "read_members n d (?f kv @ u) =
      (case skip_ws u of
         [] \<Rightarrow> Inl Unexpected_end
       | c # cs \<Rightarrow>
           if c = CHR '','' then map_sum id (apfst (Cons (key, v))) (read_members (n - 1) d cs)
           else if c = CHR ''}'' then Inr ([(key, v)], cs) else Inl (Bad_byte (c # cs)))"
      if "n \<ge> Suc N" for n
      using that kv by (cases n) (auto simp: is_json_space_def code_def quote_def split: list.split)
    then show ?thesis by blast
  qed
  show ?case
  proof (cases "kvs = []")
    case True
    from one [of ?u] obtain N where "\<forall>n\<ge>N. read_members n d (?f kv @ ?u) = Inr ([kv], t)"
      using kv by (auto simp: is_json_space_def code_def)
    then show ?thesis using True by (intro exI [of _ N]) simp
  next
    case False
    let ?r = "join ('','' @ line_break k) (map ?f kvs) @ ?u"
    from Cons.IH [OF False] Cons.prems(2) obtain M where M: "\<forall>n\<ge>M. read_members n d ?r = Inr (kvs, t)" by auto
    have ws: "read_members n d (line_break k @ s) = read_members n d s" for n s by (cases n) simp_all
    from one [of "CHR '','' # line_break k @ ?r"] obtain N where
      "\<forall>n\<ge>N. read_members n d (?f kv @ CHR '','' # line_break k @ ?r) =
         map_sum id (apfst (Cons (key, v))) (read_members (n - 1) d ?r)"
      by (auto simp: ws is_json_space_def code_def)
    then have "\<forall>n\<ge>max N (Suc M). read_members n d (?f kv @ CHR '','' # line_break k @ ?r) = Inr (kv # kvs, t)"
      using M kv by auto
    then show ?thesis using False by (intro exI [of _ "max N (Suc M)"]) (simp add: join_Cons)
  qed
qed simp

lemma reads_written:
  assumes "json_ok v" and "d + height v \<le> maxNestingDepth" and "ends_value t"
  shows "reads d (write_value k v @ t) v t"
  using assms
proof (induction v arbitrary: d k t)
  case JNull
  show ?case by (auto intro!: reads_scalar simp: read_scalar_def quote_def is_json_space_def char_class_defs)
next
  case (JBool b)
  show ?case by (auto intro!: reads_scalar simp: read_scalar_def quote_def is_json_space_def char_class_defs)
next
  case (JNum l)
  then obtain i where i: "l = show_int i" by auto
  then obtain c cs where c: "l = c # cs" "c = CHR ''-'' \<or> is_digit c" using show_int_start by blast
  then have "read_scalar c (cs @ t) = Inr (JNum l, t)"
    using read_number_show_int [OF JNum(3), of i] i by (auto simp: read_scalar_def quote_def char_class_defs)
  then show ?case using c by (auto intro!: reads_scalar simp: is_json_space_def char_class_defs)
next
  case (JStr s)
  then show ?case
    using read_string_escape_text [of s t]
    by (auto intro!: reads_scalar simp: read_scalar_def quote_def is_json_space_def char_class_defs)
next
  case (JArr vs)
  show ?case
  proof (cases "vs = []")
    case True
    have "read_value n d (''[]'' @ t) = Inr (JArr [], t)" if "n \<ge> 1" for n
      using that JArr.prems by (cases n) (auto simp: is_json_space_def code_def True)
    then show ?thesis using True unfolding reads_def by auto
  next
    case False
    let ?w = "write_value (Suc k)"
    let ?r = "join ('','' @ line_break (Suc k)) (map ?w vs) @ line_break k @ CHR '']'' # t"
    have "reads (Suc d) (?w v @ u) v u" if "v \<in> set vs" "ends_value u" for v u
      using JArr.IH [OF that(1), of "Suc d"] JArr.prems that height_member(1) [OF that(1)] by auto
    from read_elems_written [OF False this] obtain N where N: "\<forall>n\<ge>N. read_elems n (Suc d) ?r = Inr (vs, t)" by blast
    obtain c cs where c: "?r = c # cs" "\<not> is_json_space c" "c \<noteq> CHR '']''"
      using write_value_head [of "hd vs" "Suc k"] JArr.prems(1) False by (cases vs) (fastforce simp: join_Cons)+
    have "read_value n d (''['' @ line_break (Suc k) @ ?r) = Inr (JArr vs, t)" if "n \<ge> Suc N" for n
      using that JArr.prems N c by (cases n) (auto simp: is_json_space_def code_def)
    then show ?thesis using False unfolding reads_def by (intro exI [of _ "Suc N"]) simp
  qed
next
  case (JObj kvs)
  show ?case
  proof (cases "kvs = []")
    case True
    have "read_value n d (''{}'' @ t) = Inr (JObj [], t)" if "n \<ge> 1" for n
      using that JObj.prems by (cases n) (auto simp: is_json_space_def code_def True)
    then show ?thesis using True unfolding reads_def by auto
  next
    case False
    let ?w = "\<lambda>kv. write_value (Suc k) (snd kv)"
    let ?f = "\<lambda>kv. [quote] @ escape_text (fst kv) @ [quote] @ '': '' @ ?w kv"
    let ?r = "join ('','' @ line_break (Suc k)) (map ?f kvs) @ line_break k @ CHR ''}'' # t"
    have "valid_string (fst kv) \<and> reads (Suc d) (?w kv @ u) (snd kv) u" if "kv \<in> set kvs" "ends_value u" for kv u
      using JObj.IH [OF that(1), of "snd kv" "Suc d" u] JObj.prems that height_member(2) [OF that(1)] by (auto simp: snds.simps)
    from read_members_written [OF False this] obtain N where N: "\<forall>n\<ge>N. read_members n (Suc d) ?r = Inr (kvs, t)"
      by blast
    obtain cs where c: "?r = quote # cs" using False by (cases kvs) (fastforce simp: join_Cons)+
    have "read_value n d (''{'' @ line_break (Suc k) @ ?r) = Inr (JObj kvs, t)" if "n \<ge> Suc N" for n
      using that JObj.prems N c by (cases n) (auto simp: is_json_space_def code_def quote_def)
    then show ?thesis using False unfolding reads_def by (intro exI [of _ "Suc N"]) simp
  qed
qed

text \<open>Reading a written document gives the value back and leaves what followed it.\<close>

theorem read_written:
  assumes "json_ok v" and "height v \<le> maxNestingDepth" and "ends_value t"
  shows "read_json (write_value k v @ t) = Inr (v, t)"
proof -
  obtain N where "\<forall>n\<ge>N. read_value n 0 (write_value k v @ t) = Inr (v, t)"
    using reads_written [of v 0 t k] assms by (auto simp: reads_def)
  then show ?thesis
    using read_json_bound [of "write_value k v @ t" "max N (2 * length (write_value k v @ t) + 1)"] by simp
qed

end
