(* ===== verification/Recipe.thy ===== *)
theory Recipe
  imports Json_Value "HOL-Library.List_Lexorder" "HOL-Library.Char_ord"
begin

text \<open>
  The project recipe, from \<open>internal/recipe\<close>: its fields, \<open>Validate\<close>, the canonical encoding
  \<open>Marshal\<close> writes and the strict decoder \<open>Unmarshal\<close>.  The decoder follows \<open>encoding/json\<close>: the whole
  document is scanned first, a key matches a field exactly or case-insensitively, a later duplicate
  overwrites an earlier one, \<open>null\<close> clears a pointer, and the first mismatch in document order is the
  error reported.
\<close>

section \<open>Fields, profiles and modules\<close>

definition SchemaVersion :: int where "SchemaVersion = 1"

definition FileName :: string where "FileName = ''nise.json''"

definition ProfileGoChiPostgresSvelte :: string where
  "ProfileGoChiPostgresSvelte = ''go-chi-postgres-svelte''"

definition Profiles :: "string list" where "Profiles = [ProfileGoChiPostgresSvelte]"

definition ModuleNotifications :: string where "ModuleNotifications = ''notifications''"
definition ModuleOrganizations :: string where "ModuleOrganizations = ''organizations''"
definition ModuleTOTP :: string where "ModuleTOTP = ''totp''"
definition ModuleUploads :: string where "ModuleUploads = ''uploads''"

definition Modules :: "string list" where
  "Modules = [ModuleNotifications, ModuleOrganizations, ModuleTOTP, ModuleUploads]"

lemmas module_defs = Modules_def ModuleNotifications_def ModuleOrganizations_def ModuleTOTP_def ModuleUploads_def

record Recipe =
  schemaVersion :: int
  profile :: string
  modules :: "string list"
  cliVersion :: string
  runtimeVersion :: string

text \<open>What a \<open>FieldError\<close> says of its field; texts that quote a value carry the value.\<close>

datatype problem =
    Is_required
  | Required_version
  | Required_array
  | Wrong_version int
  | Unknown_profile string
  | Unknown_module string
  | Duplicate_module string
  | Too_long nat
  | Not_printable string
  | Wrong_type string string
  | Not_a_field

datatype recipe_error =
    FieldError string problem "string list"
  | SchemaVersionError int int
  | Empty_recipe
  | Not_object
  | Invalid_json nat
  | Truncated_json
  | Trailing_content
  | Index_panic

definition profileNames :: "string list" where "profileNames = Profiles"

definition moduleNames :: "string list" where "moduleNames = Modules"

definition ParseProfile :: "string \<Rightarrow> recipe_error + string" where
  "ParseProfile s =
     (if s \<notin> set Profiles then Inl (FieldError ''profile'' (Unknown_profile s) profileNames) else Inr s)"

definition ParseModule :: "string \<Rightarrow> recipe_error + string" where
  "ParseModule s =
     (if s \<notin> set Modules then Inl (FieldError ''modules'' (Unknown_module s) moduleNames) else Inr s)"

definition HasModule :: "Recipe \<Rightarrow> string \<Rightarrow> bool" where
  "HasModule r m \<longleftrightarrow> m \<in> set (modules r)"

section \<open>Validation\<close>

definition maxVersionLen :: nat where "maxVersionLen = 64"

definition validateVersion :: "string \<Rightarrow> string \<Rightarrow> recipe_error option" where
  "validateVersion field value =
     (if value = [] then Some (FieldError field Is_required [])
      else if maxVersionLen < length value then Some (FieldError field (Too_long (length value)) [])
      else if list_ex (\<lambda>c. code c < 33 \<or> 126 < code c) value then Some (FieldError field (Not_printable value) [])
      else None)"

text \<open>The loop over the selected modules; \<open>seen\<close> is \<open>r.Modules[:i]\<close>.\<close>

fun check_modules :: "string list \<Rightarrow> string list \<Rightarrow> recipe_error option" where
  "check_modules seen [] = None"
| "check_modules seen (m # ms) =
     (let field = ''modules['' @ show_nat (length seen) @ '']'' in
      if m \<notin> set Modules then Some (FieldError field (Unknown_module m) moduleNames)
      else if m \<in> set seen then Some (FieldError field (Duplicate_module m) [])
      else check_modules (seen @ [m]) ms)"

definition Validate :: "Recipe \<Rightarrow> recipe_error option" where
  "Validate r =
     (if SchemaVersion < schemaVersion r then Some (SchemaVersionError (schemaVersion r) SchemaVersion)
      else if schemaVersion r < 1 then Some (FieldError ''schemaVersion'' (Wrong_version (schemaVersion r)) [])
      else if profile r = [] then Some (FieldError ''profile'' Is_required profileNames)
      else if profile r \<notin> set Profiles then
        Some (FieldError ''profile'' (Unknown_profile (profile r)) profileNames)
      else
        (case check_modules [] (modules r) of
           Some e \<Rightarrow> Some e
         | None \<Rightarrow>
             (case validateVersion ''cliVersion'' (cliVersion r) of
                Some e \<Rightarrow> Some e
              | None \<Rightarrow> validateVersion ''runtimeVersion'' (runtimeVersion r))))"

definition canonical :: "Recipe \<Rightarrow> recipe_error + Recipe" where
  "canonical r = (case Validate r of Some e \<Rightarrow> Inl e | None \<Rightarrow> Inr (r\<lparr>modules := sort (modules r)\<rparr>))"

section \<open>Encoding\<close>

definition recipe_json :: "Recipe \<Rightarrow> json" where
  "recipe_json r =
     JObj [(''schemaVersion'', JNum (show_int (schemaVersion r))),
           (''profile'', JStr (profile r)),
           (''modules'', JArr (map JStr (modules r))),
           (''cliVersion'', JStr (cliVersion r)),
           (''runtimeVersion'', JStr (runtimeVersion r))]"

definition Marshal :: "Recipe \<Rightarrow> recipe_error + string" where
  "Marshal r = (case canonical r of Inl e \<Rightarrow> Inl e | Inr c \<Rightarrow> Inr (write_value 0 (recipe_json c) @ [CHR 0x0A]))"

section \<open>Decoding\<close>

text \<open>
  The pointer fields.  A decoded slice keeps its backing array: a later duplicate of the array writes
  into it from the front, so \<open>w_modules\<close> holds the visible elements and those hidden behind them.
\<close>

record wire =
  w_schemaVersion :: "int option"
  w_profile :: "string option"
  w_modules :: "(string list \<times> string list) option"
  w_cliVersion :: "string option"
  w_runtimeVersion :: "string option"

definition empty_wire :: wire where
  "empty_wire =
     \<lparr>w_schemaVersion = None, w_profile = None, w_modules = None, w_cliVersion = None, w_runtimeVersion = None\<rparr>"

definition fieldNames :: "string list" where
  "fieldNames = [''schemaVersion'', ''profile'', ''modules'', ''cliVersion'', ''runtimeVersion'']"

text \<open>
  \<open>encoding/json\<close> folds a key before the case-insensitive comparison.  Two non-ASCII letters fold to an
  ASCII one: U+017F to S and U+212A to K; every other rune stays outside ASCII and matches no field.
\<close>

fun fold_name :: "string \<Rightarrow> string" where
  "fold_name (a # b # c # cs) =
     (if [a, b, c] = [CHR 0xE2, CHR 0x84, CHR 0xAA] then CHR ''K'' # fold_name cs
      else if [a, b] = [CHR 0xC5, CHR 0xBF] then CHR ''S'' # fold_name (c # cs)
      else upper_char a # fold_name (b # c # cs))"
| "fold_name [a, b] =
     (if [a, b] = [CHR 0xC5, CHR 0xBF] then ''S'' else [upper_char a, upper_char b])"
| "fold_name [a] = [upper_char a]"
| "fold_name [] = []"

definition lookup_field :: "string list \<Rightarrow> string \<Rightarrow> string option" where
  "lookup_field names key =
     (if key \<in> set names then Some key else List.find (\<lambda>f. fold_name f = fold_name key) names)"

fun json_kind :: "json \<Rightarrow> string" where
  "json_kind JNull = ''null''"
| "json_kind (JBool b) = ''bool''"
| "json_kind (JNum l) = ''number''"
| "json_kind (JStr s) = ''string''"
| "json_kind (JArr vs) = ''array''"
| "json_kind (JObj kvs) = ''object''"

text \<open>The decoders of a field's value; the left side is the JSON value and the Go type of the mismatch.\<close>

definition decode_int :: "json \<Rightarrow> (string \<times> string) + int option" where
  "decode_int v =
     (case v of
        JNull \<Rightarrow> Inr None
      | JNum l \<Rightarrow> (case atoi l of Some i \<Rightarrow> Inr (Some i) | None \<Rightarrow> Inl (''number '' @ l, ''int''))
      | _ \<Rightarrow> Inl (json_kind v, ''int''))"

definition decode_text :: "json \<Rightarrow> (string \<times> string) + string option" where
  "decode_text v =
     (case v of
        JNull \<Rightarrow> Inr None
      | JStr s \<Rightarrow> Inr (Some s)
      | _ \<Rightarrow> Inl (json_kind v, ''string''))"

text \<open>Elements are decoded in place: a \<open>null\<close> leaves the element that was there.\<close>

fun decode_elems :: "string list \<Rightarrow> json list \<Rightarrow> (string \<times> string) + string list" where
  "decode_elems old [] = Inr []"
| "decode_elems old (v # vs) =
     (case (case v of
              JNull \<Rightarrow> Inr (if old = [] then [] else hd old)
            | JStr s \<Rightarrow> Inr s
            | _ \<Rightarrow> Inl (json_kind v, ''string'')) of
        Inl e \<Rightarrow> Inl e
      | Inr s \<Rightarrow> map_sum id (Cons s) (decode_elems (tl old) vs))"

definition decode_slice ::
    "(string list \<times> string list) option \<Rightarrow> json \<Rightarrow> (string \<times> string) + (string list \<times> string list) option" where
  "decode_slice cur v =
     (case v of
        JNull \<Rightarrow> Inr None
      | JArr vs \<Rightarrow>
          (let old = (case cur of None \<Rightarrow> [] | Some (seen, hidden) \<Rightarrow> seen @ hidden) in
           if vs = [] then Inr (Some ([], []))
           else map_sum id (\<lambda>xs. Some (xs, drop (length xs) old)) (decode_elems old vs))
      | _ \<Rightarrow> Inl (json_kind v, ''[]string''))"

definition type_error :: "string \<Rightarrow> (string \<times> string) \<Rightarrow> recipe_error" where
  "type_error field e = FieldError field (Wrong_type (snd e) (fst e)) []"

text \<open>The lenient reading of the schema version alone: every other key is skipped.\<close>

fun probe_members :: "int option \<Rightarrow> (string \<times> json) list \<Rightarrow> recipe_error + int option" where
  "probe_members cur [] = Inr cur"
| "probe_members cur ((k, v) # kvs) =
     (case lookup_field [''schemaVersion''] k of
        None \<Rightarrow> probe_members cur kvs
      | Some f \<Rightarrow>
          (case decode_int v of
             Inl e \<Rightarrow> Inl (type_error f e)
           | Inr i \<Rightarrow> probe_members i kvs))"

definition decode_field :: "string \<Rightarrow> json \<Rightarrow> wire \<Rightarrow> (string \<times> string) + wire" where
  "decode_field f v w =
     (if f = ''schemaVersion'' then map_sum id (\<lambda>x. w\<lparr>w_schemaVersion := x\<rparr>) (decode_int v)
      else if f = ''profile'' then map_sum id (\<lambda>x. w\<lparr>w_profile := x\<rparr>) (decode_text v)
      else if f = ''modules'' then map_sum id (\<lambda>x. w\<lparr>w_modules := x\<rparr>) (decode_slice (w_modules w) v)
      else if f = ''cliVersion'' then map_sum id (\<lambda>x. w\<lparr>w_cliVersion := x\<rparr>) (decode_text v)
      else map_sum id (\<lambda>x. w\<lparr>w_runtimeVersion := x\<rparr>) (decode_text v))"

fun decode_members :: "wire \<Rightarrow> (string \<times> json) list \<Rightarrow> recipe_error + wire" where
  "decode_members w [] = Inr w"
| "decode_members w ((k, v) # kvs) =
     (case lookup_field fieldNames k of
        None \<Rightarrow> Inl (FieldError k Not_a_field fieldNames)
      | Some f \<Rightarrow>
          (case decode_field f v w of
             Inl e \<Rightarrow> Inl (type_error f e)
           | Inr w' \<Rightarrow> decode_members w' kvs))"

definition fromWire :: "wire \<Rightarrow> recipe_error + Recipe" where
  "fromWire w =
     (case w_schemaVersion w of None \<Rightarrow> Inl (FieldError ''schemaVersion'' Required_version []) | Some sv \<Rightarrow>
      case w_profile w of None \<Rightarrow> Inl (FieldError ''profile'' Is_required profileNames) | Some p \<Rightarrow>
      case w_modules w of None \<Rightarrow> Inl (FieldError ''modules'' Required_array []) | Some ms \<Rightarrow>
      case w_cliVersion w of None \<Rightarrow> Inl (FieldError ''cliVersion'' Is_required []) | Some cv \<Rightarrow>
      case w_runtimeVersion w of None \<Rightarrow> Inl (FieldError ''runtimeVersion'' Is_required []) | Some rv \<Rightarrow>
        Inr \<lparr>schemaVersion = sv, profile = p, modules = fst ms, cliVersion = cv, runtimeVersion = rv\<rparr>)"

definition decodeError :: "string \<Rightarrow> fault \<Rightarrow> recipe_error" where
  "decodeError data f =
     (case f of Unexpected_end \<Rightarrow> Truncated_json | Bad_byte rest \<Rightarrow> Invalid_json (fault_offset data rest))"

definition object_members :: "json \<Rightarrow> (string \<times> json) list" where
  "object_members v = (case v of JObj kvs \<Rightarrow> kvs | _ \<Rightarrow> [])"

text \<open>Both decoders read the same bytes, so they accept or refuse the same document.\<close>

definition Unmarshal :: "string \<Rightarrow> recipe_error + Recipe" where
  "Unmarshal data =
     (if trim_space data = [] then Inl Empty_recipe
      else
        (case skip_ws data of
           [] \<Rightarrow> Inl Index_panic
         | c # _ \<Rightarrow>
             if c \<noteq> CHR ''{'' then Inl Not_object
             else
               (case read_json data of
                  Inl f \<Rightarrow> Inl (decodeError data f)
                | Inr (doc, rest) \<Rightarrow>
                    (case probe_members None (object_members doc) of
                       Inl e \<Rightarrow> Inl e
                     | Inr sv \<Rightarrow>
                         if sv \<noteq> None \<and> SchemaVersion < the sv then Inl (SchemaVersionError (the sv) SchemaVersion)
                         else
                           (case decode_members empty_wire (object_members doc) of
                              Inl e \<Rightarrow> Inl e
                            | Inr w \<Rightarrow>
                                if skip_ws rest \<noteq> [] then Inl Trailing_content
                                else (case fromWire w of Inl e \<Rightarrow> Inl e | Inr r \<Rightarrow> canonical r))))))"

section \<open>What validation establishes\<close>

lemma check_modules_None:
  "check_modules seen ms = None \<longleftrightarrow> set ms \<subseteq> set Modules \<and> distinct ms \<and> set seen \<inter> set ms = {}"
  by (induction ms arbitrary: seen) (auto simp: Let_def)

definition version_ok :: "string \<Rightarrow> bool" where
  "version_ok s \<longleftrightarrow> s \<noteq> [] \<and> length s \<le> 64 \<and> list_all (\<lambda>c. 33 \<le> code c \<and> code c \<le> 126) s"

lemma validateVersion_None: "validateVersion f s = None \<longleftrightarrow> version_ok s"
  by (auto simp: validateVersion_def version_ok_def maxVersionLen_def list_all_iff list_ex_iff not_le not_less)

text \<open>The type of a valid recipe.\<close>

definition recipe_ok :: "Recipe \<Rightarrow> bool" where
  "recipe_ok r \<longleftrightarrow>
     schemaVersion r = 1 \<and> profile r = ''go-chi-postgres-svelte'' \<and>
     set (modules r) \<subseteq> set Modules \<and> distinct (modules r) \<and> version_ok (cliVersion r) \<and> version_ok (runtimeVersion r)"

lemma Validate_None: "Validate r = None \<longleftrightarrow> recipe_ok r"
proof -
  have "\<not> SchemaVersion < schemaVersion r \<and> \<not> schemaVersion r < 1 \<longleftrightarrow> schemaVersion r = 1"
    by (auto simp: SchemaVersion_def)
  then show ?thesis
    using check_modules_None [of "[]" "modules r"] validateVersion_None [of _ "cliVersion r"]
      validateVersion_None [of _ "runtimeVersion r"]
    by (auto simp: Validate_def recipe_ok_def Profiles_def ProfileGoChiPostgresSvelte_def split: option.split)
qed

lemma canonical_ok: "canonical r = Inr c \<longleftrightarrow> recipe_ok r \<and> c = r\<lparr>modules := sort (modules r)\<rparr>"
  by (auto simp: canonical_def Validate_None [symmetric] split: option.splits)

lemma sort_canonical:
  assumes "set ms \<subseteq> set Modules" and "distinct ms"
  shows "sort ms = filter (\<lambda>m. m \<in> set ms) Modules"
proof (rule sorted_distinct_set_unique)
  show "sorted (filter (\<lambda>m. m \<in> set ms) Modules)"
    by (intro sorted_wrt_filter) (simp add: module_defs less_eq_list_code less_char_def)
  show "distinct (filter (\<lambda>m. m \<in> set ms) Modules)" by (simp add: module_defs)
qed (use assms in auto)

section \<open>The round trip\<close>

lemma trim_right_visible: "s \<noteq> [] \<Longrightarrow> visible_char (hd s) \<Longrightarrow> trim_right s \<noteq> []"
proof (induction s rule: trim_right.induct)
  case (1 s)
  show ?case
  proof (cases "trailing_space s")
    case None
    then show ?thesis using 1 by (simp add: trim_right.simps [of s])
  next
    case (Some p)
    then have p: "has_suffix s p" "p \<in> set space_encodings" by (auto simp: trailing_space_def find_Some_iff)
    then have "p \<noteq> []" "\<not> visible_char (hd p)" using space_not_visible by (auto simp: list_all_iff)
    then have "length p < length s" using p(1) 1(3) by (cases "length p = length s") (auto simp: has_suffix_def)
    then have "take (length s - length p) s \<noteq> []" "hd (take (length s - length p) s) = hd s" using 1(2) by auto
    then show ?thesis using 1 Some by (simp add: trim_right.simps [of s])
  qed
qed

lemma trim_space_visible_head: "visible_char c \<Longrightarrow> trim_space (c # cs) \<noteq> []"
proof -
  assume v: "visible_char c"
  have "leading_space (c # cs) = None"
    using space_not_visible v unfolding leading_space_def find_None_iff list_all_iff
    by (metis has_prefix_iff append_eq_Cons_conv list.sel(1))
  then show ?thesis
    using trim_right_visible [of "c # cs"] v by (simp add: trim_space_def trim_left.simps [of "c # cs"])
qed

lemma trim_left_ws: "skip_ws s = [] \<Longrightarrow> trim_left s = []"
proof (induction s)
  case Nil
  show ?case by (subst trim_left.simps) (simp add: leading_space_def space_encodings_def has_prefix_def)
next
  case (Cons c cs)
  then have "code c \<in> {32, 9, 10, 13}" "skip_ws cs = []"
    by (auto simp: skip_ws_def is_json_space_def split: if_splits)
  moreover from this(1) have "c = CHR 0x20 \<or> c = CHR 0x09 \<or> c = CHR 0x0A \<or> c = CHR 0x0D"
    unfolding code_inject [symmetric] by (simp add: code_def)
  then have "leading_space (c # cs) = Some [c]"
    by (elim disjE) (simp_all add: leading_space_def space_encodings_def has_prefix_def)
  ultimately show ?case using Cons.IH by (subst trim_left.simps) simp
qed

text \<open>The index after the emptiness test is in range: no document makes the decoder panic.\<close>

lemma Unmarshal_no_panic: "Unmarshal data \<noteq> Inl Index_panic"
proof -
  have "trim_space data = []" if "skip_ws data = []"
    using trim_left_ws [OF that] by (simp add: trim_space_def) (subst trim_right.simps,
      simp add: trailing_space_def space_encodings_def has_suffix_def)
  moreover have "canonical r \<noteq> Inl Index_panic" for r
  proof -
    have "check_modules seen ms \<noteq> Some Index_panic" for seen ms
      by (induction ms arbitrary: seen) (auto simp: Let_def)
    then show ?thesis
      by (auto simp: canonical_def Validate_def validateVersion_def split: option.splits if_splits)
  qed
  moreover have "probe_members cur kvs \<noteq> Inl Index_panic" for cur kvs
    by (induction cur kvs rule: probe_members.induct) (auto simp: type_error_def split: option.splits sum.splits)
  moreover have "decode_members w kvs \<noteq> Inl Index_panic" for w kvs
    by (induction w kvs rule: decode_members.induct) (auto simp: type_error_def split: option.splits sum.splits)
  moreover have "fromWire w \<noteq> Inl Index_panic" for w by (auto simp: fromWire_def split: option.splits)
  moreover have "decodeError data f \<noteq> Index_panic" for f by (cases f) (simp_all add: decodeError_def)
  ultimately show ?thesis
    by (auto simp: Unmarshal_def split: list.split sum.split option.split)
qed

lemma modules_valid: "m \<in> set Modules \<Longrightarrow> list_all is_ascii m"
  by (auto simp: module_defs char_class_defs)

lemma version_ascii: "version_ok s \<Longrightarrow> list_all is_ascii s"
  by (auto simp: version_ok_def list_all_iff is_ascii_def)

lemma decode_elems_strings: "decode_elems [] (map JStr ss) = Inr ss"
  by (induction ss) simp_all

lemma recipe_json_ok:
  assumes "recipe_ok r"
  shows "json_ok (recipe_json r)" "height (recipe_json r) \<le> 2"
proof -
  have "list_all is_ascii (profile r)" using assms by (simp add: recipe_ok_def char_class_defs)
  then show "json_ok (recipe_json r)"
    using assms modules_valid version_ascii
    by (auto simp: recipe_json_def recipe_ok_def intro!: valid_ascii) (auto simp: char_class_defs)
  have "fold max (map (height \<circ> JStr) ms) 0 = 0" for ms by (induction ms) simp_all
  then show "height (recipe_json r) \<le> 2" by (simp add: recipe_json_def)
qed

lemma decode_recipe_json:
  assumes "schemaVersion r = 1"
  shows "probe_members None (object_members (recipe_json r)) = Inr (Some 1)"
    "\<exists>w. decode_members empty_wire (object_members (recipe_json r)) = Inr w \<and> fromWire w = Inr r"
proof -
  have keys: "lookup_field [''schemaVersion''] ''schemaVersion'' = Some ''schemaVersion''"
    "lookup_field [''schemaVersion''] ''profile'' = None" "lookup_field [''schemaVersion''] ''modules'' = None"
    "lookup_field [''schemaVersion''] ''cliVersion'' = None" "lookup_field [''schemaVersion''] ''runtimeVersion'' = None"
    by (simp_all add: lookup_field_def upper_char_def is_lower_def code_def)
  have one: "atoi (show_int 1) = Some 1"
    by (simp add: show_int_def)
  show "probe_members None (object_members (recipe_json r)) = Inr (Some 1)"
    using assms one by (simp add: recipe_json_def object_members_def keys decode_int_def)
  have fs: "lookup_field fieldNames ''schemaVersion'' = Some ''schemaVersion''"
    "lookup_field fieldNames ''profile'' = Some ''profile''" "lookup_field fieldNames ''modules'' = Some ''modules''"
    "lookup_field fieldNames ''cliVersion'' = Some ''cliVersion''"
    "lookup_field fieldNames ''runtimeVersion'' = Some ''runtimeVersion''"
    by (simp_all add: lookup_field_def fieldNames_def)
  show "\<exists>w. decode_members empty_wire (object_members (recipe_json r)) = Inr w \<and> fromWire w = Inr r"
    using assms one
    by (cases "modules r = []")
      (simp_all add: recipe_json_def object_members_def fs decode_field_def decode_int_def
        decode_text_def decode_slice_def decode_elems_strings empty_wire_def fromWire_def)
qed

lemma Unmarshal_Marshal:
  assumes "Marshal r = Inr d"
  shows "Unmarshal d = Inr (r\<lparr>modules := sort (modules r)\<rparr>)"
proof -
  let ?c = "r\<lparr>modules := sort (modules r)\<rparr>"
  from assms have r: "recipe_ok r" and d: "d = write_value 0 (recipe_json ?c) @ [CHR 0x0A]"
    by (auto simp: Marshal_def canonical_ok split: sum.splits)
  then have c: "recipe_ok ?c" by (simp add: recipe_ok_def)
  have "height (recipe_json ?c) \<le> maxNestingDepth"
    using recipe_json_ok(2) [OF c] by (simp add: maxNestingDepth_def)
  then have read: "read_json d = Inr (recipe_json ?c, [CHR 0x0A])"
    using read_written recipe_json_ok(1) [OF c] by (simp add: d ends_value_def char_class_defs)
  obtain cs where cs: "d = CHR ''{'' # cs" by (simp add: d recipe_json_def)
  have "trim_space d \<noteq> []" "skip_ws d = d" "skip_ws [CHR 0x0A] = []"
    by (simp_all add: cs trim_space_visible_head visible_char_def code_def is_json_space_def skip_ws_def)
  moreover have "canonical ?c = Inr ?c" using c by (simp add: canonical_ok sorted_sort_id)
  moreover have "schemaVersion ?c = 1" using r by (simp add: recipe_ok_def)
  ultimately show ?thesis
    using read decode_recipe_json [of ?c] cs by (auto simp: Unmarshal_def SchemaVersion_def)
qed


definition sample_recipe :: Recipe where
  "sample_recipe =
     \<lparr>schemaVersion = 1, profile = ''go-chi-postgres-svelte'', modules = [''uploads'', ''totp''],
      cliVersion = ''v1.2.3'', runtimeVersion = ''dev''\<rparr>"

lemma sample_recipe_ok: "recipe_ok sample_recipe"
  by (simp add: sample_recipe_def recipe_ok_def version_ok_def module_defs code_def)

lemma Marshal_ok: "recipe_ok r \<Longrightarrow> \<exists>d. Marshal r = Inr d"
  by (auto simp: Marshal_def canonical_ok split: sum.split) (metis canonical_ok Inr_not_Inl)


text \<open>
  C28: Whatever bytes \<open>Unmarshal\<close> accepts, the recipe it returns is well-typed: schema version 1, the one
  profile, known modules sorted and without duplicates, and printable, bounded version strings; and
  \<open>Marshal\<close> accepts it again, so every accepted document has a canonical form.
\<close>

theorem Unmarshal_typed:
  assumes "Unmarshal d = Inr r"
  shows "recipe_ok r \<and> sorted (modules r) \<and> (\<exists>d'. Marshal r = Inr d' \<and> Unmarshal d' = Inr r)"
proof -
  from assms obtain q where "canonical q = Inr r"
    by (auto simp: Unmarshal_def split: if_splits list.splits sum.splits prod.splits)
  then have ok: "recipe_ok r" and s: "sorted (modules r)" by (auto simp: canonical_ok recipe_ok_def)
  then obtain d' where d': "Marshal r = Inr d'" using Marshal_ok by blast
  then have "Unmarshal d' = Inr r" using Unmarshal_Marshal [OF d'] s by (simp add: sorted_sort_id)
  then show ?thesis using ok s d' by blast
qed

theorem Unmarshal_typed_witness:
  "\<exists>d r. Unmarshal d = Inr r \<and> recipe_ok r \<and> sorted (modules r) \<and> (\<exists>d'. Marshal r = Inr d' \<and> Unmarshal d' = Inr r)"
proof -
  obtain d where "Marshal sample_recipe = Inr d" using Marshal_ok [OF sample_recipe_ok] by blast
  from Unmarshal_typed [OF Unmarshal_Marshal [OF this]] Unmarshal_Marshal [OF this] show ?thesis by blast
qed

text \<open>Two valid recipes have the same bytes exactly when they differ at most in the order of their modules.\<close>

lemma Marshal_same:
  assumes "recipe_ok r" and "recipe_ok q"
  shows "Marshal r = Marshal q \<longleftrightarrow> r\<lparr>modules := []\<rparr> = q\<lparr>modules := []\<rparr> \<and> set (modules r) = set (modules q)"
    (is "?L \<longleftrightarrow> ?R")
proof
  assume ?L
  obtain d where "Marshal r = Inr d" using Marshal_ok [OF assms(1)] by blast
  with \<open>?L\<close> have e: "r\<lparr>modules := sort (modules r)\<rparr> = q\<lparr>modules := sort (modules q)\<rparr>"
    using Unmarshal_Marshal [of r d] Unmarshal_Marshal [of q d] by simp
  then have "sort (modules r) = sort (modules q)" "r\<lparr>modules := []\<rparr> = q\<lparr>modules := []\<rparr>"
    by (cases r; cases q; simp)+
  then show ?R by (metis set_sort)
next
  assume R: ?R
  have "sort (modules r) = sort (modules q)"
    using assms R by (simp add: recipe_ok_def sort_canonical)
  then have "r\<lparr>modules := sort (modules r)\<rparr> = q\<lparr>modules := sort (modules q)\<rparr>"
    using R by (cases r; cases q; simp)
  then have "canonical r = canonical q" using assms by (metis canonical_ok)
  then show ?L by (simp add: Marshal_def)
qed

text \<open>
  A repeated key is not refused, in any spelling: the later one wins, and a \<open>null\<close> inside it keeps the
  element the earlier one left there.
\<close>

lemma repeated_key_overrides:
  "decode_members w [(''modules'', JArr [JStr ''totp'']), (''MODULES'', JArr [])] = Inr (w\<lparr>w_modules := Some ([], [])\<rparr>)"
  "decode_members (w\<lparr>w_modules := None\<rparr>) [(''modules'', JArr [JStr ''totp'']), (''modules'', JArr [JNull])] =
     Inr (w\<lparr>w_modules := Some ([''totp''], [])\<rparr>)"
proof -
  have keys: "lookup_field fieldNames ''modules'' = Some ''modules''" "lookup_field fieldNames ''MODULES'' = Some ''modules''"
    by (simp_all add: lookup_field_def fieldNames_def) code_simp
  show "decode_members w [(''modules'', JArr [JStr ''totp'']), (''MODULES'', JArr [])] = Inr (w\<lparr>w_modules := Some ([], [])\<rparr>)"
    "decode_members (w\<lparr>w_modules := None\<rparr>) [(''modules'', JArr [JStr ''totp'']), (''modules'', JArr [JNull])] =
     Inr (w\<lparr>w_modules := Some ([''totp''], [])\<rparr>)"
    by (simp_all add: keys decode_field_def decode_slice_def)
qed

end
