(* ===== verification/Manifest.thy ===== *)
theory Manifest
  imports Recipe
begin

text \<open>
  The table of \<open>internal/generator/manifest.go\<close>: every template \<open>nise new\<close> renders, the path it is
  written to, its owner, whether it is copied raw and the module it belongs to.  An output path is itself
  a template.  The rules that read ownership from a path follow.
\<close>

section \<open>Ownership\<close>

definition OwnerNise :: string where "OwnerNise = ''nise''"
definition OwnerApp :: string where "OwnerApp = ''app''"

definition NiseOwnedHeader :: string where "NiseOwnedHeader = ''Code generated by nise; DO NOT EDIT.''"

definition AppOwnedHeader :: string where
  "AppOwnedHeader = ''Generated once by nise; owned by this application. Nise will not overwrite it.''"

definition OpenAPIGeneratedPath :: string where
  "OpenAPIGeneratedPath = ''internal/platform/httpapi/openapigen/openapi.gen.go''"

definition OpenAPITypescriptGeneratedHeader :: string where
  "OpenAPITypescriptGeneratedHeader = ''This file was auto-generated by openapi-typescript.''"

definition OpenAPITypescriptGeneratedPath :: string where
  "OpenAPITypescriptGeneratedPath = ''frontend/src/lib/api/schema.d.ts''"

definition SQLCGeneratedHeader :: string where "SQLCGeneratedHeader = ''Code generated by sqlc. DO NOT EDIT.''"

text \<open>A path of the form \<open>internal/features/F/dir/name\<close> with the given directory and suffix.\<close>

definition feature_path :: "string \<Rightarrow> string \<Rightarrow> string \<Rightarrow> bool" where
  "feature_path dir suffix path \<longleftrightarrow>
     (case cut_prefix path ''internal/features/'' of
        None \<Rightarrow> False
      | Some remainder \<Rightarrow>
          has_suffix path suffix \<and>
          (let parts = split_on (CHR ''/'') remainder in
           length parts = 3 \<and> parts ! 0 \<noteq> [] \<and> parts ! 1 = dir))"

definition IsFeatureQueryPath :: "string \<Rightarrow> bool" where
  "IsFeatureQueryPath path = feature_path ''queries'' ''.sql'' path"

definition IsSQLCGeneratedPath :: "string \<Rightarrow> bool" where
  "IsSQLCGeneratedPath path = feature_path ''store'' ''.go'' path"

definition IsMailTemplatePath :: "string \<Rightarrow> bool" where
  "IsMailTemplatePath path \<longleftrightarrow>
     (case cut_prefix path ''internal/platform/mail/templates/'' of
        None \<Rightarrow> False
      | Some remainder \<Rightarrow> remainder \<noteq> [] \<and> CHR ''/'' \<notin> set remainder)"

section \<open>The table\<close>

definition templateRoot :: string where "templateRoot = ''new''"

record templateFile =
  Template :: string
  Output :: string
  Owner :: string
  Raw :: bool
  Module :: string

definition tf :: "string \<Rightarrow> string \<Rightarrow> string \<Rightarrow> bool \<Rightarrow> string \<Rightarrow> templateFile" where
  "tf t out owner raw m = \<lparr>Template = t, Output = out, Owner = owner, Raw = raw, Module = m\<rparr>"

definition templateFiles_1 :: "templateFile list" where
  "templateFiles_1 =
     [tf ''dockerignore.tmpl'' ''.dockerignore'' OwnerApp False [],
      tf ''env.example.tmpl'' ''.env.example'' OwnerApp False [],
      tf ''gitignore.tmpl'' ''.gitignore'' OwnerApp False [],
      tf ''golangci.yml.tmpl'' ''.golangci.yml'' OwnerApp False [],
      tf ''Makefile.tmpl'' ''Makefile'' OwnerApp False [],
      tf ''README.md.tmpl'' ''README.md'' OwnerApp False [],
      tf ''api/README.md.tmpl'' ''api/README.md'' OwnerApp False [],
      tf ''api/oapi-codegen.yaml.tmpl'' ''api/oapi-codegen.yaml'' OwnerApp True [],
      tf ''api/openapi.yaml.tmpl'' ''api/openapi.yaml'' OwnerApp False [],
      tf ''cmd/main.go.tmpl'' ''cmd/{{.AppName}}/main.go'' OwnerApp False [],
      tf ''cmd/main_test.go.tmpl'' ''cmd/{{.AppName}}/main_test.go'' OwnerApp False [],
      tf ''db/README.md.tmpl'' ''db/README.md'' OwnerApp False [],
      tf ''db/embed.gen.go.tmpl'' ''db/embed.gen.go'' OwnerNise False [],
      tf ''db/embed_test.go.tmpl'' ''db/embed_test.go'' OwnerApp False [],
      tf ''db/migrations/00001_baseline.sql.tmpl'' ''db/migrations/00001_baseline.sql'' OwnerApp False [],
      tf ''db/migrations/00002_idempotency_keys.sql.tmpl'' ''db/migrations/00002_idempotency_keys.sql'' OwnerApp False [],
      tf ''db/migrations/00003_identity.sql.tmpl'' ''db/migrations/00003_identity.sql'' OwnerApp False [],
      tf ''db/migrations/00004_audit.sql.tmpl'' ''db/migrations/00004_audit.sql'' OwnerApp False [],
      tf ''db/migrations/00005_authorization.sql.tmpl'' ''db/migrations/00005_authorization.sql'' OwnerApp False [],
      tf ''db/migrations/00006_invitations.sql.tmpl'' ''db/migrations/00006_invitations.sql'' OwnerApp False [],
      tf ''db/migrations/00007_throttle.sql.tmpl'' ''db/migrations/00007_throttle.sql'' OwnerApp False [],
      tf ''db/migrations/00008_reauthentication.sql.tmpl'' ''db/migrations/00008_reauthentication.sql'' OwnerApp False [],
      tf ''db/migrations/00009_jobs.sql.tmpl'' ''db/migrations/00009_jobs.sql'' OwnerApp False [],
      tf ''db/migrations/module_notifications.sql.tmpl'' ''db/migrations/{{.NotificationsMigration}}_notifications.sql'' OwnerApp False ModuleNotifications,
      tf ''db/migrations/module_organizations.sql.tmpl'' ''db/migrations/{{.OrganizationsMigration}}_organizations.sql'' OwnerApp False ModuleOrganizations,
      tf ''db/migrations/module_totp.sql.tmpl'' ''db/migrations/{{.TOTPMigration}}_totp.sql'' OwnerApp False ModuleTOTP,
      tf ''db/migrations/module_uploads.sql.tmpl'' ''db/migrations/{{.UploadsMigration}}_uploads.sql'' OwnerApp False ModuleUploads,
      tf ''deploy/Dockerfile.tmpl'' ''deploy/Dockerfile'' OwnerApp False [],
      tf ''deploy/README.md.tmpl'' ''deploy/README.md'' OwnerApp False [],
      tf ''deploy/coolify.md.tmpl'' ''deploy/coolify.md'' OwnerApp False []]"

definition templateFiles_2 :: "templateFile list" where
  "templateFiles_2 =
     [tf ''deploy/compose.yaml.tmpl'' ''deploy/compose.yaml'' OwnerApp False [],
      tf ''deploy/initdb/00-app-role.sh.tmpl'' ''deploy/initdb/00-app-role.sh'' OwnerApp False ModuleOrganizations,
      tf ''frontend/README.md.tmpl'' ''frontend/README.md'' OwnerApp False [],
      tf ''frontend/gitignore.tmpl'' ''frontend/.gitignore'' OwnerApp False [],
      tf ''frontend/biome.jsonc.tmpl'' ''frontend/biome.jsonc'' OwnerApp True [],
      tf ''frontend/e2e/README.md.tmpl'' ''frontend/e2e/README.md'' OwnerApp False [],
      tf ''frontend/e2e/session.spec.ts.tmpl'' ''frontend/e2e/session.spec.ts'' OwnerApp False [],
      tf ''frontend/e2e/sign-in.spec.ts.tmpl'' ''frontend/e2e/sign-in.spec.ts'' OwnerApp False [],
      tf ''frontend/package.json.tmpl'' ''frontend/package.json'' OwnerApp False [],
      tf ''frontend/playwright.config.ts.tmpl'' ''frontend/playwright.config.ts'' OwnerApp False [],
      tf ''frontend/scripts/check-contrast.mjs.tmpl'' ''frontend/scripts/check-contrast.mjs'' OwnerApp False [],
      tf ''frontend/scripts/check-runes.mjs.tmpl'' ''frontend/scripts/check-runes.mjs'' OwnerApp False [],
      tf ''frontend/src/app.css.tmpl'' ''frontend/src/app.css'' OwnerApp False [],
      tf ''frontend/src/browser-setup.ts.tmpl'' ''frontend/src/browser-setup.ts'' OwnerApp False [],
      tf ''frontend/src/app.d.ts.tmpl'' ''frontend/src/app.d.ts'' OwnerApp False [],
      tf ''frontend/src/app.html.tmpl'' ''frontend/src/app.html'' OwnerApp False [],
      tf ''frontend/src/lib/components/ThemeControl.svelte.tmpl'' ''frontend/src/lib/components/ThemeControl.svelte'' OwnerApp False [],
      tf ''frontend/src/lib/components/shell/AccountMenu.svelte.tmpl'' ''frontend/src/lib/components/shell/AccountMenu.svelte'' OwnerApp False [],
      tf ''frontend/src/lib/components/shell/AppShell.svelte.tmpl'' ''frontend/src/lib/components/shell/AppShell.svelte'' OwnerApp False [],
      tf ''frontend/src/lib/components/shell/Breadcrumbs.svelte.tmpl'' ''frontend/src/lib/components/shell/Breadcrumbs.svelte'' OwnerApp False [],
      tf ''frontend/src/lib/components/shell/NavDrawer.svelte.tmpl'' ''frontend/src/lib/components/shell/NavDrawer.svelte'' OwnerApp False [],
      tf ''frontend/src/lib/components/shell/Sidebar.svelte.tmpl'' ''frontend/src/lib/components/shell/Sidebar.svelte'' OwnerApp False [],
      tf ''frontend/src/lib/components/shell/SidebarNav.svelte.tmpl'' ''frontend/src/lib/components/shell/SidebarNav.svelte'' OwnerApp False [],
      tf ''frontend/src/lib/components/shell/TopBar.svelte.tmpl'' ''frontend/src/lib/components/shell/TopBar.svelte'' OwnerApp False [],
      tf ''frontend/src/lib/components/ui/Alert.svelte.tmpl'' ''frontend/src/lib/components/ui/Alert.svelte'' OwnerApp False [],
      tf ''frontend/src/lib/components/ui/Badge.svelte.tmpl'' ''frontend/src/lib/components/ui/Badge.svelte'' OwnerApp False [],
      tf ''frontend/src/lib/components/ui/Button.svelte.tmpl'' ''frontend/src/lib/components/ui/Button.svelte'' OwnerApp False [],
      tf ''frontend/src/lib/components/ui/Checkbox.svelte.tmpl'' ''frontend/src/lib/components/ui/Checkbox.svelte'' OwnerApp False [],
      tf ''frontend/src/lib/components/ui/DataTable.svelte.tmpl'' ''frontend/src/lib/components/ui/DataTable.svelte'' OwnerApp False [],
      tf ''frontend/src/lib/components/ui/ConfirmDialog.svelte.tmpl'' ''frontend/src/lib/components/ui/ConfirmDialog.svelte'' OwnerApp False []]"

definition templateFiles_3 :: "templateFile list" where
  "templateFiles_3 =
     [tf ''frontend/src/lib/components/ui/Dialog.svelte.tmpl'' ''frontend/src/lib/components/ui/Dialog.svelte'' OwnerApp False [],
      tf ''frontend/src/lib/components/ui/EmptyState.svelte.tmpl'' ''frontend/src/lib/components/ui/EmptyState.svelte'' OwnerApp False [],
      tf ''frontend/src/lib/components/ui/Field.browser.test.ts.tmpl'' ''frontend/src/lib/components/ui/Field.browser.test.ts'' OwnerApp False [],
      tf ''frontend/src/lib/components/ui/Field.svelte.tmpl'' ''frontend/src/lib/components/ui/Field.svelte'' OwnerApp False [],
      tf ''frontend/src/lib/components/ui/FieldProbe.svelte.tmpl'' ''frontend/src/lib/components/ui/FieldProbe.svelte'' OwnerApp False [],
      tf ''frontend/src/lib/components/ui/Icon.svelte.tmpl'' ''frontend/src/lib/components/ui/Icon.svelte'' OwnerApp False [],
      tf ''frontend/src/lib/components/ui/Input.svelte.tmpl'' ''frontend/src/lib/components/ui/Input.svelte'' OwnerApp False [],
      tf ''frontend/src/lib/components/ui/Pagination.svelte.tmpl'' ''frontend/src/lib/components/ui/Pagination.svelte'' OwnerApp False [],
      tf ''frontend/src/lib/components/ui/ProblemAlert.svelte.tmpl'' ''frontend/src/lib/components/ui/ProblemAlert.svelte'' OwnerApp False [],
      tf ''frontend/src/lib/components/ui/Select.svelte.tmpl'' ''frontend/src/lib/components/ui/Select.svelte'' OwnerApp False [],
      tf ''frontend/src/lib/components/ui/Skeleton.svelte.tmpl'' ''frontend/src/lib/components/ui/Skeleton.svelte'' OwnerApp False [],
      tf ''frontend/src/lib/components/ui/Spinner.svelte.tmpl'' ''frontend/src/lib/components/ui/Spinner.svelte'' OwnerApp False [],
      tf ''frontend/src/lib/components/ui/Table.svelte.tmpl'' ''frontend/src/lib/components/ui/Table.svelte'' OwnerApp False [],
      tf ''frontend/src/lib/components/ui/Textarea.svelte.tmpl'' ''frontend/src/lib/components/ui/Textarea.svelte'' OwnerApp False [],
      tf ''frontend/src/lib/components/ui/Toaster.svelte.tmpl'' ''frontend/src/lib/components/ui/Toaster.svelte'' OwnerApp False [],
      tf ''frontend/src/lib/components/ui/Tooltip.svelte.tmpl'' ''frontend/src/lib/components/ui/Tooltip.svelte'' OwnerApp False [],
      tf ''frontend/src/lib/components/ui/toast.svelte.ts.tmpl'' ''frontend/src/lib/components/ui/toast.svelte.ts'' OwnerApp False [],
      tf ''frontend/src/lib/components/ui/toast.test.ts.tmpl'' ''frontend/src/lib/components/ui/toast.test.ts'' OwnerApp False [],
      tf ''frontend/src/lib/components/ui/Menu.browser.test.ts.tmpl'' ''frontend/src/lib/components/ui/Menu.browser.test.ts'' OwnerApp False [],
      tf ''frontend/src/lib/components/ui/Menu.svelte.tmpl'' ''frontend/src/lib/components/ui/Menu.svelte'' OwnerApp False [],
      tf ''frontend/src/lib/components/ui/MenuProbe.svelte.tmpl'' ''frontend/src/lib/components/ui/MenuProbe.svelte'' OwnerApp False [],
      tf ''frontend/src/lib/components/ui/icons.ts.tmpl'' ''frontend/src/lib/components/ui/icons.ts'' OwnerApp False [],
      tf ''frontend/messages/en.json.tmpl'' ''frontend/messages/en.json'' OwnerApp False [],
      tf ''frontend/project.inlang/settings.json.tmpl'' ''frontend/project.inlang/settings.json'' OwnerApp True [],
      tf ''frontend/src/lib/components/LocaleControl.svelte.tmpl'' ''frontend/src/lib/components/LocaleControl.svelte'' OwnerApp False [],
      tf ''frontend/src/lib/a11y.ts.tmpl'' ''frontend/src/lib/a11y.ts'' OwnerApp False [],
      tf ''frontend/src/lib/forms.svelte.ts.tmpl'' ''frontend/src/lib/forms.svelte.ts'' OwnerApp False [],
      tf ''frontend/src/lib/i18n.ts.tmpl'' ''frontend/src/lib/i18n.ts'' OwnerApp False [],
      tf ''frontend/src/lib/forms.test.ts.tmpl'' ''frontend/src/lib/forms.test.ts'' OwnerApp False [],
      tf ''frontend/src/lib/navigation.ts.tmpl'' ''frontend/src/lib/navigation.ts'' OwnerApp False []]"

definition templateFiles_4 :: "templateFile list" where
  "templateFiles_4 =
     [tf ''frontend/src/lib/navigation.test.ts.tmpl'' ''frontend/src/lib/navigation.test.ts'' OwnerApp False [],
      tf ''frontend/src/lib/session.svelte.ts.tmpl'' ''frontend/src/lib/session.svelte.ts'' OwnerApp False [],
      tf ''frontend/src/lib/session.test.ts.tmpl'' ''frontend/src/lib/session.test.ts'' OwnerApp False [],
      tf ''frontend/src/lib/shell.svelte.ts.tmpl'' ''frontend/src/lib/shell.svelte.ts'' OwnerApp False [],
      tf ''frontend/src/lib/table/list-state.ts.tmpl'' ''frontend/src/lib/table/list-state.ts'' OwnerApp False [],
      tf ''frontend/src/lib/table/list-state.test.ts.tmpl'' ''frontend/src/lib/table/list-state.test.ts'' OwnerApp False [],
      tf ''frontend/src/lib/theme.svelte.ts.tmpl'' ''frontend/src/lib/theme.svelte.ts'' OwnerApp False [],
      tf ''frontend/src/lib/theme.test.ts.tmpl'' ''frontend/src/lib/theme.test.ts'' OwnerApp False [],
      tf ''frontend/src/lib/api/client.test.ts.tmpl'' ''frontend/src/lib/api/client.test.ts'' OwnerApp False [],
      tf ''frontend/src/lib/api/client.ts.tmpl'' ''frontend/src/lib/api/client.ts'' OwnerApp False [],
      tf ''frontend/src/lib/api/problem.ts.tmpl'' ''frontend/src/lib/api/problem.ts'' OwnerApp False [],
      tf ''frontend/src/lib/api/problem.test.ts.tmpl'' ''frontend/src/lib/api/problem.test.ts'' OwnerApp False [],
      tf ''frontend/src/lib/api/schema.d.ts.tmpl'' OpenAPITypescriptGeneratedPath OwnerNise False [],
      tf ''frontend/src/routes/+error.svelte.tmpl'' ''frontend/src/routes/+error.svelte'' OwnerApp False [],
      tf ''frontend/src/routes/+layout.svelte.tmpl'' ''frontend/src/routes/+layout.svelte'' OwnerApp False [],
      tf ''frontend/src/routes/+layout.ts.tmpl'' ''frontend/src/routes/+layout.ts'' OwnerApp False [],
      tf ''frontend/src/routes/(app)/+layout.svelte.tmpl'' ''frontend/src/routes/(app)/+layout.svelte'' OwnerApp False [],
      tf ''frontend/src/routes/(app)/+layout.ts.tmpl'' ''frontend/src/routes/(app)/+layout.ts'' OwnerApp False [],
      tf ''frontend/src/routes/(app)/account/+page.svelte.tmpl'' ''frontend/src/routes/(app)/account/+page.svelte'' OwnerApp False [],
      tf ''frontend/src/routes/(app)/sign-out/+page.svelte.tmpl'' ''frontend/src/routes/(app)/sign-out/+page.svelte'' OwnerApp False [],
      tf ''frontend/src/routes/(public)/+layout.svelte.tmpl'' ''frontend/src/routes/(public)/+layout.svelte'' OwnerApp False [],
      tf ''frontend/src/routes/(public)/invitations/accept/+page.svelte.tmpl'' ''frontend/src/routes/(public)/invitations/accept/+page.svelte'' OwnerApp False [],
      tf ''frontend/src/routes/(public)/sign-in/+page.svelte.tmpl'' ''frontend/src/routes/(public)/sign-in/+page.svelte'' OwnerApp False [],
      tf ''frontend/src/routes/(public)/sign-in/second-factor/+page.svelte.tmpl'' ''frontend/src/routes/(public)/sign-in/second-factor/+page.svelte'' OwnerApp False [],
      tf ''frontend/src/routes/(app)/+page.svelte.tmpl'' ''frontend/src/routes/(app)/+page.svelte'' OwnerApp False [],
      tf ''frontend/src/routes/(app)/settings/+page.svelte.tmpl'' ''frontend/src/routes/(app)/settings/+page.svelte'' OwnerApp False [],
      tf ''frontend/src/routes/(app)/settings/about/+page.svelte.tmpl'' ''frontend/src/routes/(app)/settings/about/+page.svelte'' OwnerApp False [],
      tf ''frontend/static/favicon.svg.tmpl'' ''frontend/static/favicon.svg'' OwnerApp False [],
      tf ''frontend/svelte.config.js.tmpl'' ''frontend/svelte.config.js'' OwnerApp False [],
      tf ''frontend/tsconfig.json.tmpl'' ''frontend/tsconfig.json'' OwnerApp False []]"

definition templateFiles_5 :: "templateFile list" where
  "templateFiles_5 =
     [tf ''frontend/vite.config.ts.tmpl'' ''frontend/vite.config.ts'' OwnerApp False [],
      tf ''frontend/vitest.config.ts.tmpl'' ''frontend/vitest.config.ts'' OwnerApp False [],
      tf ''go.mod.tmpl'' ''go.mod'' OwnerApp False [],
      tf ''internal/app/app.go.tmpl'' ''internal/app/app.go'' OwnerApp False [],
      tf ''internal/app/backup.go.tmpl'' ''internal/app/backup.go'' OwnerApp False [],
      tf ''internal/app/backup_test.go.tmpl'' ''internal/app/backup_test.go'' OwnerApp False [],
      tf ''internal/app/database.go.tmpl'' ''internal/app/database.go'' OwnerApp False [],
      tf ''internal/app/database_runtime.go.tmpl'' ''internal/app/database_runtime.go'' OwnerApp False [],
      tf ''internal/app/jobs.go.tmpl'' ''internal/app/jobs.go'' OwnerApp False [],
      tf ''internal/app/mail.go.tmpl'' ''internal/app/mail.go'' OwnerApp False [],
      tf ''internal/app/notifications.go.tmpl'' ''internal/app/notifications.go'' OwnerApp False ModuleNotifications,
      tf ''internal/app/storage.go.tmpl'' ''internal/app/storage.go'' OwnerApp False ModuleUploads,
      tf ''internal/app/modes.go.tmpl'' ''internal/app/modes.go'' OwnerApp False [],
      tf ''internal/app/enroll.go.tmpl'' ''internal/app/enroll.go'' OwnerApp False [],
      tf ''internal/app/password.go.tmpl'' ''internal/app/password.go'' OwnerApp False [],
      tf ''internal/app/modules.gen.go.tmpl'' ''internal/app/modules.gen.go'' OwnerNise False [],
      tf ''internal/app/secondfactor.go.tmpl'' ''internal/app/secondfactor.go'' OwnerApp False [],
      tf ''internal/features/README.md.tmpl'' ''internal/features/README.md'' OwnerApp False [],
      tf ''internal/features/auth/queries/invitations.sql.tmpl'' ''internal/features/auth/queries/invitations.sql'' OwnerApp False [],
      tf ''internal/features/auth/queries/sessions.sql.tmpl'' ''internal/features/auth/queries/sessions.sql'' OwnerApp False [],
      tf ''internal/features/auth/queries/users.sql.tmpl'' ''internal/features/auth/queries/users.sql'' OwnerApp False [],
      tf ''internal/features/audit/audit.go.tmpl'' ''internal/features/audit/audit.go'' OwnerApp False [],
      tf ''internal/features/audit/audit_test.go.tmpl'' ''internal/features/audit/audit_test.go'' OwnerApp False [],
      tf ''internal/features/audit/queries/audit.sql.tmpl'' ''internal/features/audit/queries/audit.sql'' OwnerApp False [],
      tf ''internal/features/audit/sqlc.yaml.tmpl'' ''internal/features/audit/sqlc.yaml'' OwnerApp True [],
      tf ''internal/features/audit/store/db.go.tmpl'' ''internal/features/audit/store/db.go'' OwnerNise True [],
      tf ''internal/features/audit/store/models.go.tmpl'' ''internal/features/audit/store/models.go'' OwnerNise True [],
      tf ''internal/features/audit/store/querier.go.tmpl'' ''internal/features/audit/store/querier.go'' OwnerNise True [],
      tf ''internal/features/audit/store/audit.sql.go.tmpl'' ''internal/features/audit/store/audit.sql.go'' OwnerNise True [],
      tf ''internal/features/auth/accounts.go.tmpl'' ''internal/features/auth/accounts.go'' OwnerApp False []]"

definition templateFiles_6 :: "templateFile list" where
  "templateFiles_6 =
     [tf ''internal/features/auth/auth_test.go.tmpl'' ''internal/features/auth/auth_test.go'' OwnerApp False [],
      tf ''internal/features/auth/budget_test.go.tmpl'' ''internal/features/auth/budget_test.go'' OwnerApp False [],
      tf ''internal/features/auth/invitations.go.tmpl'' ''internal/features/auth/invitations.go'' OwnerApp False [],
      tf ''internal/features/auth/invitations_test.go.tmpl'' ''internal/features/auth/invitations_test.go'' OwnerApp False [],
      tf ''internal/features/auth/login.go.tmpl'' ''internal/features/auth/login.go'' OwnerApp False [],
      tf ''internal/features/auth/login_test.go.tmpl'' ''internal/features/auth/login_test.go'' OwnerApp False [],
      tf ''internal/features/auth/reauthentication_test.go.tmpl'' ''internal/features/auth/reauthentication_test.go'' OwnerApp False [],
      tf ''internal/features/auth/secondfactor.go.tmpl'' ''internal/features/auth/secondfactor.go'' OwnerApp False [],
      tf ''internal/features/auth/secondfactor_test.go.tmpl'' ''internal/features/auth/secondfactor_test.go'' OwnerApp False [],
      tf ''internal/features/auth/roles.go.tmpl'' ''internal/features/auth/roles.go'' OwnerApp False [],
      tf ''internal/features/auth/roles_test.go.tmpl'' ''internal/features/auth/roles_test.go'' OwnerApp False [],
      tf ''internal/features/auth/rotation_test.go.tmpl'' ''internal/features/auth/rotation_test.go'' OwnerApp False [],
      tf ''internal/features/auth/sessions.go.tmpl'' ''internal/features/auth/sessions.go'' OwnerApp False [],
      tf ''internal/features/auth/throttle_test.go.tmpl'' ''internal/features/auth/throttle_test.go'' OwnerApp False [],
      tf ''internal/features/auth/sqlc.yaml.tmpl'' ''internal/features/auth/sqlc.yaml'' OwnerApp True [],
      tf ''internal/features/auth/store/db.go.tmpl'' ''internal/features/auth/store/db.go'' OwnerNise True [],
      tf ''internal/features/auth/store/invitations.sql.go.tmpl'' ''internal/features/auth/store/invitations.sql.go'' OwnerNise True [],
      tf ''internal/features/auth/store/models.go.tmpl'' ''internal/features/auth/store/models.go'' OwnerNise True [],
      tf ''internal/features/auth/store/querier.go.tmpl'' ''internal/features/auth/store/querier.go'' OwnerNise True [],
      tf ''internal/features/auth/store/sessions.sql.go.tmpl'' ''internal/features/auth/store/sessions.sql.go'' OwnerNise True [],
      tf ''internal/features/auth/store/users.sql.go.tmpl'' ''internal/features/auth/store/users.sql.go'' OwnerNise True [],
      tf ''internal/platform/config/backup.go.tmpl'' ''internal/platform/config/backup.go'' OwnerApp False [],
      tf ''internal/platform/config/config.go.tmpl'' ''internal/platform/config/config.go'' OwnerApp False [],
      tf ''internal/platform/config/config_test.go.tmpl'' ''internal/platform/config/config_test.go'' OwnerApp False [],
      tf ''internal/platform/database/README.md.tmpl'' ''internal/platform/database/README.md'' OwnerApp False [],
      tf ''internal/platform/database/compatibility.go.tmpl'' ''internal/platform/database/compatibility.go'' OwnerApp False [],
      tf ''internal/platform/database/compatibility_test.go.tmpl'' ''internal/platform/database/compatibility_test.go'' OwnerApp False [],
      tf ''internal/platform/database/dbtest/database.go.tmpl'' ''internal/platform/database/dbtest/database.go'' OwnerApp False [],
      tf ''internal/platform/database/dbtest/database_test.go.tmpl'' ''internal/platform/database/dbtest/database_test.go'' OwnerApp False [],
      tf ''internal/platform/database/directpgx_test.go.tmpl'' ''internal/platform/database/directpgx_test.go'' OwnerApp False []]"

definition templateFiles_7 :: "templateFile list" where
  "templateFiles_7 =
     [tf ''internal/platform/database/migrate.go.tmpl'' ''internal/platform/database/migrate.go'' OwnerApp False [],
      tf ''internal/platform/database/migrate_test.go.tmpl'' ''internal/platform/database/migrate_test.go'' OwnerApp False [],
      tf ''internal/platform/database/migration_matrix_test.go.tmpl'' ''internal/platform/database/migration_matrix_test.go'' OwnerApp False [],
      tf ''internal/platform/database/pool.go.tmpl'' ''internal/platform/database/pool.go'' OwnerApp False [],
      tf ''internal/platform/database/pool_test.go.tmpl'' ''internal/platform/database/pool_test.go'' OwnerApp False [],
      tf ''internal/platform/database/querytrace.go.tmpl'' ''internal/platform/database/querytrace.go'' OwnerApp False [],
      tf ''internal/platform/database/querytrace_test.go.tmpl'' ''internal/platform/database/querytrace_test.go'' OwnerApp False [],
      tf ''internal/platform/database/sqlcsafety/config.go.tmpl'' ''internal/platform/database/sqlcsafety/config.go'' OwnerApp False [],
      tf ''internal/platform/database/sqlcsafety/config_test.go.tmpl'' ''internal/platform/database/sqlcsafety/config_test.go'' OwnerApp False [],
      tf ''internal/platform/database/testdata/migration-upgrades/00001_baseline.sql.tmpl'' ''internal/platform/database/testdata/migration-upgrades/00001_baseline.sql'' OwnerApp False [],
      tf ''internal/platform/database/transaction.go.tmpl'' ''internal/platform/database/transaction.go'' OwnerApp False [],
      tf ''internal/platform/database/transaction_test.go.tmpl'' ''internal/platform/database/transaction_test.go'' OwnerApp False [],
      tf ''internal/platform/httpapi/api.go.tmpl'' ''internal/platform/httpapi/api.go'' OwnerApp False [],
      tf ''internal/platform/httpapi/api_test.go.tmpl'' ''internal/platform/httpapi/api_test.go'' OwnerApp False [],
      tf ''internal/platform/httpapi/httpjson/json.go.tmpl'' ''internal/platform/httpapi/httpjson/json.go'' OwnerApp False [],
      tf ''internal/platform/httpapi/httpjson/json_test.go.tmpl'' ''internal/platform/httpapi/httpjson/json_test.go'' OwnerApp False [],
      tf ''internal/platform/httpapi/openapigen/openapi.gen.go.tmpl'' OpenAPIGeneratedPath OwnerNise False [],
      tf ''internal/platform/httpapi/problem/problem.go.tmpl'' ''internal/platform/httpapi/problem/problem.go'' OwnerApp False [],
      tf ''internal/platform/httpapi/problem/problem_test.go.tmpl'' ''internal/platform/httpapi/problem/problem_test.go'' OwnerApp False [],
      tf ''internal/platform/httpapi/router.go.tmpl'' ''internal/platform/httpapi/router.go'' OwnerApp False [],
      tf ''internal/platform/httpapi/session.go.tmpl'' ''internal/platform/httpapi/session.go'' OwnerApp False [],
      tf ''internal/platform/httpapi/system.go.tmpl'' ''internal/platform/httpapi/system.go'' OwnerApp False [],
      tf ''internal/platform/httpapi/session_test.go.tmpl'' ''internal/platform/httpapi/session_test.go'' OwnerApp False [],
      tf ''internal/platform/httpapi/router_test.go.tmpl'' ''internal/platform/httpapi/router_test.go'' OwnerApp False [],
      tf ''internal/platform/httpapi/transport_test.go.tmpl'' ''internal/platform/httpapi/transport_test.go'' OwnerApp False [],
      tf ''internal/features/mfa/mfa.go.tmpl'' ''internal/features/mfa/mfa.go'' OwnerApp False ModuleTOTP,
      tf ''internal/features/mfa/mfa_test.go.tmpl'' ''internal/features/mfa/mfa_test.go'' OwnerApp False ModuleTOTP,
      tf ''internal/features/mfa/queries/mfa.sql.tmpl'' ''internal/features/mfa/queries/mfa.sql'' OwnerApp False ModuleTOTP,
      tf ''internal/features/mfa/sqlc.yaml.tmpl'' ''internal/features/mfa/sqlc.yaml'' OwnerApp True ModuleTOTP,
      tf ''internal/features/mfa/store/db.go.tmpl'' ''internal/features/mfa/store/db.go'' OwnerNise True ModuleTOTP]"

definition templateFiles_8 :: "templateFile list" where
  "templateFiles_8 =
     [tf ''internal/features/mfa/store/mfa.sql.go.tmpl'' ''internal/features/mfa/store/mfa.sql.go'' OwnerNise True ModuleTOTP,
      tf ''internal/features/mfa/store/models.go.tmpl'' ''internal/features/mfa/store/models.go'' OwnerNise True ModuleTOTP,
      tf ''internal/features/mfa/store/querier.go.tmpl'' ''internal/features/mfa/store/querier.go'' OwnerNise True ModuleTOTP,
      tf ''internal/features/notifications/convert.go.tmpl'' ''internal/features/notifications/convert.go'' OwnerApp False ModuleNotifications,
      tf ''internal/features/notifications/deliver.go.tmpl'' ''internal/features/notifications/deliver.go'' OwnerApp False ModuleNotifications,
      tf ''internal/features/notifications/notifications.go.tmpl'' ''internal/features/notifications/notifications.go'' OwnerApp False ModuleNotifications,
      tf ''internal/features/notifications/notifications_test.go.tmpl'' ''internal/features/notifications/notifications_test.go'' OwnerApp False ModuleNotifications,
      tf ''internal/features/notifications/queries/notifications.sql.tmpl'' ''internal/features/notifications/queries/notifications.sql'' OwnerApp True ModuleNotifications,
      tf ''internal/features/notifications/stream.go.tmpl'' ''internal/features/notifications/stream.go'' OwnerApp False ModuleNotifications,
      tf ''internal/features/notifications/stream_test.go.tmpl'' ''internal/features/notifications/stream_test.go'' OwnerApp False ModuleNotifications,
      tf ''internal/features/notifications/sqlc.yaml.tmpl'' ''internal/features/notifications/sqlc.yaml'' OwnerApp True ModuleNotifications,
      tf ''internal/features/notifications/store/db.go.tmpl'' ''internal/features/notifications/store/db.go'' OwnerNise True ModuleNotifications,
      tf ''internal/features/notifications/store/models.go.tmpl'' ''internal/features/notifications/store/models.go'' OwnerNise True ModuleNotifications,
      tf ''internal/features/notifications/store/notifications.sql.go.tmpl'' ''internal/features/notifications/store/notifications.sql.go'' OwnerNise True ModuleNotifications,
      tf ''internal/features/notifications/store/querier.go.tmpl'' ''internal/features/notifications/store/querier.go'' OwnerNise True ModuleNotifications,
      tf ''internal/features/organizations/convert.go.tmpl'' ''internal/features/organizations/convert.go'' OwnerApp False ModuleOrganizations,
      tf ''internal/features/organizations/organizations.go.tmpl'' ''internal/features/organizations/organizations.go'' OwnerApp False ModuleOrganizations,
      tf ''internal/features/organizations/organizations_test.go.tmpl'' ''internal/features/organizations/organizations_test.go'' OwnerApp False ModuleOrganizations,
      tf ''internal/features/organizations/tenant_leak_test.go.tmpl'' ''internal/features/organizations/tenant_leak_test.go'' OwnerApp False ModuleOrganizations,
      tf ''internal/features/organizations/queries/organizations.sql.tmpl'' ''internal/features/organizations/queries/organizations.sql'' OwnerApp True ModuleOrganizations,
      tf ''internal/features/organizations/sqlc.yaml.tmpl'' ''internal/features/organizations/sqlc.yaml'' OwnerApp True ModuleOrganizations,
      tf ''internal/features/organizations/store/db.go.tmpl'' ''internal/features/organizations/store/db.go'' OwnerNise True ModuleOrganizations,
      tf ''internal/features/organizations/store/models.go.tmpl'' ''internal/features/organizations/store/models.go'' OwnerNise True ModuleOrganizations,
      tf ''internal/features/organizations/store/organizations.sql.go.tmpl'' ''internal/features/organizations/store/organizations.sql.go'' OwnerNise True ModuleOrganizations,
      tf ''internal/features/organizations/store/querier.go.tmpl'' ''internal/features/organizations/store/querier.go'' OwnerNise True ModuleOrganizations,
      tf ''internal/features/uploads/convert.go.tmpl'' ''internal/features/uploads/convert.go'' OwnerApp False ModuleUploads,
      tf ''internal/features/uploads/queries/uploads.sql.tmpl'' ''internal/features/uploads/queries/uploads.sql'' OwnerApp True ModuleUploads,
      tf ''internal/features/uploads/scan.go.tmpl'' ''internal/features/uploads/scan.go'' OwnerApp False ModuleUploads,
      tf ''internal/features/uploads/sweep.go.tmpl'' ''internal/features/uploads/sweep.go'' OwnerApp False ModuleUploads,
      tf ''internal/features/uploads/sqlc.yaml.tmpl'' ''internal/features/uploads/sqlc.yaml'' OwnerApp True ModuleUploads]"

definition templateFiles_9 :: "templateFile list" where
  "templateFiles_9 =
     [tf ''internal/features/uploads/store/db.go.tmpl'' ''internal/features/uploads/store/db.go'' OwnerNise True ModuleUploads,
      tf ''internal/features/uploads/store/models.go.tmpl'' ''internal/features/uploads/store/models.go'' OwnerNise True ModuleUploads,
      tf ''internal/features/uploads/store/querier.go.tmpl'' ''internal/features/uploads/store/querier.go'' OwnerNise True ModuleUploads,
      tf ''internal/features/uploads/store/uploads.sql.go.tmpl'' ''internal/features/uploads/store/uploads.sql.go'' OwnerNise True ModuleUploads,
      tf ''internal/features/uploads/uploads.go.tmpl'' ''internal/features/uploads/uploads.go'' OwnerApp False ModuleUploads,
      tf ''internal/features/uploads/uploads_test.go.tmpl'' ''internal/features/uploads/uploads_test.go'' OwnerApp False ModuleUploads,
      tf ''internal/platform/authorization/authorizer.go.tmpl'' ''internal/platform/authorization/authorizer.go'' OwnerApp False [],
      tf ''internal/platform/authorization/authorizer_test.go.tmpl'' ''internal/platform/authorization/authorizer_test.go'' OwnerApp False [],
      tf ''internal/platform/authorization/matrix_test.go.tmpl'' ''internal/platform/authorization/matrix_test.go'' OwnerApp False [],
      tf ''internal/platform/authorization/catalog.go.tmpl'' ''internal/platform/authorization/catalog.go'' OwnerApp False [],
      tf ''internal/platform/authorization/catalog_test.go.tmpl'' ''internal/platform/authorization/catalog_test.go'' OwnerApp False [],
      tf ''internal/platform/httpauth/context.go.tmpl'' ''internal/platform/httpauth/context.go'' OwnerApp False [],
      tf ''internal/platform/httpauth/cookie.go.tmpl'' ''internal/platform/httpauth/cookie.go'' OwnerApp False [],
      tf ''internal/platform/httpauth/csrf.go.tmpl'' ''internal/platform/httpauth/csrf.go'' OwnerApp False [],
      tf ''internal/platform/httpauth/csrf_test.go.tmpl'' ''internal/platform/httpauth/csrf_test.go'' OwnerApp False [],
      tf ''internal/platform/httpauth/guard.go.tmpl'' ''internal/platform/httpauth/guard.go'' OwnerApp False [],
      tf ''internal/platform/httpauth/httpauth_test.go.tmpl'' ''internal/platform/httpauth/httpauth_test.go'' OwnerApp False [],
      tf ''internal/platform/httpauth/middleware.go.tmpl'' ''internal/platform/httpauth/middleware.go'' OwnerApp False [],
      tf ''internal/platform/idempotency/idempotency.go.tmpl'' ''internal/platform/idempotency/idempotency.go'' OwnerApp False [],
      tf ''internal/platform/idempotency/idempotency_test.go.tmpl'' ''internal/platform/idempotency/idempotency_test.go'' OwnerApp False [],
      tf ''internal/platform/jobs/jobs.go.tmpl'' ''internal/platform/jobs/jobs.go'' OwnerApp False [],
      tf ''internal/platform/jobs/jobs_concurrency_test.go.tmpl'' ''internal/platform/jobs/jobs_concurrency_test.go'' OwnerApp False [],
      tf ''internal/platform/jobs/jobs_postgres_test.go.tmpl'' ''internal/platform/jobs/jobs_postgres_test.go'' OwnerApp False [],
      tf ''internal/platform/jobs/jobs_test.go.tmpl'' ''internal/platform/jobs/jobs_test.go'' OwnerApp False [],
      tf ''internal/platform/jobs/periodic.go.tmpl'' ''internal/platform/jobs/periodic.go'' OwnerApp False [],
      tf ''internal/platform/jobs/periodic_test.go.tmpl'' ''internal/platform/jobs/periodic_test.go'' OwnerApp False [],
      tf ''internal/platform/jobs/retry.go.tmpl'' ''internal/platform/jobs/retry.go'' OwnerApp False [],
      tf ''internal/platform/jobs/retry_test.go.tmpl'' ''internal/platform/jobs/retry_test.go'' OwnerApp False [],
      tf ''internal/platform/backup/backup.go.tmpl'' ''internal/platform/backup/backup.go'' OwnerApp False [],
      tf ''internal/platform/backup/crypt.go.tmpl'' ''internal/platform/backup/crypt.go'' OwnerApp False []]"

definition templateFiles_10 :: "templateFile list" where
  "templateFiles_10 =
     [tf ''internal/platform/backup/crypt_test.go.tmpl'' ''internal/platform/backup/crypt_test.go'' OwnerApp False [],
      tf ''internal/platform/backup/file.go.tmpl'' ''internal/platform/backup/file.go'' OwnerApp False [],
      tf ''internal/platform/backup/file_test.go.tmpl'' ''internal/platform/backup/file_test.go'' OwnerApp False [],
      tf ''internal/platform/backup/operations.go.tmpl'' ''internal/platform/backup/operations.go'' OwnerApp False [],
      tf ''internal/platform/backup/postgres.go.tmpl'' ''internal/platform/backup/postgres.go'' OwnerApp False [],
      tf ''internal/platform/backup/postgres_test.go.tmpl'' ''internal/platform/backup/postgres_test.go'' OwnerApp False [],
      tf ''internal/platform/mail/mail.go.tmpl'' ''internal/platform/mail/mail.go'' OwnerApp False [],
      tf ''internal/platform/mail/mail_test.go.tmpl'' ''internal/platform/mail/mail_test.go'' OwnerApp False [],
      tf ''internal/platform/mail/render.go.tmpl'' ''internal/platform/mail/render.go'' OwnerApp False [],
      tf ''internal/platform/mail/render_test.go.tmpl'' ''internal/platform/mail/render_test.go'' OwnerApp False [],
      tf ''internal/platform/mail/smtp.go.tmpl'' ''internal/platform/mail/smtp.go'' OwnerApp False [],
      tf ''internal/platform/mail/smtp_test.go.tmpl'' ''internal/platform/mail/smtp_test.go'' OwnerApp False [],
      tf ''internal/platform/mail/templates/README.md.tmpl'' ''internal/platform/mail/templates/README.md'' OwnerApp True [],
      tf ''internal/platform/mail/templates/invitation.html.tmpl'' ''internal/platform/mail/templates/invitation.html'' OwnerApp True [],
      tf ''internal/platform/mail/templates/invitation.txt.tmpl'' ''internal/platform/mail/templates/invitation.txt'' OwnerApp True [],
      tf ''internal/platform/sse/sse.go.tmpl'' ''internal/platform/sse/sse.go'' OwnerApp False ModuleNotifications,
      tf ''internal/platform/sse/sse_test.go.tmpl'' ''internal/platform/sse/sse_test.go'' OwnerApp False ModuleNotifications,
      tf ''internal/platform/storage/local.go.tmpl'' ''internal/platform/storage/local.go'' OwnerApp False ModuleUploads,
      tf ''internal/platform/storage/local_test.go.tmpl'' ''internal/platform/storage/local_test.go'' OwnerApp False ModuleUploads,
      tf ''internal/platform/storage/modes_unix_test.go.tmpl'' ''internal/platform/storage/modes_unix_test.go'' OwnerApp False ModuleUploads,
      tf ''internal/platform/storage/modes_windows_test.go.tmpl'' ''internal/platform/storage/modes_windows_test.go'' OwnerApp False ModuleUploads,
      tf ''internal/platform/storage/s3.go.tmpl'' ''internal/platform/storage/s3.go'' OwnerApp False ModuleUploads,
      tf ''internal/platform/storage/s3_integration_test.go.tmpl'' ''internal/platform/storage/s3_integration_test.go'' OwnerApp False ModuleUploads,
      tf ''internal/platform/storage/s3_test.go.tmpl'' ''internal/platform/storage/s3_test.go'' OwnerApp False ModuleUploads,
      tf ''internal/platform/storage/sigv4.go.tmpl'' ''internal/platform/storage/sigv4.go'' OwnerApp False ModuleUploads,
      tf ''internal/platform/storage/sigv4_test.go.tmpl'' ''internal/platform/storage/sigv4_test.go'' OwnerApp False ModuleUploads,
      tf ''internal/platform/storage/storage.go.tmpl'' ''internal/platform/storage/storage.go'' OwnerApp False ModuleUploads,
      tf ''internal/platform/storage/storage_test.go.tmpl'' ''internal/platform/storage/storage_test.go'' OwnerApp False ModuleUploads,
      tf ''internal/platform/passwords/passwords.go.tmpl'' ''internal/platform/passwords/passwords.go'' OwnerApp False [],
      tf ''internal/platform/reauth/matrix.go.tmpl'' ''internal/platform/reauth/matrix.go'' OwnerApp False []]"

definition templateFiles_11 :: "templateFile list" where
  "templateFiles_11 =
     [tf ''internal/platform/reauth/reauth_test.go.tmpl'' ''internal/platform/reauth/reauth_test.go'' OwnerApp False [],
      tf ''internal/platform/reauth/require.go.tmpl'' ''internal/platform/reauth/require.go'' OwnerApp False [],
      tf ''internal/platform/throttle/throttle.go.tmpl'' ''internal/platform/throttle/throttle.go'' OwnerApp False [],
      tf ''internal/platform/throttle/throttle_test.go.tmpl'' ''internal/platform/throttle/throttle_test.go'' OwnerApp False [],
      tf ''internal/platform/passwords/passwords_test.go.tmpl'' ''internal/platform/passwords/passwords_test.go'' OwnerApp False [],
      tf ''internal/platform/webui/embedded/placeholder.html.tmpl'' ''internal/platform/webui/embedded/placeholder.html'' OwnerNise False [],
      tf ''internal/platform/webui/webui.go.tmpl'' ''internal/platform/webui/webui.go'' OwnerNise False []]"

definition templateFiles :: "templateFile list" where
  "templateFiles = templateFiles_1 @ templateFiles_2 @ templateFiles_3 @ templateFiles_4 @ templateFiles_5 @ templateFiles_6 @ templateFiles_7 @ templateFiles_8 @ templateFiles_9 @ templateFiles_10 @ templateFiles_11"

definition TemplatePaths :: "string list" where
  "TemplatePaths = map Template templateFiles"

lemmas templateFiles_defs = templateFiles_def templateFiles_1_def templateFiles_2_def templateFiles_3_def templateFiles_4_def templateFiles_5_def templateFiles_6_def templateFiles_7_def templateFiles_8_def templateFiles_9_def templateFiles_10_def templateFiles_11_def

end
