(* ===== verification/Regex.thy ===== *)
theory Regex
  imports Prelude
begin

text \<open>
  The fragment of Go's \<open>regexp\<close> the tool uses: byte classes, concatenation, alternation, repetition and
  optional parts, anchored at both ends.  Every class is a set of ASCII bytes, so matching bytes agrees
  with matching runes.  \<open>matches\<close> decides a match by derivatives and is executable; \<open>lang\<close> says what
  it decides.
\<close>

section \<open>Expressions and their language\<close>

datatype rx =
    Never
  | Eps
  | Cls "char \<Rightarrow> bool"
  | Cat rx rx
  | Alt rx rx
  | Rep rx

text \<open>\<open>r+\<close>, \<open>r?\<close> and a literal.\<close>

definition rx_plus :: "rx \<Rightarrow> rx" where
  "rx_plus r = Cat r (Rep r)"

definition rx_opt :: "rx \<Rightarrow> rx" where
  "rx_opt r = Alt Eps r"

fun rx_lit :: "string \<Rightarrow> rx" where
  "rx_lit [] = Eps"
| "rx_lit (c # cs) = Cat (Cls (\<lambda>x. x = c)) (rx_lit cs)"

definition conc :: "string set \<Rightarrow> string set \<Rightarrow> string set" where
  "conc A B = {u @ v |u v. u \<in> A \<and> v \<in> B}"

inductive_set star :: "string set \<Rightarrow> string set" for A where
  star_Nil: "[] \<in> star A"
| star_append: "u \<in> A \<Longrightarrow> v \<in> star A \<Longrightarrow> u @ v \<in> star A"

primrec lang :: "rx \<Rightarrow> string set" where
  "lang Never = {}"
| "lang Eps = {[]}"
| "lang (Cls p) = {[c] |c. p c}"
| "lang (Cat r s) = conc (lang r) (lang s)"
| "lang (Alt r s) = lang r \<union> lang s"
| "lang (Rep r) = star (lang r)"

section \<open>The matcher\<close>

primrec nullable :: "rx \<Rightarrow> bool" where
  "nullable Never = False"
| "nullable Eps = True"
| "nullable (Cls p) = False"
| "nullable (Cat r s) = (nullable r \<and> nullable s)"
| "nullable (Alt r s) = (nullable r \<or> nullable s)"
| "nullable (Rep r) = True"

primrec deriv :: "char \<Rightarrow> rx \<Rightarrow> rx" where
  "deriv c Never = Never"
| "deriv c Eps = Never"
| "deriv c (Cls p) = (if p c then Eps else Never)"
| "deriv c (Cat r s) = (if nullable r then Alt (Cat (deriv c r) s) (deriv c s) else Cat (deriv c r) s)"
| "deriv c (Alt r s) = Alt (deriv c r) (deriv c s)"
| "deriv c (Rep r) = Cat (deriv c r) (Rep r)"

fun matches :: "rx \<Rightarrow> string \<Rightarrow> bool" where
  "matches r [] = nullable r"
| "matches r (c # cs) = matches (deriv c r) cs"

section \<open>The matcher decides the language\<close>

lemma conc_Nil: "[] \<in> conc A B \<longleftrightarrow> [] \<in> A \<and> [] \<in> B"
  by (auto simp: conc_def)

lemma conc_Cons:
  "c # w \<in> conc A B \<longleftrightarrow> (\<exists>u v. w = u @ v \<and> c # u \<in> A \<and> v \<in> B) \<or> ([] \<in> A \<and> c # w \<in> B)"
    (is "?L \<longleftrightarrow> ?R")
proof
  assume ?L
  then obtain u v where "c # w = u @ v" "u \<in> A" "v \<in> B" by (auto simp: conc_def)
  then show ?R by (cases u) auto
next
  assume ?R
  then show ?L unfolding conc_def
    by (metis (mono_tags, lifting) append_Cons append_Nil mem_Collect_eq)
qed

lemma star_Cons: "c # w \<in> star A \<longleftrightarrow> (\<exists>u v. w = u @ v \<and> c # u \<in> A \<and> v \<in> star A)"
proof
  assume "c # w \<in> star A"
  then show "\<exists>u v. w = u @ v \<and> c # u \<in> A \<and> v \<in> star A"
  proof (induction "c # w" rule: star.induct)
    case (star_append u v)
    then show ?case by (cases u) auto
  qed
next
  assume "\<exists>u v. w = u @ v \<and> c # u \<in> A \<and> v \<in> star A"
  then show "c # w \<in> star A"
    using star_append by (metis append_Cons)
qed

lemma nullable_iff: "nullable r \<longleftrightarrow> [] \<in> lang r"
  by (induction r) (auto simp: conc_Nil star_Nil)

lemma lang_deriv: "w \<in> lang (deriv c r) \<longleftrightarrow> c # w \<in> lang r"
proof (induction r arbitrary: w)
  case (Cat r s)
  then show ?case by (auto simp: nullable_iff conc_Cons) (auto simp: conc_def)
next
  case (Rep r)
  then show ?case by (auto simp: star_Cons conc_def)
qed auto

lemma matches_iff [simp]: "matches r s \<longleftrightarrow> s \<in> lang r"
  by (induction s arbitrary: r) (auto simp: nullable_iff lang_deriv)

section \<open>Languages of the common shapes\<close>

lemma star_class: "star {[c] |c. p c} = {s. list_all p s}"
proof (intro set_eqI)
  fix s show "s \<in> star {[c] |c. p c} \<longleftrightarrow> s \<in> {s. list_all p s}"
    by (induction s) (auto simp: star_Nil star_Cons)
qed

lemma lang_plus_class [simp]: "lang (rx_plus (Cls p)) = {s. s \<noteq> [] \<and> list_all p s}"
proof (intro set_eqI)
  fix s show "s \<in> lang (rx_plus (Cls p)) \<longleftrightarrow> s \<in> {s. s \<noteq> [] \<and> list_all p s}"
    by (cases s) (auto simp: rx_plus_def star_class conc_Nil conc_Cons)
qed

lemma lang_lit [simp]: "lang (rx_lit s) = {s}"
  by (induction s) (auto simp: conc_def)

lemma lang_opt [simp]: "lang (rx_opt r) = insert [] (lang r)"
  by (simp add: rx_opt_def)

text \<open>
  A separated list: a first field, then any number of fields each behind the separator.  When no field
  contains the separator, a string is of this shape exactly when its pieces are.
\<close>

definition rx_sep :: "char \<Rightarrow> rx \<Rightarrow> rx \<Rightarrow> rx" where
  "rx_sep sep r q = Cat r (Rep (Cat (rx_lit [sep]) q))"

lemma star_fields:
  assumes free: "\<forall>w\<in>A. sep \<notin> set w"
  shows "v \<in> star (conc {[sep]} A) \<longleftrightarrow> v = [] \<or> (\<exists>w. v = sep # w \<and> set (split_on sep w) \<subseteq> A)"
    (is "?L v \<longleftrightarrow> ?R v")
proof
  assume "?L v"
  then show "?R v"
  proof (induction rule: star.induct)
    case (star_append u v)
    then obtain w where u: "u = sep # w" "w \<in> A" by (auto simp: conc_def)
    then have "sep \<notin> set w" using free by blast
    with star_append.IH u show ?case
      by (auto simp: split_on_append split_on_no_sep)
  qed simp
next
  have "sep # w \<in> star (conc {[sep]} A)" if "set (split_on sep w) \<subseteq> A" for w
    using that
  proof (induction "length w" arbitrary: w rule: less_induct)
    case less
    show ?case
    proof (cases "sep \<in> set w")
      case False
      then have "w \<in> A" using less.prems by (simp add: split_on_no_sep)
      then show ?thesis
        using star.star_append [OF _ star_Nil, of "sep # w" "conc {[sep]} A"] by (force simp: conc_def)
    next
      case True
      then obtain a b where ab: "w = a @ sep # b" "sep \<notin> set a" by (meson split_list_first)
      then have "a \<in> A" "set (split_on sep b) \<subseteq> A" using less.prems by (auto simp: split_on_append)
      moreover from this less.hyps [of b] ab have "sep # b \<in> star (conc {[sep]} A)" by simp
      moreover have "sep # a \<in> conc {[sep]} A" using calculation(1) by (force simp: conc_def)
      ultimately show ?thesis using star.star_append [of "sep # a"] ab by simp
    qed
  qed
  moreover assume "?R v"
  ultimately show "?L v" by (auto simp: star_Nil)
qed

lemma lang_sep:
  assumes "\<forall>w\<in>lang r. sep \<notin> set w" and "\<forall>w\<in>lang q. sep \<notin> set w"
  shows "s \<in> lang (rx_sep sep r q) \<longleftrightarrow>
           hd (split_on sep s) \<in> lang r \<and> set (tl (split_on sep s)) \<subseteq> lang q"
proof
  assume "s \<in> lang (rx_sep sep r q)"
  then obtain a v where av: "s = a @ v" "a \<in> lang r" "v \<in> star (conc {[sep]} (lang q))"
    by (auto simp: rx_sep_def conc_def)
  moreover have "sep \<notin> set a" using av assms(1) by blast
  ultimately show "hd (split_on sep s) \<in> lang r \<and> set (tl (split_on sep s)) \<subseteq> lang q"
    using star_fields [OF assms(2)] by (auto simp: split_on_no_sep split_on_append)
next
  assume R: "hd (split_on sep s) \<in> lang r \<and> set (tl (split_on sep s)) \<subseteq> lang q"
  show "s \<in> lang (rx_sep sep r q)"
  proof (cases "sep \<in> set s")
    case False
    then have "s \<in> lang r" using R by (simp add: split_on_no_sep)
    then show ?thesis using star_Nil by (force simp: rx_sep_def conc_def)
  next
    case True
    then obtain a b where ab: "s = a @ sep # b" "sep \<notin> set a" by (meson split_list_first)
    then have "a \<in> lang r" "sep # b \<in> star (conc {[sep]} (lang q))"
      using R star_fields [OF assms(2)] by (auto simp: split_on_append)
    then show ?thesis unfolding rx_sep_def ab(1) by (auto simp: conc_def)
  qed
qed

end
