(* ===== verification/Naming.thy ===== *)
theory Naming
  imports Regex
begin

text \<open>
  Project names and module paths, from \<open>internal/generator/name.go\<close>: the two validators with every
  named rejection in the order the code tests them, and what they accept.
\<close>

section \<open>Constants\<close>

definition MaxNameLen :: nat where "MaxNameLen = 64"

definition MaxModulePathLen :: nat where "MaxModulePathLen = 255"

definition name_char :: "char \<Rightarrow> bool" where
  "name_char c \<longleftrightarrow> is_lower c \<or> is_digit c"

definition element_char :: "char \<Rightarrow> bool" where
  "element_char c \<longleftrightarrow> is_upper c \<or> is_lower c \<or> is_digit c \<or> c \<in> {CHR ''.'', CHR ''_'', CHR ''~'', CHR ''-''}"

text \<open>\<open>^[a-z][a-z0-9]*(-[a-z0-9]+)*$\<close>\<close>

definition nameRE :: rx where
  "nameRE = Cat (Cls is_lower) (Cat (Rep (Cls name_char))
     (Rep (Cat (rx_lit ''-'') (rx_plus (Cls name_char)))))"

text \<open>\<open>^[A-Za-z0-9][A-Za-z0-9._~-]*(/[A-Za-z0-9._~-]+)*$\<close>\<close>

definition modulePathRE :: rx where
  "modulePathRE = Cat (Cls (\<lambda>c. is_upper c \<or> is_lower c \<or> is_digit c)) (Cat (Rep (Cls element_char))
     (Rep (Cat (rx_lit ''/'') (rx_plus (Cls element_char)))))"

definition goKeywords :: "string list" where
  "goKeywords =
     [''break'', ''case'', ''chan'', ''const'', ''continue'', ''default'', ''defer'', ''else'',
      ''fallthrough'', ''for'', ''func'', ''go'', ''goto'', ''if'', ''import'', ''interface'', ''map'',
      ''package'', ''range'', ''return'', ''select'', ''struct'', ''switch'', ''type'', ''var'']"

definition windowsDeviceNames :: "string list" where
  "windowsDeviceNames =
     [''con'', ''prn'', ''aux'', ''nul'',
      ''com0'', ''com1'', ''com2'', ''com3'', ''com4'', ''com5'', ''com6'', ''com7'', ''com8'', ''com9'',
      ''lpt0'', ''lpt1'', ''lpt2'', ''lpt3'', ''lpt4'', ''lpt5'', ''lpt6'', ''lpt7'', ''lpt8'', ''lpt9'']"

section \<open>The validators\<close>

record NameError =
  Kind :: string
  NE_Value :: string
  Problem :: string
  Action :: string

text \<open>
  On bytes: a rune is outside printable ASCII exactly when its first byte is, an invalid byte decoding
  to U+FFFD, so the first offending rune starts at the first offending byte.
\<close>

definition isControlOrNonASCII :: "char \<Rightarrow> bool" where
  "isControlOrNonASCII c \<longleftrightarrow> code c < 32 \<or> 126 < code c"

definition index_func :: "(char \<Rightarrow> bool) \<Rightarrow> string \<Rightarrow> nat option" where
  "index_func p s = (let n = length (takeWhile (\<lambda>c. \<not> p c) s) in if n < length s then Some n else None)"

text \<open>The portion before the first dot, in lower case.  The text is ASCII when this is computed.\<close>

definition device_base :: "string \<Rightarrow> string" where
  "device_base s = map lower_char (takeWhile (\<lambda>c. c \<noteq> CHR ''.'') s)"

definition ValidateName :: "string \<Rightarrow> NameError option" where
  "ValidateName name =
     (let reject = (\<lambda>problem action.
            Some \<lparr>Kind = ''project name'', NE_Value = name, Problem = problem, Action = action\<rparr>)
      in
      if name = [] then reject ''is empty'' ''Pass a name, for example: nise new myapp''
      else if MaxNameLen < length name then
        reject (''is '' @ show_nat (length name) @ '' bytes, longer than the '' @ show_nat MaxNameLen @ ''-byte limit'')
          (''Choose a name of at most '' @ show_nat MaxNameLen @ '' bytes.'')
      else (case index_func isControlOrNonASCII name of
        Some i \<Rightarrow>
          reject (''contains a control or non-ASCII character at byte '' @ show_nat i)
            ''Use only lowercase ASCII letters, digits, and hyphens.''
      | None \<Rightarrow>
      if CHR ''/'' \<in> set name \<or> CHR 0x5C \<in> set name then
        reject ''contains a path separator''
          ''Pass only the project's own name; nise creates it in the current directory.''
      else if name = ''.'' \<or> name = ''..'' then
        reject ''is a relative path element, not a name'' ''Pass a project name, for example: nise new myapp''
      else if has_prefix name ''.'' then
        reject ''starts with a dot, which hides the directory on Unix'' ''Start the name with a lowercase letter.''
      else if has_suffix name ''.'' \<or> has_suffix name '' '' then
        reject ''ends with a dot or a space, which Windows silently strips'' ''Remove the trailing dot or space.''
      else if has_prefix name '' '' then
        reject ''starts with a space'' ''Remove the leading space.''
      else if device_base name \<in> set windowsDeviceNames then
        reject (''is the reserved Windows device name '' @ [CHR 0x22] @ device_base name @ [CHR 0x22] @
                '', which cannot be a directory on Windows'')
          ''Choose a different name so the project can be cloned on Windows.''
      else if name \<noteq> map lower_char name then
        reject ''contains an uppercase letter'' (''Use the lowercase form: '' @ map lower_char name)
      else if name \<in> set goKeywords then
        reject ''is a Go reserved word and cannot name a Go package directory''
          ''Choose a name that is not a Go keyword.''
      else if \<not> matches nameRE name then
        reject (''must start with a lowercase letter and contain only lowercase letters, digits, '' @
                ''and single hyphens between them'')
          ''For example: myapp, my-app, invoices2.''
      else None))"

text \<open>The first offending element of a path decides the message.\<close>

fun bad_element :: "string list \<Rightarrow> (string \<times> string) option" where
  "bad_element [] = None"
| "bad_element (e # es) =
     (if e = [] then
        Some (''has an empty path element (a leading, trailing, or doubled slash)'',
              ''Write the path as host/owner/name, for example github.com/you/myapp.'')
      else if e = ''.'' \<or> e = ''..'' then
        Some (''contains a '' @ [CHR 0x22] @ ''.'' @ [CHR 0x22] @ '' or '' @ [CHR 0x22] @ ''..'' @ [CHR 0x22] @ '' path element'',
              ''Write an absolute module path, for example github.com/you/myapp.'')
      else bad_element es)"

definition ValidateModulePath :: "string \<Rightarrow> NameError option" where
  "ValidateModulePath path =
     (let reject = (\<lambda>problem action.
            Some \<lparr>Kind = ''module path'', NE_Value = path, Problem = problem, Action = action\<rparr>)
      in
      if path = [] then
        reject ''is empty'' ''Pass --module-path, for example: --module-path github.com/you/myapp''
      else if MaxModulePathLen < length path then
        reject (''is '' @ show_nat (length path) @ '' bytes, longer than the '' @ show_nat MaxModulePathLen @ ''-byte limit'')
          (''Choose a module path of at most '' @ show_nat MaxModulePathLen @ '' bytes.'')
      else (case index_func isControlOrNonASCII path of
        Some i \<Rightarrow>
          reject (''contains a control or non-ASCII character at byte '' @ show_nat i)
            ''Use only ASCII letters, digits, and the characters . _ ~ - /.''
      | None \<Rightarrow>
      if CHR 0x5C \<in> set path then
        reject ''contains a backslash'' ''Go module paths always use forward slashes.''
      else (case bad_element (split_on (CHR ''/'') path) of
        Some (problem, action) \<Rightarrow> reject problem action
      | None \<Rightarrow>
      if \<not> matches modulePathRE path then
        reject ''is not a valid Go module path''
          ''Write the path as host/owner/name, for example github.com/you/myapp.''
      else None)))"

section \<open>What the two expressions accept\<close>

lemma conc_class_star: "conc {[c] |c. p c} (star {[c] |c. q c}) = {s. s \<noteq> [] \<and> p (hd s) \<and> list_all q (tl s)}"
proof (intro set_eqI)
  fix s show "s \<in> conc {[c] |c. p c} (star {[c] |c. q c}) \<longleftrightarrow> s \<in> {s. s \<noteq> [] \<and> p (hd s) \<and> list_all q (tl s)}"
    by (cases s) (auto simp: star_class conc_Nil conc_Cons)
qed

lemma conc_assoc: "conc (conc A B) C = conc A (conc B C)"
  unfolding conc_def by (auto, metis append_assoc, metis append_assoc)

text \<open>Both expressions are a first field with a constrained first character, then separated fields.\<close>

lemma lang_headed_fields:
  assumes "\<And>c. p c \<Longrightarrow> q c" and "\<And>c. q c \<Longrightarrow> c \<noteq> sep"
  shows "s \<in> lang (Cat (Cls p) (Cat (Rep (Cls q)) (Rep (Cat (rx_lit [sep]) (rx_plus (Cls q)))))) \<longleftrightarrow>
           s \<noteq> [] \<and> p (hd s) \<and> (\<forall>w\<in>set (split_on sep s). w \<noteq> [] \<and> list_all q w)"
proof -
  let ?first = "Cat (Cls p) (Rep (Cls q))" and ?rest = "rx_plus (Cls q)"
  have "lang (Cat (Cls p) (Cat (Rep (Cls q)) (Rep (Cat (rx_lit [sep]) ?rest)))) = lang (rx_sep sep ?first ?rest)"
    by (simp add: rx_sep_def conc_assoc)
  moreover have "lang ?first = {s. s \<noteq> [] \<and> p (hd s) \<and> list_all q (tl s)}"
    by (simp add: conc_class_star)
  moreover have "\<forall>w\<in>lang ?first. sep \<notin> set w"
  proof
    fix w assume "w \<in> lang ?first"
    then have "w \<noteq> []" "p (hd w)" "list_all q (tl w)" using calculation(2) by auto
    then show "sep \<notin> set w" using assms by (cases w) (auto simp: list_all_iff)
  qed
  moreover have "\<forall>w\<in>lang ?rest. sep \<notin> set w" using assms(2) by (auto simp: list_all_iff)
  moreover obtain f fs where f: "split_on sep s = f # fs" by (cases "split_on sep s") auto
  moreover have "s \<noteq> [] \<and> p (hd s) \<and> f \<noteq> [] \<longleftrightarrow> f \<noteq> [] \<and> p (hd f)"
    using f by (cases s) (auto split: if_splits list.splits)
  ultimately show ?thesis using assms(1) lang_sep [of ?first sep ?rest s]
    by (cases f) (auto simp: subset_iff)
qed

lemma nameRE_iff:
  "s \<in> lang nameRE \<longleftrightarrow> s \<noteq> [] \<and> is_lower (hd s) \<and> (\<forall>w\<in>set (split_on (CHR ''-'') s). w \<noteq> [] \<and> list_all name_char w)"
  unfolding nameRE_def by (rule lang_headed_fields) (auto simp: name_char_def char_class_defs)

lemma modulePathRE_iff:
  "s \<in> lang modulePathRE \<longleftrightarrow>
     s \<noteq> [] \<and> (is_upper (hd s) \<or> is_lower (hd s) \<or> is_digit (hd s)) \<and>
     (\<forall>w\<in>set (split_on (CHR ''/'') s). w \<noteq> [] \<and> list_all element_char w)"
  unfolding modulePathRE_def by (rule lang_headed_fields) (auto simp: element_char_def char_class_defs)

lemma index_func_None: "index_func p s = None \<longleftrightarrow> list_all (\<lambda>c. \<not> p c) s"
  by (induction s) (auto simp: index_func_def Let_def split: if_splits)

lemma set_split_on: "set s \<subseteq> insert sep (\<Union> (set ` set (split_on sep s)))"
proof (induction s)
  case (Cons x xs)
  then show ?case by (cases "split_on sep xs") (auto split: if_splits)
qed simp

lemma fields_chars:
  assumes "\<forall>w\<in>set (split_on sep s). list_all q w"
  shows "list_all (\<lambda>c. c = sep \<or> q c) s"
  using assms set_split_on [of s sep] by (fastforce simp: list_all_iff)

section \<open>What the validators accept\<close>

text \<open>The reference description of an acceptable name.\<close>

definition plain_name :: "string \<Rightarrow> bool" where
  "plain_name s \<longleftrightarrow>
     s \<noteq> [] \<and> length s \<le> 64 \<and> is_lower (hd s) \<and>
     (\<forall>w\<in>set (split_on (CHR ''-'') s). w \<noteq> [] \<and> list_all name_char w) \<and>
     s \<notin> set goKeywords \<and> s \<notin> set windowsDeviceNames"

definition plain_path :: "string \<Rightarrow> bool" where
  "plain_path s \<longleftrightarrow>
     s \<noteq> [] \<and> length s \<le> 255 \<and> (is_upper (hd s) \<or> is_lower (hd s) \<or> is_digit (hd s)) \<and>
     (\<forall>w\<in>set (split_on (CHR ''/'') s). w \<notin> {[], ''.'', ''..''} \<and> list_all element_char w)"

text \<open>The characters of a name, and what the earlier rules see of it.\<close>

lemma name_shape_chars:
  assumes "\<forall>w\<in>set (split_on (CHR ''-'') s). w \<noteq> [] \<and> list_all name_char w"
  shows "list_all (\<lambda>c. c = CHR ''-'' \<or> name_char c) s"
  using fields_chars [of "CHR ''-''" s name_char] assms by blast

lemma name_chars_plain:
  assumes "list_all (\<lambda>c. c = CHR ''-'' \<or> name_char c) s"
  shows "index_func isControlOrNonASCII s = None" "CHR ''/'' \<notin> set s" "CHR 0x5C \<notin> set s" "CHR ''.'' \<notin> set s"
    "CHR '' '' \<notin> set s" "map lower_char s = s"
proof -
  have ok: "c = CHR ''-'' \<or> name_char c" if "c \<in> set s" for c using assms that by (simp add: list_all_iff)
  show "index_func isControlOrNonASCII s = None"
    using ok by (fastforce simp: index_func_None list_all_iff isControlOrNonASCII_def name_char_def is_lower_def is_digit_def code_def)
  have "\<not> name_char (CHR ''/'')" "\<not> name_char (CHR 0x5C)" "\<not> name_char (CHR ''.'')" "\<not> name_char (CHR '' '')"
    by (simp_all add: name_char_def is_lower_def is_digit_def code_def)
  then show "CHR ''/'' \<notin> set s" "CHR 0x5C \<notin> set s" "CHR ''.'' \<notin> set s" "CHR '' '' \<notin> set s"
    using ok by force+
  show "map lower_char s = s"
    using ok by (intro map_idI) (fastforce simp: lower_char_def is_upper_def name_char_def is_lower_def is_digit_def code_def)
qed

lemma has_prefix_char: "has_prefix s [c] \<longleftrightarrow> s \<noteq> [] \<and> hd s = c"
  by (cases s) (auto simp: has_prefix_def)

lemma has_suffix_char: "has_suffix s [c] \<longleftrightarrow> s \<noteq> [] \<and> last s = c"
proof (cases s rule: rev_cases)
  case (snoc xs x)
  then show ?thesis by (simp add: has_suffix_def)
qed (simp add: has_suffix_def)

lemma takeWhile_not_in: "d \<notin> set s \<Longrightarrow> takeWhile (\<lambda>c. c \<noteq> d) s = s"
  by (auto simp: takeWhile_eq_all_conv)

lemma device_base_no_dot:
  assumes "CHR ''.'' \<notin> set s" and "map lower_char s = s"
  shows "device_base s = s"
  unfolding device_base_def takeWhile_not_in [OF assms(1)] by (rule assms(2))

lemma ValidateName_plain: "plain_name s \<Longrightarrow> ValidateName s = None"
proof -
  assume p: "plain_name s"
  then have chars: "list_all (\<lambda>c. c = CHR ''-'' \<or> name_char c) s" using name_shape_chars by (simp add: plain_name_def)
  note f = name_chars_plain [OF chars]
  have "hd s \<in> set s" "last s \<in> set s" using p by (auto simp: plain_name_def)
  then have "\<not> has_prefix s ''.''" "\<not> has_prefix s '' ''" "\<not> has_suffix s ''.''" "\<not> has_suffix s '' ''"
    using f by (auto simp: has_prefix_char has_suffix_char)
  moreover have "s \<noteq> ''.''" "s \<noteq> ''..''" using f by auto
  ultimately show ?thesis
    using p f device_base_no_dot [OF f(4,6)]
    by (simp add: ValidateName_def Let_def MaxNameLen_def plain_name_def nameRE_iff)
qed

lemma plain_name_ValidateName: "ValidateName s = None \<Longrightarrow> plain_name s"
proof -
  assume v: "ValidateName s = None"
  then have m: "s \<noteq> []" "length s \<le> 64" "s \<in> lang nameRE" "s \<notin> set goKeywords" "device_base s \<notin> set windowsDeviceNames"
    by (auto simp: ValidateName_def Let_def MaxNameLen_def split: option.splits if_splits)
  then have shape: "is_lower (hd s)" "\<forall>w\<in>set (split_on (CHR ''-'') s). w \<noteq> [] \<and> list_all name_char w"
    by (simp_all add: nameRE_iff)
  note f = name_chars_plain [OF name_shape_chars [OF shape(2)]]
  show ?thesis using m shape device_base_no_dot [OF f(4,6)] by (simp add: plain_name_def)
qed

text \<open>
  C35: The twelve rules of \<open>ValidateName\<close>, tested in order with their own messages, accept exactly the
  names of the reference description: one to 64 bytes, a lower-case letter first, hyphen-separated
  non-empty runs of lower-case letters and digits, neither a Go keyword nor a Windows device name.
\<close>

theorem ValidateName_iff: "ValidateName s = None \<longleftrightarrow> plain_name s"
  using ValidateName_plain plain_name_ValidateName by blast

lemma bad_element_None: "bad_element es = None \<longleftrightarrow> (\<forall>e\<in>set es. e \<notin> {[], ''.'', ''..''})"
  by (induction es) auto

lemma element_chars_printable:
  assumes "list_all (\<lambda>c. c = CHR ''/'' \<or> element_char c) s"
  shows "index_func isControlOrNonASCII s = None" "CHR 0x5C \<notin> set s"
proof -
  have ok: "c = CHR ''/'' \<or> element_char c" if "c \<in> set s" for c using assms that by (simp add: list_all_iff)
  show "index_func isControlOrNonASCII s = None"
    using ok by (fastforce simp: index_func_None list_all_iff isControlOrNonASCII_def element_char_def char_class_defs)
  have "\<not> element_char (CHR 0x5C)" by (simp add: element_char_def char_class_defs)
  then show "CHR 0x5C \<notin> set s" using ok by force
qed

lemma ValidateModulePath_iff: "ValidateModulePath s = None \<longleftrightarrow> plain_path s"
proof
  assume "ValidateModulePath s = None"
  then have "s \<noteq> []" "length s \<le> 255" "bad_element (split_on (CHR ''/'') s) = None" "s \<in> lang modulePathRE"
    by (auto simp: ValidateModulePath_def Let_def MaxModulePathLen_def split: option.splits if_splits)
  then show "plain_path s" by (simp add: plain_path_def bad_element_None modulePathRE_iff)
next
  assume p: "plain_path s"
  then have "list_all (\<lambda>c. c = CHR ''/'' \<or> element_char c) s"
    using fields_chars [of "CHR ''/''" s element_char] by (simp add: plain_path_def)
  moreover have "bad_element (split_on (CHR ''/'') s) = None"
    unfolding bad_element_None using p by (auto simp: plain_path_def)
  ultimately show "ValidateModulePath s = None"
    using element_chars_printable [of s] p
    by (simp add: ValidateModulePath_def Let_def MaxModulePathLen_def plain_path_def modulePathRE_iff)
qed

text \<open>A project's name is itself an acceptable module path, which is what the default relies on.\<close>

lemma plain_name_path: "plain_name s \<Longrightarrow> plain_path s"
proof -
  assume p: "plain_name s"
  then have chars: "list_all (\<lambda>c. c = CHR ''-'' \<or> name_char c) s" using name_shape_chars by (simp add: plain_name_def)
  note f = name_chars_plain [OF chars]
  have "list_all element_char s"
    using chars by (auto simp: list_all_iff name_char_def element_char_def)
  then show ?thesis using p f by (auto simp: plain_name_def plain_path_def split_on_no_sep)
qed

end
