(* ===== verification/Project_Tree.thy ===== *)
theory Project_Tree
  imports Prelude "HOL-Library.List_Lexorder" "HOL-Library.Char_ord"
begin

text \<open>
  What the tool uses of \<open>path\<close>, \<open>path/filepath\<close> and \<open>os\<close> on a Unix system: lexical path operations and
  a directory tree with the calls that read and change it.  The tree is the project directory; its keys
  are clean slash-separated paths relative to it, the directory itself being the path of one dot.  The
  calls take an environment: the process umask and, for every call, whether the operating system
  carries it out.
\<close>

unbundle bit_operations_syntax

section \<open>Lexical paths\<close>

text \<open>\<open>path.Clean\<close>: one element after another onto a stack, \<open>..\<close> taking the last one back.\<close>

definition clean_step :: "bool \<Rightarrow> string list \<Rightarrow> string \<Rightarrow> string list" where
  "clean_step rooted st e =
     (if e = [] \<or> e = ''.'' then st
      else if e = ''..'' then
        if st \<noteq> [] \<and> last st \<noteq> ''..'' then butlast st
        else if rooted then st else st @ [e]
      else st @ [e])"

definition Clean :: "string \<Rightarrow> string" where
  "Clean p =
     (let rooted = (p \<noteq> [] \<and> hd p = CHR ''/'');
          st = foldl (clean_step rooted) [] (split_on (CHR ''/'') p)
      in if rooted then CHR ''/'' # join ''/'' st
         else if st = [] then ''.'' else join ''/'' st)"

text \<open>\<open>path.Dir\<close>: the cleaned text up to the last slash.\<close>

definition Dir :: "string \<Rightarrow> string" where
  "Dir p = Clean (rev (dropWhile (\<lambda>c. c \<noteq> CHR ''/'') (rev p)))"

text \<open>\<open>path.Join\<close> of two elements.\<close>

definition Join :: "string \<Rightarrow> string \<Rightarrow> string" where
  "Join a b = (if a = [] then (if b = [] then [] else Clean b) else Clean (a @ ''/'' @ b))"

text \<open>\<open>filepath.Base\<close>.\<close>

definition Base :: "string \<Rightarrow> string" where
  "Base p =
     (if p = [] then ''.''
      else
        (let q = rev (dropWhile (\<lambda>c. c = CHR ''/'') (rev p)) in
         if q = [] then ''/'' else last (split_on (CHR ''/'') q)))"

text \<open>Plain paths: non-empty elements, none of them a dot or two.\<close>

definition plain_elem :: "string \<Rightarrow> bool" where
  "plain_elem e \<longleftrightarrow> e \<notin> {[], ''.'', ''..''} \<and> CHR ''/'' \<notin> set e"

definition of_elems :: "string list \<Rightarrow> string" where
  "of_elems es = (if es = [] then ''.'' else join ''/'' es)"

definition plain_rel :: "string \<Rightarrow> bool" where
  "plain_rel p \<longleftrightarrow> (\<forall>e\<in>set (split_on (CHR ''/'') p). plain_elem e)"

lemma split_join_plain:
  assumes "es \<noteq> []" and "\<forall>e\<in>set es. plain_elem e"
  shows "split_on (CHR ''/'') (join ''/'' es) = es"
  by (rule split_on_join [OF assms(1)]) (use assms(2) in \<open>auto simp: plain_elem_def\<close>)

lemma plain_rel_join: "es \<noteq> [] \<Longrightarrow> \<forall>e\<in>set es. plain_elem e \<Longrightarrow> plain_rel (join ''/'' es)"
  by (simp add: plain_rel_def split_on_join plain_elem_def)

lemma plain_relE:
  assumes "plain_rel p"
  obtains es where "es \<noteq> []" "\<forall>e\<in>set es. plain_elem e" "p = join ''/'' es" "split_on (CHR ''/'') p = es"
  using assms that [of "split_on (CHR ''/'') p"] by (auto simp: plain_rel_def)

lemma foldl_clean_plain:
  "\<forall>e\<in>set es. plain_elem e \<Longrightarrow> foldl (clean_step b) st es = st @ es"
  by (induction es arbitrary: st) (auto simp: clean_step_def plain_elem_def)

lemma join_head: "es \<noteq> [] \<Longrightarrow> plain_elem (hd es) \<Longrightarrow> join ''/'' es \<noteq> [] \<and> hd (join ''/'' es) \<noteq> CHR ''/''"
  by (cases es; cases "hd es") (auto simp: join_Cons plain_elem_def)

lemma Clean_plain:
  assumes "es \<noteq> []" and "\<forall>e\<in>set es. plain_elem e"
  shows "Clean (join ''/'' es) = join ''/'' es"
  using assms join_head [of es] foldl_clean_plain [of es]
  by (simp add: Clean_def Let_def split_on_join plain_elem_def)

lemma Clean_plain_slash:
  assumes "es \<noteq> []" and "\<forall>e\<in>set es. plain_elem e"
  shows "Clean (join ''/'' es @ ''/'') = join ''/'' es"
proof -
  have "join ''/'' es @ ''/'' = join ''/'' (es @ [[]])"
    using assms(1) by (induction es rule: induct_list012) (auto simp: join_Cons)
  moreover have "split_on (CHR ''/'') (join ''/'' (es @ [[]])) = es @ [[]]"
    using assms(2) by (intro split_on_join) (auto simp: plain_elem_def)
  moreover have "hd (join ''/'' (es @ [[]])) \<noteq> CHR ''/''" "join ''/'' (es @ [[]]) \<noteq> []"
    using join_head [of es] assms unfolding calculation(1) [symmetric] by (auto simp: hd_append)
  ultimately show ?thesis
    using assms foldl_clean_plain [of es] by (simp add: Clean_def Let_def clean_step_def)
qed

lemma join_snoc: "es \<noteq> [] \<Longrightarrow> join sep (es @ [e]) = join sep es @ sep @ e"
  by (induction es rule: induct_list012) auto

lemma dropWhile_rev_no_slash: "CHR ''/'' \<notin> set e \<Longrightarrow> dropWhile (\<lambda>c. c \<noteq> CHR ''/'') (rev e @ r) = dropWhile (\<lambda>c. c \<noteq> CHR ''/'') r"
  by (rule dropWhile_append2) auto

lemma Dir_of_elems:
  assumes "es \<noteq> []" and "\<forall>e\<in>set es. plain_elem e"
  shows "Dir (join ''/'' es) = of_elems (butlast es)"
proof -
  obtain fs e where es: "es = fs @ [e]" using assms(1) by (metis append_butlast_last_id)
  have e: "CHR ''/'' \<notin> set e" "\<forall>f\<in>set fs. plain_elem f" using assms(2) es by (auto simp: plain_elem_def)
  show ?thesis
  proof (cases "fs = []")
    case True
    then show ?thesis
      using dropWhile_rev_no_slash [OF e(1), of "[]"] es
      by (simp add: Dir_def of_elems_def Clean_def clean_step_def del: dropWhile_eq_Nil_conv)
  next
    case False
    then have "rev (join ''/'' es) = rev e @ CHR ''/'' # rev (join ''/'' fs)" by (simp add: es join_snoc)
    then have "Dir (join ''/'' es) = Clean (join ''/'' fs @ ''/'')"
      using dropWhile_rev_no_slash [OF e(1)] by (simp add: Dir_def)
    then show ?thesis using Clean_plain_slash [OF False e(2)] False es by (simp add: of_elems_def)
  qed
qed

lemma join_inject:
  assumes "\<forall>e\<in>set es. plain_elem e" "\<forall>e\<in>set fs. plain_elem e" "es \<noteq> []" "fs \<noteq> []"
  shows "join ''/'' es = join ''/'' fs \<longleftrightarrow> es = fs"
proof
  assume "join ''/'' es = join ''/'' fs"
  then show "es = fs" using split_join_plain [OF assms(3,1)] split_join_plain [OF assms(4,2)] by (metis (no_types))
qed simp

lemma of_elems_inject:
  assumes "\<forall>e\<in>set es. plain_elem e" "\<forall>e\<in>set fs. plain_elem e"
  shows "of_elems es = of_elems fs \<longleftrightarrow> es = fs"
proof -
  have dot: "join ''/'' gs \<noteq> ''.''" if "\<forall>e\<in>set gs. plain_elem e" "gs \<noteq> []" for gs
  proof
    assume "join ''/'' gs = ''.''"
    then have "gs = [''.'']" using split_join_plain [OF that(2,1)] by simp
    then show False using that by (simp add: plain_elem_def)
  qed
  show ?thesis
    using assms join_inject [of es fs] dot [of es] dot [of fs, THEN not_sym]
    by (cases "es = []"; cases "fs = []") (auto simp: of_elems_def)
qed

section \<open>The tree and its calls\<close>

type_synonym mode = "16 word"

datatype node = FileN mode string | DirN mode

type_synonym tree = "string \<Rightarrow> node option"

datatype sys_call =
    Stat string
  | Read_file string
  | Read_dir string
  | Mkdir string
  | Write_file string
  | Chmod string
  | Remove string
  | Open_root
  | Create_file string
  | Write_handle string
  | Close_file string

record env =
  umask :: mode
  carried :: "sys_call \<Rightarrow> bool"

text \<open>Why a call failed: the entry does not exist, or anything else, with the call it was.\<close>

datatype io_error = Not_exist | Failed sys_call

definition is_dir :: "tree \<Rightarrow> string \<Rightarrow> bool" where
  "is_dir t p \<longleftrightarrow> (\<exists>m. t p = Some (DirN m))"

lemma is_dir_code [code]: "is_dir t p = (case t p of Some (DirN m) \<Rightarrow> True | _ \<Rightarrow> False)"
  by (auto simp: is_dir_def split: option.splits node.splits)

definition read_file :: "env \<Rightarrow> tree \<Rightarrow> string \<Rightarrow> io_error + string" where
  "read_file e t p =
     (case t p of
        None \<Rightarrow> Inl Not_exist
      | Some (DirN m) \<Rightarrow> Inl (Failed (Read_file p))
      | Some (FileN m c) \<Rightarrow> if carried e (Read_file p) then Inr c else Inl (Failed (Read_file p)))"

text \<open>
  \<open>os.WriteFile\<close> needs the parent directory; it creates a file with the masked mode and keeps the mode of
  an existing one.
\<close>

definition write_file :: "env \<Rightarrow> string \<Rightarrow> string \<Rightarrow> mode \<Rightarrow> tree \<Rightarrow> io_error + tree" where
  "write_file e p c m t =
     (if \<not> carried e (Write_file p) \<or> \<not> is_dir t (Dir p) \<or> is_dir t p then Inl (Failed (Write_file p))
      else Inr (t(p \<mapsto> FileN (case t p of Some (FileN m' _) \<Rightarrow> m' | _ \<Rightarrow> m AND NOT (umask e)) c)))"

definition chmod :: "env \<Rightarrow> string \<Rightarrow> mode \<Rightarrow> tree \<Rightarrow> io_error + tree" where
  "chmod e p m t =
     (if \<not> carried e (Chmod p) then Inl (Failed (Chmod p))
      else (case t p of
              None \<Rightarrow> Inl (Failed (Chmod p))
            | Some (DirN _) \<Rightarrow> Inr (t(p \<mapsto> DirN m))
            | Some (FileN _ c) \<Rightarrow> Inr (t(p \<mapsto> FileN m c))))"

text \<open>\<open>os.MkdirAll\<close> makes the missing directories on the way from the root to the path.\<close>

definition make_one :: "env \<Rightarrow> mode \<Rightarrow> io_error + tree \<Rightarrow> string \<Rightarrow> io_error + tree" where
  "make_one e m r p =
     (case r of
        Inl x \<Rightarrow> Inl x
      | Inr t \<Rightarrow>
          (case t p of
             Some (DirN _) \<Rightarrow> Inr t
           | Some (FileN _ _) \<Rightarrow> Inl (Failed (Mkdir p))
           | None \<Rightarrow>
               if carried e (Mkdir p) then Inr (t(p \<mapsto> DirN (m AND NOT (umask e)))) else Inl (Failed (Mkdir p))))"

definition prefixes_of :: "string list \<Rightarrow> string list list" where
  "prefixes_of es = map (\<lambda>n. take n es) [0..<Suc (length es)]"

definition path_elems :: "string \<Rightarrow> string list" where
  "path_elems p = (if p = ''.'' then [] else split_on (CHR ''/'') p)"

definition mkdir_all :: "env \<Rightarrow> string \<Rightarrow> mode \<Rightarrow> tree \<Rightarrow> io_error + tree" where
  "mkdir_all e p m t = foldl (make_one e m) (Inr t) (map of_elems (prefixes_of (path_elems p)))"

definition remove :: "env \<Rightarrow> string \<Rightarrow> tree \<Rightarrow> io_error + tree" where
  "remove e p t =
     (case t p of
        None \<Rightarrow> Inl Not_exist
      | Some _ \<Rightarrow> if carried e (Remove p) then Inr (t(p := None)) else Inl (Failed (Remove p)))"

section \<open>What a call leaves alone\<close>

lemma write_file_other: "write_file e p c m t = Inr t' \<Longrightarrow> q \<noteq> p \<Longrightarrow> t' q = t q"
  by (auto simp: write_file_def split: if_splits)

lemma write_file_at: "write_file e p c m t = Inr t' \<Longrightarrow> \<exists>m'. t' p = Some (FileN m' c)"
  by (auto simp: write_file_def split: if_splits)

lemma write_file_dirs: "write_file e p c m t = Inr t' \<Longrightarrow> is_dir t' q = is_dir t q"
  by (auto simp: write_file_def is_dir_def split: if_splits)

lemma chmod_other: "chmod e p m t = Inr t' \<Longrightarrow> q \<noteq> p \<Longrightarrow> t' q = t q"
  by (auto simp: chmod_def split: if_splits option.splits node.splits)

lemma chmod_dirs: "chmod e p m t = Inr t' \<Longrightarrow> is_dir t' q = is_dir t q"
  by (auto simp: chmod_def is_dir_def split: if_splits option.splits node.splits)

lemma chmod_dir: "chmod e p m t = Inr t' \<Longrightarrow> is_dir t p \<Longrightarrow> t' p = Some (DirN m)"
  by (auto simp: chmod_def is_dir_def split: if_splits)

lemma chmod_file: "chmod e p m t = Inr t' \<Longrightarrow> t p = Some (FileN m' c) \<Longrightarrow> t' p = Some (FileN m c)"
  by (auto simp: chmod_def split: if_splits)

lemma foldl_make_Inl [simp]: "foldl (make_one e m) (Inl x) ps = Inl x"
  by (induction ps) (simp_all add: make_one_def)

text \<open>Making directories only adds directories.\<close>

lemma make_one_step:
  assumes "make_one e m (Inr t) p = Inr t'"
  shows "is_dir t' p" "q \<noteq> p \<Longrightarrow> t' q = t q" "is_dir t q \<Longrightarrow> t' q = t q" "t q \<noteq> None \<Longrightarrow> t' q = t q"
  using assms by (auto simp: make_one_def is_dir_def split: option.splits node.splits if_splits)

lemma make_all:
  assumes "foldl (make_one e m) (Inr t) ps = Inr t'"
  shows "(\<forall>p\<in>set ps. is_dir t' p) \<and> (\<forall>q. q \<notin> set ps \<longrightarrow> t' q = t q) \<and> (\<forall>q. t q \<noteq> None \<longrightarrow> t' q = t q)"
  using assms
proof (induction ps arbitrary: t)
  case (Cons p ps)
  from Cons.prems obtain u where u: "make_one e m (Inr t) p = Inr u" "foldl (make_one e m) (Inr u) ps = Inr t'"
    by (cases "make_one e m (Inr t) p") auto
  note ih = Cons.IH [OF u(2)] and st = make_one_step [OF u(1)]
  have "is_dir t' p" using st(1) ih by (auto simp: is_dir_def)
  moreover have "t' q = t q" if "q \<notin> set (p # ps)" for q using that ih st(2) by auto
  moreover have "t' q = t q" if "t q \<noteq> None" for q using that ih st(4) by auto
  ultimately show ?case using ih by simp
qed simp

text \<open>The directories \<open>MkdirAll\<close> may make: the path and everything above it.\<close>

definition chain :: "string \<Rightarrow> string set" where
  "chain p = of_elems ` set (prefixes_of (path_elems p))"

lemma mkdir_all_effect:
  assumes "mkdir_all e p m t = Inr t'"
  shows "q \<in> chain p \<Longrightarrow> is_dir t' q" "q \<notin> chain p \<Longrightarrow> t' q = t q" "t q \<noteq> None \<Longrightarrow> t' q = t q"
  using make_all [OF assms [unfolded mkdir_all_def]] by (auto simp: chain_def)

end
