(* ===== verification/Agents_File.thy ===== *)
theory Agents_File
  imports Recipe Project_Tree Hashes
begin

text \<open>
  The files \<open>nise agents\<close> writes, from \<open>internal/agentsfile\<close>: \<open>AGENTS.md\<close> and the architecture map, the
  content hash each carries, its verification, and \<open>Write\<close>, which refuses to overwrite a file that no
  longer verifies.  \<open>sha256\<close> is the definition of theory \<open>Hashes\<close>; files are byte strings.
\<close>

definition nl :: string where "nl = [CHR 0x0A]"

definition em_dash :: string where "em_dash = [CHR 0xE2, CHR 0x80, CHR 0x94]"

section \<open>The architecture map\<close>

definition ArchitectureSchemaVersion :: int where "ArchitectureSchemaVersion = 1"

definition ArchitectureGeneratedMarker :: string where
  "ArchitectureGeneratedMarker = ''Code generated by nise; DO NOT EDIT.''"

definition OwnershipNise :: string where "OwnershipNise = ''nise''"
definition OwnershipApp :: string where "OwnershipApp = ''app''"

record ArchitectureModule =
  am_name :: string
  am_selected :: bool

record ArchitectureDirectory =
  ad_path :: string
  ad_ownership :: string
  ad_description :: string

record ArchitectureFeature =
  af_name :: string
  af_path :: string

text \<open>A slice is nil or has visible elements; a decoded one may hide elements of its backing array.\<close>

datatype 'a slice = Nil_slice | Slice "'a list" "'a list"

record ArchitectureMap =
  m_schemaVersion :: int
  m_generated :: string
  m_contentHash :: string
  m_profile :: string
  m_modules :: "ArchitectureModule slice"
  m_directories :: "ArchitectureDirectory slice"
  m_features :: "ArchitectureFeature slice"

definition layoutDirectories :: "ArchitectureDirectory list" where
  "layoutDirectories = [
      \<lparr>ad_path = ''api/'', ad_ownership = OwnershipApp,
       ad_description = ''The authoritative OpenAPI document (api/openapi.yaml); hand-edited from generation onward.''\<rparr>,
      \<lparr>ad_path = ''cmd/<app>/'', ad_ownership = OwnershipApp,
       ad_description = ''Application entry point: flag parsing and process-mode selection, calling internal/app.''\<rparr>,
      \<lparr>ad_path = ''db/'', ad_ownership = OwnershipNise,
       ad_description = ''db/embed.gen.go embeds db/migrations/*.sql into the binary.''\<rparr>,
      \<lparr>ad_path = ''db/migrations/'', ad_ownership = OwnershipApp,
       ad_description = ''Sequential, hand-written SQL migrations, NNNNN_snake_case.sql.''\<rparr>,
      \<lparr>ad_path = ''deploy/'', ad_ownership = OwnershipApp,
       ad_description = ''Dockerfile, local compose file, and deployment notes.''\<rparr>,
      \<lparr>ad_path = ''frontend/'', ad_ownership = OwnershipApp,
       ad_description = ''SvelteKit project; contains no Go files. frontend/src/lib/api/schema.d.ts is the one Nise-owned file in this tree, regenerated from api/openapi.yaml.''\<rparr>,
      \<lparr>ad_path = ''internal/app/'', ad_ownership = OwnershipApp,
       ad_description = ''Explicit constructor wiring and process-mode selection; internal/app/modules.gen.go is Nise-owned and regenerated as the module selection changes.''\<rparr>,
      \<lparr>ad_path = ''internal/features/'', ad_ownership = OwnershipApp,
       ad_description = ''One vertical slice per feature: domain rules, use cases, handlers, SQL, and tests. Each feature's store/ subdirectory is Nise-owned sqlc output.''\<rparr>,
      \<lparr>ad_path = ''internal/platform/config/'', ad_ownership = OwnershipApp,
       ad_description = ''Typed configuration built over runtime/config.''\<rparr>,
      \<lparr>ad_path = ''internal/platform/database/'', ad_ownership = OwnershipApp,
       ad_description = ''pgxpool setup and the Goose migration runner.''\<rparr>,
      \<lparr>ad_path = ''internal/platform/httpapi/'', ad_ownership = OwnershipApp,
       ad_description = ''Router and middleware order; internal/platform/httpapi/openapigen/ is Nise-owned oapi-codegen output.''\<rparr>,
      \<lparr>ad_path = ''internal/platform/jobs/'', ad_ownership = OwnershipApp,
       ad_description = ''The River job runner, its queues, and their registration. A job's payload and business rules belong to the feature that enqueues it.''\<rparr>,
      \<lparr>ad_path = ''internal/platform/mail/'', ad_ownership = OwnershipApp,
       ad_description = ''The mail interface, SMTP transport, and templates. A message's content belongs to the feature that sends it.''\<rparr>,
      \<lparr>ad_path = ''internal/platform/webui/'', ad_ownership = OwnershipNise,
       ad_description = ''Embeds the built frontend and serves the SPA; internal/platform/webui/embedded/client/ is pnpm build output and is not committed.''\<rparr>]"

definition buildArchitecture :: "Recipe \<Rightarrow> ArchitectureMap" where
  "buildArchitecture r =
     \<lparr>m_schemaVersion = ArchitectureSchemaVersion, m_generated = ArchitectureGeneratedMarker,
      m_contentHash = [], m_profile = profile r,
      m_modules = Slice (map (\<lambda>m. \<lparr>am_name = m, am_selected = HasModule r m\<rparr>) Modules) [],
      m_directories = Slice layoutDirectories [], m_features = Slice [] []\<rparr>"

section \<open>The text of AGENTS.md\<close>

definition niseRepoURL :: string where "niseRepoURL = ''https://github.com/drilonrecica/nise-and-go''"

definition niseRepoDefaultBranch :: string where "niseRepoDefaultBranch = ''master''"

definition niseRepoBlobURL :: string where
  "niseRepoBlobURL = niseRepoURL @ ''/blob/'' @ niseRepoDefaultBranch"

definition moduleList :: "Recipe \<Rightarrow> string" where
  "moduleList r =
     (let selected = filter (HasModule r) Modules in
      if selected = [] then ''none'' else join '', '' (sort selected))"

definition writeStackSection :: "Recipe \<Rightarrow> string" where
  "writeStackSection r =
     ''## Stack'' @ nl @ nl @
     ''- Profile: `'' @ profile r @ ''` '' @ em_dash @ '' Go, chi, PostgreSQL (pgx, sqlc, Goose), and a'' @ nl @
     ''  statically built SvelteKit frontend embedded in the compiled binary.'' @ nl @
     ''- Generated or last upgraded by nise CLI version `'' @ cliVersion r @ ''`.'' @ nl @
     ''- Targets Nise runtime package version `'' @ runtimeVersion r @ ''`.'' @ nl @
     ''- Selected modules: '' @ moduleList r @ ''.'' @ nl @ nl"

definition writeLayoutSection :: string where
  "writeLayoutSection =
     ''## Directory layout and ownership'' @ nl @ nl @
     ''`app` means the application owns the directory: nise writes it once (or'' @ nl @
     ''not at all) and never overwrites your edits there. `nise` means nise owns'' @ nl @
     ''it: it is regenerated, and hand edits are lost.'' @ nl @ nl @
     ''| Path | Owner | Notes |'' @ nl @
     ''|---|---|---|'' @ nl @
     concat (map (\<lambda>d. ''| `'' @ ad_path d @ ''` | '' @ ad_ownership d @ '' | '' @ ad_description d @ '' |'' @ nl) layoutDirectories) @
     nl @ ''Ownership is also readable from the path, wherever it appears: the'' @ nl @
     ''directory names `store/`, `openapigen/`, and `embedded/`, and any file'' @ nl @
     ''ending `.gen.go`, are always regenerated Nise output. The same layout,'' @ nl @
     ''with the full rationale, is documented at [Generated application'' @ nl @
     ''layout]('' @ niseRepoBlobURL @ ''/docs/generated-application-layout.md).'' @ nl @ nl @
     ''The machine-readable form of this same table, plus this project's module'' @ nl @
     ''selection, is `.nise/architecture.json` (schema version '' @ show_int ArchitectureSchemaVersion @ ''), alongside this file.'' @ nl @ nl"

definition hand_edit_items :: "string list" where
  "hand_edit_items = [
      ''`AGENTS.md` and `.nise/architecture.json` '' @ em_dash @ '' this file and its machine-readable sibling'',
      ''`nise.json` '' @ em_dash @ '' the project recipe'',
      ''`internal/app/modules.gen.go`'',
      ''`internal/platform/httpapi/openapigen/**`'',
      ''`internal/features/<feature>/store/**`'',
      ''`internal/platform/webui/embedded/client/**` '' @ em_dash @ '' build output; not committed'',
      ''`frontend/src/lib/api/schema.d.ts`'']"

definition writeOwnershipSection :: string where
  "writeOwnershipSection =
     ''## Files you must not hand-edit'' @ nl @ nl @
     ''These carry the `Code generated by nise; DO NOT EDIT.` header (or, for a'' @ nl @
     ''JSON file, a `generated` field saying the same thing) and are overwritten'' @ nl @
     ''on every regeneration:'' @ nl @ nl @
     concat (map (\<lambda>item. ''- '' @ item @ nl) hand_edit_items) @
     nl"

definition writeCommandsSection :: string where
  "writeCommandsSection =
     ''## Build, test, and lint'' @ nl @ nl @
     ''`frontend/` sits inside this Go module, so a bare `./...` also walks'' @ nl @
     ''`frontend/node_modules/`. Name the Go targets explicitly instead:'' @ nl @ nl @
     ''```sh'' @ nl @
     ''go build ./cmd/... ./db/... ./internal/...'' @ nl @
     ''go test ./cmd/... ./db/... ./internal/...'' @ nl @
     ''go vet ./cmd/... ./db/... ./internal/...'' @ nl @
     ''gofmt -l cmd db internal'' @ nl @
     ''```'' @ nl @ nl @
     ''`db/` contains `db/embed.gen.go` and the source/embed parity test, so the'' @ nl @
     ''Makefile, `nise test`, and this list all include it.'' @ nl @ nl @
     ''Database schema operations are explicit and use the generated application's'' @ nl @
     ''embedded migrations:'' @ nl @ nl @
     ''```sh'' @ nl @
     ''nise db status'' @ nl @
     ''nise db migrate'' @ nl @
     ''```'' @ nl @ nl @
     ''PostgreSQL integration tests use `internal/platform/database/dbtest` and'' @ nl @
     ''create one database per test. Set `TEST_DATABASE_URL` to an administrative'' @ nl @
     ''database on a disposable server; absence skips locally and fails in CI. Run'' @ nl @
     ''`make migration-test` to gate clean installs and supported release upgrades.'' @ nl @ nl @
     ''Feature-local SQL checks are explicit and offline:'' @ nl @ nl @
     ''```sh'' @ nl @
     ''make sqlc-compile'' @ nl @
     ''make sqlc-vet'' @ nl @
     ''make sqlc-generate'' @ nl @
     ''```'' @ nl @ nl @
     ''Frontend:'' @ nl @ nl @
     ''```sh'' @ nl @
     ''pnpm --dir frontend install'' @ nl @
     ''pnpm --dir frontend check'' @ nl @
     ''pnpm --dir frontend build'' @ nl @
     ''```'' @ nl @ nl"

definition conventions :: "string list" where
  "conventions = [
      ''Svelte components use Svelte 5 runes (`$state`, `$derived`, `$effect`) only '' @ em_dash @ '' no Svelte 4 reactive statements (`$:`) and no store-as-primary-state.'',
      ''A use case owns its transaction boundary through the explicit transactor and passes the callback's `pgx.Tx` to `store.New(tx)`. Propagate the callback context; nested runners are rejected. Handlers and repositories never begin business transactions.'',
      ''Direct pgx is a reviewed exception for operations sqlc cannot model. Keep a narrow adapter in the owning feature, construct it from the use case's callback `pgx.Tx`, and use only required tracer-covered methods with static SQL and identifiers plus bound values. Never add a shared raw repository.'',
      ''Named database reference-flow tests use `database.WithQueryBudget`, assert the exact round-trip count, and verify the maximum. Update a count only with a documented database-behavior reason; batch tests also bound queued statement count.'',
      ''Authorization defaults to deny. A missing or unevaluated permission check is a bug, not an implicit allow.'',
      ''Input decoding is strict: an unknown field or a type mismatch is rejected, not ignored.'',
      ''No new dependency is added to `go.mod` or `frontend/package.json` without a documented, concrete reason.'']"

definition writeConventionsSection :: string where
  "writeConventionsSection =
     ''## Non-negotiable conventions'' @ nl @ nl @
     concat (map (\<lambda>c. ''- '' @ c @ nl) conventions) @
     nl"

definition doc_paths :: "string list" where
  "doc_paths = [
      ''docs/generated-application-layout.md'',
      ''docs/direct-pgx.md'',
      ''docs/database-query-instrumentation.md'',
      ''docs/adr/0009-generated-application-layout.md'',
      ''docs/adr/0003-application-ownership.md'',
      ''docs/adr/0010-project-recipe-format.md'']"

definition writeDocsSection :: string where
  "writeDocsSection =
     ''## Where the authoritative docs live'' @ nl @ nl @
     ''This project was generated by [Nise & Go]('' @ niseRepoURL @ ''). Its own'' @ nl @
     ''`docs/` directory is the authoritative reference for this layout, its'' @ nl @
     ''conventions, and its constraints, in particular:'' @ nl @ nl @
     concat (map (\<lambda>d. ''- ['' @ d @ ''](''  @ niseRepoBlobURL @ ''/'' @ d @ '')'' @ nl) doc_paths) @
     nl @ ''`nise.json` in this project's root records the exact profile and module'' @ nl @
     ''selection this document was generated from.'' @ nl"

definition buildAgentsMDBody :: "Recipe \<Rightarrow> string" where
  "buildAgentsMDBody r =
     ''# AGENTS.md'' @ nl @ nl @
     ''This file is generated by `nise agents`. It is Nise-owned: regenerating it'' @ nl @
     ''overwrites this file, and hand edits are lost. Edit `nise.json` and re-run'' @ nl @
     ''`nise agents` instead of changing this document directly; see'' @ nl @
     ''[Files you must not hand-edit](#files-you-must-not-hand-edit) below.'' @ nl @ nl @
     writeStackSection r @ writeLayoutSection @ writeOwnershipSection @ writeCommandsSection @
     writeConventionsSection @ writeDocsSection"

section \<open>Content hashes\<close>

definition markdownHeaderLine1 :: string where
  "markdownHeaderLine1 = ''<!-- Code generated by nise; DO NOT EDIT. -->''"

definition markdownHashPrefix :: string where "markdownHashPrefix = ''<!-- nise-content-sha256: ''"
definition markdownHashSuffix :: string where "markdownHashSuffix = '' -->''"

definition hex_sum :: "string \<Rightarrow> string" where
  "hex_sum s = hex_encode (sha256 (bytes_of_string s))"

definition wrapMarkdown :: "string \<Rightarrow> string" where
  "wrapMarkdown body =
     markdownHeaderLine1 @ nl @ markdownHashPrefix @ hex_sum body @ markdownHashSuffix @ nl @ nl @ body"

text \<open>\<open>strings.SplitN(s, "\n", 3)\<close> has three parts exactly when there are two line breaks.\<close>

definition verifyMarkdown :: "string \<Rightarrow> bool" where
  "verifyMarkdown data =
     (case cut (CHR 0x0A) data of
        None \<Rightarrow> False
      | Some (header, r) \<Rightarrow>
          (case cut (CHR 0x0A) r of
             None \<Rightarrow> False
           | Some (hashLine, rest) \<Rightarrow>
               if header \<noteq> markdownHeaderLine1 then False
               else if \<not> has_prefix hashLine markdownHashPrefix \<or> \<not> has_suffix hashLine markdownHashSuffix then False
               else
                 (let tail = drop (length markdownHashPrefix) hashLine;
                      declared = (if has_suffix tail markdownHashSuffix
                                  then take (length tail - length markdownHashSuffix) tail else tail);
                      body = (if has_prefix rest nl then drop 1 rest else rest)
                  in hex_sum body = declared)))"

definition architectureHashPrefix :: string where "architectureHashPrefix = ''sha256:''"

definition slice_json :: "('a \<Rightarrow> json) \<Rightarrow> 'a slice \<Rightarrow> json" where
  "slice_json f s = (case s of Nil_slice \<Rightarrow> JNull | Slice xs _ \<Rightarrow> JArr (map f xs))"

definition module_json :: "ArchitectureModule \<Rightarrow> json" where
  "module_json m = JObj [(''name'', JStr (am_name m)), (''selected'', JBool (am_selected m))]"

definition directory_json :: "ArchitectureDirectory \<Rightarrow> json" where
  "directory_json d =
     JObj [(''path'', JStr (ad_path d)), (''ownership'', JStr (ad_ownership d)), (''description'', JStr (ad_description d))]"

definition feature_json :: "ArchitectureFeature \<Rightarrow> json" where
  "feature_json f = JObj [(''name'', JStr (af_name f)), (''path'', JStr (af_path f))]"

definition architecture_members :: "ArchitectureMap \<Rightarrow> (string \<times> json) list" where
  "architecture_members m =
     [(''schemaVersion'', JNum (show_int (m_schemaVersion m))),
      (''generated'', JStr (m_generated m)),
      (''contentHash'', JStr (m_contentHash m)),
      (''profile'', JStr (m_profile m)),
      (''modules'', slice_json module_json (m_modules m)),
      (''directories'', slice_json directory_json (m_directories m)),
      (''features'', slice_json feature_json (m_features m))]"

definition encode_architecture :: "ArchitectureMap \<Rightarrow> string" where
  "encode_architecture m = write_value 0 (JObj (architecture_members m)) @ nl"

definition canonicalArchitectureBytes :: "ArchitectureMap \<Rightarrow> string" where
  "canonicalArchitectureBytes m = encode_architecture (m\<lparr>m_contentHash := []\<rparr>)"

definition wrapArchitecture :: "ArchitectureMap \<Rightarrow> string" where
  "wrapArchitecture m =
     encode_architecture (m\<lparr>m_contentHash := architectureHashPrefix @ hex_sum (canonicalArchitectureBytes m)\<rparr>)"

text \<open>
  \<open>json.Unmarshal\<close> into the map: a key that matches no field is skipped, a \<open>null\<close> leaves a scalar or a
  struct as it is and makes a slice nil, elements are decoded in place.
\<close>

definition get_text :: "json \<Rightarrow> string \<Rightarrow> string option" where
  "get_text v old = (case v of JStr s \<Rightarrow> Some s | JNull \<Rightarrow> Some old | _ \<Rightarrow> None)"

definition get_bool :: "json \<Rightarrow> bool \<Rightarrow> bool option" where
  "get_bool v old = (case v of JBool b \<Rightarrow> Some b | JNull \<Rightarrow> Some old | _ \<Rightarrow> None)"

definition get_int :: "json \<Rightarrow> int \<Rightarrow> int option" where
  "get_int v old = (case v of JNum l \<Rightarrow> atoi l | JNull \<Rightarrow> Some old | _ \<Rightarrow> None)"

fun get_members :: "(string \<Rightarrow> json \<Rightarrow> 'a \<Rightarrow> 'a option) \<Rightarrow> string list \<Rightarrow> (string \<times> json) list \<Rightarrow> 'a \<Rightarrow> 'a option" where
  "get_members field names [] x = Some x"
| "get_members field names ((k, v) # kvs) x =
     (case lookup_field names k of
        None \<Rightarrow> get_members field names kvs x
      | Some f \<Rightarrow> (case field f v x of None \<Rightarrow> None | Some y \<Rightarrow> get_members field names kvs y))"

definition get_struct :: "(string \<Rightarrow> json \<Rightarrow> 'a \<Rightarrow> 'a option) \<Rightarrow> string list \<Rightarrow> json \<Rightarrow> 'a \<Rightarrow> 'a option" where
  "get_struct field names v old =
     (case v of JObj kvs \<Rightarrow> get_members field names kvs old | JNull \<Rightarrow> Some old | _ \<Rightarrow> None)"

fun get_elems :: "(json \<Rightarrow> 'a \<Rightarrow> 'a option) \<Rightarrow> 'a \<Rightarrow> 'a list \<Rightarrow> json list \<Rightarrow> 'a list option" where
  "get_elems elem zero old [] = Some []"
| "get_elems elem zero old (v # vs) =
     (case elem v (if old = [] then zero else hd old) of
        None \<Rightarrow> None
      | Some x \<Rightarrow> map_option (Cons x) (get_elems elem zero (tl old) vs))"

definition get_slice :: "(json \<Rightarrow> 'a \<Rightarrow> 'a option) \<Rightarrow> 'a \<Rightarrow> json \<Rightarrow> 'a slice \<Rightarrow> 'a slice option" where
  "get_slice elem zero v cur =
     (case v of
        JNull \<Rightarrow> Some Nil_slice
      | JArr vs \<Rightarrow>
          (let old = (case cur of Nil_slice \<Rightarrow> [] | Slice seen hidden \<Rightarrow> seen @ hidden) in
           if vs = [] then Some (Slice [] [])
           else map_option (\<lambda>xs. Slice xs (drop (length xs) old)) (get_elems elem zero old vs))
      | _ \<Rightarrow> None)"

definition module_field :: "string \<Rightarrow> json \<Rightarrow> ArchitectureModule \<Rightarrow> ArchitectureModule option" where
  "module_field f v m =
     (if f = ''name'' then map_option (\<lambda>x. m\<lparr>am_name := x\<rparr>) (get_text v (am_name m))
      else map_option (\<lambda>x. m\<lparr>am_selected := x\<rparr>) (get_bool v (am_selected m)))"

definition directory_field :: "string \<Rightarrow> json \<Rightarrow> ArchitectureDirectory \<Rightarrow> ArchitectureDirectory option" where
  "directory_field f v d =
     (if f = ''path'' then map_option (\<lambda>x. d\<lparr>ad_path := x\<rparr>) (get_text v (ad_path d))
      else if f = ''ownership'' then map_option (\<lambda>x. d\<lparr>ad_ownership := x\<rparr>) (get_text v (ad_ownership d))
      else map_option (\<lambda>x. d\<lparr>ad_description := x\<rparr>) (get_text v (ad_description d)))"

definition feature_field :: "string \<Rightarrow> json \<Rightarrow> ArchitectureFeature \<Rightarrow> ArchitectureFeature option" where
  "feature_field f v x =
     (if f = ''name'' then map_option (\<lambda>y. x\<lparr>af_name := y\<rparr>) (get_text v (af_name x))
      else map_option (\<lambda>y. x\<lparr>af_path := y\<rparr>) (get_text v (af_path x)))"

definition module_fields :: "string list" where "module_fields = [''name'', ''selected'']"
definition directory_fields :: "string list" where "directory_fields = [''path'', ''ownership'', ''description'']"
definition feature_fields :: "string list" where "feature_fields = [''name'', ''path'']"

definition architecture_fields :: "string list" where
  "architecture_fields =
     [''schemaVersion'', ''generated'', ''contentHash'', ''profile'', ''modules'', ''directories'', ''features'']"

definition architecture_field :: "string \<Rightarrow> json \<Rightarrow> ArchitectureMap \<Rightarrow> ArchitectureMap option" where
  "architecture_field f v m =
     (if f = ''schemaVersion'' then map_option (\<lambda>x. m\<lparr>m_schemaVersion := x\<rparr>) (get_int v (m_schemaVersion m))
      else if f = ''generated'' then map_option (\<lambda>x. m\<lparr>m_generated := x\<rparr>) (get_text v (m_generated m))
      else if f = ''contentHash'' then map_option (\<lambda>x. m\<lparr>m_contentHash := x\<rparr>) (get_text v (m_contentHash m))
      else if f = ''profile'' then map_option (\<lambda>x. m\<lparr>m_profile := x\<rparr>) (get_text v (m_profile m))
      else if f = ''modules'' then
        map_option (\<lambda>x. m\<lparr>m_modules := x\<rparr>)
          (get_slice (get_struct module_field module_fields) \<lparr>am_name = [], am_selected = False\<rparr> v (m_modules m))
      else if f = ''directories'' then
        map_option (\<lambda>x. m\<lparr>m_directories := x\<rparr>)
          (get_slice (get_struct directory_field directory_fields)
            \<lparr>ad_path = [], ad_ownership = [], ad_description = []\<rparr> v (m_directories m))
      else
        map_option (\<lambda>x. m\<lparr>m_features := x\<rparr>)
          (get_slice (get_struct feature_field feature_fields) \<lparr>af_name = [], af_path = []\<rparr> v (m_features m)))"

definition zero_architecture :: ArchitectureMap where
  "zero_architecture =
     \<lparr>m_schemaVersion = 0, m_generated = [], m_contentHash = [], m_profile = [],
      m_modules = Nil_slice, m_directories = Nil_slice, m_features = Nil_slice\<rparr>"

definition read_architecture :: "string \<Rightarrow> ArchitectureMap option" where
  "read_architecture data =
     (case read_json data of
        Inl f \<Rightarrow> None
      | Inr (v, rest) \<Rightarrow>
          if skip_ws rest \<noteq> [] then None
          else get_struct architecture_field architecture_fields v zero_architecture)"

definition verifyArchitecture :: "string \<Rightarrow> bool" where
  "verifyArchitecture data =
     (case read_architecture data of
        None \<Rightarrow> False
      | Some m \<Rightarrow>
          m_contentHash m \<noteq> [] \<and>
          m_contentHash m = architectureHashPrefix @ hex_sum (canonicalArchitectureBytes m))"

section \<open>Generation and writing\<close>

record agents_output =
  AgentsMD :: string
  Architecture :: string

definition Generate :: "Recipe \<Rightarrow> agents_output" where
  "Generate r = \<lparr>AgentsMD = wrapMarkdown (buildAgentsMDBody r), Architecture = wrapArchitecture (buildArchitecture r)\<rparr>"

definition AgentsFileName :: string where "AgentsFileName = ''AGENTS.md''"
definition ArchitectureDir :: string where "ArchitectureDir = ''.nise''"
definition ArchitectureFileName :: string where "ArchitectureFileName = ''architecture.json''"

definition architecture_path :: string where
  "architecture_path = ArchitectureDir @ ''/'' @ ArchitectureFileName"

definition previewMaxLines :: nat where "previewMaxLines = 20"
definition previewMaxRunes :: nat where "previewMaxRunes = 2000"

text \<open>\<open>[]rune(s)\<close>, each rune as the bytes \<open>string\<close> renders it: an invalid byte becomes U+FFFD.\<close>

function runes :: "string \<Rightarrow> string list" where
  "runes s =
     (case s of
        [] \<Rightarrow> []
      | c # cs \<Rightarrow>
          (case rune_width s of
             None \<Rightarrow> replacement # runes cs
           | Some n \<Rightarrow> take n s # runes (drop n s)))"
  by pat_completeness auto
termination
  by (relation "measure length") (auto dest: rune_width_bounds)

declare runes.simps [simp del]

definition preview :: "string \<Rightarrow> string" where
  "preview data =
     (let ls = split_on (CHR 0x0A) data;
          rs = runes (join nl (take previewMaxLines ls))
      in concat (take previewMaxRunes rs) @
         (if previewMaxLines < length ls \<or> previewMaxRunes < length rs then nl @ ''... (truncated)'' else []))"

datatype agents_error = Conflicts "(string \<times> string) list" | Agents_io io_error

definition checkConflict :: "env \<Rightarrow> tree \<Rightarrow> string \<Rightarrow> (string \<Rightarrow> bool) \<Rightarrow> agents_error + (string \<times> string) list" where
  "checkConflict e t p verify =
     (case read_file e t p of
        Inl Not_exist \<Rightarrow> Inr []
      | Inl x \<Rightarrow> Inl (Agents_io x)
      | Inr data \<Rightarrow> if verify data then Inr [] else Inr [(p, preview data)])"

definition agents_conflicts :: "env \<Rightarrow> tree \<Rightarrow> agents_error + (string \<times> string) list" where
  "agents_conflicts e t =
     (case checkConflict e t AgentsFileName verifyMarkdown of
        Inl x \<Rightarrow> Inl x
      | Inr a \<Rightarrow> (case checkConflict e t architecture_path verifyArchitecture of
                    Inl x \<Rightarrow> Inl x
                  | Inr b \<Rightarrow> Inr (a @ b)))"

text \<open>The two writes; the tree is returned as it stands when the call returns.\<close>

definition agents_write :: "env \<Rightarrow> agents_output \<Rightarrow> tree \<Rightarrow> agents_error option \<times> tree" where
  "agents_write e out t =
     (case mkdir_all e ArchitectureDir 0x1E8 t of
        Inl x \<Rightarrow> (Some (Agents_io x), t)
      | Inr t1 \<Rightarrow>
          (case write_file e AgentsFileName (AgentsMD out) 0x1A4 t1 of
             Inl x \<Rightarrow> (Some (Agents_io x), t1)
           | Inr t2 \<Rightarrow>
               (case write_file e architecture_path (Architecture out) 0x1A4 t2 of
                  Inl x \<Rightarrow> (Some (Agents_io x), t2)
                | Inr t3 \<Rightarrow> (None, t3))))"

definition Agents_Write :: "env \<Rightarrow> Recipe \<Rightarrow> bool \<Rightarrow> tree \<Rightarrow> agents_error option \<times> tree" where
  "Agents_Write e r force t =
     (let out = Generate r in
      if force then agents_write e out t
      else
        (case agents_conflicts e t of
           Inl x \<Rightarrow> (Some x, t)
         | Inr cs \<Rightarrow> if cs \<noteq> [] then (Some (Conflicts cs), t) else agents_write e out t))"

section \<open>The tool's own output verifies\<close>

lemma hex_sum_no_break: "CHR 0x0A \<notin> set (hex_sum s)"
proof -
  have "hex_digit n \<noteq> CHR 0x0A" if "n < 16" for n
    using that by (auto simp: hex_digit_def byte_char_def simp flip: code_inject) (auto simp: code_def)
  moreover have "unat b div 16 < 16" for b :: byte
    using byte_bound [of b] by (simp add: less_mult_imp_div_less)
  ultimately show ?thesis unfolding hex_sum_def hex_encode_def by (auto dest: sym)
qed

lemma has_suffix_append [simp]: "has_suffix (a @ b) b"
  by (simp add: has_suffix_def)

lemma verify_wrapMarkdown: "verifyMarkdown (wrapMarkdown body)"
proof -
  let ?h = "markdownHashPrefix @ hex_sum body @ markdownHashSuffix"
  have "CHR 0x0A \<notin> set ?h" using hex_sum_no_break by (simp add: markdownHashPrefix_def markdownHashSuffix_def)
  then have "cut (CHR 0x0A) (?h @ CHR 0x0A # nl @ body) = Some (?h, nl @ body)" by (rule cut_append)
  moreover have "cut (CHR 0x0A) (markdownHeaderLine1 @ CHR 0x0A # ?h @ CHR 0x0A # nl @ body) =
      Some (markdownHeaderLine1, ?h @ CHR 0x0A # nl @ body)"
    by (rule cut_append) (simp add: markdownHeaderLine1_def)
  moreover have "wrapMarkdown body = markdownHeaderLine1 @ CHR 0x0A # ?h @ CHR 0x0A # nl @ body"
    by (simp add: wrapMarkdown_def nl_def)
  moreover have "has_suffix ?h markdownHashSuffix"
    using has_suffix_append [of "markdownHashPrefix @ hex_sum body" markdownHashSuffix] by simp
  ultimately show ?thesis
    by (simp add: verifyMarkdown_def Let_def) (simp add: nl_def has_prefix_def)
qed

lemma get_elems_map:
  "\<forall>x\<in>set xs. elem (f x) zero = Some x \<Longrightarrow> get_elems elem zero [] (map f xs) = Some xs"
  by (induction xs) simp_all

lemma get_slice_json:
  assumes "\<forall>x\<in>set xs. elem (f x) zero = Some x"
  shows "get_slice elem zero (slice_json f (Slice xs [])) Nil_slice = Some (Slice xs [])"
  using get_elems_map [of xs elem f zero] assms by (simp add: get_slice_def slice_json_def)

lemma get_module_json:
  "get_struct module_field module_fields (module_json m) \<lparr>am_name = [], am_selected = False\<rparr> = Some m"
  by (simp add: get_struct_def module_json_def module_field_def module_fields_def lookup_field_def get_text_def get_bool_def)

lemma get_directory_json:
  "get_struct directory_field directory_fields (directory_json d) \<lparr>ad_path = [], ad_ownership = [], ad_description = []\<rparr> = Some d"
  by (simp add: get_struct_def directory_json_def directory_field_def directory_fields_def lookup_field_def get_text_def)

lemma get_feature_json:
  "get_struct feature_field feature_fields (feature_json f) \<lparr>af_name = [], af_path = []\<rparr> = Some f"
  by (simp add: get_struct_def feature_json_def feature_field_def feature_fields_def lookup_field_def get_text_def)

text \<open>A map whose slices are neither nil nor hide anything, with a schema version in range and valid text.\<close>

definition plain_map :: "ArchitectureMap \<Rightarrow> bool" where
  "plain_map m \<longleftrightarrow>
     (\<exists>n. m_schemaVersion m = int n \<and> n < 2 ^ 63) \<and>
     (\<exists>ms. m_modules m = Slice ms []) \<and> (\<exists>ds. m_directories m = Slice ds []) \<and> (\<exists>fs. m_features m = Slice fs [])"

lemma get_architecture_members:
  assumes "plain_map m"
  shows "get_members architecture_field architecture_fields (architecture_members m) zero_architecture = Some m"
proof -
  obtain n ms ds fs where m: "m_schemaVersion m = int n" "n < 2 ^ 63" "m_modules m = Slice ms []"
    "m_directories m = Slice ds []" "m_features m = Slice fs []"
    using assms by (auto simp: plain_map_def)
  have keys: "list_all (\<lambda>k. lookup_field architecture_fields k = Some k)
     [''schemaVersion'', ''generated'', ''contentHash'', ''profile'', ''modules'', ''directories'', ''features'']"
    by (simp add: lookup_field_def architecture_fields_def)
  have int: "get_int (JNum (show_int (int n))) i = Some (int n)" for i
    using m(2) by (simp add: get_int_def show_int_def)
  have slices:
    "get_slice (get_struct module_field module_fields) \<lparr>am_name = [], am_selected = False\<rparr>
       (slice_json module_json (Slice ms [])) Nil_slice = Some (Slice ms [])"
    "get_slice (get_struct directory_field directory_fields) \<lparr>ad_path = [], ad_ownership = [], ad_description = []\<rparr>
       (slice_json directory_json (Slice ds [])) Nil_slice = Some (Slice ds [])"
    "get_slice (get_struct feature_field feature_fields) \<lparr>af_name = [], af_path = []\<rparr>
       (slice_json feature_json (Slice fs [])) Nil_slice = Some (Slice fs [])"
    by (rule get_slice_json, simp add: get_module_json get_directory_json get_feature_json)+
  show ?thesis
    using m keys
    by (simp add: architecture_members_def architecture_field_def int get_text_def slices zero_architecture_def)
qed

lemma get_members_skip:
  "\<forall>kv\<in>set extra. lookup_field names (fst kv) = None \<Longrightarrow> get_members field names (kvs @ extra) x = get_members field names kvs x"
proof (induction kvs arbitrary: x)
  case Nil
  then show ?case by (induction extra) (auto split: prod.splits)
next
  case (Cons kv kvs)
  then show ?case by (cases kv) (auto split: option.splits)
qed

definition json_text :: "string \<Rightarrow> bool" where
  "json_text s \<longleftrightarrow> list_all is_ascii s"

lemma layout_text: "list_all (\<lambda>d. json_text (ad_path d) \<and> json_text (ad_ownership d) \<and> json_text (ad_description d)) layoutDirectories"
  unfolding json_text_def by code_simp

lemma modules_text: "list_all (\<lambda>m. json_text m) Modules"
  using modules_valid by (auto simp: list_all_iff json_text_def)

text \<open>The document of a recipe, with any hash and any further members, is read back as its fields.\<close>

definition stamped :: "Recipe \<Rightarrow> string \<Rightarrow> ArchitectureMap" where
  "stamped r h = (buildArchitecture r)\<lparr>m_contentHash := h\<rparr>"

lemma stamped_plain: "plain_map (stamped r h)"
  by (auto simp: plain_map_def stamped_def buildArchitecture_def ArchitectureSchemaVersion_def intro: exI [of _ 1])

lemma fold_max_le: "(\<forall>n\<in>set ns. n \<le> b) \<Longrightarrow> m \<le> b \<Longrightarrow> fold max ns (m :: nat) \<le> b"
  by (induction ns arbitrary: m) auto

lemma stamped_json_ok:
  assumes "json_text (profile r)" and "json_text h"
  shows "\<forall>kv\<in>set (architecture_members (stamped r h)). valid_string (fst kv) \<and> json_ok (snd kv)"
    "\<forall>kv\<in>set (architecture_members (stamped r h)). height (snd kv) \<le> 2"
proof -
  have keys: "list_all (\<lambda>k. valid_string k) [''schemaVersion'', ''generated'', ''contentHash'', ''profile'', ''modules'',
      ''directories'', ''features'', ''name'', ''selected'', ''path'', ''ownership'', ''description'']"
    by (simp add: valid_ascii char_class_defs)
  have gen: "valid_string ArchitectureGeneratedMarker"
    by (simp add: ArchitectureGeneratedMarker_def valid_ascii char_class_defs)
  have "json_ok (module_json \<lparr>am_name = m, am_selected = b\<rparr>)" if "m \<in> set Modules" for m b
    using that keys modules_text by (auto simp: module_json_def list_all_iff json_text_def valid_ascii)
  moreover have "json_ok (directory_json d)" if "d \<in> set layoutDirectories" for d
    using that keys layout_text by (auto simp: directory_json_def list_all_iff json_text_def valid_ascii)
  ultimately show "\<forall>kv\<in>set (architecture_members (stamped r h)). valid_string (fst kv) \<and> json_ok (snd kv)"
    using assms keys gen
    by (auto simp add: architecture_members_def stamped_def buildArchitecture_def slice_json_def json_text_def valid_ascii)
  have "height (module_json m) = 1" "height (directory_json d) = 1" for m d
    by (simp_all add: module_json_def directory_json_def)
  then show "\<forall>kv\<in>set (architecture_members (stamped r h)). height (snd kv) \<le> 2"
    by (auto simp: architecture_members_def stamped_def buildArchitecture_def slice_json_def comp_def intro!: fold_max_le)
qed

lemma verify_stamped:
  assumes "json_text (profile r)"
    and "\<forall>kv\<in>set extra. lookup_field architecture_fields (fst kv) = None \<and> valid_string (fst kv) \<and> json_ok (snd kv) \<and> height (snd kv) < 10000"
    and "h = architectureHashPrefix @ hex_sum (canonicalArchitectureBytes (buildArchitecture r))"
  shows "verifyArchitecture (write_value 0 (JObj (architecture_members (stamped r h) @ extra)) @ nl)"
proof -
  let ?kvs = "architecture_members (stamped r h) @ extra"
  have h: "json_text h"
    using assms(3) hex_encode_ascii by (simp add: json_text_def hex_sum_def architectureHashPrefix_def char_class_defs)
  have "json_ok (JObj ?kvs)"
    using stamped_json_ok(1) [OF assms(1) h] assms(2) by auto
  moreover have "height (JObj ?kvs) \<le> maxNestingDepth"
    unfolding maxNestingDepth_def height.simps Suc_le_eq less_eq_Suc_le [symmetric]
    using stamped_json_ok(2) [OF assms(1) h] assms(2)
    by (intro le_imp_less_Suc [THEN less_le_trans, of _ 9999] fold_max_le) fastforce+
  ultimately have "read_json (write_value 0 (JObj ?kvs) @ nl) = Inr (JObj ?kvs, nl)"
    by (intro read_written) (simp_all add: nl_def ends_value_def char_class_defs)
  moreover have "get_members architecture_field architecture_fields ?kvs zero_architecture = Some (stamped r h)"
    using get_members_skip [of extra architecture_fields architecture_field "architecture_members (stamped r h)" zero_architecture]
      get_architecture_members [OF stamped_plain, of r h] assms(2) by simp
  moreover have "skip_ws nl = []" by (simp add: nl_def skip_ws_def is_json_space_def code_def)
  moreover have "canonicalArchitectureBytes (stamped r h) = canonicalArchitectureBytes (buildArchitecture r)"
    by (simp add: canonicalArchitectureBytes_def stamped_def)
  ultimately show ?thesis
    using assms(3)
    by (simp add: verifyArchitecture_def read_architecture_def get_struct_def)
      (simp add: stamped_def architectureHashPrefix_def)
qed

lemma verify_wrapArchitecture:
  assumes "json_text (profile r)"
  shows "verifyArchitecture (wrapArchitecture (buildArchitecture r))"
  using verify_stamped [OF assms, of "[]"]
  by (simp add: wrapArchitecture_def encode_architecture_def stamped_def)

section \<open>What the command overwrites\<close>

definition agents_targets :: "(string \<times> (string \<Rightarrow> bool)) list" where
  "agents_targets = [(AgentsFileName, verifyMarkdown), (architecture_path, verifyArchitecture)]"

lemma agents_conflicts_clear:
  assumes "agents_conflicts e t = Inr []" and "(p, verify) \<in> set agents_targets" and "t p = Some (FileN m c)"
  shows "verify c"
  using assms
  by (auto simp: agents_conflicts_def agents_targets_def checkConflict_def read_file_def
      split: sum.splits if_splits io_error.splits)

lemma agents_write_effect:
  assumes "agents_write e out t = (None, t')"
  shows "(\<exists>m. t' AgentsFileName = Some (FileN m (AgentsMD out))) \<and> (\<exists>m. t' architecture_path = Some (FileN m (Architecture out)))"
proof -
  from assms obtain t1 t2 where
    w: "write_file e AgentsFileName (AgentsMD out) 0x1A4 t1 = Inr t2"
      "write_file e architecture_path (Architecture out) 0x1A4 t2 = Inr t'"
    by (auto simp: agents_write_def split: sum.splits)
  have "AgentsFileName \<noteq> architecture_path"
    by (simp add: AgentsFileName_def architecture_path_def ArchitectureDir_def)
  then show ?thesis using write_file_at [OF w(1)] write_file_at [OF w(2)] write_file_other [OF w(2)] by auto
qed

text \<open>No existing entry other than the two targets changes.\<close>

lemma agents_write_others:
  assumes "agents_write e out t = (r, t')" and "p \<notin> {AgentsFileName, architecture_path}" and "t p \<noteq> None"
  shows "t' p = t p"
proof -
  have keep: "u' p = u p" if "write_file e q c m u = Inr u'" "q \<in> {AgentsFileName, architecture_path}" for q c m u u'
    using write_file_other [OF that(1)] that(2) assms(2) by blast
  show ?thesis
  proof (cases "mkdir_all e ArchitectureDir 0x1E8 t")
    case (Inr t1)
    then have "t1 p = t p" using mkdir_all_effect(3) assms(3) by blast
    then show ?thesis
      using assms(1) Inr keep by (auto simp: agents_write_def split: sum.splits) (metis insertI1 insertI2)+
  qed (use assms(1) in \<open>auto simp: agents_write_def\<close>)
qed

text \<open>
  C26: Without \<open>--force\<close>, \<open>nise agents\<close> never destroys a file it did not write: when either target holds
  bytes that do not verify, nothing in the project changes and the call reports an error.
\<close>

theorem agents_refuses_edits:
  assumes "(p, verify) \<in> set agents_targets" and "t p = Some (FileN m c)" and "\<not> verify c"
    and "Agents_Write e r False t = (res, t')"
  shows "t' = t \<and> res \<noteq> None"
  using assms(4) agents_conflicts_clear [of e t p verify m c] assms(1,2,3)
  by (auto simp: Agents_Write_def Let_def split: sum.splits if_splits)

definition edited_project :: tree where
  "edited_project = [''.'' \<mapsto> DirN 0x1ED, ''AGENTS.md'' \<mapsto> FileN 0x1A4 ''my own notes'']"

theorem agents_refuses_edits_witness:
  "snd (Agents_Write \<lparr>umask = 0, carried = (\<lambda>_. True)\<rparr> sample_recipe False edited_project) = edited_project \<and>
   fst (Agents_Write \<lparr>umask = 0, carried = (\<lambda>_. True)\<rparr> sample_recipe False edited_project) \<noteq> None"
proof -
  have v: "\<not> verifyMarkdown ''my own notes''" by code_simp
  have t: "(''AGENTS.md'', verifyMarkdown) \<in> set agents_targets" by (simp add: agents_targets_def AgentsFileName_def)
  have p: "edited_project ''AGENTS.md'' = Some (FileN 0x1A4 ''my own notes'')" by (simp add: edited_project_def)
  show ?thesis
    using agents_refuses_edits [of "''AGENTS.md''" verifyMarkdown edited_project "0x1A4" "''my own notes''"
        "\<lparr>umask = 0, carried = (\<lambda>_. True)\<rparr>" sample_recipe] t p v by (metis prod.collapse)
qed

text \<open>
  What \<open>nise agents\<close> wrote it may always write again: after a successful run for one recipe, a run for
  any other recipe finds no conflict, whatever the files' modes, so regeneration never needs \<open>--force\<close>.
\<close>

theorem agents_regenerates:
  assumes "recipe_ok r" and "Agents_Write e r force t = (None, t')" and "carried e = (\<lambda>_. True)"
  shows "agents_conflicts e t' = Inr [] \<and> Agents_Write e r' False t' = Agents_Write e r' True t'"
proof -
  from assms(2) have "agents_write e (Generate r) t = (None, t')"
    by (auto simp: Agents_Write_def Let_def split: if_splits sum.splits)
  from agents_write_effect [OF this] obtain m m' where
    f: "t' AgentsFileName = Some (FileN m (wrapMarkdown (buildAgentsMDBody r)))"
      "t' architecture_path = Some (FileN m' (wrapArchitecture (buildArchitecture r)))"
    by (auto simp: Generate_def)
  have "json_text (profile r)" using assms(1) by (simp add: recipe_ok_def json_text_def char_class_defs)
  then have "agents_conflicts e t' = Inr []"
    using f assms(3) verify_wrapMarkdown verify_wrapArchitecture
    by (simp add: agents_conflicts_def checkConflict_def read_file_def)
  then show ?thesis by (simp add: Agents_Write_def Let_def)
qed

definition fresh_project :: tree where "fresh_project = [''.'' \<mapsto> DirN 0x1ED]"

definition plain_env :: env where "plain_env = \<lparr>umask = 0x12, carried = (\<lambda>_. True)\<rparr>"

lemma fresh_project_written: "\<exists>t'. Agents_Write plain_env sample_recipe True fresh_project = (None, t')"
proof -
  have "Dir ''AGENTS.md'' = ''.''" "Dir ''.nise/architecture.json'' = ''.nise''" by code_simp+
  moreover have "prefixes_of (path_elems ''.nise'') = [[], [''.nise'']]" by code_simp
  moreover have "of_elems [] = ''.''" "of_elems [''.nise''] = ''.nise''" by (simp_all add: of_elems_def)
  ultimately show ?thesis
    by (simp add: Agents_Write_def Let_def agents_write_def mkdir_all_def make_one_def write_file_def is_dir_def
        fresh_project_def plain_env_def AgentsFileName_def ArchitectureDir_def ArchitectureFileName_def architecture_path_def)
qed

theorem agents_regenerates_witness:
  "\<exists>t'. Agents_Write plain_env sample_recipe True fresh_project = (None, t') \<and> agents_conflicts plain_env t' = Inr [] \<and>
     Agents_Write plain_env (sample_recipe\<lparr>modules := []\<rparr>) False t' = Agents_Write plain_env (sample_recipe\<lparr>modules := []\<rparr>) True t'"
  using fresh_project_written agents_regenerates [OF sample_recipe_ok, of plain_env True fresh_project]
  by (auto simp: plain_env_def)

text \<open>
  A document with a further member still verifies: the decoder skips keys it does not know, so a value a
  person added is overwritten without a conflict.
\<close>

lemma added_member_verifies:
  assumes "json_text (profile r)" and "lookup_field architecture_fields k = None" and "json_text k" and "json_text v"
  shows "verifyArchitecture
     (write_value 0 (JObj (architecture_members
        (stamped r (architectureHashPrefix @ hex_sum (canonicalArchitectureBytes (buildArchitecture r)))) @ [(k, JStr v)])) @ nl)"
  using verify_stamped [OF assms(1), of "[(k, JStr v)]"] assms(2,3,4) by (simp add: json_text_def valid_ascii)

lemma added_member_witness: "lookup_field architecture_fields ''note'' = None"
  by code_simp

end
