(* ===== verification/Versions.thy ===== *)
theory Versions
  imports Prelude
begin

text \<open>
  The versions a generated project is pinned to, from \<open>internal/generator/versions.go\<close>.
\<close>

definition NiseModulePath :: string where "NiseModulePath = ''github.com/drilonrecica/nise-and-go''"

definition NiseModuleVersion :: string where "NiseModuleVersion = ''v0.1.0''"

definition ChiVersion :: string where "ChiVersion = ''v5.3.2''"

definition PgxVersion :: string where "PgxVersion = ''v5.10.0''"

definition SQLCVersion :: string where "SQLCVersion = ''v1.31.1''"

definition GooseVersion :: string where "GooseVersion = ''v3.27.3''"

definition RiverVersion :: string where "RiverVersion = ''v0.46.0''"

definition RiverSchemaVersion :: int where "RiverSchemaVersion = 7"

definition XCryptoVersion :: string where "XCryptoVersion = ''v0.54.0''"

definition OAPICodegenVersion :: string where "OAPICodegenVersion = ''v2.8.0''"

definition OAPIRuntimeVersion :: string where "OAPIRuntimeVersion = ''v1.7.0''"

definition OAPICodegenGeneratedHeader :: string where
  "OAPICodegenGeneratedHeader = ''Code generated by github.com/oapi-codegen/oapi-codegen/v2 version '' @ OAPICodegenVersion @ '' DO NOT EDIT.''"

definition GoDirective :: string where "GoDirective = ''1.26.0''"

definition GoImageTag :: string where "GoImageTag = ''1.26''"

definition GoImageDigest :: string where "GoImageDigest = ''sha256:ba4c8df3f74321b0d5c44911ccb694c8156340b684eed1fae09a9bd9f7a82b4d''"

definition NodeImageDigest :: string where "NodeImageDigest = ''sha256:4d676821dff059fd00d277ee4261ef34ea712317fed0737c03941481b5760c96''"

definition RuntimeImage :: string where "RuntimeImage = ''gcr.io/distroless/static-debian12''"

definition RuntimeImageTag :: string where "RuntimeImageTag = ''nonroot''"

definition RuntimeImageDigest :: string where "RuntimeImageDigest = ''sha256:52dcfbabb7457ea47c82f6e13af8c8a4a1d9f7b0145142b3ecab20f2b888411d''"

definition NodeVersion :: string where "NodeVersion = ''22.22.2''"

definition NodeMajor :: string where "NodeMajor = ''22''"

definition PnpmVersion :: string where "PnpmVersion = ''10.33.0''"

definition OpenAPITypescriptVersion :: string where "OpenAPITypescriptVersion = ''7.13.0''"

definition TypeScriptVersion :: string where "TypeScriptVersion = ''5.9.3''"

definition VitestVersion :: string where "VitestVersion = ''4.1.11''"

definition PlaywrightVersion :: string where "PlaywrightVersion = ''1.62.1''"

definition AxeCoreVersion :: string where "AxeCoreVersion = ''4.13.0''"

definition VitestBrowserSvelteVersion :: string where "VitestBrowserSvelteVersion = ''3.0.0''"

definition BiomeVersion :: string where "BiomeVersion = ''2.5.11''"

definition GolangciLintVersion :: string where "GolangciLintVersion = ''2.11.3''"

definition ValibotVersion :: string where "ValibotVersion = ''1.1.0''"

definition ParaglideVersion :: string where "ParaglideVersion = ''2.25.0''"

definition MessageFormatPluginVersion :: string where "MessageFormatPluginVersion = ''4.1.0''"

definition TableCoreVersion :: string where "TableCoreVersion = ''8.21.3''"

record Dependency =
  Name :: string
  Version :: string

definition frontendRuntimeDependencies :: "Dependency list" where
  "frontendRuntimeDependencies =
     [\<lparr>Name = ''@tanstack/table-core'', Version = TableCoreVersion\<rparr>,
      \<lparr>Name = ''valibot'', Version = ValibotVersion\<rparr>]"

definition FrontendRuntimeDependencies :: "Dependency list" where
  "FrontendRuntimeDependencies = frontendRuntimeDependencies"

definition frontendDependencies :: "Dependency list" where
  "frontendDependencies =
     [\<lparr>Name = ''@sveltejs/adapter-static'', Version = ''3.0.10''\<rparr>,
      \<lparr>Name = ''@sveltejs/kit'', Version = ''2.70.3''\<rparr>,
      \<lparr>Name = ''@sveltejs/vite-plugin-svelte'', Version = ''7.3.0''\<rparr>,
      \<lparr>Name = ''@playwright/test'', Version = PlaywrightVersion\<rparr>,
      \<lparr>Name = ''@tailwindcss/vite'', Version = ''4.3.3''\<rparr>,
      \<lparr>Name = ''@vitest/browser'', Version = VitestVersion\<rparr>,
      \<lparr>Name = ''@vitest/browser-playwright'', Version = VitestVersion\<rparr>,
      \<lparr>Name = ''@biomejs/biome'', Version = BiomeVersion\<rparr>,
      \<lparr>Name = ''axe-core'', Version = AxeCoreVersion\<rparr>,
      \<lparr>Name = ''@inlang/paraglide-js'', Version = ParaglideVersion\<rparr>,
      \<lparr>Name = ''@inlang/plugin-message-format'', Version = MessageFormatPluginVersion\<rparr>,
      \<lparr>Name = ''openapi-typescript'', Version = OpenAPITypescriptVersion\<rparr>,
      \<lparr>Name = ''playwright'', Version = PlaywrightVersion\<rparr>,
      \<lparr>Name = ''svelte'', Version = ''5.56.10''\<rparr>,
      \<lparr>Name = ''svelte-check'', Version = ''4.7.6''\<rparr>,
      \<lparr>Name = ''tailwindcss'', Version = ''4.3.3''\<rparr>,
      \<lparr>Name = ''typescript'', Version = TypeScriptVersion\<rparr>,
      \<lparr>Name = ''vite'', Version = ''8.2.2''\<rparr>,
      \<lparr>Name = ''vitest'', Version = VitestVersion\<rparr>,
      \<lparr>Name = ''vitest-browser-svelte'', Version = VitestBrowserSvelteVersion\<rparr>]"

definition FrontendDependencies :: "Dependency list" where
  "FrontendDependencies = frontendDependencies"

definition goDependencies :: "Dependency list" where
  "goDependencies =
     [\<lparr>Name = NiseModulePath, Version = NiseModuleVersion\<rparr>,
      \<lparr>Name = ''github.com/go-chi/chi/v5'', Version = ChiVersion\<rparr>,
      \<lparr>Name = ''github.com/jackc/pgx/v5'', Version = PgxVersion\<rparr>,
      \<lparr>Name = ''github.com/oapi-codegen/oapi-codegen/v2'', Version = OAPICodegenVersion\<rparr>,
      \<lparr>Name = ''github.com/oapi-codegen/runtime'', Version = OAPIRuntimeVersion\<rparr>,
      \<lparr>Name = ''github.com/pressly/goose/v3'', Version = GooseVersion\<rparr>,
      \<lparr>Name = ''github.com/riverqueue/river'', Version = RiverVersion\<rparr>,
      \<lparr>Name = ''github.com/riverqueue/river/riverdriver'', Version = RiverVersion\<rparr>,
      \<lparr>Name = ''github.com/riverqueue/river/riverdriver/riverpgxv5'', Version = RiverVersion\<rparr>,
      \<lparr>Name = ''github.com/sqlc-dev/sqlc'', Version = SQLCVersion\<rparr>,
      \<lparr>Name = ''golang.org/x/crypto'', Version = XCryptoVersion\<rparr>]"

definition GoDependencies :: "Dependency list" where
  "GoDependencies = goDependencies"

end
