(* ===== verification/Generator.thy ===== *)
theory Generator
  imports Manifest Naming Agents_File Versions
begin

text \<open>
  Planning a project, from \<open>internal/generator/plan.go\<close>: the options and their normalization, the recipe
  they describe, the data the templates see, and \<open>Plan\<close>, which renders every selected template into
  memory, sorts the files by path and refuses two of them at one path.

  Two things are arguments: the embedded template files, and the \<open>text/template\<close> engine, which takes a
  template's name, its source and the data.  What the planner relies on is that the engine renders a text
  made of literals and string fields by putting the fields in place (\<open>field_engine\<close>).
\<close>

section \<open>Options\<close>

record Options =
  O_Name :: string
  O_ModulePath :: string
  O_Profile :: string
  O_Modules :: "string list"
  O_CLIVersion :: string
  O_RuntimeVersion :: string

datatype plan_error =
    Bad_name NameError
  | Bad_recipe recipe_error
  | No_template string
  | Template_failed string
  | Duplicate_output string

text \<open>\<open>slices.Compact\<close>: runs of equal elements become one.\<close>

fun compact :: "'a list \<Rightarrow> 'a list" where
  "compact (x # y # xs) = (if x = y then compact (y # xs) else x # compact (y # xs))"
| "compact xs = xs"

definition Options_normalize :: "Options \<Rightarrow> plan_error + Options" where
  "Options_normalize o1 =
     (case ValidateName (O_Name o1) of
        Some e \<Rightarrow> Inl (Bad_name e)
      | None \<Rightarrow>
          (let mp = (if O_ModulePath o1 = [] then O_Name o1 else O_ModulePath o1) in
           case ValidateModulePath mp of
             Some e \<Rightarrow> Inl (Bad_name e)
           | None \<Rightarrow>
               Inr (o1\<lparr>O_ModulePath := mp,
                      O_Profile := (if O_Profile o1 = [] then ProfileGoChiPostgresSvelte else O_Profile o1),
                      O_RuntimeVersion := (if O_RuntimeVersion o1 = [] then NiseModuleVersion else O_RuntimeVersion o1),
                      O_Modules := compact (sort (O_Modules o1))\<rparr>)))"

definition Options_Recipe :: "Options \<Rightarrow> plan_error + Recipe" where
  "Options_Recipe o1 =
     (case Options_normalize o1 of
        Inl e \<Rightarrow> Inl e
      | Inr opts \<Rightarrow>
          (let r = \<lparr>schemaVersion = SchemaVersion, profile = O_Profile opts, modules = O_Modules opts,
                    cliVersion = O_CLIVersion opts, runtimeVersion = O_RuntimeVersion opts\<rparr>
           in case Validate r of Some e \<Rightarrow> Inl (Bad_recipe e) | None \<Rightarrow> Inr r))"

section \<open>Template data\<close>

text \<open>The fields a template can name, with their values.\<close>

datatype tvalue = TStr string | TBool bool | TInt int | TStrs "string list" | TDeps "Dependency list"

type_synonym templateData = "(string \<times> tvalue) list"

definition coreMigrations :: nat where "coreMigrations = 9"

definition modulesWithMigrations :: "string list" where
  "modulesWithMigrations = [ModuleNotifications, ModuleOrganizations, ModuleTOTP, ModuleUploads]"

text \<open>\<open>%05d\<close>.\<close>

definition pad5 :: "nat \<Rightarrow> string" where
  "pad5 n = replicate (5 - length (show_nat n)) (CHR ''0'') @ show_nat n"

fun number_modules :: "(string \<Rightarrow> bool) \<Rightarrow> nat \<Rightarrow> string list \<Rightarrow> (string \<times> string) list" where
  "number_modules selected n [] = []"
| "number_modules selected n (m # ms) =
     (if \<not> selected m then number_modules selected n ms
      else (m, pad5 (Suc n)) # number_modules selected (Suc n) ms)"

definition moduleMigrationVersions :: "(string \<Rightarrow> bool) \<Rightarrow> (string \<times> string) list" where
  "moduleMigrationVersions selected = number_modules selected coreMigrations modulesWithMigrations"

text \<open>Looking up an absent key of the Go map gives the empty string.\<close>

definition migration_of :: "(string \<times> string) list \<Rightarrow> string \<Rightarrow> string" where
  "migration_of vs m = (case map_of vs m of None \<Rightarrow> [] | Some v \<Rightarrow> v)"

definition newTemplateData :: "Options \<Rightarrow> templateData" where
  "newTemplateData opts =
     (let selected = (\<lambda>m. m \<in> set (O_Modules opts));
          versions = moduleMigrationVersions selected
      in [(''AppName'', TStr (O_Name opts)),
          (''ModulePath'', TStr (O_ModulePath opts)),
          (''Profile'', TStr (O_Profile opts)),
          (''Modules'', TStrs (O_Modules opts)),
          (''HasNotifications'', TBool (selected ModuleNotifications)),
          (''HasOrganizations'', TBool (selected ModuleOrganizations)),
          (''HasTOTP'', TBool (selected ModuleTOTP)),
          (''HasUploads'', TBool (selected ModuleUploads)),
          (''NotificationsMigration'', TStr (migration_of versions ModuleNotifications)),
          (''OrganizationsMigration'', TStr (migration_of versions ModuleOrganizations)),
          (''TOTPMigration'', TStr (migration_of versions ModuleTOTP)),
          (''UploadsMigration'', TStr (migration_of versions ModuleUploads)),
          (''NiseModule'', TStr NiseModulePath),
          (''NiseVersion'', TStr NiseModuleVersion),
          (''ChiVersion'', TStr ChiVersion),
          (''PgxVersion'', TStr PgxVersion),
          (''RiverVersion'', TStr RiverVersion),
          (''RiverSchemaVersion'', TInt RiverSchemaVersion),
          (''SQLCVersion'', TStr SQLCVersion),
          (''GooseVersion'', TStr GooseVersion),
          (''OAPICodegenVersion'', TStr OAPICodegenVersion),
          (''OAPIRuntimeVersion'', TStr OAPIRuntimeVersion),
          (''XCryptoVersion'', TStr XCryptoVersion),
          (''GoVersion'', TStr GoDirective),
          (''GoImageTag'', TStr GoImageTag),
          (''GoImageDigest'', TStr GoImageDigest),
          (''NodeImageDigest'', TStr NodeImageDigest),
          (''RuntimeImage'', TStr RuntimeImage),
          (''RuntimeImageTag'', TStr RuntimeImageTag),
          (''RuntimeImageDigest'', TStr RuntimeImageDigest),
          (''BiomeVersion'', TStr BiomeVersion),
          (''GolangciLintVersion'', TStr GolangciLintVersion),
          (''NodeVersion'', TStr NodeVersion),
          (''NodeMajor'', TStr NodeMajor),
          (''PnpmVersion'', TStr PnpmVersion),
          (''PackageManager'', TStr (''pnpm@'' @ PnpmVersion)),
          (''FrontendDeps'', TDeps FrontendDependencies),
          (''FrontendRuntimeDeps'', TDeps FrontendRuntimeDependencies),
          (''ReplacePlaceholder'', TStr ''/path/to/your/nise-and-go'')])"

section \<open>Rendering\<close>

type_synonym engine = "string \<Rightarrow> string \<Rightarrow> templateData \<Rightarrow> string option"
type_synonym embedded = "string \<Rightarrow> string option"

text \<open>\<open>bytes.ReplaceAll(b, "\r\n", "\n")\<close> and the trailing newline.\<close>

fun replace_crlf :: "string \<Rightarrow> string" where
  "replace_crlf (c # d # cs) =
     (if c = CHR 0x0D \<and> d = CHR 0x0A then CHR 0x0A # replace_crlf cs else c # replace_crlf (d # cs))"
| "replace_crlf cs = cs"

definition trim_breaks :: "string \<Rightarrow> string" where
  "trim_breaks s = rev (dropWhile (\<lambda>c. c = CHR 0x0A) (rev s))"

definition normalizeContent :: "string \<Rightarrow> string" where
  "normalizeContent b = (let t = trim_breaks (replace_crlf b) in if t = [] then nl else t @ nl)"

definition renderString :: "engine \<Rightarrow> string \<Rightarrow> string \<Rightarrow> templateData \<Rightarrow> plan_error + string" where
  "renderString eng name source d = (case eng name source d of None \<Rightarrow> Inl (Template_failed name) | Some s \<Rightarrow> Inr s)"

definition render :: "engine \<Rightarrow> string \<Rightarrow> string \<Rightarrow> templateData \<Rightarrow> plan_error + string" where
  "render eng name source d = map_sum id normalizeContent (renderString eng name source d)"

section \<open>The plan\<close>

record File =
  Path :: string
  Content :: string
  FOwner :: string

definition render_file :: "engine \<Rightarrow> embedded \<Rightarrow> templateData \<Rightarrow> templateFile \<Rightarrow> plan_error + File" where
  "render_file eng emb d t =
     (case emb (templateRoot @ ''/'' @ Template t) of
        None \<Rightarrow> Inl (No_template (Template t))
      | Some source \<Rightarrow>
          (case (if Raw t then Inr (normalizeContent source) else render eng (Template t) source d) of
             Inl e \<Rightarrow> Inl e
           | Inr content \<Rightarrow>
               (case renderString eng (Template t @ '' (output path)'') (Output t) d of
                  Inl e \<Rightarrow> Inl e
                | Inr p \<Rightarrow> Inr \<lparr>Path = p, Content = content, FOwner = Owner t\<rparr>)))"

text \<open>A module's files are absent, not empty, when the module is not selected.\<close>

fun render_all :: "engine \<Rightarrow> embedded \<Rightarrow> (string \<Rightarrow> bool) \<Rightarrow> templateData \<Rightarrow> templateFile list \<Rightarrow> plan_error + File list" where
  "render_all eng emb selected d [] = Inr []"
| "render_all eng emb selected d (t # ts) =
     (if Module t \<noteq> [] \<and> \<not> selected (Module t) then render_all eng emb selected d ts
      else (case render_file eng emb d t of
              Inl e \<Rightarrow> Inl e
            | Inr f \<Rightarrow> map_sum id (Cons f) (render_all eng emb selected d ts)))"

text \<open>The first path that occurs twice in a sorted list.\<close>

fun adjacent_duplicate :: "File list \<Rightarrow> string option" where
  "adjacent_duplicate (f # g # fs) = (if Path f = Path g then Some (Path g) else adjacent_duplicate (g # fs))"
| "adjacent_duplicate fs = None"

definition Plan :: "engine \<Rightarrow> embedded \<Rightarrow> Options \<Rightarrow> plan_error + File list" where
  "Plan eng emb o1 =
     (case Options_normalize o1 of
        Inl e \<Rightarrow> Inl e
      | Inr normalized \<Rightarrow>
          (case Options_Recipe normalized of
             Inl e \<Rightarrow> Inl e
           | Inr r \<Rightarrow>
               (case Marshal r of
                  Inl e \<Rightarrow> Inl (Bad_recipe e)
                | Inr recipeBytes \<Rightarrow>
                    (let agents = Generate r;
                         own = [\<lparr>Path = FileName, Content = recipeBytes, FOwner = OwnerNise\<rparr>,
                                \<lparr>Path = AgentsFileName, Content = AgentsMD agents, FOwner = OwnerNise\<rparr>,
                                \<lparr>Path = architecture_path, Content = Architecture agents, FOwner = OwnerNise\<rparr>];
                         selected = (\<lambda>m. m \<in> set (O_Modules normalized))
                     in case render_all eng emb selected (newTemplateData normalized) templateFiles of
                          Inl e \<Rightarrow> Inl e
                        | Inr rendered \<Rightarrow>
                            (let files = sort_key Path (own @ rendered) in
                             case adjacent_duplicate files of
                               Some p \<Rightarrow> Inl (Duplicate_output p)
                             | None \<Rightarrow> Inr files)))))"

section \<open>Normalized options\<close>

lemma compact_props:
  "set (compact xs) = set xs" "xs \<noteq> [] \<Longrightarrow> compact xs \<noteq> [] \<and> hd (compact xs) = hd xs"
  by (induction xs rule: compact.induct) auto

lemma compact_strict: "sorted xs \<Longrightarrow> sorted (compact xs) \<and> distinct (compact (xs :: 'a :: linorder list))"
proof (induction xs rule: compact.induct)
  case (1 x y xs)
  then have "sorted (compact (y # xs))" "distinct (compact (y # xs))" by (cases "x = y"; simp)+
  moreover have "set (compact (y # xs)) = set (y # xs)" by (rule compact_props)
  ultimately show ?case using 1(3) by (cases "x = y") (auto simp: compact_props(1))
qed simp_all

lemma compact_sort_id: "sorted xs \<Longrightarrow> distinct xs \<Longrightarrow> compact (sort xs) = (xs :: 'a :: linorder list)"
proof -
  assume a: "sorted xs" "distinct xs"
  then have "compact xs = xs" by (induction xs rule: compact.induct) auto
  then show ?thesis using a by (simp add: sorted_sort_id)
qed

definition options_ok :: "Options \<Rightarrow> bool" where
  "options_ok n \<longleftrightarrow>
     plain_name (O_Name n) \<and> plain_path (O_ModulePath n) \<and> O_Profile n \<noteq> [] \<and> O_RuntimeVersion n \<noteq> [] \<and>
     sorted (O_Modules n) \<and> distinct (O_Modules n)"

lemma plain_nonempty: "plain_name s \<Longrightarrow> s \<noteq> []" "plain_path s \<Longrightarrow> s \<noteq> []"
  by (simp_all add: plain_name_def plain_path_def)

lemma normalize_ok: "Options_normalize o1 = Inr n \<Longrightarrow> options_ok n"
  using ValidateName_plain plain_name_ValidateName [of "O_Name o1"] compact_strict [of "sort (O_Modules o1)"]
  by (auto simp: Options_normalize_def options_ok_def Let_def ValidateModulePath_iff ProfileGoChiPostgresSvelte_def
      NiseModuleVersion_def split: option.splits if_splits)

lemma normalize_fixed: "options_ok n \<Longrightarrow> Options_normalize n = Inr n"
  using ValidateName_plain [of "O_Name n"] compact_sort_id [of "O_Modules n"] ValidateModulePath_iff [of "O_ModulePath n"]
  by (auto simp: Options_normalize_def options_ok_def Let_def dest: plain_nonempty)

text \<open>A valid name is enough: the default module path never makes the options fail.\<close>

lemma normalize_default_path:
  "plain_name (O_Name o1) \<Longrightarrow> O_ModulePath o1 = [] \<Longrightarrow> \<exists>n. Options_normalize o1 = Inr n \<and> O_ModulePath n = O_Name o1"
  using ValidateName_plain [of "O_Name o1"] plain_name_path [of "O_Name o1"] ValidateModulePath_iff [of "O_Name o1"]
  by (auto simp: Options_normalize_def Let_def)

section \<open>Migration numbers\<close>

lemma number_modules_eq:
  "number_modules sel n ms = zip (filter sel ms) (map pad5 [Suc n..<Suc n + length (filter sel ms)])"
proof (induction ms arbitrary: n)
  case (Cons m ms)
  have "[Suc n..<Suc (Suc n + k)] = Suc n # [Suc (Suc n)..<Suc (Suc n) + k]" for k
    by (simp add: upt_conv_Cons)
  then show ?case using Cons.IH by (simp del: upt_Suc)
qed simp

text \<open>
  The migrations of the selected modules are numbered contiguously after the nine core migrations, in
  the fixed module order, whatever the selection: the history a generated project starts with has no gap.
\<close>

theorem migrations_contiguous:
  "map fst (moduleMigrationVersions sel) = filter sel modulesWithMigrations \<and>
   map snd (moduleMigrationVersions sel) = map pad5 [10..<10 + length (filter sel modulesWithMigrations)]"
  by (simp add: moduleMigrationVersions_def number_modules_eq coreMigrations_def del: upt_Suc)

section \<open>Line endings\<close>

lemma trim_breaks_no_break: "trim_breaks s \<noteq> [] \<Longrightarrow> last (trim_breaks s) \<noteq> CHR 0x0A"
  using hd_dropWhile [of "\<lambda>c. c = CHR 0x0A" "rev s"] by (simp add: trim_breaks_def last_rev)

text \<open>Every generated file ends with one line break and not with an empty line.\<close>

lemma normalizeContent_ends:
  "\<exists>t. normalizeContent b = t @ nl \<and> (t \<noteq> [] \<longrightarrow> last t \<noteq> CHR 0x0A)"
  using trim_breaks_no_break [of "replace_crlf b"] by (auto simp: normalizeContent_def Let_def intro: exI [of _ "[]"])

text \<open>
  One pass over the carriage returns is not enough when two of them precede a line feed: the result keeps a
  carriage return before the line feed, and normalizing again changes it.
\<close>

lemma crcrlf_survives:
  "normalizeContent [CHR ''a'', CHR 0x0D, CHR 0x0D, CHR 0x0A, CHR ''b''] = [CHR ''a'', CHR 0x0D, CHR 0x0A, CHR ''b'', CHR 0x0A]"
  by (simp add: normalizeContent_def trim_breaks_def nl_def)

section \<open>What a plan holds\<close>

lemma adjacent_duplicate_None:
  "sorted (map Path fs) \<Longrightarrow> adjacent_duplicate fs = None \<longleftrightarrow> sorted_wrt (<) (map Path fs)"
proof (induction fs rule: adjacent_duplicate.induct)
  case (1 f g fs)
  have "Path f < Path x" if "Path f < Path g" "x \<in> set fs" for x
    using that 1(2) by (auto intro: less_le_trans)
  with 1 show ?case by (auto simp: less_le)
qed simp_all

lemma render_all_files:
  assumes "render_all eng emb sel d ts = Inr fs"
  shows "list_all2 (\<lambda>t f. render_file eng emb d t = Inr f) (filter (\<lambda>t. Module t = [] \<or> sel (Module t)) ts) fs"
  using assms
  by (induction ts arbitrary: fs) (auto split: if_splits sum.splits simp: map_sum_def)

text \<open>The owner of a rendered file is the owner its manifest entry declares.\<close>

lemma render_file_owner: "render_file eng emb d t = Inr f \<Longrightarrow> FOwner f = Owner t"
  by (auto simp: render_file_def split: option.splits sum.splits)

end
