(* ===== verification/Dependencies.thy ===== *)
theory Dependencies
  imports Versions Project_Tree
begin

text \<open>
  The pinned dependencies an upgrade moves, from \<open>internal/upgrade/dependencies.go\<close>: the line rewrites of
  \<open>go.mod\<close> and \<open>frontend/package.json\<close>, the version order, and the notes on pins ahead of the tool.

  The two regular expressions are modelled by the one way each can match at a line start: in
  \<open>^(\s*)(\S+)(\s+)(v\S+)(.*)$\<close> every greedy group is followed by one that cannot start with what it gave
  back, so only the longest runs succeed, and in \<open>^(\s*)"([^"]+)"(\s*:\s*)"([^"]+)"(,?)\s*$\<close> only the last run
  of blanks can be shortened, to the last line break in it.  A blank of either may be a line break.
\<close>

section \<open>Versions\<close>

definition goModFileName :: string where "goModFileName = ''go.mod''"
definition packageJSONFileName :: string where "packageJSONFileName = ''frontend/package.json''"

record RequireChange =
  rc_File :: string
  rc_Module :: string
  rc_From :: string
  rc_To :: string

fun version_parts :: "string list \<Rightarrow> int list option" where
  "version_parts [] = Some []"
| "version_parts (p # ps) =
     (case atoi p of
        None \<Rightarrow> None
      | Some n \<Rightarrow> if n < 0 then None else map_option (Cons n) (version_parts ps))"

definition parseVersion :: "string \<Rightarrow> int list option" where
  "parseVersion v =
     (let trimmed = (if has_prefix v ''v'' then drop 1 v else v);
          parts = split_on (CHR ''.'') (takeWhile (\<lambda>c. c \<noteq> CHR ''-'' \<and> c \<noteq> CHR ''+'') trimmed)
      in if length parts \<noteq> 3 then None else version_parts parts)"

fun later :: "int list \<Rightarrow> int list \<Rightarrow> bool" where
  "later (a # as) (b # bs) = (if a \<noteq> b then b < a else later as bs)"
| "later _ _ = False"

definition newer :: "string \<Rightarrow> string \<Rightarrow> bool" where
  "newer a b =
     (case parseVersion a of
        None \<Rightarrow> False
      | Some ap \<Rightarrow> (case parseVersion b of None \<Rightarrow> False | Some bp \<Rightarrow> later ap bp))"

section \<open>Lines\<close>

text \<open>The class \<open>\s\<close>.\<close>

definition re_space :: "char \<Rightarrow> bool" where
  "re_space c \<longleftrightarrow> code c \<in> {9, 10, 12, 13, 32}"

text \<open>
  The groups of a match, whether it ends with a line break, and the text after it.  The blanks at the end
  of a match of the second expression are kept as a sixth group, which the source does not capture.
\<close>

type_synonym groups = "string list"
type_synonym matcher = "string \<Rightarrow> (groups \<times> bool \<times> string) option"

definition goRequireLine :: matcher where
  "goRequireLine s =
     (let g1 = takeWhile re_space s; r1 = dropWhile re_space s;
          g2 = takeWhile (\<lambda>c. \<not> re_space c) r1; r2 = dropWhile (\<lambda>c. \<not> re_space c) r1;
          g3 = takeWhile re_space r2; r3 = dropWhile re_space r2;
          g4 = takeWhile (\<lambda>c. \<not> re_space c) r3; r4 = dropWhile (\<lambda>c. \<not> re_space c) r3
      in if g2 = [] \<or> g3 = [] \<or> \<not> has_prefix g4 ''v'' \<or> length g4 < 2 then None
         else Some ([g1, g2, g3, g4, takeWhile (\<lambda>c. c \<noteq> CHR 0x0A) r4], False, dropWhile (\<lambda>c. c \<noteq> CHR 0x0A) r4))"

text \<open>A quoted text without quotes in it.\<close>

definition quoted :: "string \<Rightarrow> (string \<times> string) option" where
  "quoted s =
     (if has_prefix s [CHR 0x22] then
        (case cut (CHR 0x22) (tl s) of
           Some (q, r) \<Rightarrow> if q = [] then None else Some (q, r)
         | None \<Rightarrow> None)
      else None)"

text \<open>Up to the last line break of a run of blanks, or all of it at the end of the text.\<close>

definition line_end :: "string \<Rightarrow> (string \<times> string) option" where
  "line_end s =
     (let w = takeWhile re_space s; r = dropWhile re_space s in
      if r = [] then Some (w, [])
      else if CHR 0x0A \<notin> set w then None
      else (let tail = takeWhile (\<lambda>c. c \<noteq> CHR 0x0A) (rev w) in
            Some (take (length w - length tail - 1) w, CHR 0x0A # rev tail @ r)))"

definition jsonDependencyLine :: matcher where
  "jsonDependencyLine s =
     (let g1 = takeWhile re_space s in
      case quoted (dropWhile re_space s) of
        None \<Rightarrow> None
      | Some (name, r1) \<Rightarrow>
          (let s1 = takeWhile re_space r1; r2 = dropWhile re_space r1 in
           if \<not> has_prefix r2 '':'' then None
           else
             (let s2 = takeWhile re_space (tl r2) in
              case quoted (dropWhile re_space (tl r2)) of
                None \<Rightarrow> None
              | Some (version, r3) \<Rightarrow>
                  (let comma = (if has_prefix r3 '','' then '','' else []) in
                   case line_end (drop (length comma) r3) of
                     None \<Rightarrow> None
                   | Some (blank, rest) \<Rightarrow>
                       Some ([g1, name, s1 @ '':'' @ s2, version, comma, blank], blank \<noteq> [] \<and> last blank = CHR 0x0A, rest)))))"

text \<open>
  The search from left to right: at a line start the expression may match, and otherwise the byte is
  passed over.  The left side of a token is such a byte, the right side a match.
\<close>

function tokens :: "matcher \<Rightarrow> bool \<Rightarrow> string \<Rightarrow> (char + groups) list" where
  "tokens m start [] = []"
| "tokens m start (c # cs) =
     (case (if start then m (c # cs) else None) of
        Some (g, brk, rest) \<Rightarrow> if length rest < length (c # cs) then Inr g # tokens m brk rest else []
      | None \<Rightarrow> Inl c # tokens m (c = CHR 0x0A) cs)"
  by pat_completeness auto
termination
  by (relation "measure (\<lambda>(m, start, s). length s)") auto

definition replace_matches :: "matcher \<Rightarrow> (groups \<Rightarrow> string) \<Rightarrow> string \<Rightarrow> string" where
  "replace_matches m f s = concat (map (\<lambda>x. case x of Inl c \<Rightarrow> [c] | Inr g \<Rightarrow> f g) (tokens m True s))"

fun rights :: "('a + 'b) list \<Rightarrow> 'b list" where
  "rights [] = []"
| "rights (Inl x # xs) = rights xs"
| "rights (Inr y # xs) = y # rights xs"

definition find_all :: "matcher \<Rightarrow> string \<Rightarrow> groups list" where
  "find_all m s = rights (tokens m True s)"

section \<open>Moving pins\<close>

definition want :: "Dependency list \<Rightarrow> string \<Rightarrow> string option" where
  "want pins = map_of (rev (map (\<lambda>p. (Name p, Version p)) pins))"

text \<open>The version a requirement moves to, if it moves.\<close>

definition target_of :: "Dependency list \<Rightarrow> groups \<Rightarrow> string option" where
  "target_of pins g =
     (case want pins (g ! 1) of
        None \<Rightarrow> None
      | Some target \<Rightarrow> if target = g ! 3 \<or> \<not> newer target (g ! 3) then None else Some target)"

definition change_of :: "string \<Rightarrow> Dependency list \<Rightarrow> groups \<Rightarrow> RequireChange list" where
  "change_of file pins g =
     (case target_of pins g of
        None \<Rightarrow> []
      | Some target \<Rightarrow> [\<lparr>rc_File = file, rc_Module = g ! 1, rc_From = g ! 3, rc_To = target\<rparr>])"

definition rewrite_go :: "Dependency list \<Rightarrow> groups \<Rightarrow> string" where
  "rewrite_go pins g =
     (case target_of pins g of
        None \<Rightarrow> concat g
      | Some target \<Rightarrow> g ! 0 @ g ! 1 @ g ! 2 @ target @ g ! 4)"

definition bumpGoMod :: "string \<Rightarrow> Dependency list \<Rightarrow> string \<times> RequireChange list" where
  "bumpGoMod source pins =
     (replace_matches goRequireLine (rewrite_go pins) source,
      concat (map (change_of goModFileName pins) (find_all goRequireLine source)))"

definition rewrite_json :: "Dependency list \<Rightarrow> groups \<Rightarrow> string" where
  "rewrite_json pins g =
     (let q = [CHR 0x22]; entry = (\<lambda>version. g ! 0 @ q @ g ! 1 @ q @ g ! 2 @ q @ version @ q @ g ! 4) in
      case target_of pins g of
        None \<Rightarrow> entry (g ! 3) @ g ! 5
      | Some target \<Rightarrow> entry target)"

definition bumpPackageJSON :: "string \<Rightarrow> Dependency list \<Rightarrow> string \<times> RequireChange list" where
  "bumpPackageJSON source pins =
     (replace_matches jsonDependencyLine (rewrite_json pins) source,
      concat (map (change_of packageJSONFileName pins) (find_all jsonDependencyLine source)))"

definition ahead_note :: "string \<Rightarrow> Dependency list \<Rightarrow> groups \<Rightarrow> string list" where
  "ahead_note file pins g =
     (case want pins (g ! 1) of
        None \<Rightarrow> []
      | Some pinned \<Rightarrow>
          if g ! 3 = pinned \<or> \<not> newer (g ! 3) pinned then []
          else [file @ '' pins '' @ g ! 1 @ '' at '' @ g ! 3 @ '', which is newer than the '' @ pinned @
                '' this nise ships. It was left alone '' @ [CHR 0xE2, CHR 0x80, CHR 0x94] @
                '' an upgrade never moves a dependency backwards.''])"

definition aheadOfNise :: "string \<Rightarrow> Dependency list \<Rightarrow> string \<Rightarrow> matcher \<Rightarrow> string list" where
  "aheadOfNise source pins file m = concat (map (ahead_note file pins) (find_all m source))"

text \<open>The two manifests, with the pins of each, its rewrite and its expression.\<close>

definition frontend_pins :: "Dependency list" where
  "frontend_pins = FrontendRuntimeDependencies @ FrontendDependencies"

fun plan_manifests ::
    "env \<Rightarrow> tree \<Rightarrow> (string \<times> Dependency list \<times> (string \<Rightarrow> Dependency list \<Rightarrow> string \<times> RequireChange list) \<times> matcher) list \<Rightarrow>
     io_error + RequireChange list \<times> string list" where
  "plan_manifests e t [] = Inr ([], [])"
| "plan_manifests e t ((name, pins, bump, m) # ms) =
     (case read_file e t name of
        Inl Not_exist \<Rightarrow> plan_manifests e t ms
      | Inl x \<Rightarrow> Inl x
      | Inr source \<Rightarrow>
          map_sum id (\<lambda>(cs, ns). (snd (bump source pins) @ cs, aheadOfNise source pins name m @ ns))
            (plan_manifests e t ms))"

definition planDependencies :: "env \<Rightarrow> tree \<Rightarrow> io_error + RequireChange list \<times> string list" where
  "planDependencies e t =
     plan_manifests e t
       [(goModFileName, GoDependencies, bumpGoMod, goRequireLine),
        (packageJSONFileName, frontend_pins, bumpPackageJSON, jsonDependencyLine)]"

section \<open>The version order\<close>

lemma later_irrefl [simp]: "\<not> later a a"
  by (induction a) auto

lemma later_trans: "later a b \<Longrightarrow> later b c \<Longrightarrow> later a c"
proof (induction a b arbitrary: c rule: later.induct)
  case (1 a as b bs)
  then show ?case by (cases c) (auto split: if_splits)
qed auto

lemma newer_irrefl: "\<not> newer v v"
  by (simp add: newer_def split: option.splits)

lemma newer_trans: "newer a b \<Longrightarrow> newer b c \<Longrightarrow> newer a c"
  by (auto simp: newer_def split: option.splits intro: later_trans)

lemma newer_asym: "newer a b \<Longrightarrow> \<not> newer b a"
  using newer_trans newer_irrefl by blast

text \<open>A release is not newer than its own candidates: the suffix is cut off on both sides.\<close>

lemma newer_ignores_prerelease: "\<not> newer ''v1.0.0'' ''v1.0.0-rc.1''"
  by (simp add: newer_def parseVersion_def has_prefix_def Let_def split: option.split)

section \<open>The rewritten requirements\<close>

definition vish :: "string \<Rightarrow> bool" where
  "vish v \<longleftrightarrow> has_prefix v ''v'' \<and> 2 \<le> length v \<and> list_all (\<lambda>c. \<not> re_space c) v"

definition boundary :: "string \<Rightarrow> bool" where
  "boundary s \<longleftrightarrow> s = [] \<or> re_space (hd s)"

text \<open>Two texts that differ at most in versions that stand between blanks.\<close>

inductive alike :: "string \<Rightarrow> string \<Rightarrow> bool" where
  nil: "alike [] []"
| same: "alike s s' \<Longrightarrow> alike (c # s) (c # s')"
| version: "re_space c \<Longrightarrow> vish v \<Longrightarrow> vish v' \<Longrightarrow> boundary s \<Longrightarrow> boundary s' \<Longrightarrow> alike s s' \<Longrightarrow> alike (c # v @ s) (c # v' @ s')"

lemma alike_refl: "alike s s"
  by (induction s) (auto intro: alike.intros)

lemma alike_prepend: "alike s s' \<Longrightarrow> alike (p @ s) (p @ s')"
  by (induction p) (auto intro: alike.same)

lemma alike_word:
  assumes "alike s s'"
  shows "takeWhile (\<lambda>c. \<not> re_space c) s = takeWhile (\<lambda>c. \<not> re_space c) s' \<and>
    alike (dropWhile (\<lambda>c. \<not> re_space c) s) (dropWhile (\<lambda>c. \<not> re_space c) s')"
  using assms by induction (auto intro: alike.intros)

lemma alike_blank:
  assumes "alike s s'"
  shows "takeWhile re_space s = takeWhile re_space s' \<and>
    (alike (dropWhile re_space s) (dropWhile re_space s') \<or>
     (\<exists>v v' r r'. dropWhile re_space s = v @ r \<and> dropWhile re_space s' = v' @ r' \<and> vish v \<and> vish v' \<and>
        boundary r \<and> boundary r' \<and> alike r r'))"
  using assms
proof induction
  case (version c v v' s s')
  have stop: "takeWhile re_space (w @ z) = []" "dropWhile re_space (w @ z) = w @ z" if "vish w" for w z
    using that by (cases w; auto simp: vish_def has_prefix_def)+
  show ?case using version stop by auto
qed (auto intro: alike.intros)

lemma vish_word:
  assumes "vish v" and "boundary r"
  shows "takeWhile (\<lambda>c. \<not> re_space c) (v @ r) = v" "dropWhile (\<lambda>c. \<not> re_space c) (v @ r) = r"
  using assms by (cases r; auto simp: vish_def boundary_def list_all_iff takeWhile_append2 dropWhile_append2)+

text \<open>Where the expression matches at a line start depends only on what such texts share.\<close>

definition word_vish :: "string \<Rightarrow> bool" where
  "word_vish s \<longleftrightarrow> vish (takeWhile (\<lambda>c. \<not> re_space c) s)"

lemma taken_run_ok: "list_all p (takeWhile p s)"
  by (auto simp: list_all_iff dest: set_takeWhileD)

lemmas word_ok = taken_run_ok [of "\<lambda>c. \<not> re_space c"]

lemma go_none:
  "goRequireLine s = None \<longleftrightarrow>
     (let r1 = dropWhile re_space s; r2 = dropWhile (\<lambda>c. \<not> re_space c) r1 in
      takeWhile (\<lambda>c. \<not> re_space c) r1 = [] \<or> takeWhile re_space r2 = [] \<or> \<not> word_vish (dropWhile re_space r2))"
  using word_ok by (auto simp: goRequireLine_def Let_def word_vish_def vish_def)

lemma alike_blank_vish:
  assumes "alike s s'"
  shows "takeWhile re_space s = takeWhile re_space s'" "word_vish (dropWhile re_space s) = word_vish (dropWhile re_space s')"
  using alike_blank [OF assms] alike_word by (auto simp: word_vish_def vish_word)

lemma vish_not_Nil: "vish v \<Longrightarrow> v \<noteq> []"
  by (auto simp: vish_def has_prefix_def)

lemma alike_go_none:
  assumes "alike s s'"
  shows "goRequireLine s = None \<longleftrightarrow> goRequireLine s' = None"
proof -
  let ?w = "\<lambda>s. takeWhile (\<lambda>c. \<not> re_space c) (dropWhile re_space s)"
  let ?r = "\<lambda>s. dropWhile (\<lambda>c. \<not> re_space c) (dropWhile re_space s)"
  have "(?w s = [] \<longleftrightarrow> ?w s' = []) \<and> alike (?r s) (?r s')"
    using alike_blank [OF assms] alike_word vish_not_Nil by (auto simp: vish_word)
  then show ?thesis using alike_blank_vish [of "?r s" "?r s'"] by (simp add: go_none Let_def)
qed

text \<open>What a match consists of, and that such a text matches again.\<close>

definition go_groups :: "groups \<Rightarrow> bool" where
  "go_groups g \<longleftrightarrow>
     length g = 5 \<and> list_all re_space (g ! 0) \<and> g ! 1 \<noteq> [] \<and> list_all (\<lambda>c. \<not> re_space c) (g ! 1) \<and>
     g ! 2 \<noteq> [] \<and> list_all re_space (g ! 2) \<and> vish (g ! 3) \<and> boundary (g ! 4) \<and> CHR 0x0A \<notin> set (g ! 4)"

definition line_start :: "string \<Rightarrow> bool" where
  "line_start s \<longleftrightarrow> s = [] \<or> hd s = CHR 0x0A"

lemma five: "length g = 5 \<Longrightarrow> g = [g ! 0, g ! 1, g ! 2, g ! 3, g ! 4]"
proof -
  assume "length g = 5"
  then have "length g = Suc (Suc (Suc (Suc (Suc 0))))" by simp
  then obtain a b c d e where "g = [a, b, c, d, e]" by (auto simp only: length_Suc_conv length_0_conv)
  then show ?thesis by simp
qed

lemma break_space [simp]: "re_space (CHR 0x0A)"
  by (simp add: re_space_def code_def)

lemma boundary_takeWhile: "boundary r \<Longrightarrow> boundary (takeWhile p r)"
  by (cases r) (auto simp: boundary_def)

lemma run_until: "x \<notin> set a \<Longrightarrow> r = [] \<or> hd r = x \<Longrightarrow> takeWhile (\<lambda>c. c \<noteq> x) (a @ r) = a \<and> dropWhile (\<lambda>c. c \<noteq> x) (a @ r) = r"
  by (induction a) (cases r; auto)+

lemma go_match_facts:
  assumes "goRequireLine s = Some (g, brk, rest)"
  shows "go_groups g" "\<not> brk" "line_start rest" "s = concat g @ rest"
proof -
  let ?r1 = "dropWhile re_space s"
  let ?r2 = "dropWhile (\<lambda>c. \<not> re_space c) ?r1"
  let ?r3 = "dropWhile re_space ?r2"
  let ?r4 = "dropWhile (\<lambda>c. \<not> re_space c) ?r3"
  have g: "g = [takeWhile re_space s, takeWhile (\<lambda>c. \<not> re_space c) ?r1, takeWhile re_space ?r2,
      takeWhile (\<lambda>c. \<not> re_space c) ?r3, takeWhile (\<lambda>c. c \<noteq> CHR 0x0A) ?r4]"
    and r: "rest = dropWhile (\<lambda>c. c \<noteq> CHR 0x0A) ?r4" "\<not> brk"
    and ok: "takeWhile (\<lambda>c. \<not> re_space c) ?r1 \<noteq> []" "takeWhile re_space ?r2 \<noteq> []" "word_vish ?r3"
    using assms word_ok [of ?r3] by (auto simp: goRequireLine_def Let_def word_vish_def vish_def split: if_splits)
  have "boundary ?r4" using hd_dropWhile [of "\<lambda>c. \<not> re_space c" ?r3] by (auto simp: boundary_def)
  then have "boundary (takeWhile (\<lambda>c. c \<noteq> CHR 0x0A) ?r4)" by (rule boundary_takeWhile)
  moreover have "CHR 0x0A \<notin> set (takeWhile (\<lambda>c. c \<noteq> CHR 0x0A) ?r4)" by (auto dest: set_takeWhileD)
  ultimately show "go_groups g"
    using ok taken_run_ok [of re_space s] taken_run_ok [of re_space ?r2] word_ok [of ?r1]
    by (simp only: go_groups_def g word_vish_def list.size nth_Cons_0 nth_Cons_Suc numeral_nat One_nat_def) simp
  show "\<not> brk" by (rule r)
  show "line_start rest" using hd_dropWhile [of "\<lambda>c. c \<noteq> CHR 0x0A" ?r4] by (auto simp: line_start_def r)
  show "s = concat g @ rest" by (simp add: g r)
qed

lemma go_match_again:
  assumes "go_groups g" and "line_start rest"
  shows "goRequireLine (concat g @ rest) = Some (g, False, rest)"
proof -
  have g: "concat g = g ! 0 @ g ! 1 @ g ! 2 @ g ! 3 @ g ! 4"
    using five [of g] assms(1) by (metis append_Nil2 concat.simps go_groups_def)
  have b: "boundary (g ! 4 @ rest)"
    using assms by (cases "g ! 4") (auto simp: go_groups_def line_start_def boundary_def)
  obtain c cs where one: "g ! 1 = c # cs" "\<not> re_space c" using assms(1) by (cases "g ! 1") (auto simp: go_groups_def)
  obtain k ks where two: "g ! 2 = k # ks" "re_space k" using assms(1) by (cases "g ! 2") (auto simp: go_groups_def)
  obtain w ws where three: "g ! 3 = w # ws" "\<not> re_space w" using assms(1) by (cases "g ! 3") (auto simp: go_groups_def vish_def has_prefix_def)
  have s0: "takeWhile re_space (g ! 0 @ g ! 1 @ z) = g ! 0" "dropWhile re_space (g ! 0 @ g ! 1 @ z) = g ! 1 @ z" for z
    using assms(1) one by (auto simp: go_groups_def list_all_iff takeWhile_append2 dropWhile_append2)
  have s1: "takeWhile (\<lambda>c. \<not> re_space c) (g ! 1 @ g ! 2 @ z) = g ! 1" "dropWhile (\<lambda>c. \<not> re_space c) (g ! 1 @ g ! 2 @ z) = g ! 2 @ z" for z
    using assms(1) two by (auto simp: go_groups_def list_all_iff takeWhile_append2 dropWhile_append2)
  have s2: "takeWhile re_space (g ! 2 @ g ! 3 @ z) = g ! 2" "dropWhile re_space (g ! 2 @ g ! 3 @ z) = g ! 3 @ z" for z
    using assms(1) three by (auto simp: go_groups_def list_all_iff takeWhile_append2 dropWhile_append2)
  have v: "vish (g ! 3)" using assms(1) by (simp add: go_groups_def)
  note s3 = vish_word [OF v b]
  have s4: "takeWhile (\<lambda>c. c \<noteq> CHR 0x0A) (g ! 4 @ rest) = g ! 4" "dropWhile (\<lambda>c. c \<noteq> CHR 0x0A) (g ! 4 @ rest) = rest"
    using run_until [of "CHR 0x0A" "g ! 4" rest] assms by (auto simp: go_groups_def line_start_def)
  have "g ! 1 \<noteq> []" "g ! 2 \<noteq> []" "has_prefix (g ! 3) ''v''" "\<not> length (g ! 3) < 2" "length g = 5"
    using assms(1) v by (auto simp: go_groups_def vish_def)
  then show ?thesis
    unfolding goRequireLine_def Let_def g append_assoc s0 s1 s2 s3 s4 using five [of g] by simp
qed

text \<open>The rewrite of one requirement and of a token.\<close>

definition moved :: "Dependency list \<Rightarrow> groups \<Rightarrow> groups" where
  "moved pins g = (case target_of pins g of None \<Rightarrow> g | Some target \<Rightarrow> g[3 := target])"

definition pins_ok :: "Dependency list \<Rightarrow> bool" where
  "pins_ok pins \<longleftrightarrow> list_all (\<lambda>p. vish (Version p)) pins"

lemma target_vish: "pins_ok pins \<Longrightarrow> target_of pins g = Some v \<Longrightarrow> vish v"
  by (auto simp: target_of_def want_def pins_ok_def list_all_iff split: option.splits if_splits dest!: map_of_SomeD)

lemma moved_groups: "pins_ok pins \<Longrightarrow> go_groups g \<Longrightarrow> go_groups (moved pins g)"
  using target_vish by (auto simp: moved_def go_groups_def split: option.splits)

lemma concat_moved:
  assumes "length g = 5"
  shows "concat (moved pins g) = rewrite_go pins g"
proof -
  obtain a b c d e where "g = [a, b, c, d, e]" using five [OF assms] by blast
  then show ?thesis by (simp add: moved_def rewrite_go_def split: option.split)
qed

lemma go_groups_nonempty: "go_groups g \<Longrightarrow> 0 < length (concat g)"
proof -
  assume g: "go_groups g"
  obtain a b c d e where "g = [a, b, c, d, e]" using five [of g] g by (auto simp: go_groups_def)
  then show ?thesis using g by (simp add: go_groups_def)
qed

lemma tokens_match:
  assumes "goRequireLine s = Some (g, brk, rest)"
  shows "tokens goRequireLine True s = Inr g # tokens goRequireLine False rest" "length rest < length s"
proof -
  note f = go_match_facts [OF assms]
  show len: "length rest < length s" using go_groups_nonempty [OF f(1)] arg_cong [OF f(4), of length] by simp
  then obtain c cs where s: "s = c # cs" by (cases s) auto
  then show "tokens goRequireLine True s = Inr g # tokens goRequireLine False rest" using assms f(2) len by simp
qed

abbreviation go_text :: "Dependency list \<Rightarrow> (char + groups) list \<Rightarrow> string" where
  "go_text pins ts \<equiv> concat (map (\<lambda>x. case x of Inl c \<Rightarrow> [c] | Inr g \<Rightarrow> rewrite_go pins g) ts)"

lemma alike_moved:
  assumes "pins_ok pins" and "go_groups g" and "alike rest rest'" and "line_start rest" "line_start rest'"
  shows "alike (concat g @ rest) (rewrite_go pins g @ rest')"
proof -
  obtain a b c d e where g: "g = [a, b, c, d, e]" using five [of g] assms(2) by (auto simp: go_groups_def)
  obtain c' k where c: "c = c' @ [k]" "re_space k"
    using assms(2) by (cases c rule: rev_cases) (auto simp: go_groups_def g)
  have b: "boundary (e @ rest)" "boundary (e @ rest')"
    using assms(2,4,5) by (cases e; auto simp: go_groups_def g boundary_def line_start_def)+
  have er: "alike (e @ rest) (e @ rest')" using assms(3) by (rule alike_prepend)
  show ?thesis
  proof (cases "target_of pins g")
    case None
    then show ?thesis using alike_prepend [OF assms(3)] by (simp add: rewrite_go_def)
  next
    case (Some v)
    have "vish d" "vish v" using assms(2) target_vish [OF assms(1) Some] by (simp_all add: go_groups_def g)
    from alike.version [OF c(2) this b er] have "alike ((a @ b @ c') @ k # d @ e @ rest) ((a @ b @ c') @ k # v @ e @ rest')"
      by (rule alike_prepend)
    then show ?thesis using Some by (simp add: rewrite_go_def g c(1))
  qed
qed

lemma tokens_line_start:
  assumes "line_start s"
  shows "line_start (go_text pins (tokens goRequireLine False s))"
  using assms by (cases s) (auto simp: line_start_def)

lemma tokens_moved:
  assumes "pins_ok pins"
  shows "alike s (go_text pins (tokens goRequireLine start s)) \<and>
    tokens goRequireLine start (go_text pins (tokens goRequireLine start s)) =
      map (map_sum id (moved pins)) (tokens goRequireLine start s)"
proof (induction "goRequireLine" start s rule: tokens.induct)
  case (1 start)
  show ?case by (simp add: alike.nil)
next
  case (2 start c cs)
  show ?case
  proof (cases "if start then goRequireLine (c # cs) else None")
    case None
    let ?s' = "go_text pins (tokens goRequireLine (c = CHR 0x0A) cs)"
    have ih: "alike cs ?s'" "tokens goRequireLine (c = CHR 0x0A) ?s' = map (map_sum id (moved pins)) (tokens goRequireLine (c = CHR 0x0A) cs)"
      using 2(1) [OF None] by blast+
    have al: "alike (c # cs) (c # ?s')" using ih(1) by (rule alike.same)
    have "(if start then goRequireLine (c # ?s') else None) = None"
      using None alike_go_none [OF al] by (simp split: if_splits)
    then show ?thesis using None ih(2) al by simp
  next
    case (Some p)
    then obtain g brk rest where m: "goRequireLine (c # cs) = Some (g, brk, rest)" "start"
      by (cases p) (auto split: if_splits)
    note f = go_match_facts [OF m(1)]
    have len: "length rest < length (c # cs)" using tokens_match(2) [OF m(1)] .
    let ?r' = "go_text pins (tokens goRequireLine False rest)"
    have ih: "alike rest ?r'" "tokens goRequireLine False ?r' = map (map_sum id (moved pins)) (tokens goRequireLine False rest)"
      using 2(2) [OF _ refl refl len, of g] m f(2) by auto
    have ls: "line_start ?r'" using f(3) by (rule tokens_line_start)
    have toks: "tokens goRequireLine start (c # cs) = Inr g # tokens goRequireLine False rest"
      using m f(2) len by simp
    have rw: "rewrite_go pins g = concat (moved pins g)" using concat_moved f(1) by (simp add: go_groups_def)
    note again = go_match_again [OF moved_groups [OF assms f(1)] ls]
    have "tokens goRequireLine start (concat (moved pins g) @ ?r') = Inr (moved pins g) # tokens goRequireLine False ?r'"
      using tokens_match(1) [OF again] m(2) by simp
    moreover have "alike (c # cs) (rewrite_go pins g @ ?r')"
      using alike_moved [OF assms f(1) ih(1) f(3) ls] f(4) by simp
    ultimately show ?thesis unfolding toks using ih(2) rw by simp
  qed
qed

lemma rights_map: "rights (map (map_sum f h) ts) = map h (rights ts)"
  by (induction ts rule: rights.induct) auto

lemma moved_fixed:
  assumes "length g = 5"
  shows "target_of pins (moved pins g) = None"
proof (cases "target_of pins g")
  case None
  then show ?thesis by (simp add: moved_def)
next
  case (Some v)
  obtain a b c d e where g: "g = [a, b, c, d, e]" using five [OF assms] by blast
  then have "want pins b = Some v" using Some by (auto simp: target_of_def split: option.splits if_splits)
  then show ?thesis using Some by (simp add: g moved_def target_of_def)
qed

lemma find_all_groups: "g \<in> set (rights (tokens goRequireLine start s)) \<Longrightarrow> go_groups g"
proof (induction "goRequireLine" start s rule: tokens.induct)
  case (2 start c cs)
  show ?case
  proof (cases "if start then goRequireLine (c # cs) else None")
    case None
    then show ?thesis using 2(1) [OF None] 2(3) by simp
  next
    case (Some p)
    then obtain g' brk rest where m: "goRequireLine (c # cs) = Some (g', brk, rest)" "start"
      by (cases p) (auto split: if_splits)
    note f = go_match_facts [OF m(1)]
    have "length rest < length (c # cs)" using tokens_match(2) [OF m(1)] .
    then show ?thesis using 2(2) [OF _ refl refl, of g'] 2(3) m f(1,2) by (auto split: if_splits)
  qed
qed simp


lemma go_pins_ok: "pins_ok GoDependencies"
  by (simp add: pins_ok_def GoDependencies_def goDependencies_def vish_def has_prefix_def re_space_def code_def
      NiseModuleVersion_def ChiVersion_def PgxVersion_def OAPICodegenVersion_def OAPIRuntimeVersion_def GooseVersion_def
      RiverVersion_def SQLCVersion_def XCryptoVersion_def)

definition sample_pins :: "Dependency list" where
  "sample_pins = [\<lparr>Name = ''x.org/a'', Version = ''v1.2.0''\<rparr>]"

definition sample_mod :: string where
  "sample_mod = ''a (b'' @ [CHR 0x0A, CHR 0x09] @ ''x.org/a v1.1.9 // c'' @ [CHR 0x0A] @ '')''"

lemmas line_simps = goRequireLine_def jsonDependencyLine_def quoted_def line_end_def has_prefix_def re_space_def code_def Let_def
  find_all_def replace_matches_def

lemma sample_newer: "newer ''v1.2.0'' ''v1.1.9''"
  by (simp add: newer_def parseVersion_def has_prefix_def Let_def atoi_def is_digit_def code_def digits_val_def digit_val_def)

lemma sample_bump:
  "bumpGoMod sample_mod sample_pins =
     (''a (b'' @ [CHR 0x0A, CHR 0x09] @ ''x.org/a v1.2.0 // c'' @ [CHR 0x0A] @ '')'',
      [\<lparr>rc_File = ''go.mod'', rc_Module = ''x.org/a'', rc_From = ''v1.1.9'', rc_To = ''v1.2.0''\<rparr>])"
  using sample_newer
  by (simp add: bumpGoMod_def sample_mod_def line_simps rewrite_go_def change_of_def target_of_def want_def sample_pins_def goModFileName_def)


section \<open>Lines the rewrites miss or change\<close>

text \<open>A requirement written on one line with its keyword is never moved: its first two words are no module and version.\<close>

lemma single_line_require_kept:
  "snd (bumpGoMod ''require x.org/a v1.1.9'' sample_pins) = []"
  by (simp add: bumpGoMod_def line_simps)

text \<open>Moving a package drops the blanks after its line, and with them the empty lines that follow.\<close>

lemma blank_line_dropped:
  "fst (bumpPackageJSON ([CHR 0x22] @ ''a'' @ [CHR 0x22] @ '':'' @ [CHR 0x22] @ ''v1.1.9'' @ [CHR 0x22, CHR 0x0D, CHR 0x0A, CHR 0x0A] @ ''}'')
         [\<lparr>Name = ''a'', Version = ''v1.2.0''\<rparr>]) =
   [CHR 0x22] @ ''a'' @ [CHR 0x22] @ '':'' @ [CHR 0x22] @ ''v1.2.0'' @ [CHR 0x22, CHR 0x0A] @ ''}''"
  using sample_newer
  by (simp add: bumpPackageJSON_def line_simps rewrite_json_def target_of_def want_def)

text \<open>A package never moves backwards either.\<close>

lemma bumpPackageJSON_forward:
  "ch \<in> set (snd (bumpPackageJSON source pins)) \<Longrightarrow>
     newer (rc_To ch) (rc_From ch) \<and> \<not> newer (rc_From ch) (rc_To ch) \<and> want pins (rc_Module ch) = Some (rc_To ch)"
  using newer_asym
  by (auto simp: bumpPackageJSON_def change_of_def target_of_def split: option.splits if_splits)

end
