(* ===== verification/Upgrade.thy ===== *)
theory Upgrade
  imports Generator Dependencies
begin

text \<open>
  Upgrading a generated project, from \<open>internal/upgrade\<close>: the declared migrations and the chain between two
  versions, the codemods, the plan (\<open>upgrade.go\<close>) and its application to the project tree (\<open>apply.go\<close>).
  The template engine and the embedded templates are the generator's parameters.  A call on the opened
  root refuses a path that leaves it.
\<close>

section \<open>Migrations\<close>

record Codemod =
  cm_Describe :: string
  cm_Old :: string
  cm_New :: string

record Migration =
  mg_From :: string
  mg_To :: string
  mg_Summary :: string
  mg_Codemods :: "Codemod list"
  mg_Removed :: "string list"
  mg_Notes :: "string list"

definition migrations :: "Migration list" where "migrations = []"

text \<open>The map by source version: a later entry of the table replaces an earlier one.\<close>

definition by_from :: "Migration list \<Rightarrow> string \<Rightarrow> Migration option" where
  "by_from declared = map_of (rev (map (\<lambda>m. (mg_From m, m)) declared))"

text \<open>The loop, bounded by its count of rounds.\<close>

fun path_loop :: "nat \<Rightarrow> Migration list \<Rightarrow> string \<Rightarrow> string \<Rightarrow> Migration list \<times> string list" where
  "path_loop 0 declared at to = ([], if at \<noteq> to then [at] else [])"
| "path_loop (Suc n) declared at to =
     (if at = to then ([], [])
      else
        (case by_from declared at of
           None \<Rightarrow> ([], [at])
         | Some m \<Rightarrow> (case path_loop n declared (mg_To m) to of (ms, missing) \<Rightarrow> (m # ms, missing))))"

definition migration_path :: "string \<Rightarrow> string \<Rightarrow> Migration list \<Rightarrow> Migration list \<times> string list" where
  "migration_path from to declared =
     (if from = to then ([], []) else path_loop (length declared + 1) declared from to)"

text \<open>\<open>strings.Count\<close> and \<open>strings.ReplaceAll\<close> together; an empty text matches before every rune and at the end.\<close>

function subst_all :: "string \<Rightarrow> string \<Rightarrow> string \<Rightarrow> string \<times> nat" where
  "subst_all old new s =
     (if s = [] \<or> old = [] then (s, 0)
      else if has_prefix s old then
        (case subst_all old new (drop (length old) s) of (r, n) \<Rightarrow> (new @ r, n + 1))
      else (case subst_all old new (tl s) of (r, n) \<Rightarrow> (hd s # r, n)))"
  by pat_completeness auto
termination
  by (relation "measure (\<lambda>(old, new, s). length s)") auto

declare subst_all.simps [simp del]

function insert_all :: "string \<Rightarrow> string \<Rightarrow> string" where
  "insert_all new s =
     new @ (if s = [] then []
            else (let w = (case rune_width s of None \<Rightarrow> 1 | Some n \<Rightarrow> n) in take w s @ insert_all new (drop w s)))"
  by pat_completeness auto
termination
  by (relation "measure (\<lambda>(new, s). length s)") (auto dest: rune_width_bounds split: option.splits)

declare insert_all.simps [simp del]

definition Codemod_apply :: "Codemod \<Rightarrow> string \<Rightarrow> string \<times> nat" where
  "Codemod_apply c source =
     (if cm_Old c = [] then (insert_all (cm_New c) source, rune_count source + 1)
      else (case subst_all (cm_Old c) (cm_New c) source of (r, n) \<Rightarrow> if n = 0 then (source, 0) else (r, n)))"

definition Declared :: "Migration list" where "Declared = migrations"

section \<open>The plan\<close>

datatype Action = ActionUpdate | ActionCreate | ActionRemove

record FileChange =
  fc_Path :: string
  fc_Action :: Action

record CodemodChange =
  cc_Path :: string
  cc_Describe :: string
  cc_Occurrences :: nat

record Report =
  CLIFrom :: string
  CLITo :: string
  RuntimeFrom :: string
  RuntimeTo :: string
  UpToDate :: bool
  Files :: "FileChange list"
  Deps :: "RequireChange list"
  Codemods :: "CodemodChange list"
  Report_Notes :: "string list"
  NextSteps :: "string list"

text \<open>\<open>U_Abs\<close> is what \<open>filepath.Abs\<close> gives for the root, nothing when it fails.\<close>

record UOptions =
  U_Abs :: "string option"
  U_CLIVersion :: string
  U_RuntimeVersion :: string
  U_Codemods :: bool
  U_Migrations :: "Migration list option"

datatype upgrade_error =
    ErrNoRecipe
  | Recipe_unreadable io_error
  | Recipe_invalid recipe_error
  | Planning plan_error
  | Upgrade_io io_error
  | Not_planned string

definition migrationTable :: "UOptions \<Rightarrow> Migration list" where
  "migrationTable opts = (case U_Migrations opts of Some ms \<Rightarrow> ms | None \<Rightarrow> migrations)"

definition nextSteps :: "RequireChange list \<Rightarrow> string list" where
  "nextSteps deps =
     (if goModFileName \<in> rc_File ` set deps then [''go mod tidy''] else []) @
     (if packageJSONFileName \<in> rc_File ` set deps then [''pnpm --dir frontend install''] else []) @
     [''git diff'', ''nise check'', ''go build ./...'']"

definition readRecipe :: "env \<Rightarrow> tree \<Rightarrow> upgrade_error + Recipe" where
  "readRecipe e t =
     (case read_file e t FileName of
        Inl Not_exist \<Rightarrow> Inl ErrNoRecipe
      | Inl x \<Rightarrow> Inl (Recipe_unreadable x)
      | Inr data \<Rightarrow> map_sum Recipe_invalid id (Unmarshal data))"

definition projectName :: "string option \<Rightarrow> string" where
  "projectName root =
     (case root of
        None \<Rightarrow> ''app''
      | Some p \<Rightarrow> if ValidateName (Base p) \<noteq> None then ''app'' else Base p)"

text \<open>\<open>strings.Fields\<close>: the words between blanks.\<close>

fun word_end :: "string \<Rightarrow> string" where
  "word_end [] = []"
| "word_end (c # cs) = (if leading_space (c # cs) \<noteq> None then [] else c # word_end cs)"

lemma length_word_end: "length (word_end s) \<le> length s"
  by (induction s rule: word_end.induct) auto

function fields :: "string \<Rightarrow> string list" where
  "fields s =
     (if s = [] then []
      else (case leading_space s of
              Some p \<Rightarrow> fields (drop (length p) s)
            | None \<Rightarrow> (let w = word_end s in w # fields (drop (length w) s))))"
  by pat_completeness auto
termination
proof (relation "measure length")
  show "(drop (length w) s, s) \<in> measure length" if "s \<noteq> []" "leading_space s = None" "w = word_end s" for s w
    using that by (cases s) auto
qed (auto dest: leading_space_shorter)

declare fields.simps [simp del]

fun module_line :: "string list \<Rightarrow> string" where
  "module_line [] = ''example.com/app''"
| "module_line (raw # rest) =
     (let fs = fields (trim_space raw) in
      if length fs = 2 \<and> hd fs = ''module'' then
        (if ValidateModulePath (fs ! 1) = None then fs ! 1 else ''example.com/app'')
      else module_line rest)"

definition projectModulePath :: "env \<Rightarrow> tree \<Rightarrow> string" where
  "projectModulePath e t =
     (case read_file e t goModFileName of
        Inl x \<Rightarrow> ''example.com/app''
      | Inr data \<Rightarrow> module_line (split_on (CHR 0x0A) data))"

definition planFiles :: "engine \<Rightarrow> embedded \<Rightarrow> env \<Rightarrow> string option \<Rightarrow> tree \<Rightarrow> Recipe \<Rightarrow> upgrade_error + File list" where
  "planFiles eng emb e root t r =
     map_sum Planning id
       (Plan eng emb
          \<lparr>O_Name = projectName root, O_ModulePath = projectModulePath e t, O_Profile = profile r,
           O_Modules = modules r, O_CLIVersion = cliVersion r, O_RuntimeVersion = runtimeVersion r\<rparr>)"

definition declaredRemovals :: "Migration list \<Rightarrow> string list" where
  "declaredRemovals ms = concat (map mg_Removed ms)"

definition insideProject :: "string \<Rightarrow> bool" where
  "insideProject candidate \<longleftrightarrow>
     candidate \<noteq> [] \<and> \<not> has_prefix candidate ''/'' \<and>
     Clean candidate = candidate \<and> Clean candidate \<noteq> ''.'' \<and> \<not> has_prefix (Clean candidate) ''../''"

definition file_change :: "env \<Rightarrow> tree \<Rightarrow> File \<Rightarrow> FileChange list" where
  "file_change e t f =
     (case read_file e t (Path f) of
        Inl Not_exist \<Rightarrow> [\<lparr>fc_Path = Path f, fc_Action = ActionCreate\<rparr>]
      | Inl x \<Rightarrow> [\<lparr>fc_Path = Path f, fc_Action = ActionUpdate\<rparr>]
      | Inr onDisk \<Rightarrow> if onDisk \<noteq> Content f then [\<lparr>fc_Path = Path f, fc_Action = ActionUpdate\<rparr>] else [])"

definition removal :: "env \<Rightarrow> tree \<Rightarrow> File list \<Rightarrow> string \<Rightarrow> FileChange list" where
  "removal e t owned candidate =
     (if candidate \<in> Path ` set owned then []
      else if \<not> insideProject candidate then []
      else if t candidate \<noteq> None \<and> carried e (Stat candidate) then [\<lparr>fc_Path = candidate, fc_Action = ActionRemove\<rparr>]
      else [])"

text \<open>The sort is by path; entries with the same path are equal, so its stability does not matter.\<close>

definition fileChanges :: "env \<Rightarrow> tree \<Rightarrow> File list \<Rightarrow> string list \<Rightarrow> FileChange list" where
  "fileChanges e t planned removed =
     (let owned = filter (\<lambda>f. FOwner f = OwnerNise) planned in
      sort_key fc_Path (concat (map (file_change e t) owned) @ concat (map (removal e t owned) removed)))"

text \<open>The codemods of a chain on one text, with the count of each that matched.\<close>

fun run_mods :: "Codemod list \<Rightarrow> string \<Rightarrow> string \<times> (Codemod \<times> nat) list" where
  "run_mods [] s = (s, [])"
| "run_mods (m # ms) s =
     (case Codemod_apply m s of (rewritten, count) \<Rightarrow>
        if count = 0 then run_mods ms s
        else (case run_mods ms rewritten of (r, hits) \<Rightarrow> (r, (m, count) # hits)))"

definition chain_mods :: "Migration list \<Rightarrow> Codemod list" where
  "chain_mods ms = concat (map mg_Codemods ms)"

definition app_source :: "File \<Rightarrow> bool" where
  "app_source f \<longleftrightarrow> FOwner f = OwnerApp \<and> has_suffix (Path f) ''.go''"

fun find_codemods :: "env \<Rightarrow> tree \<Rightarrow> Codemod list \<Rightarrow> File list \<Rightarrow> upgrade_error + CodemodChange list" where
  "find_codemods e t mods [] = Inr []"
| "find_codemods e t mods (f # fs) =
     (if \<not> app_source f then find_codemods e t mods fs
      else
        (case read_file e t (Path f) of
           Inl Not_exist \<Rightarrow> find_codemods e t mods fs
         | Inl x \<Rightarrow> Inl (Upgrade_io x)
         | Inr source \<Rightarrow>
             map_sum id
               (\<lambda>cs. map (\<lambda>(m, n). \<lparr>cc_Path = Path f, cc_Describe = cm_Describe m, cc_Occurrences = n\<rparr>)
                       (snd (run_mods mods source)) @ cs)
               (find_codemods e t mods fs)))"

definition planCodemods :: "env \<Rightarrow> tree \<Rightarrow> File list \<Rightarrow> Migration list \<Rightarrow> upgrade_error + CodemodChange list" where
  "planCodemods e t planned ms =
     map_sum id (\<lambda>cs. sort_key cc_Path (sort_key cc_Describe cs)) (find_codemods e t (chain_mods ms) planned)"

definition gap_note :: "string \<Rightarrow> string \<Rightarrow> string" where
  "gap_note to gap =
     ''No migration is declared from '' @ gap @ '', so nothing was applied for the versions after it. '' @
     ''Read the release notes between '' @ gap @ '' and '' @ to @ '' before relying on this upgrade.''"

definition migration_notes :: "Migration \<Rightarrow> string list" where
  "migration_notes m =
     (if mg_Summary m \<noteq> [] then [mg_From m @ '' '' @ [CHR 0xE2, CHR 0x86, CHR 0x92] @ '' '' @ mg_To m @ '': '' @ mg_Summary m] else []) @
     mg_Notes m"

definition disabled_note :: "Codemod \<Rightarrow> string" where
  "disabled_note m =
     ''Codemods are disabled, so this was not applied: '' @ cm_Describe m @
     '' (replace '' @ cm_Old m @ '' with '' @ cm_New m @ '')''"

definition runtime_target :: "UOptions \<Rightarrow> string" where
  "runtime_target opts = (if U_RuntimeVersion opts = [] then NiseModuleVersion else U_RuntimeVersion opts)"

definition target_recipe :: "UOptions \<Rightarrow> Recipe \<Rightarrow> Recipe" where
  "target_recipe opts current = current\<lparr>cliVersion := U_CLIVersion opts, runtimeVersion := runtime_target opts\<rparr>"

definition Upgrade_Plan :: "engine \<Rightarrow> embedded \<Rightarrow> env \<Rightarrow> UOptions \<Rightarrow> tree \<Rightarrow> upgrade_error + Report" where
  "Upgrade_Plan eng emb e opts t =
     (case readRecipe e t of
        Inl x \<Rightarrow> Inl x
      | Inr current \<Rightarrow>
          (case planFiles eng emb e (U_Abs opts) t (target_recipe opts current) of
             Inl x \<Rightarrow> Inl x
           | Inr planned \<Rightarrow>
               (case migration_path (runtimeVersion current) (runtime_target opts) (migrationTable opts) of
                  (ms, missing) \<Rightarrow>
                  (case planDependencies e t of
                     Inl x \<Rightarrow> Inl (Upgrade_io x)
                   | Inr (deps, depNotes) \<Rightarrow>
                       (case (if U_Codemods opts then planCodemods e t planned ms else Inr []) of
                          Inl x \<Rightarrow> Inl x
                        | Inr mods \<Rightarrow>
                            (let files = fileChanges e t planned (declaredRemovals ms);
                                 notes = depNotes @ map (gap_note (runtime_target opts)) missing @ concat (map migration_notes ms) @
                                   (if U_Codemods opts then [] else map disabled_note (chain_mods ms));
                                 upToDate = (files = [] \<and> deps = [] \<and> mods = [] \<and> notes = [] \<and> cliVersion current = U_CLIVersion opts)
                             in Inr \<lparr>CLIFrom = cliVersion current, CLITo = U_CLIVersion opts,
                                     RuntimeFrom = runtimeVersion current, RuntimeTo = runtime_target opts,
                                     UpToDate = upToDate, Files = files, Deps = deps, Codemods = mods, Report_Notes = notes,
                                     NextSteps = (if upToDate then [] else nextSteps deps)\<rparr>))))))"

section \<open>Applying it\<close>

definition projectFileMode :: mode where "projectFileMode = 0x1A4"

definition pathDir :: "string \<Rightarrow> string" where
  "pathDir p = (if Dir p = ''.'' \<or> Dir p = ''/'' then [] else Dir p)"

text \<open>A call on an opened root refuses a path that leaves it.\<close>

definition escapes :: "string \<Rightarrow> bool" where
  "escapes p \<longleftrightarrow> p = ''..'' \<or> has_prefix p ''../''"

definition root_remove :: "env \<Rightarrow> string \<Rightarrow> tree \<Rightarrow> io_error + tree" where
  "root_remove e p t = (if escapes p then Inl (Failed (Remove p)) else remove e p t)"

definition by_path :: "File list \<Rightarrow> string \<Rightarrow> File option" where
  "by_path planned = map_of (rev (map (\<lambda>f. (Path f, f)) planned))"

fun writeFiles :: "env \<Rightarrow> FileChange list \<Rightarrow> (string \<Rightarrow> File option) \<Rightarrow> tree \<Rightarrow> upgrade_error option \<times> tree" where
  "writeFiles e [] planned t = (None, t)"
| "writeFiles e (ch # chs) planned t =
     (if fc_Action ch = ActionRemove then
        (case root_remove e (fc_Path ch) t of
           Inl Not_exist \<Rightarrow> writeFiles e chs planned t
         | Inl x \<Rightarrow> (Some (Upgrade_io x), t)
         | Inr t1 \<Rightarrow> writeFiles e chs planned t1)
      else
        (case planned (fc_Path ch) of
           None \<Rightarrow> (Some (Not_planned (fc_Path ch)), t)
         | Some f \<Rightarrow>
             (case (if pathDir (fc_Path ch) \<noteq> [] then mkdir_all e (pathDir (fc_Path ch)) 0x1E8 t else Inr t) of
                Inl x \<Rightarrow> (Some (Upgrade_io x), t)
              | Inr t1 \<Rightarrow>
                  (case write_file e (fc_Path ch) (Content f) projectFileMode t1 of
                     Inl x \<Rightarrow> (Some (Upgrade_io x), t1)
                   | Inr t2 \<Rightarrow> writeFiles e chs planned t2))))"

fun applyCodemods :: "env \<Rightarrow> Codemod list \<Rightarrow> File list \<Rightarrow> tree \<Rightarrow> upgrade_error option \<times> tree" where
  "applyCodemods e mods [] t = (None, t)"
| "applyCodemods e mods (f # fs) t =
     (if \<not> app_source f then applyCodemods e mods fs t
      else
        (case read_file e t (Path f) of
           Inl Not_exist \<Rightarrow> applyCodemods e mods fs t
         | Inl x \<Rightarrow> (Some (Upgrade_io x), t)
         | Inr source \<Rightarrow>
             (case run_mods mods source of (text', hits) \<Rightarrow>
                if hits = [] then applyCodemods e mods fs t
                else (case write_file e (Path f) text' projectFileMode t of
                        Inl x \<Rightarrow> (Some (Upgrade_io x), t)
                      | Inr t1 \<Rightarrow> applyCodemods e mods fs t1))))"

fun apply_manifests ::
    "env \<Rightarrow> (string \<times> Dependency list \<times> (string \<Rightarrow> Dependency list \<Rightarrow> string \<times> RequireChange list)) list \<Rightarrow> tree \<Rightarrow>
     upgrade_error option \<times> tree" where
  "apply_manifests e [] t = (None, t)"
| "apply_manifests e ((name, pins, bump) # ms) t =
     (case read_file e t name of
        Inl Not_exist \<Rightarrow> apply_manifests e ms t
      | Inl x \<Rightarrow> (Some (Upgrade_io x), t)
      | Inr source \<Rightarrow>
          (case bump source pins of (bumped, changes) \<Rightarrow>
             if changes = [] then apply_manifests e ms t
             else (case write_file e name bumped projectFileMode t of
                     Inl x \<Rightarrow> (Some (Upgrade_io x), t)
                   | Inr t1 \<Rightarrow> apply_manifests e ms t1)))"

definition applyDependencies :: "env \<Rightarrow> tree \<Rightarrow> upgrade_error option \<times> tree" where
  "applyDependencies e t =
     apply_manifests e
       [(goModFileName, GoDependencies, bumpGoMod), (packageJSONFileName, frontend_pins, bumpPackageJSON)] t"

definition writeRecipe :: "env \<Rightarrow> Recipe \<Rightarrow> tree \<Rightarrow> upgrade_error option \<times> tree" where
  "writeRecipe e r t =
     (case Marshal r of
        Inl x \<Rightarrow> (Some (Recipe_invalid x), t)
      | Inr encoded \<Rightarrow>
          (case write_file e FileName encoded projectFileMode t of
             Inl x \<Rightarrow> (Some (Upgrade_io x), t)
           | Inr t1 \<Rightarrow> (None, t1)))"

text \<open>One step of the application after another, stopping at the first that fails.\<close>

fun steps :: "(tree \<Rightarrow> upgrade_error option \<times> tree) list \<Rightarrow> tree \<Rightarrow> upgrade_error option \<times> tree" where
  "steps [] t = (None, t)"
| "steps (s # ss) t = (case s t of (Some x, t1) \<Rightarrow> (Some x, t1) | (None, t1) \<Rightarrow> steps ss t1)"

definition chain_of :: "UOptions \<Rightarrow> Recipe \<Rightarrow> Migration list" where
  "chain_of opts current = fst (migration_path (runtimeVersion current) (runtime_target opts) (migrationTable opts))"

definition mods_step :: "env \<Rightarrow> UOptions \<Rightarrow> Recipe \<Rightarrow> File list \<Rightarrow> tree \<Rightarrow> upgrade_error option \<times> tree" where
  "mods_step e opts current planned t =
     (if U_Codemods opts then applyCodemods e (chain_mods (chain_of opts current)) planned t else (None, t))"

definition Apply :: "engine \<Rightarrow> embedded \<Rightarrow> env \<Rightarrow> UOptions \<Rightarrow> tree \<Rightarrow> (upgrade_error + Report) \<times> tree" where
  "Apply eng emb e opts t =
     (case Upgrade_Plan eng emb e opts t of
        Inl x \<Rightarrow> (Inl x, t)
      | Inr report \<Rightarrow>
          if UpToDate report then (Inr report, t)
          else
            (case readRecipe e t of
               Inl x \<Rightarrow> (Inl x, t)
             | Inr current \<Rightarrow>
                 (case planFiles eng emb e (U_Abs opts) t (target_recipe opts current) of
                    Inl x \<Rightarrow> (Inl x, t)
                  | Inr planned \<Rightarrow>
                      if \<not> carried e Open_root then (Inl (Upgrade_io (Failed Open_root)), t)
                      else
                        (case steps
                                [writeFiles e (Files report) (by_path planned),
                                 mods_step e opts current planned,
                                 applyDependencies e,
                                 writeRecipe e (target_recipe opts current)] t of
                           (Some x, t1) \<Rightarrow> (Inl x, t1)
                         | (None, t1) \<Rightarrow> (Inr report, t1)))))"

end
