(* ===== verification/Generator_Laws.thy ===== *)
theory Generator_Laws
  imports Generator
begin

text \<open>
  What a plan guarantees: its order, the recipe it carries, and that planning succeeds on every valid
  selection.  The last rests on the manifest's output paths being different, which a checksum of each
  path decides, and on how the fields fill the paths that have some.
\<close>

section \<open>The output paths of the manifest are different\<close>

primrec checksum :: "nat \<Rightarrow> nat \<Rightarrow> string \<Rightarrow> nat" where
  "checksum w h [] = h"
| "checksum w h (c # cs) = checksum (w + 1) (h + w * code c) cs"

lemma codes:
  "code (CHR ''('') = 40"
  "code (CHR '')'') = 41"
  "code (CHR ''+'') = 43"
  "code (CHR ''-'') = 45"
  "code (CHR ''.'') = 46"
  "code (CHR ''/'') = 47"
  "code (CHR ''0'') = 48"
  "code (CHR ''1'') = 49"
  "code (CHR ''2'') = 50"
  "code (CHR ''3'') = 51"
  "code (CHR ''4'') = 52"
  "code (CHR ''5'') = 53"
  "code (CHR ''6'') = 54"
  "code (CHR ''7'') = 55"
  "code (CHR ''8'') = 56"
  "code (CHR ''9'') = 57"
  "code (CHR ''A'') = 65"
  "code (CHR ''B'') = 66"
  "code (CHR ''C'') = 67"
  "code (CHR ''D'') = 68"
  "code (CHR ''E'') = 69"
  "code (CHR ''F'') = 70"
  "code (CHR ''G'') = 71"
  "code (CHR ''I'') = 73"
  "code (CHR ''L'') = 76"
  "code (CHR ''M'') = 77"
  "code (CHR ''N'') = 78"
  "code (CHR ''O'') = 79"
  "code (CHR ''P'') = 80"
  "code (CHR ''R'') = 82"
  "code (CHR ''S'') = 83"
  "code (CHR ''T'') = 84"
  "code (CHR ''U'') = 85"
  "code (CHR ''_'') = 95"
  "code (CHR ''a'') = 97"
  "code (CHR ''b'') = 98"
  "code (CHR ''c'') = 99"
  "code (CHR ''d'') = 100"
  "code (CHR ''e'') = 101"
  "code (CHR ''f'') = 102"
  "code (CHR ''g'') = 103"
  "code (CHR ''h'') = 104"
  "code (CHR ''i'') = 105"
  "code (CHR ''j'') = 106"
  "code (CHR ''k'') = 107"
  "code (CHR ''l'') = 108"
  "code (CHR ''m'') = 109"
  "code (CHR ''n'') = 110"
  "code (CHR ''o'') = 111"
  "code (CHR ''p'') = 112"
  "code (CHR ''q'') = 113"
  "code (CHR ''r'') = 114"
  "code (CHR ''s'') = 115"
  "code (CHR ''t'') = 116"
  "code (CHR ''u'') = 117"
  "code (CHR ''v'') = 118"
  "code (CHR ''w'') = 119"
  "code (CHR ''x'') = 120"
  "code (CHR ''y'') = 121"
  "code (CHR ''z'') = 122"
  "code (CHR ''{'') = 123"
  "code (CHR ''}'') = 125"
  by (simp_all add: code_def)

lemma checksums_1: "map (\<lambda>t. checksum 1 0 (Output t)) templateFiles_1 =
   [9683, 8003, 5868, 9123, 3700, 3580, 7144, 22682, 13632, 28915, 43288, 6072, 11061, 13460, 48609, 80476, 49676, 39362, 68601, 60798, 49904, 80305, 36426, 185951, 187051, 88230, 117551, 15532, 11055, 15183]"
  by (simp add: templateFiles_1_def tf_def codes OpenAPIGeneratedPath_def OpenAPITypescriptGeneratedPath_def)

lemma checksums_2: "map (\<lambda>t. checksum 1 0 (Output t)) templateFiles_2 =
   [19323, 36671, 14027, 19276, 20989, 20150, 39303, 37892, 22972, 43757, 63339, 52485, 20364, 43879, 21506, 22621, 114026, 137972, 121401, 138310, 126962, 116630, 131384, 111257, 93546, 92256, 99050, 107268, 110427, 131869]"
  by (simp add: templateFiles_2_def tf_def codes OpenAPIGeneratedPath_def OpenAPITypescriptGeneratedPath_def)

lemma checksums_3: "map (\<lambda>t. checksum 1 0 (Output t)) templateFiles_3 =
   [97533, 117899, 135397, 92821, 116028, 88824, 94347, 117767, 127302, 98059, 108254, 103513, 92939, 107909, 103631, 103934, 107710, 98204, 130921, 89229, 111932, 76931, 32154, 71309, 118665, 26577, 52126, 26630, 45574, 46191]"
  by (simp add: templateFiles_3_def tf_def codes OpenAPIGeneratedPath_def OpenAPITypescriptGeneratedPath_def)

lemma checksums_4: "map (\<lambda>t. checksum 1 0 (Output t)) templateFiles_4 =
   [62535, 59253, 52279, 51792, 64631, 83939, 51677, 45125, 61045, 44701, 48066, 64904, 49025, 56062, 59908, 45998, 78901, 62423, 102634, 106359, 91631, 177527, 114963, 191746, 69181, 108136, 137568, 37788, 31980, 25732]"
  by (simp add: templateFiles_4_def tf_def codes OpenAPIGeneratedPath_def OpenAPITypescriptGeneratedPath_def)

lemma checksums_5: "map (\<lambda>t. checksum 1 0 (Output t)) templateFiles_5 =
   [27151, 32407, 2054, 18005, 24419, 37706, 28863, 53045, 20107, 19932, 43840, 27002, 22273, 24726, 29924, 36393, 40428, 32751, 110762, 96391, 82848, 51826, 70543, 86092, 55754, 60790, 77179, 81839, 88472, 59359]"
  by (simp add: templateFiles_5_def tf_def codes OpenAPIGeneratedPath_def OpenAPITypescriptGeneratedPath_def)

lemma checksums_6: "map (\<lambda>t. checksum 1 0 (Output t)) templateFiles_6 =
   [63142, 70521, 71315, 92747, 48654, 66828, 115854, 74177, 96152, 48960, 67134, 79456, 59878, 79605, 52437, 57327, 113305, 73270, 77809, 98796, 85123, 58255, 58183, 77986, 58706, 95411, 120101, 101124, 126900, 100219]"
  by (simp add: templateFiles_6_def tf_def codes OpenAPIGeneratedPath_def OpenAPITypescriptGeneratedPath_def)

lemma checksums_7: "map (\<lambda>t. checksum 1 0 (Output t)) templateFiles_7 =
   [69143, 90575, 136107, 58309, 78112, 82229, 105290, 111927, 138789, 254975, 86344, 109948, 51756, 70473, 90929, 115076, 130531, 98802, 124035, 63574, 67151, 63663, 88040, 83920, 97676, 38488, 55033, 68824, 48715, 53459]"
  by (simp add: templateFiles_7_def tf_def codes OpenAPIGeneratedPath_def OpenAPITypescriptGeneratedPath_def)

lemma checksums_8: "map (\<lambda>t. checksum 1 0 (Output t)) templateFiles_8 =
   [71036, 68956, 73374, 91877, 91089, 120408, 147813, 170066, 86981, 110585, 87272, 93476, 113433, 173200, 119061, 92266, 121382, 148787, 135816, 171152, 87661, 93865, 113822, 174258, 119450, 67025, 104846, 55117, 59255, 63098]"
  by (simp add: templateFiles_8_def tf_def codes OpenAPIGeneratedPath_def OpenAPITypescriptGeneratedPath_def)

lemma checksums_9: "map (\<lambda>t. checksum 1 0 (Output t)) templateFiles_9 =
   [68426, 85707, 90609, 107398, 66666, 87555, 106849, 132625, 111591, 91091, 115238, 71425, 66473, 59311, 79114, 62803, 97414, 82450, 100806, 126039, 45349, 115969, 101672, 62980, 58656, 78459, 49380, 67554, 58327, 55811]"
  by (simp add: templateFiles_9_def tf_def codes OpenAPIGeneratedPath_def OpenAPITypescriptGeneratedPath_def)

lemma checksums_10: "map (\<lambda>t. checksum 1 0 (Output t)) templateFiles_10 =
   [75071, 51223, 69940, 74681, 66967, 87856, 44834, 62465, 51622, 70339, 45672, 63303, 81573, 119816, 115685, 39524, 56069, 58461, 78264, 101308, 116182, 47061, 119226, 65235, 57492, 77295, 66456, 87345, 84308, 59527]"
  by (simp add: templateFiles_10_def tf_def codes OpenAPIGeneratedPath_def OpenAPITypescriptGeneratedPath_def)

lemma checksums_11: "map (\<lambda>t. checksum 1 0 (Output t)) templateFiles_11 =
   [78957, 63074, 75593, 97568, 107369, 121834, 52018]"
  by (simp add: templateFiles_11_def tf_def codes OpenAPIGeneratedPath_def OpenAPITypescriptGeneratedPath_def)

lemma own_checksums:
  "map (checksum 1 0) [''nise.json'', ''AGENTS.md'', ''.nise/architecture.json''] = [4618, 3738, 28345]"
  by (simp add: codes)

definition own_paths :: "string list" where
  "own_paths = [''nise.json'', ''AGENTS.md'', ''.nise/architecture.json'']"

lemma outputs_distinct: "distinct (own_paths @ map Output templateFiles)"
proof -
  have "distinct (map (checksum 1 0) (own_paths @ map Output templateFiles))"
    unfolding own_paths_def templateFiles_def map_append map_map comp_def own_checksums checksums_1 checksums_2 checksums_3 checksums_4 checksums_5 checksums_6 checksums_7 checksums_8 checksums_9 checksums_10 checksums_11
    by simp
  then show ?thesis by (rule distinct_map [THEN iffD1, THEN conjunct1])
qed

lemma Output_inj: "t \<in> set templateFiles \<Longrightarrow> u \<in> set templateFiles \<Longrightarrow> Output t = Output u \<Longrightarrow> t = u"
  using outputs_distinct by (auto simp: distinct_map inj_on_def)

section \<open>Filling a path\<close>

text \<open>
  The texts the engine is relied on for: literals, and \<open>{{.Field}}\<close> for a string field of the data.
\<close>

function fill :: "templateData \<Rightarrow> string \<Rightarrow> string option" where
  "fill d s =
     (if s = [] then Some []
      else if has_prefix s ''{{'' then
        (let b = drop 2 s; name = takeWhile (\<lambda>c. c \<noteq> CHR ''}'') (drop 1 b); rest = drop (1 + length name) b in
         if has_prefix b ''.'' \<and> has_prefix rest ''}}'' then
           (case map_of d name of
              Some (TStr v) \<Rightarrow> map_option ((@) v) (fill d (drop 2 rest))
            | _ \<Rightarrow> None)
         else None)
      else map_option (Cons (hd s)) (fill d (tl s)))"
  by pat_completeness auto
termination
  by (relation "measure (\<lambda>(d, s). length s)") auto

declare fill.simps [simp del]

definition field_engine :: "engine \<Rightarrow> bool" where
  "field_engine eng \<longleftrightarrow> (\<forall>name src d out. fill d src = Some out \<longrightarrow> eng name src d = Some out)"

lemma fill_literal: "CHR ''{'' \<notin> set s \<Longrightarrow> fill d s = Some s"
proof (induction s)
  case (Cons c cs)
  then show ?case by (subst fill.simps) (auto simp: has_prefix_def)
qed (simp add: fill.simps)

lemma fill_char: "c \<noteq> CHR ''{'' \<Longrightarrow> fill d (c # cs) = map_option (Cons c) (fill d cs)"
  by (subst fill.simps) (simp add: has_prefix_def)

lemma fill_field:
  assumes "CHR ''}'' \<notin> set name" and "map_of d name = Some (TStr v)" and "CHR ''{'' \<notin> set rest"
  shows "fill d (''{{.'' @ name @ ''}}'' @ rest) = Some (v @ rest)"
proof -
  have t: "takeWhile (\<lambda>c. c \<noteq> CHR ''}'') (name @ CHR ''}'' # u) = name" for u
    using assms(1) by (induction name) auto
  show ?thesis
    using assms(2) fill_literal [OF assms(3), of d] by (subst fill.simps) (simp add: has_prefix_def t)
qed

text \<open>
  The file names of the manifest have a dot, or are one of two that do not; no directory name looks like
  one, so no planned file is a directory of another.
\<close>

definition file_elem :: "string \<Rightarrow> bool" where
  "file_elem e \<longleftrightarrow> (CHR ''.'' \<in> set e \<and> e \<noteq> ''.nise'' \<and> e \<noteq> ''project.inlang'') \<or> e = ''Dockerfile'' \<or> e = ''Makefile''"

definition file_shaped :: "string \<Rightarrow> bool" where
  "file_shaped p \<longleftrightarrow> file_elem (last (split_on (CHR ''/'') p)) \<and> list_all (\<lambda>e. \<not> file_elem e) (butlast (split_on (CHR ''/'') p))"

text \<open>
  One pass over a path decides that it is plain and shaped like a file.  The state says what the current
  element is so far: 0 nothing, 1 no dot, 2 dots only, 3 a dot later on, 4 a dot first and more, 5 no dot
  and an initial of the two files without one; \<open>p\<close> is the byte before, which tells a name from the two
  directories with a dot.
\<close>

definition scan_step :: "nat \<Rightarrow> nat \<Rightarrow> nat" where
  "scan_step s k =
     (if k = 46 then (if s = 0 \<or> s = 2 then 2 else if s = 1 \<or> s = 5 then 3 else s)
      else if s = 0 then (if k = 68 \<or> k = 77 then 5 else 1)
      else if s = 2 then 4 else s)"

primrec scan :: "nat \<Rightarrow> nat \<Rightarrow> string \<Rightarrow> bool" where
  "scan s p [] = (s = 3 \<and> p \<noteq> 103 \<or> s = 4 \<and> p \<noteq> 101)"
| "scan s p (c # cs) =
     (if code c = 47 then (if s = 1 then scan 0 47 cs else False)
      else if code c = 123 then False else scan (scan_step s (code c)) (code c) cs)"

fun scanned :: "nat \<Rightarrow> string \<Rightarrow> bool" where
  "scanned s e \<longleftrightarrow>
     (if s = 0 then e = []
      else if s = 1 then e \<noteq> [] \<and> CHR ''.'' \<notin> set e \<and> hd e \<notin> {CHR ''D'', CHR ''M''}
      else if s = 2 then e \<noteq> [] \<and> set e \<subseteq> {CHR ''.''}
      else if s = 3 then e \<noteq> [] \<and> CHR ''.'' \<in> set e \<and> hd e \<noteq> CHR ''.''
      else if s = 4 then e \<noteq> [] \<and> hd e = CHR ''.'' \<and> \<not> set e \<subseteq> {CHR ''.''}
      else s = 5 \<and> e \<noteq> [] \<and> CHR ''.'' \<notin> set e)"

lemma code_char: "code c = 47 \<longleftrightarrow> c = CHR ''/''" "code c = 46 \<longleftrightarrow> c = CHR ''.''" "code c = 123 \<longleftrightarrow> c = CHR ''{''"
  "code c = 68 \<longleftrightarrow> c = CHR ''D''" "code c = 77 \<longleftrightarrow> c = CHR ''M''"
  using code_inject [of c "CHR ''/''"] code_inject [of c "CHR ''.''"] code_inject [of c "CHR ''{''"]
    code_inject [of c "CHR ''D''"] code_inject [of c "CHR ''M''"] by (simp_all add: codes)

lemma scanned_step:
  assumes "scanned s e"
  shows "scanned (scan_step s (code c)) (e @ [c])"
proof -
  have "s \<in> {0, 1, 2, 3, 4, 5}" using assms by (simp split: if_splits)
  then show ?thesis
    using assms by (elim insertE emptyE; simp add: scan_step_def code_char hd_append; cases e; auto)
qed

lemma scan_elem:
  assumes "scanned s e" and "CHR ''/'' \<notin> set e" and "s = 3 \<and> code (last e) \<noteq> 103 \<or> s = 4 \<and> code (last e) \<noteq> 101"
  shows "plain_elem e \<and> file_elem e"
proof -
  have "e \<noteq> []" "e \<noteq> ''.''" "e \<noteq> ''..''" using assms(1,3) by auto
  moreover have "CHR ''.'' \<in> set e" using assms(1,3) by (cases e) auto
  moreover have "e \<noteq> ''.nise''" "e \<noteq> ''project.inlang''" using assms(1,3) by (auto simp: codes)
  ultimately show ?thesis using assms(2) by (simp add: plain_elem_def file_elem_def)
qed

lemma scan_dir: "scanned 1 e \<Longrightarrow> CHR ''/'' \<notin> set e \<Longrightarrow> plain_elem e \<and> \<not> file_elem e"
  by (auto simp: plain_elem_def file_elem_def)

declare scanned.simps [simp del]

lemma scan_sound:
  assumes "scan s p cs" and "scanned s e" and "CHR ''/'' \<notin> set e" and "e \<noteq> [] \<longrightarrow> p = code (last e)"
  shows "plain_rel (e @ cs) \<and> file_shaped (e @ cs) \<and> CHR ''{'' \<notin> set cs"
  using assms
proof (induction cs arbitrary: e s p)
  case Nil
  then have "e \<noteq> []" by (auto simp: scanned.simps)
  then have "plain_elem e \<and> file_elem e" using Nil scan_elem [of s e] by simp
  then show ?case using Nil.prems(3) by (simp add: plain_rel_def file_shaped_def split_on_no_sep)
next
  case (Cons c cs)
  show ?case
  proof (cases "c = CHR ''/''")
    case True
    have s: "s = 1" "scan 0 47 cs" using Cons.prems(1) True by (auto simp: codes split: if_splits)
    have e: "plain_elem e \<and> \<not> file_elem e" using Cons.prems(2,3) s(1) scan_dir by simp
    have "plain_rel cs \<and> file_shaped cs \<and> CHR ''{'' \<notin> set cs"
      using Cons.IH [OF s(2), of "[]"] by (simp add: scanned.simps)
    moreover have "split_on (CHR ''/'') (e @ c # cs) = e # split_on (CHR ''/'') cs"
      using Cons.prems(3) True by (simp add: split_on_append)
    ultimately show ?thesis using e True by (simp add: plain_rel_def file_shaped_def)
  next
    case False
    have c: "scan (scan_step s (code c)) (code c) cs" "c \<noteq> CHR ''{''"
      using Cons.prems(1) False by (auto simp: code_char codes split: if_splits)
    show ?thesis
      using Cons.IH [OF c(1) scanned_step [OF Cons.prems(2)]] Cons.prems(3) False c(2) by simp
  qed
qed

text \<open>The manifest's paths: literals outside two directories, or one of six with a field.\<close>

definition odd_paths :: "string list" where
  "odd_paths = [''.dockerignore'', ''.env.example'', ''.gitignore'', ''Makefile'', ''deploy/Dockerfile'', ''frontend/.gitignore'',
     ''frontend/project.inlang/settings.json'', ''frontend/static/favicon.svg'']"

lemma odd_shapes:
  "list_all (\<lambda>p. plain_rel p \<and> file_shaped p \<and> CHR ''{'' \<notin> set p \<and>
     \<not> has_prefix p ''cmd/'' \<and> \<not> has_prefix p ''db/migrations/0001'') odd_paths"
  by (simp add: odd_paths_def plain_rel_def plain_elem_def file_shaped_def file_elem_def has_prefix_def)

definition path_shape :: "templateFile \<Rightarrow> bool" where
  "path_shape t \<longleftrightarrow>
     (if scan 0 47 (Output t) then \<not> has_prefix (Output t) ''cmd/'' \<and> \<not> has_prefix (Output t) ''db/migrations/0001''
      else Output t \<in> set odd_paths \<or> (Output t, Module t) \<in>
       {(''cmd/{{.AppName}}/main.go'', []), (''cmd/{{.AppName}}/main_test.go'', []),
        (''db/migrations/{{.NotificationsMigration}}_notifications.sql'', ModuleNotifications),
        (''db/migrations/{{.OrganizationsMigration}}_organizations.sql'', ModuleOrganizations),
        (''db/migrations/{{.TOTPMigration}}_totp.sql'', ModuleTOTP),
        (''db/migrations/{{.UploadsMigration}}_uploads.sql'', ModuleUploads)})"

lemmas shape_simps = path_shape_def scan_step_def tf_def has_prefix_def codes odd_paths_def OpenAPIGeneratedPath_def OpenAPITypescriptGeneratedPath_def

lemma shapes_1: "list_all path_shape templateFiles_1"
  by (simp add: templateFiles_1_def shape_simps)

lemma shapes_2: "list_all path_shape templateFiles_2"
  by (simp add: templateFiles_2_def shape_simps)

lemma shapes_3: "list_all path_shape templateFiles_3"
  by (simp add: templateFiles_3_def shape_simps)

lemma shapes_4: "list_all path_shape templateFiles_4"
  by (simp add: templateFiles_4_def shape_simps)

lemma shapes_5: "list_all path_shape templateFiles_5"
  by (simp add: templateFiles_5_def shape_simps)

lemma shapes_6: "list_all path_shape templateFiles_6"
  by (simp add: templateFiles_6_def shape_simps)

lemma shapes_7: "list_all path_shape templateFiles_7"
  by (simp add: templateFiles_7_def shape_simps)

lemma shapes_8: "list_all path_shape templateFiles_8"
  by (simp add: templateFiles_8_def shape_simps)

lemma shapes_9: "list_all path_shape templateFiles_9"
  by (simp add: templateFiles_9_def shape_simps)

lemma shapes_10: "list_all path_shape templateFiles_10"
  by (simp add: templateFiles_10_def shape_simps)

lemma shapes_11: "list_all path_shape templateFiles_11"
  by (simp add: templateFiles_11_def shape_simps)

lemma scan_literal: "scan 0 47 p \<Longrightarrow> plain_rel p \<and> file_shaped p \<and> CHR ''{'' \<notin> set p"
  using scan_sound [of 0 47 p "[]"] by (simp add: scanned.simps)

lemma shapes: "t \<in> set templateFiles \<Longrightarrow> path_shape t"
  using shapes_1 shapes_2 shapes_3 shapes_4 shapes_5 shapes_6 shapes_7 shapes_8 shapes_9 shapes_10 shapes_11
  unfolding templateFiles_def list_all_iff by (elim Un_iff [THEN iffD1, elim_format] disjE | simp)+

lemma path_shape_cases:
  assumes "path_shape t"
  obtains
    (literal) "CHR ''{'' \<notin> set (Output t)" "\<not> has_prefix (Output t) ''cmd/''" "\<not> has_prefix (Output t) ''db/migrations/0001''"
      "plain_rel (Output t)" "file_shaped (Output t)"
  | (six) "(Output t, Module t) \<in>
       {(''cmd/{{.AppName}}/main.go'', []), (''cmd/{{.AppName}}/main_test.go'', []),
        (''db/migrations/{{.NotificationsMigration}}_notifications.sql'', ModuleNotifications),
        (''db/migrations/{{.OrganizationsMigration}}_organizations.sql'', ModuleOrganizations),
        (''db/migrations/{{.TOTPMigration}}_totp.sql'', ModuleTOTP),
        (''db/migrations/{{.UploadsMigration}}_uploads.sql'', ModuleUploads)}"
proof (cases "scan 0 47 (Output t)")
  case True
  then show ?thesis using assms scan_literal [OF True] literal unfolding path_shape_def if_P [OF True] by blast
next
  case False
  show ?thesis
  proof (cases "Output t \<in> set odd_paths")
    case True
    then show ?thesis using odd_shapes literal unfolding list_all_iff by blast
  next
    case odd: False
    show ?thesis by (rule six) (use assms False odd in \<open>simp only: path_shape_def if_False simp_thms\<close>)
  qed
qed

section \<open>Planning succeeds\<close>

lemma migration_selected:
  assumes "sel m" and "m \<in> set modulesWithMigrations"
  shows "\<exists>c. migration_of (moduleMigrationVersions sel) m = ''0001'' @ [c]"
proof -
  have "pad5 10 = ''00010''" "pad5 11 = ''00011''" "pad5 12 = ''00012''" "pad5 13 = ''00013''" by code_simp+
  then show ?thesis
    using assms
    by (cases "sel ModuleNotifications"; cases "sel ModuleOrganizations"; cases "sel ModuleTOTP")
      (auto simp: migration_of_def moduleMigrationVersions_def modulesWithMigrations_def coreMigrations_def module_defs)
qed

lemma migration_no_slash: "migration_of (moduleMigrationVersions sel) m \<noteq> ''0001/''"
proof -
  have "CHR ''/'' \<notin> set (pad5 k)" for k
    using show_nat_digits [of k] by (auto simp: pad5_def list_all_iff char_class_defs)
  moreover have "map_of (number_modules sel k ms) m = Some v \<Longrightarrow> \<exists>j. v = pad5 j" for k ms v
    by (induction ms arbitrary: k) (auto split: if_splits)
  ultimately show ?thesis
    unfolding migration_of_def moduleMigrationVersions_def
    by (auto split: option.splits dest!: sym [of "''0001/''"]) (metis list.set_intros(1) set_append Un_iff append_Cons append_Nil list.set_intros(2))
qed

text \<open>The path of a selected template under the data of normalized options.\<close>

definition out_path :: "Options \<Rightarrow> templateFile \<Rightarrow> string" where
  "out_path n t = the (fill (newTemplateData n) (Output t))"

definition is_selected :: "Options \<Rightarrow> templateFile \<Rightarrow> bool" where
  "is_selected n t \<longleftrightarrow> Module t = [] \<or> Module t \<in> set (O_Modules n)"

lemma template_fields:
  "map_of (newTemplateData n) ''AppName'' = Some (TStr (O_Name n))"
  "map_of (newTemplateData n) ''NotificationsMigration'' =
     Some (TStr (migration_of (moduleMigrationVersions (\<lambda>m. m \<in> set (O_Modules n))) ModuleNotifications))"
  "map_of (newTemplateData n) ''OrganizationsMigration'' =
     Some (TStr (migration_of (moduleMigrationVersions (\<lambda>m. m \<in> set (O_Modules n))) ModuleOrganizations))"
  "map_of (newTemplateData n) ''TOTPMigration'' =
     Some (TStr (migration_of (moduleMigrationVersions (\<lambda>m. m \<in> set (O_Modules n))) ModuleTOTP))"
  "map_of (newTemplateData n) ''UploadsMigration'' =
     Some (TStr (migration_of (moduleMigrationVersions (\<lambda>m. m \<in> set (O_Modules n))) ModuleUploads))"
  by (simp_all add: newTemplateData_def Let_def)

lemma fill_prefix: "CHR ''{'' \<notin> set p \<Longrightarrow> fill d (p @ s) = map_option ((@) p) (fill d s)"
  by (induction p; cases "fill d s") (auto simp: fill_char)

lemma fill_path:
  assumes "CHR ''{'' \<notin> set p" "CHR ''}'' \<notin> set name" "map_of d name = Some (TStr v)" "CHR ''{'' \<notin> set rest"
  shows "fill d (p @ ''{{.'' @ name @ ''}}'' @ rest) = Some (p @ v @ rest)"
  using fill_prefix [OF assms(1)] fill_field [OF assms(2-4)] by simp

text \<open>What each of the six filled paths is.\<close>

lemma fill_six:
  "fill (newTemplateData n) ''cmd/{{.AppName}}/main.go'' = Some (''cmd/'' @ O_Name n @ ''/main.go'')"
  "fill (newTemplateData n) ''cmd/{{.AppName}}/main_test.go'' = Some (''cmd/'' @ O_Name n @ ''/main_test.go'')"
  "fill (newTemplateData n) ''db/migrations/{{.NotificationsMigration}}_notifications.sql'' =
     Some (''db/migrations/'' @ migration_of (moduleMigrationVersions (\<lambda>m. m \<in> set (O_Modules n))) ModuleNotifications @ ''_notifications.sql'')"
  "fill (newTemplateData n) ''db/migrations/{{.OrganizationsMigration}}_organizations.sql'' =
     Some (''db/migrations/'' @ migration_of (moduleMigrationVersions (\<lambda>m. m \<in> set (O_Modules n))) ModuleOrganizations @ ''_organizations.sql'')"
  "fill (newTemplateData n) ''db/migrations/{{.TOTPMigration}}_totp.sql'' =
     Some (''db/migrations/'' @ migration_of (moduleMigrationVersions (\<lambda>m. m \<in> set (O_Modules n))) ModuleTOTP @ ''_totp.sql'')"
  "fill (newTemplateData n) ''db/migrations/{{.UploadsMigration}}_uploads.sql'' =
     Some (''db/migrations/'' @ migration_of (moduleMigrationVersions (\<lambda>m. m \<in> set (O_Modules n))) ModuleUploads @ ''_uploads.sql'')"
  using fill_path [of "''cmd/''" "''AppName''", OF _ _ template_fields(1) [of n], of "''/main.go''"]
    fill_path [of "''cmd/''" "''AppName''", OF _ _ template_fields(1) [of n], of "''/main_test.go''"]
    fill_path [of "''db/migrations/''" "''NotificationsMigration''", OF _ _ template_fields(2) [of n], of "''_notifications.sql''"]
    fill_path [of "''db/migrations/''" "''OrganizationsMigration''", OF _ _ template_fields(3) [of n], of "''_organizations.sql''"]
    fill_path [of "''db/migrations/''" "''TOTPMigration''", OF _ _ template_fields(4) [of n], of "''_totp.sql''"]
    fill_path [of "''db/migrations/''" "''UploadsMigration''", OF _ _ template_fields(5) [of n], of "''_uploads.sql''"]
  by simp_all

text \<open>The shape of a selected template's path, with its template text.\<close>

lemma out_path_cases:
  assumes "t \<in> set templateFiles" and "is_selected n t"
  obtains (lit) "fill (newTemplateData n) (Output t) = Some (Output t)"
      "\<not> has_prefix (Output t) ''cmd/''" "\<not> has_prefix (Output t) ''db/migrations/0001''" "plain_rel (Output t)" "file_shaped (Output t)"
  | (main) f where "fill (newTemplateData n) (Output t) = Some (''cmd/'' @ O_Name n @ f)"
      "Output t = ''cmd/{{.AppName}}'' @ f" "f \<in> {''/main.go'', ''/main_test.go''}"
  | (migr) c f where "fill (newTemplateData n) (Output t) = Some (''db/migrations/0001'' @ [c] @ f)"
      "(f, Output t) \<in> {(''_notifications.sql'', ''db/migrations/{{.NotificationsMigration}}_notifications.sql''),
         (''_organizations.sql'', ''db/migrations/{{.OrganizationsMigration}}_organizations.sql''),
         (''_totp.sql'', ''db/migrations/{{.TOTPMigration}}_totp.sql''), (''_uploads.sql'', ''db/migrations/{{.UploadsMigration}}_uploads.sql'')}"
proof -
  let ?sel = "\<lambda>m. m \<in> set (O_Modules n)"
  have mods: "ModuleNotifications \<in> set modulesWithMigrations" "ModuleOrganizations \<in> set modulesWithMigrations"
    "ModuleTOTP \<in> set modulesWithMigrations" "ModuleUploads \<in> set modulesWithMigrations"
    by (simp_all add: modulesWithMigrations_def)
  have ne: "ModuleNotifications \<noteq> []" "ModuleOrganizations \<noteq> []" "ModuleTOTP \<noteq> []" "ModuleUploads \<noteq> []"
    by (simp_all add: module_defs)
  note ver = migration_selected [of ?sel, OF _ mods(1)] migration_selected [of ?sel, OF _ mods(2)]
    migration_selected [of ?sel, OF _ mods(3)] migration_selected [of ?sel, OF _ mods(4)]
  show ?thesis
    using shapes [OF assms(1)]
  proof (cases rule: path_shape_cases)
    case literal
    then show ?thesis using fill_literal lit by blast
  next
    case six
    show ?thesis
      using six
    proof (elim insertE emptyE)
      assume "(Output t, Module t) = (''cmd/{{.AppName}}/main.go'', [])"
      then show ?thesis using main [of "''/main.go''"] fill_six(1) [of n] by simp
    next
      assume "(Output t, Module t) = (''cmd/{{.AppName}}/main_test.go'', [])"
      then show ?thesis using main [of "''/main_test.go''"] fill_six(2) [of n] by simp
    next
      assume a: "(Output t, Module t) = (''db/migrations/{{.NotificationsMigration}}_notifications.sql'', ModuleNotifications)"
      then obtain c where "migration_of (moduleMigrationVersions ?sel) ModuleNotifications = ''0001'' @ [c]"
        using ver(1) assms(2) ne by (auto simp: is_selected_def)
      then show ?thesis using a migr [of c "''_notifications.sql''"] fill_six(3) [of n] by simp
    next
      assume a: "(Output t, Module t) = (''db/migrations/{{.OrganizationsMigration}}_organizations.sql'', ModuleOrganizations)"
      then obtain c where "migration_of (moduleMigrationVersions ?sel) ModuleOrganizations = ''0001'' @ [c]"
        using ver(2) assms(2) ne by (auto simp: is_selected_def)
      then show ?thesis using a migr [of c "''_organizations.sql''"] fill_six(4) [of n] by simp
    next
      assume a: "(Output t, Module t) = (''db/migrations/{{.TOTPMigration}}_totp.sql'', ModuleTOTP)"
      then obtain c where "migration_of (moduleMigrationVersions ?sel) ModuleTOTP = ''0001'' @ [c]"
        using ver(3) assms(2) ne by (auto simp: is_selected_def)
      then show ?thesis using a migr [of c "''_totp.sql''"] fill_six(5) [of n] by simp
    next
      assume a: "(Output t, Module t) = (''db/migrations/{{.UploadsMigration}}_uploads.sql'', ModuleUploads)"
      then obtain c where "migration_of (moduleMigrationVersions ?sel) ModuleUploads = ''0001'' @ [c]"
        using ver(4) assms(2) ne by (auto simp: is_selected_def)
      then show ?thesis using a migr [of c "''_uploads.sql''"] fill_six(6) [of n] by simp
    qed
  qed
qed

lemma has_prefix_same [simp]: "has_prefix (p @ s) p"
  by (simp add: has_prefix_def)

lemma migr_prefix: "has_prefix (''db/migrations/0001'' @ s) ''db/migrations/0001''"
  by (rule has_prefix_append)

lemma cmd_prefix: "has_prefix (''cmd/'' @ s) ''cmd/''"
  by (rule has_prefix_append)

lemma out_path_inj:
  assumes t: "t \<in> set templateFiles" "is_selected n t" and u: "u \<in> set templateFiles" "is_selected n u"
    and eq: "out_path n t = out_path n u"
  shows "t = u"
proof -
  have "Output t = Output u"
    using t
  proof (cases rule: out_path_cases)
    case tl: lit
    show ?thesis
      using u
    proof (cases rule: out_path_cases)
      case lit
      then show ?thesis using tl eq by (simp add: out_path_def)
    next
      case (main f)
      then have "Output t = ''cmd/'' @ (O_Name n @ f)" using tl eq by (simp add: out_path_def)
      then show ?thesis using tl(2) cmd_prefix by metis
    next
      case (migr c f)
      then have "Output t = ''db/migrations/0001'' @ ([c] @ f)" using tl eq by (simp add: out_path_def)
      then show ?thesis using tl(3) migr_prefix by metis
    qed
  next
    case tm: (main f)
    show ?thesis
      using u
    proof (cases rule: out_path_cases)
      case lit
      then have "Output u = ''cmd/'' @ (O_Name n @ f)" using tm eq by (simp add: out_path_def)
      then show ?thesis using lit(2) cmd_prefix by metis
    next
      case (main g)
      then show ?thesis using tm eq by (simp add: out_path_def)
    next
      case (migr c g)
      then show ?thesis using tm eq by (simp add: out_path_def)
    qed
  next
    case tg: (migr c f)
    show ?thesis
      using u
    proof (cases rule: out_path_cases)
      case lit
      then have "Output u = ''db/migrations/0001'' @ ([c] @ f)" using tg eq by (simp add: out_path_def)
      then show ?thesis using lit(3) migr_prefix by metis
    next
      case (main g)
      then show ?thesis using tg eq by (simp add: out_path_def)
    next
      case (migr e g)
      then have "f = g" using tg eq by (simp add: out_path_def)
      then show ?thesis using tg(2) migr(2) by auto
    qed
  qed
  then show ?thesis using Output_inj t(1) u(1) by blast
qed

lemma out_path_not_own:
  assumes "t \<in> set templateFiles" and "is_selected n t"
  shows "out_path n t \<notin> set own_paths"
  using assms
proof (cases rule: out_path_cases)
  case lit
  then show ?thesis using outputs_distinct assms(1) by (auto simp: out_path_def)
qed (simp_all add: out_path_def own_paths_def)

text \<open>Every path is plain, with no empty and no dot elements, and shaped like a file.\<close>

lemma plain_name_elem: "plain_name s \<Longrightarrow> plain_elem s"
proof -
  assume p: "plain_name s"
  then have "list_all (\<lambda>c. c = CHR ''-'' \<or> name_char c) s" using name_shape_chars by (simp add: plain_name_def)
  from name_chars_plain [OF this] p show ?thesis by (auto simp: plain_elem_def plain_name_def)
qed

lemma file_shaped_join:
  assumes "\<forall>e\<in>set es. plain_elem e" and "plain_elem f" and "file_elem f" and "\<forall>e\<in>set es. \<not> file_elem e"
  shows "file_shaped (join ''/'' (es @ [f]))"
  using assms split_join_plain [of "es @ [f]"] by (simp add: file_shaped_def list_all_iff)

lemma plain_name_dir: "plain_name s \<Longrightarrow> \<not> file_elem s"
proof -
  assume p: "plain_name s"
  then have c: "list_all (\<lambda>c. c = CHR ''-'' \<or> name_char c) s" using name_shape_chars by (simp add: plain_name_def)
  have "s \<noteq> ''Dockerfile''" "s \<noteq> ''Makefile''" using c by (auto simp: name_char_def char_class_defs)
  then show ?thesis using name_chars_plain(4) [OF c] by (simp add: file_elem_def)
qed

lemma out_path_plain:
  assumes "t \<in> set templateFiles" and "is_selected n t" and "plain_name (O_Name n)"
  shows "plain_rel (out_path n t) \<and> file_shaped (out_path n t)"
  using assms(1,2)
proof (cases rule: out_path_cases)
  case lit
  then show ?thesis by (simp add: out_path_def)
next
  case (main f)
  then obtain g where f: "f = ''/'' @ g" "g \<in> {''main.go'', ''main_test.go''}" by auto
  have g: "plain_elem g" "file_elem g" using f(2) by (elim insertE emptyE; simp add: plain_elem_def file_elem_def)+
  have cmd: "plain_elem ''cmd''" "\<not> file_elem ''cmd''" by (simp_all add: plain_elem_def file_elem_def)
  note name = plain_name_elem [OF assms(3)] plain_name_dir [OF assms(3)]
  have "plain_rel (join ''/'' [''cmd'', O_Name n, g])"
    using g(1) cmd(1) name(1) by (intro plain_rel_join) simp_all
  moreover have "file_shaped (join ''/'' ([''cmd'', O_Name n] @ [g]))"
    using g cmd name by (intro file_shaped_join) simp_all
  ultimately show ?thesis using main(1) f(1) by (simp add: out_path_def)
next
  case (migr c f)
  have "c \<noteq> CHR ''/''"
  proof -
    have "migration_of (moduleMigrationVersions (\<lambda>m. m \<in> set (O_Modules n))) m \<noteq> ''0001/''" for m
      using migration_no_slash by metis
    then show ?thesis using migr fill_six(3-6) [of n] by auto
  qed
  moreover have "CHR ''/'' \<notin> set f" using migr(2) by auto
  moreover have "CHR ''.'' \<in> set f" using migr(2) by auto
  ultimately have g: "plain_elem (''0001'' @ c # f)" "file_elem (''0001'' @ c # f)"
    by (simp_all add: plain_elem_def file_elem_def)
  have dirs: "plain_elem ''db''" "plain_elem ''migrations''" "\<not> file_elem ''db''" "\<not> file_elem ''migrations''"
    by (simp_all add: plain_elem_def file_elem_def)
  have "plain_rel (join ''/'' [''db'', ''migrations'', ''0001'' @ c # f])"
    using g(1) dirs(1,2) by (intro plain_rel_join) (simp_all del: append.simps)
  moreover have "file_shaped (join ''/'' ([''db'', ''migrations''] @ [''0001'' @ c # f]))"
    using g dirs by (intro file_shaped_join) simp_all
  ultimately show ?thesis using migr(1) by (simp add: out_path_def)
qed

text \<open>What a rendering has to provide: every template is embedded and every one that is not raw renders.\<close>

definition templates_render :: "engine \<Rightarrow> embedded \<Rightarrow> templateData \<Rightarrow> bool" where
  "templates_render eng emb d \<longleftrightarrow>
     list_all (\<lambda>t. case emb (''new/'' @ Template t) of
                     None \<Rightarrow> False
                   | Some src \<Rightarrow> Raw t \<or> eng (Template t) src d \<noteq> None) templateFiles"

lemma render_file_ok:
  assumes "field_engine eng" and "templates_render eng emb (newTemplateData n)" and "t \<in> set templateFiles" "is_selected n t"
  shows "\<exists>f. render_file eng emb (newTemplateData n) t = Inr f \<and> Path f = out_path n t"
proof -
  obtain p where "fill (newTemplateData n) (Output t) = Some p"
    using assms(3,4) by (cases rule: out_path_cases) auto
  then show ?thesis
    using assms(1,2,3)
    by (auto simp: render_file_def render_def renderString_def templates_render_def list_all_iff field_engine_def
        out_path_def templateRoot_def split: option.splits)
qed

lemma render_all_ok:
  assumes "\<forall>t\<in>set ts. is_selected n t \<longrightarrow> (\<exists>f. render_file eng emb (newTemplateData n) t = Inr f \<and> Path f = out_path n t)"
  shows "\<exists>fs. render_all eng emb (\<lambda>m. m \<in> set (O_Modules n)) (newTemplateData n) ts = Inr fs \<and>
           map Path fs = map (out_path n) (filter (is_selected n) ts)"
  using assms by (induction ts) (auto simp: is_selected_def)

lemma adjacent_distinct: "distinct (map Path fs) \<Longrightarrow> adjacent_duplicate (sort_key Path fs) = None"
proof -
  assume d: "distinct (map Path fs)"
  then have "distinct (map Path (sort_key Path fs))" by (simp add: distinct_map)
  moreover have "sorted (map Path (sort_key Path fs))" by simp
  ultimately have "sorted_wrt (<) (map Path (sort_key Path fs))" by (simp add: strict_sorted_iff)
  then show ?thesis using adjacent_duplicate_None by (metis sorted_sort_key)
qed

lemma selected_paths_distinct: "distinct (own_paths @ map (out_path n) (filter (is_selected n) templateFiles))"
proof -
  have "distinct templateFiles" using outputs_distinct by (auto simp: distinct_map)
  moreover have "inj_on (out_path n) (set (filter (is_selected n) templateFiles))"
    using out_path_inj by (auto simp: inj_on_def)
  ultimately have "distinct (map (out_path n) (filter (is_selected n) templateFiles))"
    by (simp add: distinct_map)
  moreover have "distinct own_paths" by (simp add: own_paths_def)
  ultimately show ?thesis using out_path_not_own by auto
qed

lemma Plan_succeeds:
  assumes eng: "field_engine eng" and n: "Options_normalize o1 = Inr n" and r: "Options_Recipe o1 = Inr r"
    and tr: "templates_render eng emb (newTemplateData n)"
  shows "\<exists>files. Plan eng emb o1 = Inr files \<and>
           set (map Path files) = set own_paths \<union> out_path n ` {t \<in> set templateFiles. is_selected n t}"
proof -
  have r': "Options_Recipe n = Inr r"
    using r n normalize_fixed [OF normalize_ok [OF n]] by (simp add: Options_Recipe_def)
  then have "Validate r = None" by (auto simp: Options_Recipe_def Let_def split: sum.splits option.splits)
  then obtain d where d: "Marshal r = Inr d" using Marshal_ok Validate_None by blast
  obtain fs where fs: "render_all eng emb (\<lambda>m. m \<in> set (O_Modules n)) (newTemplateData n) templateFiles = Inr fs"
    and paths: "map Path fs = map (out_path n) (filter (is_selected n) templateFiles)"
    using render_all_ok [of templateFiles n eng emb] render_file_ok [OF eng tr] by blast
  let ?own = "[\<lparr>Path = FileName, Content = d, FOwner = OwnerNise\<rparr>,
       \<lparr>Path = AgentsFileName, Content = AgentsMD (Generate r), FOwner = OwnerNise\<rparr>,
       \<lparr>Path = architecture_path, Content = Architecture (Generate r), FOwner = OwnerNise\<rparr>]"
  have own: "map Path ?own = own_paths"
    by (simp add: own_paths_def FileName_def AgentsFileName_def architecture_path_def ArchitectureDir_def ArchitectureFileName_def)
  have "distinct (map Path (?own @ fs))" using selected_paths_distinct paths own by (simp only: map_append)
  from adjacent_distinct [OF this] have "Plan eng emb o1 = Inr (sort_key Path (?own @ fs))"
    using n r' d fs unfolding Plan_def Let_def by (simp del: sort_key_simps append.simps)
  moreover have "set (map Path (sort_key Path (?own @ fs))) = set (map Path (?own @ fs))" by (simp only: set_map set_sort)
  moreover have "set (map Path (?own @ fs)) = set own_paths \<union> out_path n ` {t \<in> set templateFiles. is_selected n t}"
    unfolding map_append own paths by auto
  ultimately show ?thesis by blast
qed

lemma Plan_facts:
  assumes "Plan eng emb o1 = Inr files"
  shows "sorted_wrt (<) (map Path files) \<and>
    (\<exists>f r. f \<in> set files \<and> Path f = ''nise.json'' \<and> FOwner f = OwnerNise \<and>
       Options_Recipe o1 = Inr r \<and> Unmarshal (Content f) = Inr (r\<lparr>modules := sort (modules r)\<rparr>))"
proof -
  from assms obtain n r d rendered where
    n: "Options_normalize o1 = Inr n" and r: "Options_Recipe n = Inr r" and d: "Marshal r = Inr d" and
    files: "files = sort_key Path ([\<lparr>Path = FileName, Content = d, FOwner = OwnerNise\<rparr>,
       \<lparr>Path = AgentsFileName, Content = AgentsMD (Generate r), FOwner = OwnerNise\<rparr>,
       \<lparr>Path = architecture_path, Content = Architecture (Generate r), FOwner = OwnerNise\<rparr>] @ rendered)" and
    dup: "adjacent_duplicate files = None"
    by (auto simp: Plan_def Let_def split: sum.splits option.splits)
  have "sorted (map Path files)" unfolding files by (rule sorted_sort_key)
  then have "sorted_wrt (<) (map Path files)" using dup adjacent_duplicate_None by blast
  moreover have "Options_Recipe o1 = Inr r"
    using r n normalize_fixed [OF normalize_ok [OF n]] by (simp add: Options_Recipe_def)
  moreover have "\<lparr>Path = FileName, Content = d, FOwner = OwnerNise\<rparr> \<in> set files" by (simp add: files del: sort_key_simps)
  ultimately show ?thesis
    using Unmarshal_Marshal [OF d] by (force simp: FileName_def)
qed

text \<open>
  A plan lists its files in strictly ascending path order, so no path is written twice and the order is
  the same on every machine; and it always contains the recipe, as Nise-owned bytes that decode to the
  recipe of the normalized options.
\<close>

theorem Plan_sorted:
  assumes "Plan eng emb o1 = Inr files"
  shows "sorted_wrt (<) (map Path files) \<and>
    (\<exists>f r. f \<in> set files \<and> Path f = ''nise.json'' \<and> FOwner f = OwnerNise \<and>
       Options_Recipe o1 = Inr r \<and> Unmarshal (Content f) = Inr (r\<lparr>modules := sort (modules r)\<rparr>))"
  using assms by (rule Plan_facts)

text \<open>An engine for concrete runs: it fills what it can and copies the rest.\<close>

definition fill_engine :: engine where
  "fill_engine name src d = (case fill d src of Some out \<Rightarrow> Some out | None \<Rightarrow> Some src)"

definition sample_options :: Options where
  "sample_options =
     \<lparr>O_Name = ''shop'', O_ModulePath = [], O_Profile = [], O_Modules = [''totp''], O_CLIVersion = ''dev'', O_RuntimeVersion = []\<rparr>"

definition sample_normalized :: Options where
  "sample_normalized =
     \<lparr>O_Name = ''shop'', O_ModulePath = ''shop'', O_Profile = ''go-chi-postgres-svelte'', O_Modules = [''totp''],
      O_CLIVersion = ''dev'', O_RuntimeVersion = ''v0.1.0''\<rparr>"

lemma shop_plain: "plain_name ''shop''"
  by (simp add: plain_name_def goKeywords_def windowsDeviceNames_def name_char_def char_class_defs)

lemma sample_normalize: "Options_normalize sample_options = Inr sample_normalized"
  using ValidateName_plain [OF shop_plain] plain_name_path [OF shop_plain] ValidateModulePath_iff [of "''shop''"]
  by (simp add: Let_def Options_normalize_def sample_options_def sample_normalized_def ProfileGoChiPostgresSvelte_def NiseModuleVersion_def)

lemma sample_Recipe: "\<exists>r. Options_Recipe sample_options = Inr r"
proof -
  have "Validate \<lparr>schemaVersion = SchemaVersion, profile = ''go-chi-postgres-svelte'', modules = [''totp''],
      cliVersion = ''dev'', runtimeVersion = ''v0.1.0''\<rparr> = None"
    by (simp add: Validate_None recipe_ok_def SchemaVersion_def module_defs version_ok_def code_def)
  then show ?thesis by (simp add: Options_Recipe_def sample_normalize sample_normalized_def)
qed

lemma fill_engine_ok: "field_engine fill_engine" "templates_render fill_engine (\<lambda>_. Some src) d"
  by (auto simp: field_engine_def templates_render_def fill_engine_def list_all_iff split: option.splits)

theorem Plan_sorted_witness:
  "\<exists>files. Plan fill_engine (\<lambda>_. Some ''x'') sample_options = Inr files \<and> sorted_wrt (<) (map Path files)"
proof -
  obtain r where r: "Options_Recipe sample_options = Inr r" using sample_Recipe by blast
  obtain files where "Plan fill_engine (\<lambda>_. Some ''x'') sample_options = Inr files"
    using Plan_succeeds [OF fill_engine_ok(1) sample_normalize r fill_engine_ok(2)] by blast
  with Plan_sorted [OF this] show ?thesis by blast
qed

text \<open>
  C36: Planning a project succeeds for every valid name, module path and module selection, given that the
  templates render: no two of the manifest's templates ever write the same path, whatever the application
  is called and whichever modules it has, and the plan's paths are exactly those of the core templates,
  the selected modules' templates and the three files the tool derives from the recipe.
\<close>

theorem Plan_total:
  assumes "field_engine eng" and "Options_normalize o1 = Inr n" and "Options_Recipe o1 = Inr r"
    and "templates_render eng emb (newTemplateData n)"
  shows "\<exists>files. Plan eng emb o1 = Inr files \<and>
    set (map Path files) = set own_paths \<union> out_path n ` {t \<in> set templateFiles. Module t = [] \<or> Module t \<in> set (O_Modules n)}"
  using Plan_succeeds [OF assms] by (simp add: is_selected_def)

theorem Plan_total_witness:
  "\<exists>files. Plan fill_engine (\<lambda>_. Some ''x'') sample_options = Inr files \<and>
     set (map Path files) = set own_paths \<union> out_path sample_normalized ` {t \<in> set templateFiles. Module t = [] \<or> Module t = ''totp''}"
proof -
  obtain r where "Options_Recipe sample_options = Inr r" using sample_Recipe by blast
  from Plan_total [OF fill_engine_ok(1) sample_normalize this fill_engine_ok(2), of "''x''"]
  show ?thesis by (simp add: sample_normalized_def)
qed

text \<open>The table is not in path order, although its comment and the comment of \<open>TemplatePaths\<close> say so.\<close>

lemma templates_unsorted: "\<not> sorted TemplatePaths"
proof
  assume "sorted TemplatePaths"
  then have "sorted (map Template templateFiles_1)"
    unfolding TemplatePaths_def templateFiles_def by (simp add: sorted_append)
  then have "sorted (drop 3 (take 5 (map Template templateFiles_1)))"
    by (intro sorted_wrt_drop sorted_wrt_take)
  then show False by (simp add: templateFiles_1_def tf_def less_eq_list_code less_char_def)
qed

end
