(* ===== verification/Generator_Write.thy ===== *)
theory Generator_Write
  imports Generator_Laws
begin

text \<open>
  Writing a planned project, from \<open>internal/generator/write.go\<close>: the emptiness check of the target, the
  directories the plan needs, the writes with their forced modes, and the result.  \<open>ents\<close> is what reading
  the target directory gives: the name of every entry and whether it is a directory.
\<close>

section \<open>Directories\<close>

definition FileMode :: mode where "FileMode = 0x1A4"
definition DirMode :: mode where "DirMode = 0x1ED"

text \<open>
  The walk from a file's directory upward; it stops at a directory already seen.  The bound is the length
  of the path, which has more bytes than elements.
\<close>

fun collect_dirs :: "nat \<Rightarrow> string \<Rightarrow> string list \<Rightarrow> string list" where
  "collect_dirs 0 dir ds = ds"
| "collect_dirs (Suc n) dir ds =
     (if dir = ''.'' \<or> dir = ''/'' then ds
      else if dir \<in> set ds then ds
      else collect_dirs n (Dir dir) (ds @ [dir]))"

definition planDirectories :: "File list \<Rightarrow> string list" where
  "planDirectories files = sort (foldl (\<lambda>ds f. collect_dirs (length (Path f)) (Dir (Path f)) ds) [] files)"

definition makeDir :: "env \<Rightarrow> string \<Rightarrow> tree \<Rightarrow> io_error option \<times> tree" where
  "makeDir e dir t =
     (case mkdir_all e dir DirMode t of
        Inl x \<Rightarrow> (Some x, t)
      | Inr t1 \<Rightarrow> (case chmod e dir DirMode t1 of Inl x \<Rightarrow> (Some x, t1) | Inr t2 \<Rightarrow> (None, t2)))"

fun make_dirs :: "env \<Rightarrow> string list \<Rightarrow> tree \<Rightarrow> io_error option \<times> tree" where
  "make_dirs e [] t = (None, t)"
| "make_dirs e (d # ds) t =
     (case makeDir e d t of (Some x, t1) \<Rightarrow> (Some x, t1) | (None, t1) \<Rightarrow> make_dirs e ds t1)"

section \<open>The target\<close>

definition maxListedEntries :: nat where "maxListedEntries = 10"

datatype write_error =
    Plan_failed plan_error
  | TargetNotEmpty "string list" nat
  | TargetNotDirectory
  | Io io_error

definition checkTargetEmpty :: "env \<Rightarrow> (string \<times> bool) list \<Rightarrow> tree \<Rightarrow> write_error option" where
  "checkTargetEmpty e ents t =
     (case t ''.'' of
        None \<Rightarrow> None
      | Some node \<Rightarrow>
          if \<not> carried e (Stat ''.'') then Some (Io (Failed (Stat ''.'')))
          else
            (case node of
               FileN _ _ \<Rightarrow> Some TargetNotDirectory
             | DirN _ \<Rightarrow>
                 if \<not> carried e (Read_dir ''.'') then Some (Io (Failed (Read_dir ''.'')))
                 else if ents = [] then None
                 else
                   (let names = sort (map (\<lambda>(name, dir). if dir then name @ ''/'' else name) ents) in
                    Some (TargetNotEmpty (take maxListedEntries names) (length names - maxListedEntries)))))"

section \<open>Writing\<close>

definition write_one :: "env \<Rightarrow> File \<Rightarrow> tree \<Rightarrow> io_error option \<times> tree" where
  "write_one e f t =
     (case write_file e (Path f) (Content f) FileMode t of
        Inl x \<Rightarrow> (Some x, t)
      | Inr t1 \<Rightarrow> (case chmod e (Path f) FileMode t1 of Inl x \<Rightarrow> (Some x, t1) | Inr t2 \<Rightarrow> (None, t2)))"

fun write_all :: "env \<Rightarrow> File list \<Rightarrow> tree \<Rightarrow> io_error option \<times> tree" where
  "write_all e [] t = (None, t)"
| "write_all e (f # fs) t =
     (case write_one e f t of (Some x, t1) \<Rightarrow> (Some x, t1) | (None, t1) \<Rightarrow> write_all e fs t1)"

definition ReplacePathPlaceholder :: string where "ReplacePathPlaceholder = ''/path/to/your/nise-and-go''"

definition NextCommands :: "string \<Rightarrow> string list" where
  "NextCommands name =
     [''cd '' @ name,
      ''go mod edit -replace '' @ NiseModulePath @ ''='' @ ReplacePathPlaceholder,
      ''go mod tidy'',
      ''pnpm --dir frontend install'',
      ''pnpm --dir frontend build'',
      ''go run ./cmd/'' @ name]"

definition Notes :: "string list" where
  "Notes =
     [''Pre-release: '' @ NiseModulePath @ '' '' @ NiseModuleVersion @ '' is not published yet,'',
      ''so `go mod tidy` cannot resolve it without the replace directive above.'',
      ''Point it at a local checkout of the framework. Once '' @ NiseModuleVersion @ '' is'',
      ''tagged and on the module proxy, drop that command and delete the replace'',
      ''line it wrote into go.mod.'']"

record Result =
  R_Name :: string
  R_ModulePath :: string
  R_Profile :: string
  R_Modules :: "string list"
  R_Files :: "string list"
  R_NextCommands :: "string list"
  R_Notes :: "string list"

definition Write :: "engine \<Rightarrow> embedded \<Rightarrow> env \<Rightarrow> (string \<times> bool) list \<Rightarrow> Options \<Rightarrow> tree \<Rightarrow> (write_error + Result) \<times> tree" where
  "Write eng emb e ents o1 t =
     (case Options_normalize o1 of
        Inl x \<Rightarrow> (Inl (Plan_failed x), t)
      | Inr n \<Rightarrow>
          (case Plan eng emb n of
             Inl x \<Rightarrow> (Inl (Plan_failed x), t)
           | Inr files \<Rightarrow>
               (case checkTargetEmpty e ents t of
                  Some x \<Rightarrow> (Inl x, t)
                | None \<Rightarrow>
                    (case make_dirs e (''.'' # planDirectories files) t of
                       (Some x, t1) \<Rightarrow> (Inl (Io x), t1)
                     | (None, t1) \<Rightarrow>
                         (case write_all e files t1 of
                            (Some x, t2) \<Rightarrow> (Inl (Io x), t2)
                          | (None, t2) \<Rightarrow>
                              (Inr \<lparr>R_Name = O_Name n, R_ModulePath = O_ModulePath n, R_Profile = O_Profile n,
                                    R_Modules = O_Modules n, R_Files = map Path files,
                                    R_NextCommands = NextCommands (O_Name n), R_Notes = Notes\<rparr>, t2))))))"

section \<open>The directories a plan needs\<close>

text \<open>A path's elements cut shorter and shorter, the whole first.\<close>

fun downs :: "string list \<Rightarrow> string list list" where
  "downs es = (if es = [] then [] else es # downs (butlast es))"

declare downs.simps [simp del]

lemma downs_Nil [simp]: "downs [] = []"
  by (simp add: downs.simps)

lemma downs_snoc [simp]: "downs (es @ [x]) = (es @ [x]) # downs es"
  by (subst downs.simps) simp

lemma downs_facts: "fs \<in> set (downs es) \<Longrightarrow> fs \<noteq> [] \<and> set fs \<subseteq> set es \<and> length fs \<le> length es \<and> set (downs fs) \<subseteq> set (downs es)"
  by (induction es rule: rev_induct) auto

lemma distinct_downs: "distinct (downs es)"
  by (induction es rule: rev_induct) (auto dest: downs_facts)

text \<open>The reference: every directory strictly between the root and the file.\<close>

definition ancestors :: "string \<Rightarrow> string set" where
  "ancestors p = join ''/'' ` set (downs (butlast (split_on (CHR ''/'') p)))"

definition dirs_of :: "string list \<Rightarrow> string list" where
  "dirs_of es = map of_elems (downs es)"

lemma of_elems_plain:
  assumes "es \<noteq> []" and "\<forall>e\<in>set es. plain_elem e"
  shows "of_elems es = join ''/'' es" "of_elems es \<noteq> ''.''" "of_elems es \<noteq> ''/''" "split_on (CHR ''/'') (of_elems es) = es"
proof -
  show j: "of_elems es = join ''/'' es" using assms(1) by (simp add: of_elems_def)
  then show sp: "split_on (CHR ''/'') (of_elems es) = es" using split_join_plain [OF assms] by simp
  show "of_elems es \<noteq> ''.''" using of_elems_inject [of es "[]"] assms by (simp add: of_elems_def)
  show "of_elems es \<noteq> ''/''"
  proof
    assume "of_elems es = ''/''"
    then have "es = [[], []]" using sp by simp
    then show False using assms(2) by (simp add: plain_elem_def)
  qed
qed

lemma dirs_of_ancestors:
  assumes "es \<noteq> []" and "\<forall>e\<in>set es. plain_elem e"
  shows "set (dirs_of (butlast es)) = ancestors (join ''/'' es)"
proof -
  have "of_elems fs = join ''/'' fs" if "fs \<in> set (downs (butlast es))" for fs
    using downs_facts [OF that] by (simp add: of_elems_def)
  then show ?thesis using split_join_plain [OF assms] by (auto simp: ancestors_def dirs_of_def)
qed

lemma dirs_of_inj:
  assumes "\<forall>e\<in>set es. plain_elem e"
  shows "inj_on of_elems (set (downs es))"
proof (rule inj_onI)
  fix a b assume "a \<in> set (downs es)" "b \<in> set (downs es)" "of_elems a = of_elems b"
  then show "a = b" using of_elems_inject [of a b] downs_facts [of a es] downs_facts [of b es] assms by blast
qed

text \<open>The walk adds the directories from the file upward until one was seen before.\<close>

lemma collect_dirs_eq:
  assumes "\<forall>e\<in>set es. plain_elem e" and "length es \<le> n"
  shows "collect_dirs n (of_elems es) ds = ds @ takeWhile (\<lambda>d. d \<notin> set ds) (dirs_of es)"
  using assms
proof (induction n arbitrary: es ds)
  case (Suc n)
  show ?case
  proof (cases es rule: rev_cases)
    case (snoc fs x)
    note pl = of_elems_plain [of es] and d = Dir_of_elems [of es]
    have ne: "es \<noteq> []" using snoc by simp
    have later: "of_elems es \<notin> set (dirs_of fs)"
      using dirs_of_inj [OF Suc.prems(1)] distinct_downs [of es] snoc by (auto simp: dirs_of_def inj_on_def)
    have "takeWhile (\<lambda>d. d \<notin> set (ds @ [of_elems es])) (dirs_of fs) = takeWhile (\<lambda>d. d \<notin> set ds) (dirs_of fs)"
      using later by (intro takeWhile_cong) auto
    moreover have "collect_dirs n (of_elems fs) (ds @ [of_elems es]) =
        (ds @ [of_elems es]) @ takeWhile (\<lambda>d. d \<notin> set (ds @ [of_elems es])) (dirs_of fs)"
      using Suc.IH [of fs "ds @ [of_elems es]"] Suc.prems snoc by auto
    moreover have "Dir (of_elems es) = of_elems fs" using d ne Suc.prems(1) pl(1) snoc by simp
    ultimately show ?thesis
      using pl(2,3) ne Suc.prems(1) snoc by (auto simp: dirs_of_def)
  qed (simp add: of_elems_def dirs_of_def)
qed (simp add: dirs_of_def)

definition closed :: "string list \<Rightarrow> bool" where
  "closed ds \<longleftrightarrow> distinct ds \<and> (\<forall>d\<in>set ds. \<exists>es. es \<noteq> [] \<and> (\<forall>e\<in>set es. plain_elem e) \<and> d = of_elems es \<and> set (dirs_of es) \<subseteq> set ds)"

lemma takeWhile_dirs:
  assumes "closed ds" and "\<forall>e\<in>set es. plain_elem e"
  shows "set ds \<union> set (takeWhile (\<lambda>d. d \<notin> set ds) (dirs_of es)) = set ds \<union> set (dirs_of es)"
  using assms(2)
proof (induction es rule: rev_induct)
  case (snoc x es)
  show ?case
  proof (cases "of_elems (es @ [x]) \<in> set ds")
    case True
    then obtain fs where fs: "\<forall>e\<in>set fs. plain_elem e" "of_elems (es @ [x]) = of_elems fs" "set (dirs_of fs) \<subseteq> set ds"
      using assms(1) by (auto simp: closed_def)
    then have "fs = es @ [x]" using of_elems_inject snoc.prems by metis
    then show ?thesis using fs(3) True by (auto simp: dirs_of_def)
  next
    case False
    then show ?thesis using snoc by (auto simp: dirs_of_def)
  qed
qed (simp add: dirs_of_def)

lemma closed_collect:
  assumes "closed ds" and "\<forall>e\<in>set es. plain_elem e" and "length es \<le> n"
  shows "closed (collect_dirs n (of_elems es) ds) \<and> set (collect_dirs n (of_elems es) ds) = set ds \<union> set (dirs_of es)"
proof -
  have s: "set (collect_dirs n (of_elems es) ds) = set ds \<union> set (dirs_of es)"
    using collect_dirs_eq [OF assms(2,3)] takeWhile_dirs [OF assms(1,2)] by simp
  have "distinct (dirs_of es)" using distinct_downs dirs_of_inj [OF assms(2)] by (simp add: dirs_of_def distinct_map)
  then have "distinct (takeWhile (\<lambda>d. d \<notin> set ds) (dirs_of es))" by (rule distinct_takeWhile)
  then have dist: "distinct (collect_dirs n (of_elems es) ds)"
    using collect_dirs_eq [OF assms(2,3)] assms(1) set_takeWhileD [of _ "\<lambda>d. d \<notin> set ds" "dirs_of es"]
    by (auto simp: closed_def)
  have "\<exists>gs. gs \<noteq> [] \<and> (\<forall>e\<in>set gs. plain_elem e) \<and> d = of_elems gs \<and> set (dirs_of gs) \<subseteq> set ds \<union> set (dirs_of es)"
    if mem: "d \<in> set ds \<union> set (dirs_of es)" for d
  proof (cases "d \<in> set ds")
    case True
    then obtain gs where "gs \<noteq> []" "\<forall>e\<in>set gs. plain_elem e" "d = of_elems gs" "set (dirs_of gs) \<subseteq> set ds"
      using assms(1) by (auto simp: closed_def)
    then show ?thesis by blast
  next
    case False
    then obtain gs where "gs \<in> set (downs es)" "d = of_elems gs" using mem by (auto simp: dirs_of_def)
    then show ?thesis using downs_facts [of gs es] assms(2) by (auto simp: dirs_of_def intro!: exI [of _ gs])
  qed
  then show ?thesis using s dist by (simp add: closed_def)
qed

lemma length_elems: "\<forall>e\<in>set es. plain_elem e \<Longrightarrow> length es \<le> Suc (length (join ''/'' es)) \<and> (es \<noteq> [] \<longrightarrow> length es \<le> length (join ''/'' es))"
proof (induction es)
  case (Cons e es)
  then show ?case by (cases e; cases "es = []") (auto simp: join_Cons plain_elem_def)
qed simp

lemma collected:
  assumes "\<forall>f\<in>set files. plain_rel (Path f)" and "closed ds"
  shows "closed (foldl (\<lambda>ds f. collect_dirs (length (Path f)) (Dir (Path f)) ds) ds files) \<and>
    set (foldl (\<lambda>ds f. collect_dirs (length (Path f)) (Dir (Path f)) ds) ds files) = set ds \<union> (\<Union>f\<in>set files. ancestors (Path f))"
  using assms
proof (induction files arbitrary: ds)
  case (Cons f files)
  obtain es where es: "es \<noteq> []" "\<forall>e\<in>set es. plain_elem e" "Path f = join ''/'' es"
    using Cons.prems(1) plain_relE [of "Path f"] by (metis list.set_intros(1))
  have b: "\<forall>e\<in>set (butlast es). plain_elem e" using es(2) by (meson in_set_butlastD)
  have "length (butlast es) \<le> length (Path f)" using length_elems [OF es(2)] es(1,3) by (simp add: le_diff_conv)
  from closed_collect [OF Cons.prems(2) b this] show ?case
    using Cons.IH Cons.prems(1) Dir_of_elems [OF es(1,2)] dirs_of_ancestors [OF es(1,2)] es(3) by auto
qed simp

lemma planDirectories_facts:
  assumes "\<forall>f\<in>set files. plain_rel (Path f)"
  shows "set (planDirectories files) = (\<Union>f\<in>set files. ancestors (Path f))" "sorted (planDirectories files)"
    "distinct (planDirectories files)"
    "\<forall>d\<in>set (planDirectories files). \<exists>es. es \<noteq> [] \<and> (\<forall>e\<in>set es. plain_elem e) \<and> d = of_elems es \<and> set (dirs_of es) \<subseteq> set (planDirectories files)"
proof -
  have "closed []" by (simp add: closed_def)
  note c = collected [OF assms this]
  show "set (planDirectories files) = (\<Union>f\<in>set files. ancestors (Path f))"
    "sorted (planDirectories files)" "distinct (planDirectories files)"
    using c by (simp_all add: planDirectories_def closed_def)
  show "\<forall>d\<in>set (planDirectories files). \<exists>es. es \<noteq> [] \<and> (\<forall>e\<in>set es. plain_elem e) \<and> d = of_elems es \<and> set (dirs_of es) \<subseteq> set (planDirectories files)"
    unfolding planDirectories_def set_sort using c [THEN conjunct1] unfolding closed_def by blast
qed

text \<open>
  The directory walk of \<open>planDirectories\<close>, which stops at the first directory it has seen, computes the
  reference: the ascending list, without duplicates, of every directory that lies strictly between the
  project root and some planned file.
\<close>

theorem planDirectories_reference:
  assumes "\<forall>f\<in>set files. plain_rel (Path f)"
  shows "planDirectories files = sorted_list_of_set (\<Union>f\<in>set files. ancestors (Path f))"
  using planDirectories_facts [OF assms] sorted_list_of_set_unique [of "\<Union>f\<in>set files. ancestors (Path f)" "planDirectories files"]
  by (metis List.finite_set distinct_card strict_sorted_iff)

theorem planDirectories_reference_witness:
  "planDirectories [\<lparr>Path = ''a/b/x'', Content = [], FOwner = []\<rparr>, \<lparr>Path = ''a/c/y'', Content = [], FOwner = []\<rparr>] =
     sorted_list_of_set (ancestors ''a/b/x'' \<union> ancestors ''a/c/y'')"
  using planDirectories_reference
    [of "[\<lparr>Path = ''a/b/x'', Content = [], FOwner = []\<rparr>, \<lparr>Path = ''a/c/y'', Content = [], FOwner = []\<rparr>]"]
  by (simp add: plain_rel_def plain_elem_def)

section \<open>The tree after a run\<close>

lemma makeDir_effect:
  assumes "makeDir e d t = (None, t')"
  shows "d \<in> chain d \<Longrightarrow> t' d = Some (DirN DirMode)" "q \<notin> chain d \<Longrightarrow> q \<noteq> d \<Longrightarrow> t' q = t q"
    "t q = Some (DirN DirMode) \<Longrightarrow> t' q = Some (DirN DirMode)"
proof -
  from assms obtain t1 where m: "mkdir_all e d DirMode t = Inr t1" and c: "chmod e d DirMode t1 = Inr t'"
    by (auto simp: makeDir_def split: sum.splits)
  show "d \<in> chain d \<Longrightarrow> t' d = Some (DirN DirMode)" using chmod_dir [OF c] mkdir_all_effect(1) [OF m] by blast
  show "q \<notin> chain d \<Longrightarrow> q \<noteq> d \<Longrightarrow> t' q = t q" using chmod_other [OF c] mkdir_all_effect(2) [OF m] by metis
  show "t' q = Some (DirN DirMode)" if "t q = Some (DirN DirMode)"
  proof -
    have "t1 q = Some (DirN DirMode)" using mkdir_all_effect(3) [OF m, of q] that by simp
    then show ?thesis using chmod_other [OF c, of q] chmod_dir [OF c] by (cases "q = d") (auto simp: is_dir_def)
  qed
qed

lemma make_dirs_effect:
  assumes "make_dirs e ds t = (None, t')" and "\<forall>d\<in>set ds. d \<in> chain d \<and> chain d \<subseteq> D" and "set ds \<subseteq> D"
  shows "(\<forall>q. q \<notin> D \<longrightarrow> t' q = t q) \<and> (\<forall>d\<in>set ds. t' d = Some (DirN DirMode)) \<and>
    (\<forall>q. t q = Some (DirN DirMode) \<longrightarrow> t' q = Some (DirN DirMode))"
  using assms
proof (induction ds arbitrary: t)
  case (Cons d ds)
  from Cons.prems(1) obtain t1 where m: "makeDir e d t = (None, t1)" and r: "make_dirs e ds t1 = (None, t')"
    by (auto split: prod.splits option.splits)
  have ih: "\<forall>q. q \<notin> D \<longrightarrow> t' q = t1 q" "\<forall>d\<in>set ds. t' d = Some (DirN DirMode)"
    "\<forall>q. t1 q = Some (DirN DirMode) \<longrightarrow> t' q = Some (DirN DirMode)"
    using Cons.IH [OF r] Cons.prems(2,3) by auto
  note eff = makeDir_effect [OF m]
  have d: "d \<in> chain d" "chain d \<subseteq> D" "d \<in> D" using Cons.prems(2,3) by auto
  have "t' q = t q" if "q \<notin> D" for q using that ih(1) eff(2) [of q] d by auto
  moreover have "t' d = Some (DirN DirMode)" using ih(3) eff(1) d(1) by blast
  moreover have "t' q = Some (DirN DirMode)" if "t q = Some (DirN DirMode)" for q using ih(3) eff(3) that by blast
  ultimately show ?case using ih(2) by simp
qed simp

lemma write_one_effect:
  assumes "write_one e f t = (None, t')"
  shows "t' (Path f) = Some (FileN FileMode (Content f))" "q \<noteq> Path f \<Longrightarrow> t' q = t q" "\<not> is_dir t (Path f)"
    "is_dir t' q = is_dir t q"
proof -
  from assms obtain t1 where w: "write_file e (Path f) (Content f) FileMode t = Inr t1" and c: "chmod e (Path f) FileMode t1 = Inr t'"
    by (auto simp: write_one_def split: sum.splits)
  show "t' (Path f) = Some (FileN FileMode (Content f))" using chmod_file [OF c] write_file_at [OF w] by blast
  show "q \<noteq> Path f \<Longrightarrow> t' q = t q" using chmod_other [OF c] write_file_other [OF w] by simp
  show "\<not> is_dir t (Path f)" using w by (auto simp: write_file_def split: if_splits)
  show "is_dir t' q = is_dir t q" using chmod_dirs [OF c] write_file_dirs [OF w] by simp
qed

lemma write_all_effect:
  assumes "write_all e fs t = (None, t')" and "distinct (map Path fs)"
  shows "(\<forall>f\<in>set fs. t' (Path f) = Some (FileN FileMode (Content f)) \<and> \<not> is_dir t (Path f)) \<and>
    (\<forall>q. q \<notin> Path ` set fs \<longrightarrow> t' q = t q)"
  using assms
proof (induction fs arbitrary: t)
  case (Cons f fs)
  from Cons.prems(1) obtain t1 where w: "write_one e f t = (None, t1)" and r: "write_all e fs t1 = (None, t')"
    by (auto split: prod.splits option.splits)
  note ih = Cons.IH [OF r] and eff = write_one_effect [OF w]
  show ?case using ih eff Cons.prems(2) by auto
qed simp

lemma chain_of_elems:
  assumes "\<forall>e\<in>set es. plain_elem e"
  shows "chain (of_elems es) = insert ''.'' (set (dirs_of es))" "of_elems es \<in> chain (of_elems es)"
proof -
  have pe: "path_elems (of_elems es) = es"
    using of_elems_plain [of es] assms by (cases "es = []") (auto simp: path_elems_def of_elems_def)
  have "set (map (\<lambda>n. take n es) [0..<Suc (length es)]) = insert [] (set (downs es))"
  proof (induction es rule: rev_induct)
    case (snoc x es)
    have "(\<lambda>n. take n (es @ [x])) ` {0..<Suc (length (es @ [x]))} = insert (es @ [x]) ((\<lambda>n. take n es) ` {0..<Suc (length es)})"
    proof -
      have "(\<lambda>n. take n (es @ [x])) ` {0..<Suc (length es)} = (\<lambda>n. take n es) ` {0..<Suc (length es)}"
        by (intro image_cong) auto
      then show ?thesis by (simp only: length_append_singleton atLeast0_lessThan_Suc [of "Suc (length es)"] image_insert) simp
    qed
    then show ?case using snoc by auto
  qed simp
  then show "chain (of_elems es) = insert ''.'' (set (dirs_of es))"
    by (simp only: chain_def pe prefixes_of_def) (auto simp: dirs_of_def of_elems_def)
  then show "of_elems es \<in> chain (of_elems es)"
    by (cases es rule: rev_cases) (auto simp: dirs_of_def of_elems_def)
qed

lemma plan_dirs_chain:
  assumes "\<forall>f\<in>set files. plain_rel (Path f)" and "d \<in> set (''.'' # planDirectories files)"
  shows "d \<in> chain d \<and> chain d \<subseteq> insert ''.'' (set (planDirectories files))"
proof (cases "d = ''.''")
  case True
  then show ?thesis using chain_of_elems [of "[]"] by (simp add: of_elems_def dirs_of_def)
next
  case False
  then obtain es where "\<forall>e\<in>set es. plain_elem e" "d = of_elems es" "set (dirs_of es) \<subseteq> set (planDirectories files)"
    using planDirectories_facts(4) [OF assms(1)] assms(2) by auto
  then show ?thesis using chain_of_elems [of es] by auto
qed

text \<open>Every planned file is one of the three the tool derives from the recipe or comes from a selected template.\<close>

lemma plan_file_origin:
  assumes "field_engine eng" and "Plan eng emb o1 = Inr files" and "f \<in> set files"
  shows "Path f \<in> {FileName, AgentsFileName, architecture_path} \<or>
    (\<exists>n t. Options_normalize o1 = Inr n \<and> t \<in> set templateFiles \<and> is_selected n t \<and> Path f = out_path n t \<and> FOwner f = Owner t)"
proof -
  from assms(2) obtain n r d rendered where
    n: "Options_normalize o1 = Inr n" and
    ra: "render_all eng emb (\<lambda>m. m \<in> set (O_Modules n)) (newTemplateData n) templateFiles = Inr rendered" and
    files: "files = sort_key Path ([\<lparr>Path = FileName, Content = d, FOwner = OwnerNise\<rparr>,
       \<lparr>Path = AgentsFileName, Content = AgentsMD (Generate r), FOwner = OwnerNise\<rparr>,
       \<lparr>Path = architecture_path, Content = Architecture (Generate r), FOwner = OwnerNise\<rparr>] @ rendered)"
    by (auto simp: Plan_def Let_def split: sum.splits option.splits)
  show ?thesis
  proof (cases "f \<in> set rendered")
    case True
    then obtain i where i: "i < length rendered" "f = rendered ! i" by (metis in_set_conv_nth)
    let ?ts = "filter (\<lambda>t. Module t = [] \<or> Module t \<in> set (O_Modules n)) templateFiles"
    have rf: "render_file eng emb (newTemplateData n) (?ts ! i) = Inr f"
      using list_all2_nthD2 [OF render_all_files [OF ra] i(1)] i(2) by simp
    have "?ts ! i \<in> set ?ts"
      using list_all2_lengthD [OF render_all_files [OF ra]] i(1) by (intro nth_mem) simp
    then obtain t where t: "t \<in> set templateFiles" "is_selected n t" "render_file eng emb (newTemplateData n) t = Inr f"
      using rf unfolding set_filter is_selected_def by blast
    obtain p where p: "fill (newTemplateData n) (Output t) = Some p" using t(1,2) by (cases rule: out_path_cases) auto
    then have "eng (Template t @ '' (output path)'') (Output t) (newTemplateData n) = Some p"
      using assms(1) by (auto simp: field_engine_def)
    then have "Path f = out_path n t \<and> FOwner f = Owner t"
      using t(3) p by (auto simp: render_file_def renderString_def out_path_def split: option.splits sum.splits)
    then show ?thesis using n t(1,2) by blast
  next
    case False
    then show ?thesis using assms(3) unfolding files set_sort by auto
  qed
qed

lemma plan_paths_plain:
  assumes "field_engine eng" and "Plan eng emb o1 = Inr files"
  shows "(\<forall>f\<in>set files. plain_rel (Path f) \<and> file_shaped (Path f)) \<and> distinct (map Path files)"
proof -
  have own: "plain_rel p \<and> file_shaped p" if "p \<in> {FileName, AgentsFileName, architecture_path}" for p
    using that by (auto simp: plain_rel_def plain_elem_def file_shaped_def file_elem_def FileName_def AgentsFileName_def architecture_path_def
        ArchitectureDir_def ArchitectureFileName_def)
  have "plain_rel (Path f) \<and> file_shaped (Path f)" if "f \<in> set files" for f
    using plan_file_origin [OF assms that]
  proof
    assume "\<exists>n t. Options_normalize o1 = Inr n \<and> t \<in> set templateFiles \<and> is_selected n t \<and> Path f = out_path n t \<and> FOwner f = Owner t"
    then show ?thesis using out_path_plain normalize_ok by (auto simp: options_ok_def)
  qed (rule own)
  then show ?thesis using Plan_facts [OF assms(2)] by (simp add: strict_sorted_iff)
qed

text \<open>The module file is the application's.\<close>

lemma go_mod_owner:
  assumes "field_engine eng" and "Plan eng emb o1 = Inr files" and "f \<in> set files" and "Path f = ''go.mod''"
  shows "FOwner f = OwnerApp"
proof -
  let ?u = "tf ''go.mod.tmpl'' ''go.mod'' OwnerApp False []"
  have u: "?u \<in> set templateFiles" by (simp add: templateFiles_def templateFiles_5_def)
  obtain n t where t: "t \<in> set templateFiles" "is_selected n t" "Path f = out_path n t" "FOwner f = Owner t"
    using plan_file_origin [OF assms(1-3)] assms(4)
    by (auto simp: FileName_def AgentsFileName_def architecture_path_def ArchitectureDir_def)
  have "out_path n ?u = ''go.mod''" "is_selected n ?u"
    using fill_literal [of "''go.mod''"] by (simp_all add: out_path_def tf_def is_selected_def)
  then have "t = ?u" using out_path_inj [OF t(1,2) u] t(3) assms(4) by simp
  then show ?thesis using t(4) by (simp add: tf_def)
qed

section \<open>A run of the generator\<close>

definition project_dirs :: "File list \<Rightarrow> string set" where
  "project_dirs files = insert ''.'' (\<Union>f\<in>set files. ancestors (Path f))"

lemma project_dirs_eq:
  "\<forall>f\<in>set files. plain_rel (Path f) \<Longrightarrow> project_dirs files = set (''.'' # planDirectories files)"
  by (simp add: project_dirs_def planDirectories_facts(1))

lemma tree_after:
  assumes "\<forall>f\<in>set files. plain_rel (Path f)" and "distinct (map Path files)"
    and m: "make_dirs e (''.'' # planDirectories files) t = (None, t1)" and w: "write_all e files t1 = (None, t2)"
  shows "(\<forall>f\<in>set files. t2 (Path f) = Some (FileN FileMode (Content f))) \<and>
    (\<forall>d\<in>project_dirs files. t2 d = Some (DirN DirMode)) \<and>
    (\<forall>q. q \<notin> Path ` set files \<longrightarrow> q \<notin> project_dirs files \<longrightarrow> t2 q = t q)"
proof -
  have D: "project_dirs files = insert ''.'' (set (planDirectories files))" using project_dirs_eq [OF assms(1)] by simp
  have "\<forall>d\<in>set (''.'' # planDirectories files). d \<in> chain d \<and> chain d \<subseteq> project_dirs files"
    using plan_dirs_chain [OF assms(1)] D by blast
  from make_dirs_effect [OF m this] have dirs: "\<forall>q. q \<notin> project_dirs files \<longrightarrow> t1 q = t q"
    "\<forall>d\<in>project_dirs files. t1 d = Some (DirN DirMode)" unfolding D by auto
  note eff = write_all_effect [OF w assms(2)]
  have "d \<notin> Path ` set files" if "d \<in> project_dirs files" for d
    using eff dirs(2) that by (auto simp: is_dir_def)
  then show ?thesis using eff dirs by metis
qed

text \<open>
  C16: A run that reports success has written the plan and nothing else: every planned file is there with its
  content and mode 0644, every directory above one is there with mode 0755, the report lists the files
  in order, and every other entry of the tree is untouched.  The result does not depend on the umask.
\<close>

theorem Write_exact:
  assumes "field_engine eng" and "Write eng emb e ents o1 t = (Inr res, t')"
  shows "\<exists>n files. Options_normalize o1 = Inr n \<and> Plan eng emb n = Inr files \<and>
    R_Name res = O_Name n \<and> R_Modules res = O_Modules n \<and> R_Files res = map Path files \<and>
    (\<forall>f\<in>set files. t' (Path f) = Some (FileN FileMode (Content f))) \<and>
    (\<forall>d\<in>project_dirs files. t' d = Some (DirN DirMode)) \<and>
    (\<forall>q. q \<notin> Path ` set files \<longrightarrow> q \<notin> project_dirs files \<longrightarrow> t' q = t q)"
proof -
  from assms(2) obtain n files t1 where run: "Options_normalize o1 = Inr n" "Plan eng emb n = Inr files"
    "make_dirs e (''.'' # planDirectories files) t = (None, t1)" "write_all e files t1 = (None, t')"
    "R_Name res = O_Name n" "R_Modules res = O_Modules n" "R_Files res = map Path files"
    unfolding Write_def by (auto split: sum.splits option.splits prod.splits simp del: make_dirs.simps)
  have "\<forall>f\<in>set files. plain_rel (Path f)" "distinct (map Path files)"
    using plan_paths_plain [OF assms(1) run(2)] by blast+
  from tree_after [OF this run(3,4)] show ?thesis using run by blast
qed

text \<open>A refusal before the first write leaves the tree as it was.\<close>

lemma Write_refused:
  assumes "Write eng emb e ents o1 t = (Inl x, t')" and "\<forall>y. x \<noteq> Io y"
  shows "t' = t"
  using assms unfolding Write_def
  by (auto split: sum.splits option.splits prod.splits simp del: make_dirs.simps)

lemma Write_nonempty_refused:
  assumes "Write eng emb e ents o1 t = (r, t')" and "t ''.'' \<noteq> None" and "ents \<noteq> []"
  shows "t' = t \<and> isl r"
  using assms unfolding Write_def checkTargetEmpty_def
  by (auto simp: Let_def split: sum.splits option.splits prod.splits if_splits node.splits simp del: make_dirs.simps)

section \<open>A fresh target is filled\<close>

text \<open>No planned file lies where a directory is needed.\<close>

lemma files_not_dirs:
  assumes "\<forall>f\<in>set files. plain_rel (Path f) \<and> file_shaped (Path f)" and "f \<in> set files"
  shows "Path f \<notin> project_dirs files"
proof
  assume "Path f \<in> project_dirs files"
  moreover have "Path f \<noteq> ''.''" using assms by (auto simp: plain_rel_def plain_elem_def)
  ultimately obtain g where g: "g \<in> set files" "Path f \<in> ancestors (Path g)" by (auto simp: project_dirs_def)
  then obtain es where es: "es \<in> set (downs (butlast (split_on (CHR ''/'') (Path g))))" "Path f = join ''/'' es"
    by (auto simp: ancestors_def)
  have ne: "es \<noteq> []" "set es \<subseteq> set (butlast (split_on (CHR ''/'') (Path g)))" using downs_facts [OF es(1)] by blast+
  have "\<forall>x\<in>set es. plain_elem x" using ne(2) assms(1) g(1) in_set_butlastD by (fastforce simp: plain_rel_def)
  then have "file_elem (last es)"
    using assms es(2) split_join_plain [OF ne(1)] by (auto simp: file_shaped_def)
  moreover have "\<not> file_elem (last es)"
    using assms(1) g(1) ne last_in_set by (fastforce simp: file_shaped_def list_all_iff)
  ultimately show False by blast
qed

definition all_carried :: "env \<Rightarrow> bool" where
  "all_carried e \<longleftrightarrow> (\<forall>c. carried e c)"

definition no_files :: "tree \<Rightarrow> bool" where
  "no_files t \<longleftrightarrow> (\<forall>q m c. t q \<noteq> Some (FileN m c))"

lemma make_all_ok:
  assumes "all_carried e" and "no_files t"
  shows "\<exists>t'. foldl (make_one e m) (Inr t) ps = Inr t' \<and> no_files t'"
  using assms(2)
proof (induction ps arbitrary: t)
  case (Cons p ps)
  have "\<exists>u. make_one e m (Inr t) p = Inr u \<and> no_files u"
    using assms(1) Cons.prems by (auto simp: make_one_def all_carried_def no_files_def split: option.splits node.splits)
  then show ?case using Cons.IH by auto
qed simp

lemma makeDir_ok:
  assumes "all_carried e" and "no_files t" and "d \<in> chain d"
  shows "\<exists>t'. makeDir e d t = (None, t') \<and> no_files t'"
proof -
  obtain t1 where m: "mkdir_all e d DirMode t = Inr t1" "no_files t1"
    using make_all_ok [OF assms(1,2)] by (auto simp: mkdir_all_def)
  obtain k where "t1 d = Some (DirN k)" using mkdir_all_effect(1) [OF m(1) assms(3)] by (auto simp: is_dir_def)
  then show ?thesis using m assms(1) by (auto simp: makeDir_def chmod_def all_carried_def no_files_def)
qed

lemma make_dirs_ok:
  assumes "all_carried e" and "no_files t" and "\<forall>d\<in>set ds. d \<in> chain d"
  shows "\<exists>t'. make_dirs e ds t = (None, t')"
  using assms(2,3)
proof (induction ds arbitrary: t)
  case (Cons d ds)
  then obtain t1 where "makeDir e d t = (None, t1)" "no_files t1" using makeDir_ok [OF assms(1), of t d] by auto
  then show ?case using Cons by auto
qed simp

lemma write_all_ok:
  assumes "all_carried e" and "\<forall>f\<in>set fs. is_dir t (Dir (Path f)) \<and> \<not> is_dir t (Path f)"
  shows "\<exists>t'. write_all e fs t = (None, t')"
  using assms(2)
proof (induction fs arbitrary: t)
  case (Cons f fs)
  have "\<exists>t1. write_one e f t = (None, t1)"
    using assms(1) Cons.prems by (auto simp: write_one_def write_file_def chmod_def all_carried_def)
  then obtain t1 where w: "write_one e f t = (None, t1)" by blast
  have "\<forall>g\<in>set fs. is_dir t1 (Dir (Path g)) \<and> \<not> is_dir t1 (Path g)"
    using Cons.prems write_one_effect(4) [OF w] by simp
  then show ?case using Cons.IH w by auto
qed simp

lemma parent_is_dir:
  assumes "plain_rel (Path f)" and "f \<in> set files"
  shows "Dir (Path f) \<in> project_dirs files"
proof -
  obtain es where es: "es \<noteq> []" "\<forall>e\<in>set es. plain_elem e" "Path f = join ''/'' es" "split_on (CHR ''/'') (Path f) = es"
    using plain_relE [OF assms(1)] by metis
  have d: "Dir (Path f) = of_elems (butlast es)" using Dir_of_elems [OF es(1,2)] es(3) by simp
  show ?thesis
  proof (cases "butlast es = []")
    case False
    then have "butlast es \<in> set (downs (butlast es))" by (subst downs.simps) simp
    then have "join ''/'' (butlast es) \<in> ancestors (Path f)" using es(4) by (auto simp: ancestors_def)
    then show ?thesis using d False assms(2) by (auto simp: project_dirs_def of_elems_def)
  qed (simp add: d of_elems_def project_dirs_def)
qed

lemma Write_fresh:
  assumes "field_engine eng" and "Options_normalize o1 = Inr n" and "Options_Recipe o1 = Inr r"
    and "templates_render eng emb (newTemplateData n)" and e: "all_carried e"
    and t: "\<forall>q. q \<noteq> ''.'' \<longrightarrow> t q = None" "t ''.'' = None \<or> is_dir t ''.'' \<and> ents = []"
  shows "\<exists>res t'. Write eng emb e ents o1 t = (Inr res, t')"
proof -
  have n: "Options_normalize n = Inr n" using normalize_fixed [OF normalize_ok [OF assms(2)]] .
  have "Options_Recipe n = Inr r" using assms(2,3) n by (simp add: Options_Recipe_def)
  then obtain files where files: "Plan eng emb n = Inr files"
    using Plan_succeeds [OF assms(1) n _ assms(4)] by blast
  have pl: "\<forall>f\<in>set files. plain_rel (Path f) \<and> file_shaped (Path f)" "distinct (map Path files)"
    using plan_paths_plain [OF assms(1) files] by blast+
  then have pr: "\<forall>f\<in>set files. plain_rel (Path f)" by blast
  have nf: "no_files t" unfolding no_files_def
  proof (intro allI)
    show "t q \<noteq> Some (FileN m c)" for q m c using t by (cases "q = ''.''") (auto simp: is_dir_def)
  qed
  have ch: "\<forall>d\<in>set (''.'' # planDirectories files). d \<in> chain d \<and> chain d \<subseteq> project_dirs files"
    using plan_dirs_chain [OF pr] project_dirs_eq [OF pr] by auto
  then obtain t1 where t1: "make_dirs e (''.'' # planDirectories files) t = (None, t1)"
    using make_dirs_ok [OF e nf] by blast
  have D: "set (''.'' # planDirectories files) = project_dirs files" using project_dirs_eq [OF pr] by simp
  note eff = make_dirs_effect [OF t1 ch equalityD1 [OF D], unfolded D]
  have "is_dir t1 (Dir (Path f)) \<and> \<not> is_dir t1 (Path f)" if "f \<in> set files" for f
  proof -
    have "Path f \<notin> project_dirs files" using files_not_dirs [OF pl(1) that] .
    moreover from this have "Path f \<noteq> ''.''" by (auto simp: project_dirs_def)
    ultimately have "t1 (Path f) = None" using eff t(1) by simp
    moreover have "t1 (Dir (Path f)) = Some (DirN DirMode)" using eff parent_is_dir [OF _ that] pr that by blast
    ultimately show ?thesis by (simp add: is_dir_def)
  qed
  then obtain t2 where t2: "write_all e files t1 = (None, t2)" using write_all_ok [OF e] by blast
  have "checkTargetEmpty e ents t = None"
    using t(2) e by (auto simp: checkTargetEmpty_def is_dir_def all_carried_def)
  then show ?thesis using assms(2) files t1 t2 by (simp add: Write_def del: make_dirs.simps)
qed

theorem Write_exact_witness:
  "\<exists>res t' files. Write fill_engine (\<lambda>_. Some ''x'') \<lparr>umask = 0x3F, carried = \<lambda>_. True\<rparr> [] sample_options (\<lambda>_. None) = (Inr res, t') \<and>
     Plan fill_engine (\<lambda>_. Some ''x'') sample_normalized = Inr files \<and> R_Files res = map Path files \<and>
     (\<forall>f\<in>set files. t' (Path f) = Some (FileN FileMode (Content f)))"
proof -
  obtain r where r: "Options_Recipe sample_options = Inr r" using sample_Recipe by blast
  have "all_carried \<lparr>umask = 0x3F, carried = \<lambda>_. True\<rparr>" by (simp add: all_carried_def)
  from Write_fresh [OF fill_engine_ok(1) sample_normalize r fill_engine_ok(2) this, of "\<lambda>_. None" "[]" "''x''"]
  obtain res t' where run: "Write fill_engine (\<lambda>_. Some ''x'') \<lparr>umask = 0x3F, carried = \<lambda>_. True\<rparr> [] sample_options (\<lambda>_. None) = (Inr res, t')"
    by auto
  from Write_exact [OF fill_engine_ok(1) this] run show ?thesis unfolding sample_normalize by blast
qed

end
