(* ===== verification/Upgrade_Laws.thy ===== *)
theory Upgrade_Laws
  imports Upgrade Generator_Write
begin

text \<open>
  What an upgrade guarantees: the chain of migrations is linked and found whenever there is one; an
  application-owned entry changes only where a declared codemod matches; a finished upgrade leaves every
  Nise-owned file at its planned content.  The last section shows when the recipe is really written.
\<close>

section \<open>The chain of migrations\<close>

fun linked :: "string \<Rightarrow> Migration list \<Rightarrow> string \<Rightarrow> bool" where
  "linked a [] b = (a = b)"
| "linked a (m # ms) b = (mg_From m = a \<and> linked (mg_To m) ms b)"

lemma by_from_Some: "by_from declared at = Some m \<Longrightarrow> m \<in> set declared \<and> mg_From m = at"
  by (auto simp: by_from_def dest!: map_of_SomeD)

lemma path_loop_linked:
  "path_loop n declared at to = (ms, missing) \<Longrightarrow>
     set ms \<subseteq> set declared \<and> length ms \<le> n \<and>
     (missing = [] \<longrightarrow> linked at ms to) \<and> (missing \<noteq> [] \<longrightarrow> (\<exists>stop. missing = [stop] \<and> stop \<noteq> to \<and> linked at ms stop))"
proof (induction n arbitrary: at ms missing)
  case (Suc n)
  show ?case
  proof (cases "at = to \<or> by_from declared at = None")
    case False
    then obtain m ms' missing' where m: "by_from declared at = Some m" "path_loop n declared (mg_To m) to = (ms', missing')"
      by (cases "path_loop n declared (mg_To (the (by_from declared at))) to") auto
    then have "ms = m # ms'" "missing = missing'" using Suc.prems False by auto
    then show ?thesis using Suc.IH [OF m(2)] by_from_Some [OF m(1)] by auto
  next
    case True
    then show ?thesis using Suc.prems by (cases "at = to") auto
  qed
qed (auto split: if_splits)

text \<open>The version reached after a number of migrations of the table.\<close>

fun follow :: "Migration list \<Rightarrow> nat \<Rightarrow> string \<Rightarrow> string option" where
  "follow declared 0 at = Some at"
| "follow declared (Suc n) at = (case by_from declared at of None \<Rightarrow> None | Some m \<Rightarrow> follow declared n (mg_To m))"

lemma follow_add: "follow declared (i + j) at = Option.bind (follow declared i at) (follow declared j)"
  by (induction i arbitrary: at) (auto split: option.splits)

lemma follow_found: "follow declared k at = Some to \<Longrightarrow> k \<le> n \<Longrightarrow> snd (path_loop n declared at to) = []"
proof (induction n arbitrary: k at)
  case (Suc n)
  show ?case
  proof (cases k)
    case 0
    then show ?thesis using Suc.prems by simp
  next
    case (Suc k')
    then obtain m where m: "by_from declared at = Some m" "follow declared k' (mg_To m) = Some to"
      using Suc.prems(1) by (auto split: option.splits)
    then show ?thesis using Suc.IH [OF m(2)] Suc.prems(2) Suc by (auto split: prod.splits)
  qed
qed auto

lemma follow_short:
  assumes "follow declared k at = Some to"
  shows "\<exists>j\<le>length declared. follow declared j at = Some to"
proof -
  let ?P = "\<lambda>j. follow declared j at = Some to"
  define j where "j = (LEAST j. ?P j)"
  have j: "?P j" unfolding j_def using assms by (rule LeastI)
  have least: "\<not> ?P i" if "i < j" for i using that not_less_Least unfolding j_def by blast
  have node: "\<exists>v. follow declared i at = Some v \<and> v \<in> mg_From ` set declared" if "i < j" for i
  proof -
    obtain d where d: "j = i + Suc d" using \<open>i < j\<close> by (metis less_imp_Suc_add add_Suc_right)
    obtain v where v: "follow declared i at = Some v" "follow declared (Suc d) v = Some to"
      using j unfolding d follow_add by (cases "follow declared i at") auto
    then obtain m where "by_from declared v = Some m" by (auto split: option.splits)
    then have "v \<in> mg_From ` set declared" using by_from_Some by blast
    then show ?thesis using v(1) by blast
  qed
  have "inj_on (\<lambda>i. follow declared i at) {..<j}"
  proof (rule linorder_inj_onI)
    fix a b assume ab: "a < b" "a \<in> {..<j}" "b \<in> {..<j}"
    obtain d where d: "j = b + d" using ab(3) by (metis lessThan_iff less_imp_add_positive)
    show "follow declared a at \<noteq> follow declared b at"
    proof
      assume "follow declared a at = follow declared b at"
      then have "?P (a + d)" using j unfolding d follow_add by simp
      then show False using least [of "a + d"] ab(1) d by simp
    qed
  qed auto
  moreover have "(\<lambda>i. follow declared i at) ` {..<j} \<subseteq> Some ` mg_From ` set declared" using node by fastforce
  ultimately have "card {..<j} \<le> card (Some ` mg_From ` set declared)"
    by (meson List.finite_set card_inj_on_le finite_imageI)
  also have "\<dots> \<le> length declared"
    by (meson List.finite_set card_image_le card_length finite_imageI le_trans)
  finally show ?thesis using j by auto
qed

lemma path_loop_reach: "path_loop n declared a b = (cs, []) \<Longrightarrow> \<exists>k. follow declared k a = Some b"
proof (induction n arbitrary: a cs)
  case 0
  then show ?case by (auto intro: exI [of _ 0] split: if_splits)
next
  case (Suc n)
  show ?case
  proof (cases "a = b")
    case False
    then obtain m where m: "by_from declared a = Some m" using Suc.prems by (auto split: option.splits)
    then obtain cs' where "path_loop n declared (mg_To m) b = (cs', [])"
      using Suc.prems False by (auto split: prod.splits)
    then obtain k where "follow declared k (mg_To m) = Some b" using Suc.IH by blast
    then have "follow declared (Suc k) a = Some b" using m by simp
    then show ?thesis by blast
  qed (auto intro: exI [of _ 0])
qed

text \<open>
  C39: The chain an upgrade applies is linked: it starts at the project's version, every migration starts
  where the one before it ended, and it ends at the target, or at the version named as the gap.  Bounding
  the loop by the size of the table loses nothing: whenever the table leads from one version to the other
  at all, in any number of steps, the whole chain is found and no gap is reported, and a table with a cycle
  stops.
\<close>

theorem migration_path_linked:
  "case migration_path from to declared of (ms, missing) \<Rightarrow>
     set ms \<subseteq> set declared \<and> length ms \<le> length declared + 1 \<and>
     (missing = [] \<longleftrightarrow> (\<exists>k. follow declared k from = Some to)) \<and>
     linked from ms (if missing = [] then to else hd missing)"
proof (cases "from = to")
  case True
  then show ?thesis by (auto simp: migration_path_def intro: exI [of _ 0])
next
  case False
  obtain ms missing where p: "path_loop (length declared + 1) declared from to = (ms, missing)" by fastforce
  note l = path_loop_linked [OF p]
  have "missing = [] \<longleftrightarrow> (\<exists>k. follow declared k from = Some to)"
  proof
    assume "\<exists>k. follow declared k from = Some to"
    then obtain j where "j \<le> length declared" "follow declared j from = Some to" using follow_short by blast
    then show "missing = []" using follow_found [of declared j "from" to "length declared + 1"] p by simp
  qed (use p path_loop_reach in blast)
  moreover have "migration_path from to declared = (ms, missing)" using p False by (simp add: migration_path_def)
  ultimately show ?thesis using l by auto
qed

section \<open>What each step may touch\<close>

lemma remove_other: "remove e p t = Inr t' \<Longrightarrow> q \<noteq> p \<Longrightarrow> t' q = t q"
  by (auto simp: remove_def split: option.splits if_splits)

lemma root_remove_other: "root_remove e p t = Inr t' \<Longrightarrow> q \<noteq> p \<Longrightarrow> t' q = t q"
  by (auto simp: root_remove_def remove_other split: if_splits)

text \<open>One change of the plan: it fails and leaves the entries that exist, or it is carried out.\<close>

lemma made_dirs:
  assumes "(if c then mkdir_all e d m t else Inr t) = Inr t1" and "t q \<noteq> None"
  shows "t1 q = t q"
  using assms mkdir_all_effect(3) [of e d m t t1 q] by (cases c) auto

lemma writeFiles_frame:
  assumes "writeFiles e chs pl t = (r, t')" and "t q \<noteq> None" and "q \<notin> fc_Path ` set chs"
  shows "t' q = t q"
  using assms
proof (induction chs arbitrary: t)
  case (Cons ch chs)
  have q: "q \<noteq> fc_Path ch" "q \<notin> fc_Path ` set chs" using Cons.prems(3) by auto
  have next': "t' q = t q" if "writeFiles e chs pl u = (r, t')" "u q = t q" for u
    using Cons.IH [OF that(1)] that(2) Cons.prems(2) q(2) by simp
  show ?case
  proof (cases "fc_Action ch = ActionRemove")
    case True
    then show ?thesis
      using Cons.prems(1) next' root_remove_other [OF _ q(1)] by (auto split: sum.splits io_error.splits)
  next
    case False
    then show ?thesis
      using Cons.prems(1,2) next' made_dirs [of "pathDir (fc_Path ch) \<noteq> []" e "pathDir (fc_Path ch)" "0x1E8" t]
        write_file_other [OF _ q(1)]
      by (simp split: option.splits sum.splits) (metis (no_types, lifting))+
  qed
qed simp

lemma write_file_mode:
  assumes "write_file e p c m t = Inr t'" and "t p = Some (FileN k c0)"
  shows "t' p = Some (FileN k c)"
  using assms by (auto simp: write_file_def split: if_splits)

lemma read_file_Inr: "read_file e t p = Inr c \<Longrightarrow> \<exists>k. t p = Some (FileN k c)"
  by (auto simp: read_file_def split: option.splits node.splits if_splits)

lemma applyCodemods_frame:
  assumes "applyCodemods e mods fs t = (r, t')" and "distinct (map Path fs)"
  shows "t' q = t q \<or>
    (\<exists>f\<in>set fs. app_source f \<and> Path f = q \<and>
       (\<exists>k c. t q = Some (FileN k c) \<and> t' q = Some (FileN k (fst (run_mods mods c)))))"
  using assms
proof (induction fs arbitrary: t)
  case (Cons f fs)
  show ?case
  proof (cases "applyCodemods e mods fs t = (r, t')")
    case True
    then show ?thesis using Cons.IH [OF True] Cons.prems(2) by auto
  next
    case False
    then show ?thesis
    proof (cases "t' = t")
      case False
      with \<open>applyCodemods e mods fs t \<noteq> (r, t')\<close> Cons.prems(1) obtain source text' hits t1 where
        f: "app_source f" "read_file e t (Path f) = Inr source" "run_mods mods source = (text', hits)"
          "write_file e (Path f) text' projectFileMode t = Inr t1" "applyCodemods e mods fs t1 = (r, t')"
        by (auto split: if_splits sum.splits io_error.splits prod.splits)
      obtain k where k: "t (Path f) = Some (FileN k source)" using read_file_Inr [OF f(2)] by blast
      note at = write_file_mode [OF f(4) k] and other = write_file_other [OF f(4)] and ih = Cons.IH [OF f(5)]
      show ?thesis
      proof (cases "q = Path f")
        case True
        then have "q \<notin> Path ` set fs" using Cons.prems(2) by simp
        then have "t' q = t1 q" using ih Cons.prems(2) by (auto simp: image_iff)
        then show ?thesis using True f(1,3) at k by auto
      next
        case q: False
        show ?thesis using ih Cons.prems(2) other [OF q] by auto
      qed
    qed auto
  qed
qed simp

lemma apply_manifests_frame:
  "apply_manifests e ms t = (r, t') \<Longrightarrow> q \<notin> fst ` set ms \<Longrightarrow> t' q = t q"
proof (induction ms arbitrary: t)
  case (Cons m ms)
  obtain name pins bump where m: "m = (name, pins, bump)" by (cases m)
  have q: "q \<noteq> name" "q \<notin> fst ` set ms" using Cons.prems(2) m by auto
  show ?case
    using Cons.prems(1) Cons.IH q write_file_other [OF _ q(1)]
    by (auto simp: m split: sum.splits io_error.splits prod.splits if_splits)
qed simp

lemma applyDependencies_frame:
  "applyDependencies e t = (r, t') \<Longrightarrow> q \<notin> {goModFileName, packageJSONFileName} \<Longrightarrow> t' q = t q"
  unfolding applyDependencies_def by (erule apply_manifests_frame) simp

lemma writeRecipe_frame: "writeRecipe e rcp t = (r, t') \<Longrightarrow> q \<noteq> FileName \<Longrightarrow> t' q = t q"
  by (auto simp: writeRecipe_def write_file_other split: sum.splits)

lemma steps_Cons_cases:
  assumes "steps (s # ss) t = (r, t')"
  obtains (stop) x where "s t = (Some x, t')" "r = Some x"
  | (go) t1 where "s t = (None, t1)" "steps ss t1 = (r, t')"
  using assms by (auto split: prod.splits option.splits)

lemma last_steps_frame:
  assumes "steps [applyDependencies e, writeRecipe e rcp] t = (r, t')"
    and "q \<notin> {goModFileName, packageJSONFileName}" and "q \<noteq> FileName"
  shows "t' q = t q"
  using assms(1)
proof (cases rule: steps_Cons_cases)
  case (stop x)
  then show ?thesis using applyDependencies_frame assms(2) by blast
next
  case (go t1)
  obtain r2 t2 where w: "writeRecipe e rcp t1 = (r2, t2)" by fastforce
  then have "t' = t2" using go(2) by (cases r2) auto
  then show ?thesis using applyDependencies_frame [OF go(1) assms(2)] writeRecipe_frame [OF w assms(3)] by simp
qed

section \<open>Application-owned entries\<close>

lemma planned_distinct: "planFiles eng emb e root t rcp = Inr planned \<Longrightarrow> distinct (map Path planned)"
  using Plan_facts by (auto simp: planFiles_def map_sum_def strict_sorted_iff split: sum.splits)

text \<open>The run behind an application that went past its plan.\<close>

lemma Apply_run:
  assumes "Apply eng emb e opts t = (r, t')" and "readRecipe e t = Inr current"
    and "planFiles eng emb e (U_Abs opts) t (target_recipe opts current) = Inr planned"
  obtains (kept) "t' = t"
      "(\<exists>x. Upgrade_Plan eng emb e opts t = Inl x) \<or> (\<exists>report. Upgrade_Plan eng emb e opts t = Inr report \<and> UpToDate report \<and> r = Inr report) \<or> \<not> carried e Open_root"
  | (ran) report x where "Upgrade_Plan eng emb e opts t = Inr report" "\<not> UpToDate report" "carried e Open_root"
      "steps [writeFiles e (Files report) (by_path planned), mods_step e opts current planned,
              applyDependencies e, writeRecipe e (target_recipe opts current)] t = (x, t')"
      "r = (case x of Some err \<Rightarrow> Inl err | None \<Rightarrow> Inr report)"
proof (cases "Upgrade_Plan eng emb e opts t")
  case (Inl x)
  then have "t' = t" using assms(1) by (simp add: Apply_def)
  then show ?thesis using kept Inl by blast
next
  case (Inr report)
  show ?thesis
  proof (cases "UpToDate report \<or> \<not> carried e Open_root")
    case True
    then show ?thesis using assms kept Inr by (auto simp: Apply_def split: if_splits)
  next
    case False
    obtain x t1 where st: "steps [writeFiles e (Files report) (by_path planned), mods_step e opts current planned,
        applyDependencies e, writeRecipe e (target_recipe opts current)] t = (x, t1)" by fastforce
    then have "(r, t') = (case x of Some err \<Rightarrow> Inl err | None \<Rightarrow> Inr report, t1)"
      using assms(1) False Inr assms(2,3) by (cases x) (simp_all add: Apply_def del: steps.simps)
    then show ?thesis using ran [OF Inr _ _ _ , of x] st False by auto
  qed
qed

lemma mods_step_frame:
  assumes "mods_step e opts current planned t = (r, t')" and "distinct (map Path planned)"
  shows "t' q = t q \<or>
    (U_Codemods opts \<and> (\<exists>f\<in>set planned. FOwner f = OwnerApp \<and> has_suffix q ''.go'' \<and> Path f = q) \<and>
     (\<exists>k c. t q = Some (FileN k c) \<and> t' q = Some (FileN k (fst (run_mods (chain_mods (chain_of opts current)) c)))))"
proof (cases "U_Codemods opts")
  case True
  then have "applyCodemods e (chain_mods (chain_of opts current)) planned t = (r, t')" using assms(1) by (simp add: mods_step_def)
  from applyCodemods_frame [OF this assms(2), of q] show ?thesis using True by (auto simp: app_source_def)
qed (use assms in \<open>simp add: mods_step_def\<close>)

lemma plan_files:
  assumes "Upgrade_Plan eng emb e opts t = Inr report" and "readRecipe e t = Inr current"
    and "planFiles eng emb e (U_Abs opts) t (target_recipe opts current) = Inr planned"
  shows "Files report = fileChanges e t planned (declaredRemovals (chain_of opts current))"
  using assms by (auto simp: Upgrade_Plan_def chain_of_def Let_def split: sum.splits prod.splits)

lemma fileChanges_paths:
  "fc_Path ` set (fileChanges e t planned removed) \<subseteq> {Path f | f. f \<in> set planned \<and> FOwner f = OwnerNise} \<union> set removed"
  by (auto simp: fileChanges_def Let_def file_change_def removal_def split: sum.splits io_error.splits if_splits)


section \<open>Nise-owned files\<close>

definition unremoved :: "string \<Rightarrow> FileChange list \<Rightarrow> bool" where
  "unremoved p chs \<longleftrightarrow> (\<forall>ch\<in>set chs. fc_Path ch = p \<longrightarrow> fc_Action ch \<noteq> ActionRemove)"

lemma writeFiles_keeps:
  assumes "writeFiles e chs pl t = (r, t')" and "t p = Some (FileN k (Content f))" and "pl p = Some f" and "unremoved p chs"
  shows "\<exists>k. t' p = Some (FileN k (Content f))"
  using assms(1,2,4)
proof (induction chs arbitrary: t k)
  case (Cons ch chs)
  have un: "unremoved p chs" "fc_Path ch = p \<Longrightarrow> fc_Action ch \<noteq> ActionRemove" using Cons.prems(3) by (auto simp: unremoved_def)
  note go = Cons.IH [OF _ _ un(1)]
  show ?case
  proof (cases "fc_Action ch = ActionRemove")
    case True
    then have "p \<noteq> fc_Path ch" using un(2) by blast
    then show ?thesis
      using Cons.prems(1,2) True go root_remove_other [of e "fc_Path ch" t _ p] by (auto split: sum.splits io_error.splits)
  next
    case False
    show ?thesis
    proof (cases "\<exists>g t1 t2. pl (fc_Path ch) = Some g \<and>
        (if pathDir (fc_Path ch) \<noteq> [] then mkdir_all e (pathDir (fc_Path ch)) 0x1E8 t else Inr t) = Inr t1 \<and>
        write_file e (fc_Path ch) (Content g) projectFileMode t1 = Inr t2 \<and> writeFiles e chs pl t2 = (r, t')")
      case True
      then obtain g t1 t2 where w: "pl (fc_Path ch) = Some g"
          "(if pathDir (fc_Path ch) \<noteq> [] then mkdir_all e (pathDir (fc_Path ch)) 0x1E8 t else Inr t) = Inr t1"
          "write_file e (fc_Path ch) (Content g) projectFileMode t1 = Inr t2" "writeFiles e chs pl t2 = (r, t')" by blast
      have t1: "t1 p = t p" using made_dirs [OF w(2), of p] Cons.prems(2) by simp
      have "\<exists>k. t2 p = Some (FileN k (Content f))"
      proof (cases "p = fc_Path ch")
        case True
        then show ?thesis using write_file_at [OF w(3)] w(1) assms(3) by simp
      next
        case False
        then show ?thesis using write_file_other [OF w(3), of p] t1 Cons.prems(2) by simp
      qed
      then show ?thesis using go [OF w(4)] by blast
    next
      case stop: False
      then have "t' p = t p"
        using Cons.prems(1,2) False made_dirs [of "pathDir (fc_Path ch) \<noteq> []" e "pathDir (fc_Path ch)" "0x1E8" t _ p]
        by (simp split: option.splits sum.splits)
      then show ?thesis using Cons.prems(2) by simp
    qed
  qed
qed auto

lemma writeFiles_Cons_done:
  assumes "writeFiles e (ch # chs) pl t = (None, t')"
  obtains u where "writeFiles e chs pl u = (None, t')"
    "fc_Action ch \<noteq> ActionRemove \<Longrightarrow> \<exists>f k. pl (fc_Path ch) = Some f \<and> u (fc_Path ch) = Some (FileN k (Content f))"
proof (cases "fc_Action ch = ActionRemove")
  case True
  then show ?thesis using assms that by (auto split: sum.splits io_error.splits)
next
  case False
  then obtain f t1 t2 where "pl (fc_Path ch) = Some f" "write_file e (fc_Path ch) (Content f) projectFileMode t1 = Inr t2"
      "writeFiles e chs pl t2 = (None, t')"
    using assms by (auto split: option.splits sum.splits)
  then show ?thesis using that [of t2] write_file_at by blast
qed

lemma writeFiles_done:
  assumes "writeFiles e chs pl t = (None, t')" and "ch \<in> set chs" and "unremoved (fc_Path ch) chs"
  shows "\<exists>f k. pl (fc_Path ch) = Some f \<and> t' (fc_Path ch) = Some (FileN k (Content f))"
  using assms
proof (induction chs arbitrary: t)
  case (Cons c chs)
  obtain u where u: "writeFiles e chs pl u = (None, t')"
    "fc_Action c \<noteq> ActionRemove \<Longrightarrow> \<exists>f k. pl (fc_Path c) = Some f \<and> u (fc_Path c) = Some (FileN k (Content f))"
    using writeFiles_Cons_done [OF Cons.prems(1)] by blast
  have un: "unremoved (fc_Path ch) chs" using Cons.prems(3) by (simp add: unremoved_def)
  show ?case
  proof (cases "ch \<in> set chs")
    case True
    then show ?thesis using Cons.IH [OF u(1)] un by blast
  next
    case False
    then have "ch = c" using Cons.prems(2) by simp
    then show ?thesis using u(2) writeFiles_keeps [OF u(1)] un Cons.prems(3) by (fastforce simp: unremoved_def)
  qed
qed simp

lemma by_path_planned: "distinct (map Path planned) \<Longrightarrow> f \<in> set planned \<Longrightarrow> by_path planned (Path f) = Some f"
  unfolding by_path_def by (intro map_of_is_SomeI) (auto simp: comp_def simp flip: rev_map)

lemma file_change_mem: "ch \<in> set (file_change e t f) \<Longrightarrow> fc_Path ch = Path f \<and> fc_Action ch \<noteq> ActionRemove"
  by (cases "read_file e t (Path f)") (auto simp: file_change_def split: io_error.splits if_splits)

text \<open>After the first step every Nise-owned planned file holds its planned content.\<close>

lemma owned_settled:
  assumes "writeFiles e (fileChanges e t planned removed) (by_path planned) t = (None, t')"
    and "distinct (map Path planned)" and f: "f \<in> set planned" "FOwner f = OwnerNise"
  shows "\<exists>k. t' (Path f) = Some (FileN k (Content f))"
proof -
  have un: "unremoved (Path f) (fileChanges e t planned removed)"
    using f by (auto simp: unremoved_def fileChanges_def Let_def file_change_def removal_def split: sum.splits io_error.splits if_splits)
  note pl = by_path_planned [OF assms(2) f(1)]
  show ?thesis
  proof (cases "file_change e t f = []")
    case True
    then have "read_file e t (Path f) = Inr (Content f)"
      by (auto simp: file_change_def split: sum.splits io_error.splits if_splits)
    then obtain k where "t (Path f) = Some (FileN k (Content f))" using read_file_Inr by blast
    then show ?thesis using writeFiles_keeps [OF assms(1) _ pl un] by blast
  next
    case False
    then obtain ch where ch: "ch \<in> set (file_change e t f)" "fc_Path ch = Path f"
      by (auto simp: file_change_def split: sum.splits io_error.splits if_splits)
    then have "ch \<in> set (fileChanges e t planned removed)" using f by (auto simp: fileChanges_def Let_def)
    then show ?thesis using writeFiles_done [OF assms(1)] ch(2) un pl by fastforce
  qed
qed

text \<open>
  C27: An upgrade that reports success has brought the project to its plan: every Nise-owned file the new
  version plans holds exactly its planned content, whether it was created, rewritten or already equal, and
  the recipe is the canonical encoding of the project's recipe at the new versions.
\<close>

theorem upgrade_completes:
  assumes "Apply eng emb e opts t = (Inr report, t')" and "\<not> UpToDate report" and "readRecipe e t = Inr current"
    and "planFiles eng emb e (U_Abs opts) t (target_recipe opts current) = Inr planned"
  shows "(\<forall>f\<in>set planned. FOwner f = OwnerNise \<and> Path f \<notin> {''nise.json'', ''go.mod'', ''frontend/package.json''} \<longrightarrow>
      (\<exists>k. t' (Path f) = Some (FileN k (Content f)))) \<and>
    (\<exists>k d. t' ''nise.json'' = Some (FileN k d) \<and> Marshal (target_recipe opts current) = Inr d)"
  using assms(1,3,4)
proof (cases rule: Apply_run)
  case (ran rep x)
  have x: "x = None" "rep = report" using ran(5) by (auto split: option.splits)
  obtain t1 t2 t3 where st: "writeFiles e (Files report) (by_path planned) t = (None, t1)"
    "mods_step e opts current planned t1 = (None, t2)" "applyDependencies e t2 = (None, t3)"
    "writeRecipe e (target_recipe opts current) t3 = (None, t')"
    using ran(4) x by (auto split: prod.splits option.splits)
  have dist: "distinct (map Path planned)" using planned_distinct [OF assms(4)] .
  have files: "Files report = fileChanges e t planned (declaredRemovals (chain_of opts current))"
    using plan_files [OF ran(1) assms(3,4)] x(2) by simp
  have "\<exists>k. t' (Path f) = Some (FileN k (Content f))"
    if f: "f \<in> set planned" "FOwner f = OwnerNise" "Path f \<notin> {''nise.json'', ''go.mod'', ''frontend/package.json''}" for f
  proof -
    obtain k where k: "t1 (Path f) = Some (FileN k (Content f))" using owned_settled [OF st(1) [unfolded files] dist f(1,2)] by blast
    have "\<not> (\<exists>g\<in>set planned. FOwner g = OwnerApp \<and> has_suffix (Path f) ''.go'' \<and> Path g = Path f)"
      using f(1,2) dist by (auto simp: distinct_map inj_on_def OwnerNise_def OwnerApp_def)
    then have "t2 (Path f) = t1 (Path f)" using mods_step_frame [OF st(2) dist, of "Path f"] by blast
    moreover have "t' (Path f) = t2 (Path f)"
      using f(3) applyDependencies_frame [OF st(3), of "Path f"] writeRecipe_frame [OF st(4), of "Path f"]
      by (simp add: goModFileName_def packageJSONFileName_def FileName_def)
    ultimately show ?thesis using k by simp
  qed
  moreover have "\<exists>k d. t' ''nise.json'' = Some (FileN k d) \<and> Marshal (target_recipe opts current) = Inr d"
    using st(4) write_file_at by (fastforce simp: writeRecipe_def FileName_def split: sum.splits)
  ultimately show ?thesis by blast
next
  case kept
  have "Upgrade_Plan eng emb e opts t = Inr report" using assms(1) by (auto simp: Apply_def split: sum.splits if_splits prod.splits option.splits)
  then show ?thesis using kept(2) assms by (auto simp: Apply_def split: if_splits)
qed

section \<open>When the recipe is written\<close>

lemma Options_Recipe_runtime:
  "Options_Recipe o1 = Inr r \<Longrightarrow> O_RuntimeVersion o1 \<noteq> [] \<Longrightarrow> runtimeVersion r = O_RuntimeVersion o1"
  by (auto simp: Options_Recipe_def Options_normalize_def Let_def split: sum.splits option.splits if_splits)

lemma runtime_target_not_Nil: "runtime_target opts \<noteq> []"
  by (simp add: runtime_target_def NiseModuleVersion_def)

lemma planned_recipe:
  assumes "planFiles eng emb e root t (target_recipe opts current) = Inr planned"
  shows "\<exists>f r. f \<in> set planned \<and> Path f = FileName \<and> FOwner f = OwnerNise \<and> Unmarshal (Content f) = Inr r \<and>
    runtimeVersion r = runtime_target opts"
proof -
  let ?o = "\<lparr>O_Name = projectName root, O_ModulePath = projectModulePath e t, O_Profile = profile (target_recipe opts current),
     O_Modules = modules (target_recipe opts current), O_CLIVersion = cliVersion (target_recipe opts current),
     O_RuntimeVersion = runtimeVersion (target_recipe opts current)\<rparr>"
  have "Plan eng emb ?o = Inr planned" using assms by (auto simp: planFiles_def map_sum_def split: sum.splits)
  from Plan_facts [OF this] obtain f r where f: "f \<in> set planned" "Path f = ''nise.json''" "FOwner f = OwnerNise"
    "Options_Recipe ?o = Inr r" "Unmarshal (Content f) = Inr (r\<lparr>modules := sort (modules r)\<rparr>)" by blast
  have "runtimeVersion r = runtime_target opts"
    using Options_Recipe_runtime [OF f(4)] runtime_target_not_Nil by (simp add: target_recipe_def)
  then show ?thesis using f by (auto simp: FileName_def intro!: exI [of _ f])
qed

text \<open>
  C30: The recipe is not written last.  It is one of the Nise-owned files of the first step, so once that step
  is through, an upgrade that then fails, in a codemod or in a dependency manifest, has already recorded
  itself: the recipe on disk names the target version, and the chain of migrations the next run computes
  from it is empty, so the codemods that did not run are never applied.
\<close>

theorem failed_upgrade_recorded:
  assumes "Apply eng emb e opts t = (Inl x, t')" and "Upgrade_Plan eng emb e opts t = Inr report"
    and "readRecipe e t = Inr current"
    and "planFiles eng emb e (U_Abs opts) t (target_recipe opts current) = Inr planned"
    and "carried e Open_root" and "carried e (Read_file ''nise.json'')"
    and "writeFiles e (Files report) (by_path planned) t = (None, t1)"
  shows "\<exists>r. readRecipe e t' = Inr r \<and> runtimeVersion r = runtime_target opts \<and>
    migration_path (runtimeVersion r) (runtime_target opts) (migrationTable opts) = ([], [])"
  using assms(1,3,4)
proof (cases rule: Apply_run)
  case (ran rep y)
  have rep: "rep = report" using ran(1) assms(2) by simp
  obtain f r where f: "f \<in> set planned" "Path f = FileName" "FOwner f = OwnerNise" "Unmarshal (Content f) = Inr r"
    "runtimeVersion r = runtime_target opts" using planned_recipe [OF assms(4)] by blast
  have dist: "distinct (map Path planned)" using planned_distinct [OF assms(4)] .
  obtain k where k: "t1 FileName = Some (FileN k (Content f))"
    using owned_settled [OF assms(7) [unfolded plan_files [OF assms(2,3,4)]] dist f(1,3)] f(2) by auto
  have same: "u FileName = t1 FileName" if "mods_step e opts current planned t1 = (z, u)" for z u
    using mods_step_frame [OF that dist, of FileName] by (auto simp: FileName_def has_suffix_def)
  have deps: "u FileName = v FileName" if "applyDependencies e v = (z, u)" for z u v
    using applyDependencies_frame [OF that, of FileName] by (simp add: FileName_def goModFileName_def packageJSONFileName_def)
  have "t' FileName = t1 FileName"
    using ran(4,5) assms(7) same deps unfolding rep
    by (simp add: writeRecipe_def split: prod.splits option.splits sum.splits) (metis prod.inject)+
  then have "readRecipe e t' = Inr r" using k f(4) assms(6) by (simp add: readRecipe_def read_file_def FileName_def)
  then show ?thesis using f(5) by (auto simp: migration_path_def)
next
  case kept
  then show ?thesis using assms by (auto simp: Apply_def split: if_splits)
qed

section \<open>A run that is carried out\<close>

definition last_elem :: "string \<Rightarrow> string" where
  "last_elem p = last (split_on (CHR ''/'') p)"

text \<open>Files stand where a file may and directories elsewhere.\<close>

definition shaped :: "tree \<Rightarrow> bool" where
  "shaped t \<longleftrightarrow> is_dir t ''.'' \<and> (\<forall>q k c. t q = Some (FileN k c) \<longrightarrow> file_elem (last_elem q) \<and> is_dir t (Dir q)) \<and>
     (\<forall>q. is_dir t q \<longrightarrow> q = ''.'' \<or> \<not> file_elem (last_elem q))"

lemma chain_dirs:
  assumes "plain_rel p" and "file_shaped p" and "d \<in> chain (Dir p)"
  shows "d = ''.'' \<or> \<not> file_elem (last_elem d)"
proof -
  obtain es where es: "es \<noteq> []" "\<forall>e\<in>set es. plain_elem e" "p = join ''/'' es" "split_on (CHR ''/'') p = es"
    using plain_relE [OF assms(1)] by metis
  have b: "\<forall>e\<in>set (butlast es). plain_elem e" using es(2) by (meson in_set_butlastD)
  have "d \<in> insert ''.'' (set (dirs_of (butlast es)))"
    using assms(3) chain_of_elems(1) [OF b] Dir_of_elems [OF es(1,2)] es(3) by simp
  moreover have "\<not> file_elem (last_elem (of_elems fs))" if "fs \<in> set (downs (butlast es))" for fs
  proof -
    have fs: "fs \<noteq> []" "set fs \<subseteq> set (butlast es)" using downs_facts [OF that] by blast+
    then have "\<forall>e\<in>set fs. plain_elem e" using b by blast
    then have "last_elem (of_elems fs) = last fs" using of_elems_plain(4) [OF fs(1)] by (simp add: last_elem_def)
    moreover have "last fs \<in> set (butlast es)" using fs last_in_set by blast
    ultimately show ?thesis using assms(2) es(4) by (simp add: file_shaped_def list_all_iff)
  qed
  ultimately show ?thesis by (auto simp: dirs_of_def)
qed

lemma mkdir_shaped:
  assumes "\<forall>d. carried e (Mkdir d)" and "shaped t" and "\<forall>p\<in>set ps. p = ''.'' \<or> \<not> file_elem (last_elem p)"
  shows "\<exists>t'. foldl (make_one e m) (Inr t) ps = Inr t' \<and> shaped t'"
  using assms(2,3)
proof (induction ps arbitrary: t)
  case (Cons p ps)
  have "\<exists>u. make_one e m (Inr t) p = Inr u \<and> shaped u"
  proof (cases "t p")
    case None
    then show ?thesis using assms(1) Cons.prems by (auto simp: make_one_def shaped_def is_dir_def)
  next
    case (Some n)
    have "\<not> (\<exists>k c. n = FileN k c)" using Cons.prems Some by (auto simp: shaped_def is_dir_def)
    then show ?thesis using Some Cons.prems(1) by (cases n) (auto simp: make_one_def)
  qed
  then obtain u where u: "make_one e m (Inr t) p = Inr u" "shaped u" by blast
  then show ?case using Cons.IH [OF u(2)] Cons.prems(2) by simp
qed simp

lemma dot_not_plain: "\<not> plain_rel ''.''"
  by (simp add: plain_rel_def plain_elem_def)

lemma write_shaped:
  assumes "p \<noteq> ''.''" and last: "file_elem (last_elem p)" and "shaped t" and "is_dir t (Dir p)" and "carried e (Write_file p)"
  shows "\<exists>t'. write_file e p c m t = Inr t' \<and> shaped t'"
proof -
  have nd: "\<not> is_dir t p" using assms(1,3) last by (auto simp: shaped_def)
  then obtain t' where w: "write_file e p c m t = Inr t'" using assms(4,5) by (auto simp: write_file_def)
  have "file_elem (last_elem q) \<and> is_dir t' (Dir q)" if "t' q = Some (FileN k d)" for q k d
    using that last assms(3,4) write_file_other [OF w, of q] write_file_dirs [OF w] by (cases "q = p") (auto simp: shaped_def)
  then have "shaped t'" using assms(3) write_file_dirs [OF w] by (auto simp: shaped_def)
  then show ?thesis using w by blast
qed

text \<open>The first step goes through when its calls are carried out and the tree is shaped like a project.\<close>

lemma writeFiles_ok:
  assumes "\<forall>d. carried e (Mkdir d)" and "shaped t"
    and "\<forall>ch\<in>set chs. fc_Action ch \<noteq> ActionRemove \<and> (\<exists>f. pl (fc_Path ch) = Some f) \<and> plain_rel (fc_Path ch) \<and>
           file_shaped (fc_Path ch) \<and> carried e (Write_file (fc_Path ch))"
  shows "\<exists>t'. writeFiles e chs pl t = (None, t') \<and> shaped t'"
  using assms(2,3)
proof (induction chs arbitrary: t)
  case (Cons ch chs)
  let ?p = "fc_Path ch"
  have ch: "fc_Action ch \<noteq> ActionRemove" "plain_rel ?p" "file_shaped ?p" "carried e (Write_file ?p)" using Cons.prems(2) by auto
  obtain f where f: "pl ?p = Some f" using Cons.prems(2) by auto
  obtain es where es: "es \<noteq> []" "\<forall>e\<in>set es. plain_elem e" "?p = join ''/'' es" using plain_relE [OF ch(2)] by metis
  have b: "\<forall>e\<in>set (butlast es). plain_elem e" using es(2) by (meson in_set_butlastD)
  have d: "Dir ?p = of_elems (butlast es)" using Dir_of_elems [OF es(1,2)] es(3) by simp
  have "\<exists>t1. (if pathDir ?p \<noteq> [] then mkdir_all e (pathDir ?p) 0x1E8 t else Inr t) = Inr t1 \<and> shaped t1 \<and> is_dir t1 (Dir ?p)"
  proof (cases "butlast es = []")
    case True
    then show ?thesis using Cons.prems(1) d by (simp add: pathDir_def of_elems_def shaped_def)
  next
    case False
    have "of_elems (butlast es) \<noteq> []"
    proof
      assume "of_elems (butlast es) = []"
      then have "[] \<in> set (butlast es)" using of_elems_plain(4) [OF False b] by (metis list.set_intros(1) split_on.simps(1))
      then show False using b by (auto simp: plain_elem_def)
    qed
    then have pd: "pathDir ?p = Dir ?p" "pathDir ?p \<noteq> []" using d of_elems_plain(2,3) [OF False b] by (auto simp: pathDir_def)
    have "\<forall>q\<in>set (map of_elems (prefixes_of (path_elems (Dir ?p)))). q = ''.'' \<or> \<not> file_elem (last_elem q)"
      using chain_dirs [OF ch(2,3)] by (auto simp: chain_def)
    then obtain t1 where t1: "mkdir_all e (Dir ?p) 0x1E8 t = Inr t1" "shaped t1"
      unfolding mkdir_all_def using mkdir_shaped [OF assms(1) Cons.prems(1)] by blast
    moreover have "is_dir t1 (Dir ?p)" using mkdir_all_effect(1) [OF t1(1)] chain_of_elems(2) [OF b] d by simp
    ultimately show ?thesis using pd by simp
  qed
  then obtain t1 where t1: "(if pathDir ?p \<noteq> [] then mkdir_all e (pathDir ?p) 0x1E8 t else Inr t) = Inr t1" "shaped t1" "is_dir t1 (Dir ?p)"
    by blast
  obtain t2 where t2: "write_file e ?p (Content f) projectFileMode t1 = Inr t2" "shaped t2"
    using write_shaped [OF _ _ t1(2,3) ch(4)] ch(2,3) dot_not_plain by (metis file_shaped_def last_elem_def)
  then show ?case using Cons.IH [OF t2(2)] Cons.prems(2) ch(1) f t1(1) by simp
qed simp

text \<open>Planning an upgrade succeeds on every project with a valid recipe.\<close>

lemma plain_app: "plain_name ''app''" "ValidateModulePath ''example.com/app'' = None"
proof -
  show "plain_name ''app''" by (simp add: plain_name_def goKeywords_def windowsDeviceNames_def name_char_def char_class_defs)
  show "ValidateModulePath ''example.com/app'' = None"
    by (simp add: ValidateModulePath_iff plain_path_def element_char_def char_class_defs)
qed

lemma projectName_valid: "ValidateName (projectName root) = None"
  using ValidateName_plain [OF plain_app(1)] by (auto simp: projectName_def split: option.splits)

lemma projectModulePath_valid: "ValidateModulePath (projectModulePath e t) = None"
proof -
  have "ValidateModulePath (module_line ls) = None" for ls
    using plain_app(2) by (induction ls) (auto simp: Let_def)
  then show ?thesis using plain_app(2) by (auto simp: projectModulePath_def split: sum.splits)
qed

lemma planFiles_ok:
  assumes "field_engine eng" and "\<And>d. templates_render eng emb d" and "recipe_ok rcp"
  shows "\<exists>planned. planFiles eng emb e root t rcp = Inr planned"
proof -
  let ?o = "\<lparr>O_Name = projectName root, O_ModulePath = projectModulePath e t, O_Profile = profile rcp,
     O_Modules = modules rcp, O_CLIVersion = cliVersion rcp, O_RuntimeVersion = runtimeVersion rcp\<rparr>"
  have ne: "projectModulePath e t \<noteq> []" using projectModulePath_valid [of e t] by (auto simp: ValidateModulePath_def)
  have rv: "runtimeVersion rcp \<noteq> []" using assms(3) by (simp add: recipe_ok_def version_ok_def)
  have pr: "profile rcp \<noteq> []" using assms(3) by (simp add: recipe_ok_def)
  obtain n where n: "Options_normalize ?o = Inr n" "O_CLIVersion n = cliVersion rcp" "O_RuntimeVersion n = runtimeVersion rcp"
    "O_Profile n = profile rcp" "O_Modules n = compact (sort (modules rcp))"
    using projectName_valid projectModulePath_valid ne rv pr by (simp add: Options_normalize_def Let_def)
  have "set (O_Modules n) \<subseteq> set Modules" "distinct (O_Modules n)"
    using assms(3) n(5) compact_props [of "sort (modules rcp)"] normalize_ok [OF n(1)] by (auto simp: recipe_ok_def options_ok_def)
  then have "Validate \<lparr>schemaVersion = SchemaVersion, profile = O_Profile n, modules = O_Modules n,
      cliVersion = O_CLIVersion n, runtimeVersion = O_RuntimeVersion n\<rparr> = None"
    using assms(3) n by (simp add: Validate_None recipe_ok_def SchemaVersion_def)
  then obtain r where "Options_Recipe ?o = Inr r" using n(1) by (simp add: Options_Recipe_def Let_def)
  then obtain files where "Plan eng emb ?o = Inr files" using Plan_succeeds [OF assms(1) n(1) _ assms(2)] by blast
  then show ?thesis by (simp add: planFiles_def)
qed

lemma find_codemods_ok:
  "\<forall>p. carried e (Read_file p) \<Longrightarrow> \<forall>f\<in>set fs. \<not> is_dir t (Path f) \<Longrightarrow> \<exists>cs. find_codemods e t mods fs = Inr cs"
  by (induction fs) (auto simp: read_file_def is_dir_def split: option.splits node.splits)

lemma planDependencies_ok:
  "\<forall>p. carried e (Read_file p) \<Longrightarrow> \<not> is_dir t goModFileName \<Longrightarrow> \<not> is_dir t packageJSONFileName \<Longrightarrow> \<exists>d. planDependencies e t = Inr d"
  by (auto simp: planDependencies_def read_file_def is_dir_def split: option.splits node.splits)

section \<open>A sample upgrade\<close>

definition old_recipe :: Recipe where
  "old_recipe = \<lparr>schemaVersion = 1, profile = ''go-chi-postgres-svelte'', modules = [], cliVersion = ''dev'', runtimeVersion = ''v0.0.9''\<rparr>"

definition old_tree :: tree where
  "old_tree = [''.'' \<mapsto> DirN DirMode, ''nise.json'' \<mapsto> FileN FileMode (case Marshal old_recipe of Inr d \<Rightarrow> d | Inl _ \<Rightarrow> []),
     ''go.mod'' \<mapsto> FileN FileMode ''golang.org/x/crypto v0.1.0'', ''LICENSE.md'' \<mapsto> FileN FileMode ''mine'']"

definition sample_upgrade :: UOptions where
  "sample_upgrade = \<lparr>U_Abs = None, U_CLIVersion = ''dev'', U_RuntimeVersion = [], U_Codemods = True, U_Migrations = None\<rparr>"

definition env_without :: "sys_call \<Rightarrow> env" where
  "env_without c = \<lparr>umask = 0, carried = \<lambda>d. d \<noteq> c\<rparr>"

lemma old_ok: "recipe_ok old_recipe" "recipe_ok (target_recipe sample_upgrade old_recipe)"
  by (simp_all add: old_recipe_def recipe_ok_def version_ok_def code_def target_recipe_def sample_upgrade_def
      runtime_target_def NiseModuleVersion_def)

lemma old_readRecipe: "c \<noteq> Read_file ''nise.json'' \<Longrightarrow> readRecipe (env_without c) old_tree = Inr old_recipe"
proof -
  assume c: "c \<noteq> Read_file ''nise.json''"
  obtain d where "Marshal old_recipe = Inr d" using Marshal_ok old_ok(1) by blast
  then show ?thesis
    using Unmarshal_Marshal [of old_recipe d] c
    by (simp add: readRecipe_def read_file_def old_tree_def env_without_def FileName_def) (simp add: old_recipe_def)
qed

lemma old_shaped: "shaped old_tree"
proof -
  have "Dir ''nise.json'' = ''.''" "Dir ''go.mod'' = ''.''" "Dir ''LICENSE.md'' = ''.''"
    by (simp_all add: Dir_def Clean_def clean_step_def)
  then show ?thesis by (auto simp: shaped_def old_tree_def is_dir_def last_elem_def file_elem_def split: if_splits)
qed

lemma old_dirs: "is_dir old_tree p \<Longrightarrow> p = ''.''"
  by (auto simp: old_tree_def is_dir_def split: if_splits)

lemma sample_chain: "migration_path (runtimeVersion old_recipe) (runtime_target sample_upgrade) (migrationTable sample_upgrade) = ([], [''v0.0.9''])"
  by (simp add: migration_path_def by_from_def old_recipe_def sample_upgrade_def runtime_target_def NiseModuleVersion_def
      migrationTable_def migrations_def)

text \<open>With at most one write to the module file refused, the sample upgrade gets through its first step.\<close>

lemma sample_run:
  assumes "c \<in> {Write_file ''go.mod'', Stat []}"
  obtains planned report t1 where
    "planFiles fill_engine (\<lambda>_. Some ''x'') (env_without c) None old_tree (target_recipe sample_upgrade old_recipe) = Inr planned"
    "Upgrade_Plan fill_engine (\<lambda>_. Some ''x'') (env_without c) sample_upgrade old_tree = Inr report"
    "\<not> UpToDate report"
    "writeFiles (env_without c) (Files report) (by_path planned) old_tree = (None, t1)" "shaped t1"
proof -
  let ?e = "env_without c"
  have rd: "\<forall>p. carried ?e (Read_file p)" "\<forall>p. carried ?e (Mkdir p)" "\<And>p. p \<noteq> ''go.mod'' \<Longrightarrow> carried ?e (Write_file p)"
    using assms by (auto simp: env_without_def)
  obtain planned where pl: "planFiles fill_engine (\<lambda>_. Some ''x'') ?e None old_tree (target_recipe sample_upgrade old_recipe) = Inr planned"
    using planFiles_ok [OF fill_engine_ok old_ok(2)] by blast
  obtain o1 where o1: "Plan fill_engine (\<lambda>_. Some ''x'') o1 = Inr planned"
    using pl by (auto simp: planFiles_def map_sum_def split: sum.splits)
  have shp: "\<forall>f\<in>set planned. plain_rel (Path f) \<and> file_shaped (Path f)" "distinct (map Path planned)"
    using plan_paths_plain [OF fill_engine_ok(1) o1] by blast+
  have nd: "\<forall>f\<in>set planned. \<not> is_dir old_tree (Path f)" using old_dirs dot_not_plain shp(1) by metis
  obtain deps dnotes where d: "planDependencies ?e old_tree = Inr (deps, dnotes)"
    using planDependencies_ok [OF rd(1), of old_tree] old_dirs by (force simp: goModFileName_def packageJSONFileName_def)
  obtain cs where cs: "planCodemods ?e old_tree planned [] = Inr cs"
    using find_codemods_ok [OF rd(1) nd, of "chain_mods []"] by (auto simp: planCodemods_def)
  have rr: "readRecipe ?e old_tree = Inr old_recipe" using old_readRecipe assms by auto
  obtain report where rep: "Upgrade_Plan fill_engine (\<lambda>_. Some ''x'') ?e sample_upgrade old_tree = Inr report" "\<not> UpToDate report"
    "Files report = fileChanges ?e old_tree planned []"
    using rr pl d cs sample_chain by (simp add: Upgrade_Plan_def Let_def declaredRemovals_def sample_upgrade_def)
  have "fc_Action ch \<noteq> ActionRemove \<and> (\<exists>f. by_path planned (fc_Path ch) = Some f) \<and> plain_rel (fc_Path ch) \<and>
      file_shaped (fc_Path ch) \<and> carried ?e (Write_file (fc_Path ch))" if mem: "ch \<in> set (Files report)" for ch
  proof -
    obtain f where f: "f \<in> set planned" "FOwner f = OwnerNise" "fc_Path ch = Path f" "fc_Action ch \<noteq> ActionRemove"
      using mem file_change_mem by (auto simp: rep(3) fileChanges_def Let_def)
    have "Path f \<noteq> ''go.mod''" using go_mod_owner [OF fill_engine_ok(1) o1 f(1)] f(2) by (auto simp: OwnerNise_def OwnerApp_def)
    then show ?thesis using f shp by_path_planned [OF shp(2) f(1)] rd(3) by simp
  qed
  then obtain t1 where "writeFiles ?e (Files report) (by_path planned) old_tree = (None, t1)" "shaped t1"
    using writeFiles_ok [OF rd(2) old_shaped, of "Files report" "by_path planned"] by blast
  then show ?thesis using that pl rep by blast
qed

text \<open>The remaining steps.\<close>

lemma no_mods: "\<forall>p. carried e (Read_file p) \<Longrightarrow> \<forall>f\<in>set fs. \<not> is_dir t (Path f) \<Longrightarrow> applyCodemods e [] fs t = (None, t)"
  by (induction fs) (auto simp: read_file_def is_dir_def split: option.splits node.splits)

lemma apply_manifests_ok:
  assumes "\<forall>p. carried e (Read_file p) \<and> carried e (Write_file p)" and "shaped t"
    and "\<forall>m\<in>set ms. fst m \<noteq> ''.'' \<and> file_elem (last_elem (fst m))"
  shows "\<exists>t'. apply_manifests e ms t = (None, t') \<and> shaped t'"
  using assms(2,3)
proof (induction ms arbitrary: t)
  case (Cons m ms)
  obtain name pins bump where m: "m = (name, pins, bump)" by (cases m)
  have name: "name \<noteq> ''.''" "file_elem (last_elem name)" using Cons.prems(2) m by auto
  note ih = Cons.IH [OF _ ballI]
  show ?case
  proof (cases "read_file e t name")
    case (Inl x)
    then have "x = Not_exist" using assms(1) Cons.prems(1) name by (auto simp: read_file_def shaped_def is_dir_def split: option.splits node.splits)
    then show ?thesis using Inl ih Cons.prems m by simp
  next
    case (Inr source)
    obtain bumped changes where b: "bump source pins = (bumped, changes)" by fastforce
    have "is_dir t (Dir name)" using read_file_Inr [OF Inr] Cons.prems(1) by (auto simp: shaped_def)
    then obtain t1 where "write_file e name bumped projectFileMode t = Inr t1" "shaped t1"
      using write_shaped [OF name Cons.prems(1)] assms(1) by blast
    then show ?thesis using Inr b ih Cons.prems m by (cases "changes = []") auto
  qed
qed simp

lemma shaped_planned:
  assumes "shaped t" and "plain_rel p" and "file_shaped p"
  shows "\<not> is_dir t p"
  using assms dot_not_plain by (auto simp: shaped_def file_shaped_def last_elem_def)

lemma sample_mods:
  assumes "\<forall>p. carried e (Read_file p)" and "shaped t" and "planFiles fill_engine (\<lambda>_. Some ''x'') e root u rcp = Inr planned"
  shows "mods_step e sample_upgrade old_recipe planned t = (None, t)"
proof -
  obtain o1 where "Plan fill_engine (\<lambda>_. Some ''x'') o1 = Inr planned"
    using assms(3) by (auto simp: planFiles_def map_sum_def split: sum.splits)
  from plan_paths_plain [OF fill_engine_ok(1) this] have "\<forall>f\<in>set planned. \<not> is_dir t (Path f)"
    using shaped_planned [OF assms(2)] by blast
  then show ?thesis using no_mods [OF assms(1)] sample_chain by (simp add: mods_step_def chain_of_def chain_mods_def)
qed

lemma sample_Apply:
  obtains report t' where
    "Apply fill_engine (\<lambda>_. Some ''x'') (env_without (Stat [])) sample_upgrade old_tree = (Inr report, t')" "\<not> UpToDate report"
proof -
  let ?e = "env_without (Stat [])"
  have all: "\<forall>p. carried ?e (Read_file p)" "\<forall>p. carried ?e (Read_file p) \<and> carried ?e (Write_file p)" "carried ?e Open_root"
    by (simp_all add: env_without_def)
  obtain planned report t1 where run:
    "planFiles fill_engine (\<lambda>_. Some ''x'') ?e None old_tree (target_recipe sample_upgrade old_recipe) = Inr planned"
    "Upgrade_Plan fill_engine (\<lambda>_. Some ''x'') ?e sample_upgrade old_tree = Inr report" "\<not> UpToDate report"
    "writeFiles ?e (Files report) (by_path planned) old_tree = (None, t1)" "shaped t1"
    by (rule sample_run [of "Stat []"]) auto
  obtain t2 where t2: "applyDependencies ?e t1 = (None, t2)" "shaped t2"
    using apply_manifests_ok [OF all(2) run(5), of "[(goModFileName, GoDependencies, bumpGoMod), (packageJSONFileName, frontend_pins, bumpPackageJSON)]"]
    by (auto simp: applyDependencies_def goModFileName_def packageJSONFileName_def last_elem_def file_elem_def)
  obtain d where d: "Marshal (target_recipe sample_upgrade old_recipe) = Inr d" using Marshal_ok old_ok(2) by blast
  have "Dir FileName = ''.''" by (simp add: FileName_def Dir_def Clean_def clean_step_def)
  then have "\<exists>t3. write_file ?e FileName d projectFileMode t2 = Inr t3 \<and> shaped t3"
    using t2(2) all(2) by (intro write_shaped) (simp_all add: FileName_def last_elem_def file_elem_def shaped_def)
  then obtain t3 where t3: "write_file ?e FileName d projectFileMode t2 = Inr t3" by blast
  have abs: "U_Abs sample_upgrade = None" by (simp add: sample_upgrade_def)
  have "Apply fill_engine (\<lambda>_. Some ''x'') ?e sample_upgrade old_tree = (Inr report, t3)"
    using run(1-4) all(3) old_readRecipe [of "Stat []"] sample_mods [OF all(1) run(5,1)] t2(1) t3 d
    by (simp add: Apply_def abs writeRecipe_def)
  then show ?thesis using that run(3) by blast
qed

theorem upgrade_completes_witness:
  "\<exists>report t' planned. Apply fill_engine (\<lambda>_. Some ''x'') (env_without (Stat [])) sample_upgrade old_tree = (Inr report, t') \<and>
     planFiles fill_engine (\<lambda>_. Some ''x'') (env_without (Stat [])) None old_tree (target_recipe sample_upgrade old_recipe) = Inr planned \<and>
     (\<exists>k d. t' ''nise.json'' = Some (FileN k d) \<and> Marshal (target_recipe sample_upgrade old_recipe) = Inr d)"
proof -
  obtain report t' where a: "Apply fill_engine (\<lambda>_. Some ''x'') (env_without (Stat [])) sample_upgrade old_tree = (Inr report, t')"
    "\<not> UpToDate report" by (rule sample_Apply)
  obtain planned where p: "planFiles fill_engine (\<lambda>_. Some ''x'') (env_without (Stat [])) (U_Abs sample_upgrade) old_tree (target_recipe sample_upgrade old_recipe) = Inr planned"
    using planFiles_ok [OF fill_engine_ok old_ok(2)] by blast
  have "readRecipe (env_without (Stat [])) old_tree = Inr old_recipe" by (rule old_readRecipe) simp
  from upgrade_completes [OF a this p] show ?thesis using a(1) p by (auto simp: sample_upgrade_def)
qed

theorem failed_upgrade_recorded_witness:
  "\<exists>x t' r. Apply fill_engine (\<lambda>_. Some ''x'') (env_without (Write_file ''go.mod'')) sample_upgrade old_tree = (Inl x, t') \<and>
     readRecipe (env_without (Write_file ''go.mod'')) old_tree = Inr old_recipe \<and> runtimeVersion old_recipe = ''v0.0.9'' \<and>
     readRecipe (env_without (Write_file ''go.mod'')) t' = Inr r \<and> runtimeVersion r = ''v0.1.0''"
proof -
  let ?e = "env_without (Write_file ''go.mod'')"
  have all: "\<forall>p. carried ?e (Read_file p)" "carried ?e Open_root" "carried ?e (Read_file ''nise.json'')"
    by (simp_all add: env_without_def)
  obtain planned report t1 where run:
    "planFiles fill_engine (\<lambda>_. Some ''x'') ?e None old_tree (target_recipe sample_upgrade old_recipe) = Inr planned"
    "Upgrade_Plan fill_engine (\<lambda>_. Some ''x'') ?e sample_upgrade old_tree = Inr report" "\<not> UpToDate report"
    "writeFiles ?e (Files report) (by_path planned) old_tree = (None, t1)" "shaped t1"
    by (rule sample_run [of "Write_file ''go.mod''"]) auto
  have rr: "readRecipe ?e old_tree = Inr old_recipe" by (rule old_readRecipe) simp
  have abs: "U_Abs sample_upgrade = None" by (simp add: sample_upgrade_def)
  note pl = run(1) [folded abs]
  obtain o1 where o1: "Plan fill_engine (\<lambda>_. Some ''x'') o1 = Inr planned"
    using run(1) by (auto simp: planFiles_def map_sum_def split: sum.splits)
  have "''go.mod'' \<notin> fc_Path ` set (Files report)"
    using fileChanges_paths [of ?e old_tree planned "[]"] go_mod_owner [OF fill_engine_ok(1) o1]
    unfolding plan_files [OF run(2) rr pl] by (auto simp: chain_of_def sample_chain declaredRemovals_def OwnerNise_def OwnerApp_def)
  then have "t1 ''go.mod'' = old_tree ''go.mod''" using writeFiles_frame [OF run(4), of "''go.mod''"] by (simp add: old_tree_def)
  then have mod: "t1 ''go.mod'' = Some (FileN FileMode ''golang.org/x/crypto v0.1.0'')" by (simp add: old_tree_def)
  have nw: "newer ''v0.54.0'' ''v0.1.0''"
    by (simp add: newer_def parseVersion_def has_prefix_def Let_def atoi_def is_digit_def code_def digits_val_def digit_val_def)
  have w: "want GoDependencies ''golang.org/x/crypto'' = Some ''v0.54.0''"
    by (simp add: want_def GoDependencies_def goDependencies_def XCryptoVersion_def)
  have "snd (bumpGoMod ''golang.org/x/crypto v0.1.0'' GoDependencies) \<noteq> []"
    using nw w by (simp add: bumpGoMod_def line_simps change_of_def target_of_def)
  then obtain bumped c cs where "bumpGoMod ''golang.org/x/crypto v0.1.0'' GoDependencies = (bumped, c # cs)"
    by (metis list.exhaust prod.collapse)
  then have dep: "applyDependencies ?e t1 = (Some (Upgrade_io (Failed (Write_file ''go.mod''))), t1)"
    using mod by (simp add: applyDependencies_def read_file_def goModFileName_def write_file_def env_without_def)
  have "Apply fill_engine (\<lambda>_. Some ''x'') ?e sample_upgrade old_tree = (Inl (Upgrade_io (Failed (Write_file ''go.mod''))), t1)"
    using run(2-4) pl all(2) rr sample_mods [OF all(1) run(5,1)] dep by (simp add: Apply_def)
  with failed_upgrade_recorded [OF this run(2) rr pl all(2,3) run(4)] rr show ?thesis
    by (auto simp: sample_upgrade_def runtime_target_def NiseModuleVersion_def old_recipe_def)
qed

text \<open>No template is written to a path with this initial.\<close>

lemma license_not_planned:
  assumes "Plan fill_engine emb o1 = Inr files" and "f \<in> set files"
  shows "Path f \<noteq> ''LICENSE.md''"
proof
  assume p: "Path f = ''LICENSE.md''"
  then obtain n t where t: "t \<in> set templateFiles" "is_selected n t" "out_path n t = ''LICENSE.md''"
    using plan_file_origin [OF fill_engine_ok(1) assms]
    by (auto simp: FileName_def AgentsFileName_def architecture_path_def ArchitectureDir_def)
  have heads: "list_all (\<lambda>t. hd (Output t) \<noteq> CHR ''L'') templateFiles"
    by (simp add: templateFiles_def templateFiles_1_def templateFiles_2_def templateFiles_3_def templateFiles_4_def templateFiles_5_def
        templateFiles_6_def templateFiles_7_def templateFiles_8_def templateFiles_9_def templateFiles_10_def templateFiles_11_def tf_def
        OpenAPIGeneratedPath_def OpenAPITypescriptGeneratedPath_def)
  show False
    using t(1,2)
  proof (cases rule: out_path_cases)
    case lit
    then show ?thesis using t(1,3) heads by (auto simp: out_path_def list_all_iff)
  qed (use t(3) in \<open>auto simp: out_path_def\<close>)
qed


section \<open>What the guards of a removal miss\<close>

text \<open>The parent of the project passes for a path inside it.\<close>

lemma parent_inside_project: "insideProject ''..''"
  by (simp add: insideProject_def has_prefix_def Clean_def clean_step_def)

text \<open>A declared removal that names an application-owned planned file is listed as one: only Nise-owned paths are held back.\<close>

lemma declared_removal_takes_application_file:
  assumes "distinct (map Path planned)" and "f \<in> set planned" and "FOwner f = OwnerApp"
    and "Path f \<in> set removed" and "insideProject (Path f)" and "t (Path f) \<noteq> None" and "carried e (Stat (Path f))"
  shows "\<lparr>fc_Path = Path f, fc_Action = ActionRemove\<rparr> \<in> set (fileChanges e t planned removed)"
proof -
  have "Path f \<notin> Path ` set (filter (\<lambda>f. FOwner f = OwnerNise) planned)"
    using assms(1-3) by (auto simp: distinct_map inj_on_def OwnerNise_def OwnerApp_def)
  then show ?thesis using assms(4-7) by (auto simp: fileChanges_def Let_def removal_def intro!: bexI [of _ "Path f"])
qed

end
