(* ===== verification/Feature.thy ===== *)
theory Feature
  imports Generator_Write
begin

text \<open>
  The slice generator behind \<open>nise generate\<close>: the derived names, the templates of a feature and of a
  resource, the plan with its manual insertions (\<open>internal/generator/feature/feature.go\<close>,
  \<open>plan.go\<close>), the reading of the project and the writing of the plan (\<open>write.go\<close>), and the command
  around them (\<open>internal/cli/generate.go\<close>, \<open>generatefeature.go\<close>).  The template engine and the
  embedded templates are parameters, as for the project generator; paths are relative to the project's
  root.  \<open>race\<close> is what other processes do to the tree between the check of a plan's paths and its
  writing, and \<open>kept p\<close> how many bytes reach the file at \<open>p\<close> when writing it fails.
\<close>

section \<open>Names\<close>

definition KindFeature :: string where "KindFeature = ''feature''"
definition KindResource :: string where "KindResource = ''resource''"

record Names =
  Singular :: string
  Plural :: string
  Type :: string
  Collection :: string
  Title :: string
  TitlePlural :: string
  Component :: string

datatype slice_error =
    Name_required
  | Not_canonical string
  | Module_path_required
  | Unknown_kind string
  | Migration_required int
  | Rendering plan_error
  | Exists "string list"
  | Not_a_project
  | Slice_io io_error

definition isVowel :: "char \<Rightarrow> bool" where
  "isVowel b \<longleftrightarrow> b \<in> set ''aeiou''"

definition Pluralize :: "string \<Rightarrow> string" where
  "Pluralize singular =
     (if singular = [] then []
      else if has_suffix singular ''s'' \<or> has_suffix singular ''x'' \<or> has_suffix singular ''z'' \<or>
              has_suffix singular ''ch'' \<or> has_suffix singular ''sh'' then singular @ ''es''
      else if has_suffix singular ''y'' \<and> length singular > 1 \<and> \<not> isVowel (singular ! (length singular - 2))
      then take (length singular - 1) singular @ ''ies''
      else singular @ ''s'')"

text \<open>
  Every byte of a canonical name is an ASCII letter or digit, so walking its bytes is walking its runes and
  \<open>strings.ToUpper\<close> of the first byte is the ASCII one.
\<close>

definition canonical_name :: "string \<Rightarrow> bool" where
  "canonical_name s \<longleftrightarrow> s \<noteq> [] \<and> is_lower (hd s) \<and> list_all (\<lambda>c. is_lower c \<or> is_digit c) (tl s)"

definition upper_first :: "string \<Rightarrow> string" where
  "upper_first s = map upper_char (take 1 s) @ drop 1 s"

definition NewNames :: "string \<Rightarrow> slice_error + Names" where
  "NewNames name =
     (if name = [] then Inl Name_required
      else if \<not> canonical_name name then Inl (Not_canonical name)
      else (let title = upper_first name; plural = Pluralize name in
            Inr \<lparr>Singular = name, Plural = plural, Type = title, Collection = title @ ''Collection'',
                 Title = title, TitlePlural = upper_first plural, Component = title\<rparr>))"

section \<open>Templates\<close>

record slice_options =
  S_Kind :: string
  S_Name :: string
  S_ModulePath :: string
  S_AppName :: string
  S_NextMigration :: int

record Insertion =
  I_File :: string
  Anchor :: string
  Snippet :: string

record slice_plan =
  Files :: "File list"
  Insertions :: "Insertion list"
  Commands :: "string list"
  P_Names :: Names

definition featureTemplates :: "(string \<times> string) list" where
  "featureTemplates =
     [(''internal/features/README.md.tmpl'', ''internal/features/{{.Singular}}/README.md''),
      (''internal/features/domain.go.tmpl'', ''internal/features/{{.Singular}}/domain.go''),
      (''internal/features/usecase.go.tmpl'', ''internal/features/{{.Singular}}/usecase.go''),
      (''internal/features/feature_test.go.tmpl'', ''internal/features/{{.Singular}}/{{.Singular}}_test.go'')]"

definition resourceTemplates :: "(string \<times> string) list" where
  "resourceTemplates =
     [(''internal/features/README.md.tmpl'', ''internal/features/{{.Singular}}/README.md''),
      (''internal/features/domain.go.tmpl'', ''internal/features/{{.Singular}}/domain.go''),
      (''internal/features/resource_usecase.go.tmpl'', ''internal/features/{{.Singular}}/usecase.go''),
      (''internal/features/resource_test.go.tmpl'', ''internal/features/{{.Singular}}/{{.Singular}}_test.go''),
      (''internal/features/sqlc.yaml.tmpl'', ''internal/features/{{.Singular}}/sqlc.yaml''),
      (''internal/features/queries/queries.sql.tmpl'', ''internal/features/{{.Singular}}/queries/{{.Singular}}.sql''),
      (''db/migrations/resource.sql.tmpl'', ''db/migrations/{{.Migration}}_{{.Plural}}.sql''),
      (''api/resource.yaml.tmpl'', ''api/{{.Singular}}.yaml''),
      (''internal/platform/httpapi/resource.go.tmpl'', ''internal/platform/httpapi/{{.Singular}}.go''),
      (''frontend/lib/features/api.ts.tmpl'', ''frontend/src/lib/features/{{.Singular}}/api.ts''),
      (''frontend/routes/form.svelte.tmpl'', ''frontend/src/lib/features/{{.Singular}}/{{.Component}}Form.svelte''),
      (''frontend/routes/list.svelte.tmpl'', ''frontend/src/routes/(app)/{{.Plural}}/+page.svelte''),
      (''frontend/routes/new.svelte.tmpl'', ''frontend/src/routes/(app)/{{.Plural}}/new/+page.svelte''),
      (''frontend/routes/detail.svelte.tmpl'', ''frontend/src/routes/(app)/{{.Plural}}/[id]/+page.svelte''),
      (''frontend/routes/edit.svelte.tmpl'', ''frontend/src/routes/(app)/{{.Plural}}/[id]/edit/+page.svelte''),
      (''frontend/lib/features/form.browser.test.ts.tmpl'',
         ''frontend/src/lib/features/{{.Singular}}/{{.Component}}Form.browser.test.ts''),
      (''internal/features/resource_integration_test.go.tmpl'',
         ''internal/features/{{.Singular}}/{{.Singular}}_integration_test.go''),
      (''internal/platform/httpapi/resource_test.go.tmpl'', ''internal/platform/httpapi/{{.Singular}}_test.go'')]"

definition slice_root :: string where "slice_root = ''feature''"

section \<open>Rendering\<close>

definition slice_normalize :: "string \<Rightarrow> string" where
  "slice_normalize b =
     (let t = trim_breaks (replace_crlf b) in if length t = 0 then nl else t @ nl)"

definition slice_renderString :: "engine \<Rightarrow> string \<Rightarrow> string \<Rightarrow> templateData \<Rightarrow> slice_error + string" where
  "slice_renderString eng name source d =
     (case eng name source d of None \<Rightarrow> Inl (Rendering (Template_failed name)) | Some s \<Rightarrow> Inr s)"

definition slice_render :: "engine \<Rightarrow> string \<Rightarrow> string \<Rightarrow> templateData \<Rightarrow> slice_error + string" where
  "slice_render eng name source d =
     (case slice_renderString eng name source d of Inl x \<Rightarrow> Inl x | Inr raw \<Rightarrow> Inr (slice_normalize raw))"

text \<open>\<open>%05d\<close> of an \<open>int\<close>: the sign counts towards the width.\<close>

definition pad5_int :: "int \<Rightarrow> string" where
  "pad5_int i =
     (if i < 0 then ''-'' @ replicate (4 - length (show_nat (nat (- i)))) (CHR ''0'') @ show_nat (nat (- i))
      else pad5 (nat i))"

text \<open>The fields a template sees; those of the embedded \<open>Names\<close> are promoted.\<close>

record slice_data =
  D_Names :: Names
  D_ModulePath :: string
  PermissionRead :: string
  PermissionManage :: string
  PermissionReadValue :: string
  PermissionManageValue :: string
  Migration :: string
  D_AppName :: string

definition slice_fields :: "slice_data \<Rightarrow> templateData" where
  "slice_fields d =
     [(''Singular'', TStr (Singular (D_Names d))), (''Plural'', TStr (Plural (D_Names d))),
      (''Type'', TStr (Type (D_Names d))), (''Collection'', TStr (Collection (D_Names d))),
      (''Title'', TStr (Title (D_Names d))), (''TitlePlural'', TStr (TitlePlural (D_Names d))),
      (''Component'', TStr (Component (D_Names d))), (''ModulePath'', TStr (D_ModulePath d)),
      (''PermissionRead'', TStr (PermissionRead d)), (''PermissionManage'', TStr (PermissionManage d)),
      (''PermissionReadValue'', TStr (PermissionReadValue d)),
      (''PermissionManageValue'', TStr (PermissionManageValue d)), (''Migration'', TStr (Migration d)),
      (''AppName'', TStr (D_AppName d))]"

fun render_slice :: "engine \<Rightarrow> embedded \<Rightarrow> templateData \<Rightarrow> (string \<times> string) list \<Rightarrow> slice_error + File list" where
  "render_slice eng emb d [] = Inr []"
| "render_slice eng emb d ((template, output) # ts) =
     (case emb (slice_root @ ''/'' @ template) of
        None \<Rightarrow> Inl (Rendering (No_template template))
      | Some source \<Rightarrow>
          (case slice_render eng template source d of
             Inl x \<Rightarrow> Inl x
           | Inr content \<Rightarrow>
               (case slice_renderString eng (template @ '' (output path)'') output d of
                  Inl x \<Rightarrow> Inl x
                | Inr outPath \<Rightarrow>
                    (case render_slice eng emb d ts of
                       Inl x \<Rightarrow> Inl x
                     | Inr files \<Rightarrow> Inr (\<lparr>Path = outPath, Content = content, FOwner = OwnerApp\<rparr> # files)))))"

section \<open>Insertions\<close>

definition tab :: string where "tab = [CHR 0x09]"

text \<open>\<open>%q\<close> of a permission name, which has only letters, digits and a dot, puts it between quotes.\<close>

definition quote :: "string \<Rightarrow> string" where
  "quote s = [CHR 0x22] @ s @ [CHR 0x22]"

definition shared_insertions :: "slice_data \<Rightarrow> Insertion list" where
  "shared_insertions d =
     (let n = D_Names d in
      [\<lparr>I_File = ''internal/platform/authorization/catalog.go'',
        Anchor = ''the permission block, the permissions() list, and the administrator role'',
        Snippet =
          ''// '' @ PermissionRead d @ '' permits reading '' @ Plural n @ ''.'' @ nl @
          PermissionRead d @ '' = authz.MustPermission('' @ quote (PermissionReadValue d) @ '')'' @ nl @
          ''// '' @ PermissionManage d @ '' permits creating, changing, and removing them.'' @ nl @
          PermissionManage d @ '' = authz.MustPermission('' @ quote (PermissionManageValue d) @ '')''\<rparr>,
       \<lparr>I_File = ''internal/app/app.go'',
        Anchor = ''beside the other use-case constructors, before the API adapter is built'',
        Snippet =
          Plural n @ '', err := '' @ Singular n @ ''.New'' @ TitlePlural n @ ''(transactor)'' @ nl @
          ''if err != nil {'' @ nl @
          tab @ ''return fmt.Errorf('' @ quote (''building the '' @ Singular n @ '' use case: %w'') @ '', err)'' @ nl @
          ''}''\<rparr>,
       \<lparr>I_File = ''internal/app/app.go'',
        Anchor = ''the import block'',
        Snippet = quote (D_ModulePath d @ ''/internal/features/'' @ Singular n)\<rparr>])"

definition resource_insertions :: "slice_data \<Rightarrow> Insertion list" where
  "resource_insertions d =
     (let n = D_Names d in
      [\<lparr>I_File = ''api/openapi.yaml'',
        Anchor = ''paths: and components.schemas:'',
        Snippet =
          ''Merge api/'' @ Singular n @ ''.yaml into it: its paths: entries under paths:, and its'' @ nl @
          ''components.schemas: entries under components.schemas:. Every $ref in the'' @ nl @
          ''fragment is already written to resolve once merged. Delete the fragment'' @ nl @
          ''afterwards '' @ em_dash @ '' openapi.yaml stays the single authoritative document, and a'' @ nl @
          ''second file that generated code also read would be a second contract to'' @ nl @
          ''keep in step.''\<rparr>,
       \<lparr>I_File = ''internal/platform/httpapi/api.go'',
        Anchor = ''the Server struct, the ServerDeps struct, and NewServer'' @ [CHR 0x27] @ ''s nil check and assignment'',
        Snippet =
          ''// in Server:'' @ nl @
          tab @ Plural n @ '' *'' @ Singular n @ ''.'' @ TitlePlural n @ nl @
          ''// in ServerDeps:'' @ nl @
          tab @ ''// '' @ TitlePlural n @ '' is the '' @ Singular n @ '' use case.'' @ nl @
          tab @ TitlePlural n @ '' *'' @ Singular n @ ''.'' @ TitlePlural n @ nl @
          ''// in NewServer'' @ [CHR 0x27] @ ''s switch, beside the other required dependencies:'' @ nl @
          tab @ ''case deps.'' @ TitlePlural n @ '' == nil:'' @ nl @
          tab @ tab @ ''return nil, errors.New('' @ quote (''httpapi: the '' @ Singular n @ '' use case is required'') @ '')'' @ nl @
          ''// and in the returned &Server{...}:'' @ nl @
          tab @ Plural n @ '': deps.'' @ TitlePlural n @ '',''\<rparr>,
       \<lparr>I_File = ''internal/app/app.go'',
        Anchor = ''the httpapi.ServerDeps literal'',
        Snippet = TitlePlural n @ '': '' @ Plural n @ '',''\<rparr>,
       \<lparr>I_File = ''internal/platform/httpapi/api_test.go'',
        Anchor = ''testServerDeps, beside the other dependencies'',
        Snippet =
          TitlePlural n @ '': &'' @ Singular n @ ''.'' @ TitlePlural n @ ''{},'' @ nl @ nl @
          ''// NewServer refuses a missing dependency, which is what makes a half-wired'' @ nl @
          ''// surface a startup failure rather than a nil dereference on the first'' @ nl @
          ''// request '' @ em_dash @ '' so the project'' @ [CHR 0x27] @ ''s own test helper has to supply this one too.''\<rparr>])"

definition insertions :: "slice_data \<Rightarrow> Insertion list" where
  "insertions d =
     (if Migration d = [] then shared_insertions d else shared_insertions d @ resource_insertions d)"

definition commands :: "string \<Rightarrow> string list" where
  "commands kind =
     (if kind \<noteq> KindResource then []
      else
        [''make sqlc-generate     # write internal/features/*/store from the SQL above'',
         ''make api-generate      # regenerate the strict bindings from the contract'',
         ''make api-types-generate # regenerate the frontend'' @ [CHR 0x27] @ ''s models from the same'',
         ''make migration-test    # apply the new migration against a disposable database''])"

definition Insertion_String :: "Insertion \<Rightarrow> string" where
  "Insertion_String i =
     I_File i @ nl @ ''  '' @ Anchor i @ nl @ nl @
     concat (map (\<lambda>line. ''    '' @ line @ nl) (split_on (CHR 0x0A) (Snippet i)))"

section \<open>The plan\<close>

definition slice_data_of :: "slice_options \<Rightarrow> Names \<Rightarrow> slice_data" where
  "slice_data_of opts names =
     \<lparr>D_Names = names, D_ModulePath = S_ModulePath opts,
      PermissionRead = TitlePlural names @ ''Read'', PermissionManage = TitlePlural names @ ''Manage'',
      PermissionReadValue = Plural names @ ''.read'', PermissionManageValue = Plural names @ ''.manage'',
      Migration = pad5_int (S_NextMigration opts), D_AppName = S_AppName opts\<rparr>"

definition NewPlan :: "engine \<Rightarrow> embedded \<Rightarrow> slice_options \<Rightarrow> slice_error + slice_plan" where
  "NewPlan eng emb opts =
     (case NewNames (S_Name opts) of
        Inl x \<Rightarrow> Inl x
      | Inr names \<Rightarrow>
          if S_ModulePath opts = [] then Inl Module_path_required
          else if S_Kind opts \<noteq> KindFeature \<and> S_Kind opts \<noteq> KindResource then Inl (Unknown_kind (S_Kind opts))
          else if S_Kind opts = KindResource \<and> S_NextMigration opts < 1
          then Inl (Migration_required (S_NextMigration opts))
          else
            (let sources = (if S_Kind opts = KindResource then resourceTemplates else featureTemplates);
                 data = slice_data_of opts names
             in case render_slice eng emb (slice_fields data) sources of
                  Inl x \<Rightarrow> Inl x
                | Inr rendered \<Rightarrow>
                    (let files = sort_key Path rendered in
                     case adjacent_duplicate files of
                       Some p \<Rightarrow> Inl (Rendering (Duplicate_output p))
                     | None \<Rightarrow>
                         Inr \<lparr>Files = files, Insertions = insertions data, Commands = commands (S_Kind opts),
                              P_Names = names\<rparr>)))"

end
