(* ===== verification/Feature_Write.thy ===== *)
theory Feature_Write
  imports Feature
begin

text \<open>
  Reading the project a slice is generated into and writing the slice, from
  \<open>internal/generator/feature/write.go\<close>, and the command: \<open>internal/cli/generate.go\<close> and
  \<open>generatefeature.go\<close>.
\<close>

section \<open>Writing a plan\<close>

text \<open>
  \<open>os.Stat\<close>: an entry below a file is a failure other than \<open>ErrNotExist\<close> (the system reports that a
  path element is not a directory).
\<close>

definition is_file :: "tree \<Rightarrow> string \<Rightarrow> bool" where
  "is_file t p = (case t p of Some (FileN _ _) \<Rightarrow> True | _ \<Rightarrow> False)"

definition above :: "string \<Rightarrow> string list" where
  "above p = map of_elems (prefixes_of (path_elems (Dir p)))"

definition stat_path :: "env \<Rightarrow> tree \<Rightarrow> string \<Rightarrow> io_error option" where
  "stat_path e t p =
     (if \<not> carried e (Stat p) then Some (Failed (Stat p))
      else if t p \<noteq> None then None
      else if list_ex (is_file t) (above p) then Some (Failed (Stat p))
      else Some Not_exist)"

fun existing_paths :: "env \<Rightarrow> tree \<Rightarrow> File list \<Rightarrow> io_error + string list" where
  "existing_paths e t [] = Inr []"
| "existing_paths e t (f # fs) =
     (case stat_path e t (Path f) of
        None \<Rightarrow> map_sum id (Cons (Path f)) (existing_paths e t fs)
      | Some Not_exist \<Rightarrow> existing_paths e t fs
      | Some x \<Rightarrow> Inl x)"

text \<open>
  \<open>makeDirs\<close>: an entry that is already there is kept with its mode, whatever it is; a new directory gets
  the fixed mode.  \<open>current\<close> holds the elements walked so far.
\<close>

fun makeDirs :: "env \<Rightarrow> string list \<Rightarrow> string list \<Rightarrow> tree \<Rightarrow> io_error option \<times> tree" where
  "makeDirs e current [] t = (None, t)"
| "makeDirs e current (part # parts) t =
     (if part = ''.'' \<or> part = [] then makeDirs e current parts t
      else
        (let p = of_elems (current @ [part]) in
         if \<not> carried e (Mkdir p) then (Some (Failed (Mkdir p)), t)
         else if t p \<noteq> None then makeDirs e (current @ [part]) parts t
         else if \<not> is_dir t (Dir p) then (Some (Failed (Mkdir p)), t)
         else
           (let t1 = t(p \<mapsto> DirN (DirMode AND NOT (umask e))) in
            case chmod e p DirMode t1 of
              Inl x \<Rightarrow> (Some x, t1)
            | Inr t2 \<Rightarrow> makeDirs e (current @ [part]) parts t2)))"

text \<open>\<open>os.OpenFile\<close> with \<open>O_EXCL\<close>, then the write, the mode and the close of the handle; all three happen.\<close>

definition create_file :: "env \<Rightarrow> (string \<Rightarrow> nat) \<Rightarrow> File \<Rightarrow> tree \<Rightarrow> slice_error option \<times> tree" where
  "create_file e kept f t =
     (let p = Path f in
      if \<not> carried e (Create_file p) then (Some (Slice_io (Failed (Create_file p))), t)
      else if t p \<noteq> None then (Some (Exists [p]), t)
      else if \<not> is_dir t (Dir p) then (Some (Slice_io (Failed (Create_file p))), t)
      else
        (let content = (if carried e (Write_handle p) then Content f else take (kept p) (Content f));
             m = (if carried e (Chmod p) then FileMode else FileMode AND NOT (umask e));
             t1 = t(p \<mapsto> FileN m content)
         in if \<not> carried e (Write_handle p) then (Some (Slice_io (Failed (Write_handle p))), t1)
            else if \<not> carried e (Chmod p) then (Some (Slice_io (Failed (Chmod p))), t1)
            else if \<not> carried e (Close_file p) then (Some (Slice_io (Failed (Close_file p))), t1)
            else (None, t1)))"

fun write_slice :: "env \<Rightarrow> (string \<Rightarrow> nat) \<Rightarrow> File list \<Rightarrow> string list \<Rightarrow> tree \<Rightarrow> slice_error option \<times> string list \<times> tree" where
  "write_slice e kept [] written t = (None, written, t)"
| "write_slice e kept (f # fs) written t =
     (case makeDirs e [] (split_on (CHR ''/'') (Dir (Path f))) t of
        (Some x, t1) \<Rightarrow> (Some (Slice_io x), written, t1)
      | (None, t1) \<Rightarrow>
          (case create_file e kept f t1 of
             (Some x, t2) \<Rightarrow> (Some x, written, t2)
           | (None, t2) \<Rightarrow> write_slice e kept fs (written @ [Path f]) t2))"

definition slice_Write ::
    "env \<Rightarrow> (string \<Rightarrow> nat) \<Rightarrow> (tree \<Rightarrow> tree) \<Rightarrow> slice_plan \<Rightarrow> tree \<Rightarrow> slice_error option \<times> string list \<times> tree" where
  "slice_Write e kept race plan t =
     (case existing_paths e t (Files plan) of
        Inl x \<Rightarrow> (Some (Slice_io x), [], t)
      | Inr existing \<Rightarrow>
          if existing \<noteq> [] then (Some (Exists (sort existing)), [], t)
          else write_slice e kept (Files plan) [] (race t))"

section \<open>Reading the project\<close>

text \<open>\<open>strings.Fields\<close>: the maximal runs of bytes at which no white-space rune starts.\<close>

fun span_word :: "string \<Rightarrow> string \<times> string" where
  "span_word [] = ([], [])"
| "span_word (c # cs) =
     (if leading_space (c # cs) \<noteq> None then ([], c # cs)
      else (let (w, r) = span_word cs in (c # w, r)))"

lemma span_word_append: "span_word s = (w, r) \<Longrightarrow> s = w @ r"
  by (induction s arbitrary: w r) (auto split: if_splits prod.splits)

lemma trim_left_facts: "leading_space (trim_left s) = None \<and> length (trim_left s) \<le> length s"
proof (induction s rule: trim_left.induct)
  case (1 s)
  then show ?case
    by (subst (1 2) trim_left.simps) (auto split: option.splits dest: leading_space_shorter)
qed

function Fields :: "string \<Rightarrow> string list" where
  "Fields s =
     (let u = trim_left s in
      if u = [] then [] else (let (w, r) = span_word u in w # Fields r))"
  by pat_completeness auto
termination
proof (relation "measure length", simp, goal_cases)
  case (1 s u x w r)
  then obtain c cs where u: "trim_left s = c # cs" by (cases "trim_left s") auto
  with 1 trim_left_facts [of s] have "w \<noteq> []" "length (w @ r) \<le> length s"
    using span_word_append [of "trim_left s" w r] by (auto split: prod.splits)
  then show ?case by (cases w) auto
qed

declare Fields.simps [simp del]

fun module_line :: "string list \<Rightarrow> string option" where
  "module_line [] = None"
| "module_line (raw # ls) =
     (case Fields (trim_space raw) of
        [k, v] \<Rightarrow> if k = ''module'' then Some v else module_line ls
      | _ \<Rightarrow> module_line ls)"

definition ModulePathOf :: "env \<Rightarrow> tree \<Rightarrow> slice_error + string" where
  "ModulePathOf e t =
     (case read_file e t ''go.mod'' of
        Inl _ \<Rightarrow> Inl Not_a_project
      | Inr data \<Rightarrow>
          (case module_line (split_on (CHR 0x0A) data) of None \<Rightarrow> Inl Not_a_project | Some m \<Rightarrow> Inr m))"

text \<open>
  The entries of \<open>db/migrations\<close> are a parameter (\<open>None\<close> when the directory cannot be read): the name of
  each and whether it is a directory.  \<open>highest + 1\<close> wraps at 64 bits.
\<close>

definition migration_number :: "string \<times> bool \<Rightarrow> int option" where
  "migration_number ent =
     (if snd ent \<or> \<not> has_suffix (fst ent) ''.sql'' then None
      else (case cut (CHR ''_'') (fst ent) of None \<Rightarrow> None | Some (prefix, _) \<Rightarrow> atoi prefix))"

definition highest_of :: "(string \<times> bool) list \<Rightarrow> int" where
  "highest_of ents =
     foldl (\<lambda>h ent. case migration_number ent of None \<Rightarrow> h | Some v \<Rightarrow> if v > h then v else h) 0 ents"

definition NextMigrationVersion :: "(string \<times> bool) list option \<Rightarrow> slice_error + int" where
  "NextMigrationVersion dir =
     (case dir of
        None \<Rightarrow> Inl Not_a_project
      | Some ents \<Rightarrow> if highest_of ents = 0 then Inl Not_a_project else Inr (wrap64 (highest_of ents + 1)))"

section \<open>The command\<close>

definition resourceNameRE :: rx where
  "resourceNameRE = Cat (Cls (\<lambda>c. is_upper c \<or> is_lower c)) (Rep (Cls (\<lambda>c. is_upper c \<or> is_lower c \<or> is_digit c)))"

definition maxResourceNameLen :: nat where "maxResourceNameLen = 64"

definition reservedResourceNames :: "string list" where
  "reservedResourceNames =
     [''break'', ''case'', ''chan'', ''const'', ''continue'',
      ''default'', ''defer'', ''else'', ''fallthrough'', ''for'',
      ''func'', ''go'', ''goto'', ''if'', ''import'',
      ''interface'', ''map'', ''package'', ''range'', ''return'',
      ''select'', ''struct'', ''switch'', ''type'', ''var'',
      ''auth'', ''authz'', ''audit'',
      ''util'', ''common'', ''shared'', ''pkg'',
      ''store'', ''openapigen'', ''embedded'',
      ''con'', ''prn'', ''aux'', ''nul'',
      ''com1'', ''com2'', ''com3'', ''com4'', ''com5'',
      ''com6'', ''com7'', ''com8'', ''com9'',
      ''lpt1'', ''lpt2'', ''lpt3'', ''lpt4'', ''lpt5'',
      ''lpt6'', ''lpt7'', ''lpt8'', ''lpt9'']"

datatype name_refusal = Name_empty | Name_too_long | Name_malformed | Name_reserved string

text \<open>A name that matches is ASCII, so \<open>strings.ToLower\<close> of it is the ASCII one.\<close>

definition ValidateResourceName :: "string \<Rightarrow> name_refusal + string" where
  "ValidateResourceName name =
     (if name = [] then Inl Name_empty
      else if length name > maxResourceNameLen then Inl Name_too_long
      else if \<not> matches resourceNameRE name then Inl Name_malformed
      else (let lower = map lower_char name in
            if lower \<in> set reservedResourceNames then Inl (Name_reserved lower) else Inr lower))"

definition generateSlice ::
    "engine \<Rightarrow> embedded \<Rightarrow> env \<Rightarrow> (string \<Rightarrow> nat) \<Rightarrow> (tree \<Rightarrow> tree) \<Rightarrow> (string \<times> bool) list option \<Rightarrow> string \<Rightarrow>
     string \<Rightarrow> string \<Rightarrow> tree \<Rightarrow> (slice_error + slice_plan) \<times> tree" where
  "generateSlice eng emb e kept race migrations root name kind t =
     (case ModulePathOf e t of
        Inl x \<Rightarrow> (Inl x, t)
      | Inr modulePath \<Rightarrow>
          (case (if kind = KindResource then NextMigrationVersion migrations else Inr 0) of
             Inl x \<Rightarrow> (Inl x, t)
           | Inr next' \<Rightarrow>
               (case NewPlan eng emb \<lparr>S_Kind = kind, S_Name = name, S_ModulePath = modulePath,
                       S_AppName = Base (Clean root), S_NextMigration = next'\<rparr> of
                  Inl x \<Rightarrow> (Inl x, t)
                | Inr plan \<Rightarrow>
                    (case slice_Write e kept race plan t of
                       (Some x, _, t') \<Rightarrow> (Inl x, t')
                     | (None, _, t') \<Rightarrow> (Inr plan, t')))))"

text \<open>What the command reports: a usage error, one of the three renderings of a failure, or the plan.\<close>

datatype generate_report =
    Wrong_arguments nat
  | Invalid_name name_refusal
  | No_working_directory
  | Already_exists string string "string list"
  | Not_a_project_root
  | Could_not_generate string string slice_error
  | Created string string slice_plan

definition renderGenerateError :: "string \<Rightarrow> string \<Rightarrow> slice_error \<Rightarrow> generate_report" where
  "renderGenerateError kind name x =
     (case x of
        Exists paths \<Rightarrow> Already_exists kind name paths
      | Not_a_project \<Rightarrow> Not_a_project_root
      | _ \<Rightarrow> Could_not_generate kind name x)"

definition generateRun ::
    "engine \<Rightarrow> embedded \<Rightarrow> env \<Rightarrow> (string \<Rightarrow> nat) \<Rightarrow> (tree \<Rightarrow> tree) \<Rightarrow> (string \<times> bool) list option \<Rightarrow> string option \<Rightarrow>
     string \<Rightarrow> string list \<Rightarrow> tree \<Rightarrow> generate_report \<times> tree" where
  "generateRun eng emb e kept race migrations wd kind args t =
     (case args of
        [arg] \<Rightarrow>
          (case ValidateResourceName arg of
             Inl x \<Rightarrow> (Invalid_name x, t)
           | Inr name \<Rightarrow>
               (case wd of
                  None \<Rightarrow> (No_working_directory, t)
                | Some root \<Rightarrow>
                    (case generateSlice eng emb e kept race migrations root name kind t of
                       (Inl x, t') \<Rightarrow> (renderGenerateError kind name x, t')
                     | (Inr plan, t') \<Rightarrow> (Created kind name plan, t'))))
      | _ \<Rightarrow> (Wrong_arguments (length args), t))"

text \<open>The terminal rendering of a plan; \<open>%q\<close> of a validated name puts it between quotes.\<close>

definition Human :: "string \<Rightarrow> string \<Rightarrow> slice_plan \<Rightarrow> string" where
  "Human kind name plan =
     ''Created '' @ kind @ '' '' @ quote name @ '' '' @ em_dash @ '' '' @ show_nat (length (Files plan)) @ '' files'' @ nl @
     concat (map (\<lambda>f. ''  '' @ Path f @ nl) (Files plan)) @
     (if Insertions plan = [] then []
      else
        nl @ ''Now add these, in this order. nise does not edit files it did not'' @ nl @
        ''write, so every change to a file you own stays in your own diff.'' @ nl @ nl @
        concat (map (\<lambda>i. Insertion_String i @ nl) (Insertions plan)) @
        (if Commands plan = [] then []
         else
           ''Then run, in this order:'' @ nl @ nl @
           concat (map (\<lambda>c. ''    '' @ c @ nl) (Commands plan)) @ nl))"

end
