(* ===== verification/Feature_Laws.thy ===== *)
theory Feature_Laws
  imports Feature_Write
begin

text \<open>
  What \<open>nise generate\<close> guarantees: which names it accepts, that its plan always renders to distinct paths
  inside the project, that a run never touches an entry it did not create, what a successful run leaves
  behind, and that migrations are numbered without a gap.
\<close>

section \<open>Names\<close>

lemma lower_lower: "is_upper c \<Longrightarrow> is_lower (lower_char c)" "is_lower c \<Longrightarrow> lower_char c = c" "is_digit c \<Longrightarrow> lower_char c = c"
proof -
  assume "is_upper c"
  then have "65 \<le> (of_char c :: nat) \<and> (of_char c :: nat) \<le> 90" by (simp add: char_class_defs code_def)
  then show "is_lower (lower_char c)" by (simp add: lower_char_def char_class_defs code_def)
qed (auto simp: lower_char_def char_class_defs)

lemma ValidateResourceName_canonical:
  assumes "ValidateResourceName s = Inr n"
  shows "canonical_name n \<and> length n \<le> 64 \<and> n \<notin> set reservedResourceNames \<and> n = map lower_char s"
proof -
  from assms have s: "s \<noteq> []" "length s \<le> 64" "is_upper (hd s) \<or> is_lower (hd s)"
      "list_all (\<lambda>c. is_upper c \<or> is_lower c \<or> is_digit c) (tl s)"
    and n: "n = map lower_char s" "n \<notin> set reservedResourceNames"
    by (auto simp: ValidateResourceName_def resourceNameRE_def conc_class_star maxResourceNameLen_def Let_def split: if_splits)
  have "list_all (\<lambda>c. is_lower c \<or> is_digit c) (map lower_char (tl s))"
    using s(4) lower_lower by (auto simp: list_all_iff)
  moreover have "is_lower (lower_char (hd s))" using s(3) lower_lower by auto
  ultimately show ?thesis using s n by (cases s) (auto simp: canonical_name_def)
qed

section \<open>A run keeps what is there\<close>

lemma makeDirs_keeps: "makeDirs e cur parts t = (r, t') \<Longrightarrow> t q \<noteq> None \<Longrightarrow> t' q = t q"
proof (induction e cur parts t arbitrary: r rule: makeDirs.induct)
  case (2 e cur part parts t)
  let ?p = "of_elems (cur @ [part])"
  let ?t1 = "t(?p \<mapsto> DirN (DirMode AND NOT (umask e)))"
  show ?case
  proof (cases "part = ''.'' \<or> part = []")
    case True
    then show ?thesis using 2 by simp
  next
    case False
    note part = False
    show ?thesis
    proof (cases "\<not> carried e (Mkdir ?p) \<or> t ?p \<noteq> None \<or> \<not> is_dir t (Dir ?p)")
      case True
      then show ?thesis using part 2(2) 2(4,5) by (auto simp: Let_def split: if_splits)
    next
      case False
      have q: "q \<noteq> ?p" "?t1 q = t q" using False 2(5) by auto
      show ?thesis
      proof (cases "chmod e ?p DirMode ?t1")
        case (Inl x)
        then show ?thesis using part False 2(4) q by (auto simp: Let_def)
      next
        case (Inr t2)
        then have "t2 q = t q" using chmod_other [OF Inr q(1)] q(2) by simp
        then show ?thesis using part False 2(3) [OF part refl _ _ _ refl Inr, of r] 2(4,5) Inr by (auto simp: Let_def)
      qed
    qed
  qed
qed simp

lemma create_file_keeps: "create_file e kept f t = (r, t') \<Longrightarrow> t q \<noteq> None \<Longrightarrow> t' q = t q"
  by (auto simp: create_file_def Let_def split: if_splits)

lemma write_slice_keeps: "write_slice e kept fs w t = (r, w', t') \<Longrightarrow> t q \<noteq> None \<Longrightarrow> t' q = t q"
proof (induction fs arbitrary: w t)
  case (Cons f fs)
  obtain r1 t1 where m: "makeDirs e [] (split_on (CHR ''/'') (Dir (Path f))) t = (r1, t1)" by fastforce
  obtain r2 t2 where c: "create_file e kept f t1 = (r2, t2)" by fastforce
  have k: "t1 q = t q" using makeDirs_keeps [OF m] Cons.prems(2) by blast
  then have "t2 q = t q" using create_file_keeps [OF c] Cons.prems(2) by simp
  then show ?case using Cons m c k by (auto split: option.splits)
qed simp

lemma slice_Write_keeps:
  assumes "slice_Write e kept race plan t = (r, w, t')"
  shows "t' = t \<or> (\<forall>q. race t q \<noteq> None \<longrightarrow> t' q = race t q)"
  using assms write_slice_keeps [of e kept "Files plan" "[]" "race t" r w t']
  by (auto simp: slice_Write_def split: sum.splits if_splits)

lemma generateSlice_keeps:
  assumes "generateSlice eng emb e kept race migrations root name kind t = (r, t')"
  shows "t' = t \<or> (\<forall>q. race t q \<noteq> None \<longrightarrow> t' q = race t q)"
  using assms slice_Write_keeps [of e kept race _ t]
  by (auto simp: generateSlice_def split: sum.splits option.splits prod.splits if_splits)

section \<open>The paths of a slice\<close>

definition feature_paths :: "string \<Rightarrow> string list" where
  "feature_paths s =
     [''internal/features/'' @ s @ ''/README.md'', ''internal/features/'' @ s @ ''/domain.go'',
      ''internal/features/'' @ s @ ''/usecase.go'', ''internal/features/'' @ s @ ''/'' @ s @ ''_test.go'']"

definition resource_paths :: "string \<Rightarrow> string \<Rightarrow> string \<Rightarrow> string \<Rightarrow> string list" where
  "resource_paths s p c m =
     feature_paths s @
     [''internal/features/'' @ s @ ''/sqlc.yaml'', ''internal/features/'' @ s @ ''/queries/'' @ s @ ''.sql'',
      ''db/migrations/'' @ m @ ''_'' @ p @ ''.sql'', ''api/'' @ s @ ''.yaml'',
      ''internal/platform/httpapi/'' @ s @ ''.go'', ''frontend/src/lib/features/'' @ s @ ''/api.ts'',
      ''frontend/src/lib/features/'' @ s @ ''/'' @ c @ ''Form.svelte'',
      ''frontend/src/routes/(app)/'' @ p @ ''/+page.svelte'', ''frontend/src/routes/(app)/'' @ p @ ''/new/+page.svelte'',
      ''frontend/src/routes/(app)/'' @ p @ ''/[id]/+page.svelte'',
      ''frontend/src/routes/(app)/'' @ p @ ''/[id]/edit/+page.svelte'',
      ''frontend/src/lib/features/'' @ s @ ''/'' @ c @ ''Form.browser.test.ts'',
      ''internal/features/'' @ s @ ''/'' @ s @ ''_integration_test.go'',
      ''internal/platform/httpapi/'' @ s @ ''_test.go'']"

lemma fill_field_then:
  assumes "CHR ''}'' \<notin> set name" and "map_of d name = Some (TStr v)"
  shows "fill d (''{{.'' @ name @ ''}}'' @ rest) = map_option ((@) v) (fill d rest)"
proof -
  have t: "takeWhile (\<lambda>c. c \<noteq> CHR ''}'') (name @ CHR ''}'' # u) = name" for u
    using assms(1) by (induction name) auto
  show ?thesis using assms(2) by (subst fill.simps) (simp add: has_prefix_def t)
qed

lemma fill_slice:
  "fill (slice_fields d) (''{{.Singular}}'' @ r) = map_option ((@) (Singular (D_Names d))) (fill (slice_fields d) r)"
  "fill (slice_fields d) (''{{.Plural}}'' @ r) = map_option ((@) (Plural (D_Names d))) (fill (slice_fields d) r)"
  "fill (slice_fields d) (''{{.Component}}'' @ r) = map_option ((@) (Component (D_Names d))) (fill (slice_fields d) r)"
  "fill (slice_fields d) (''{{.Migration}}'' @ r) = map_option ((@) (Migration d)) (fill (slice_fields d) r)"
  using fill_field_then [of "''Singular''" "slice_fields d" _ r] fill_field_then [of "''Plural''" "slice_fields d" _ r]
    fill_field_then [of "''Component''" "slice_fields d" _ r] fill_field_then [of "''Migration''" "slice_fields d" _ r]
  by (simp_all add: slice_fields_def)

lemma feature_outputs:
  "map (fill (slice_fields d)) (map snd featureTemplates) = map Some (feature_paths (Singular (D_Names d)))"
  by (simp add: featureTemplates_def feature_paths_def fill_char fill_literal fill_slice [simplified] fill.simps [of _ "[]"] comp_def)

lemma resource_outputs:
  "map (fill (slice_fields d)) (map snd resourceTemplates) =
     map Some (resource_paths (Singular (D_Names d)) (Plural (D_Names d)) (Component (D_Names d)) (Migration d))"
  by (simp add: resourceTemplates_def resource_paths_def feature_paths_def fill_char fill_slice [simplified]
      fill.simps [of _ "[]"] comp_def)

lemma resource_distinct: "distinct (resource_paths s p c m)"
  by (simp add: resource_paths_def feature_paths_def)

text \<open>A name and its spellings are words: they have no dot and no slash, so they stay one path element.\<close>

definition is_word :: "string \<Rightarrow> bool" where
  "is_word w \<longleftrightarrow> w \<noteq> [] \<and> list_all (\<lambda>c. is_lower c \<or> is_digit c) w"

definition plain_word :: "string \<Rightarrow> bool" where
  "plain_word w \<longleftrightarrow> w \<noteq> [] \<and> CHR ''.'' \<notin> set w \<and> CHR ''/'' \<notin> set w"

lemma canonical_word: "canonical_name s \<Longrightarrow> is_word s"
  by (cases s) (auto simp: canonical_name_def is_word_def)

lemma word_plain: "is_word w \<Longrightarrow> plain_word w"
  by (auto simp: is_word_def plain_word_def list_all_iff char_class_defs code_def)

lemma Pluralize_word: "is_word s \<Longrightarrow> is_word (Pluralize s)"
proof -
  assume s: "is_word s"
  have "list_all (\<lambda>c. is_lower c \<or> is_digit c) (take k s)" for k
    using s by (auto simp: is_word_def list_all_iff dest: in_set_takeD)
  then show ?thesis using s by (auto simp: Pluralize_def is_word_def char_class_defs code_def)
qed

lemma upper_first_plain: "is_word w \<Longrightarrow> plain_word (upper_first w)"
proof -
  assume w: "is_word w"
  then obtain c cs where c: "w = c # cs" "is_lower c \<or> is_digit c" "is_word [c]" by (cases w) (auto simp: is_word_def)
  have "plain_word [upper_char c]"
  proof (cases "is_lower c")
    case True
    then have "97 \<le> (of_char c :: nat) \<and> (of_char c :: nat) \<le> 122" by (simp add: char_class_defs code_def)
    then have "upper_char c \<noteq> CHR ''.'' \<and> upper_char c \<noteq> CHR ''/''"
      using True by (auto simp: upper_char_def code_def dest!: arg_cong [where f = "of_char :: char \<Rightarrow> nat"])
    then show ?thesis by (auto simp: plain_word_def)
  next
    case False
    then show ?thesis using word_plain [OF c(3)] by (simp add: upper_char_def plain_word_def)
  qed
  then show ?thesis using word_plain [OF w] c(1) by (simp add: upper_first_def plain_word_def)
qed

lemma pad5_int_plain: "0 \<le> i \<Longrightarrow> list_all is_digit (pad5_int i) \<and> pad5_int i \<noteq> []"
  using show_nat_digits [of "nat i"] by (simp add: pad5_int_def pad5_def show_nat_not_Nil list_all_append)
    (auto simp: list_all_iff is_digit_def code_def)

text \<open>The same paths as their directories and file name.\<close>

definition feature_elems :: "string \<Rightarrow> (string list \<times> string) list" where
  "feature_elems s =
     (let d = [''internal'', ''features'', s] in
      [(d, ''README.md''), (d, ''domain.go''), (d, ''usecase.go''), (d, s @ ''_test.go'')])"

definition resource_elems :: "string \<Rightarrow> string \<Rightarrow> string \<Rightarrow> string \<Rightarrow> (string list \<times> string) list" where
  "resource_elems s p c m =
     (let d = [''internal'', ''features'', s]; l = [''frontend'', ''src'', ''lib'', ''features'', s];
          r = [''frontend'', ''src'', ''routes'', ''(app)'', p]; h = [''internal'', ''platform'', ''httpapi'']
      in feature_elems s @
         [(d, ''sqlc.yaml''), (d @ [''queries''], s @ ''.sql''), ([''db'', ''migrations''], m @ ''_'' @ p @ ''.sql''),
          ([''api''], s @ ''.yaml''), (h, s @ ''.go''), (l, ''api.ts''), (l, c @ ''Form.svelte''),
          (r, ''+page.svelte''), (r @ [''new''], ''+page.svelte''), (r @ [''[id]''], ''+page.svelte''),
          (r @ [''[id]'', ''edit''], ''+page.svelte''), (l, c @ ''Form.browser.test.ts''),
          (d, s @ ''_integration_test.go''), (h, s @ ''_test.go'')])"

definition path_of :: "string list \<times> string \<Rightarrow> string" where
  "path_of x = join ''/'' (fst x @ [snd x])"

lemma slice_elems:
  "feature_paths s = map path_of (feature_elems s)"
  "resource_paths s p c m = map path_of (resource_elems s p c m)"
  by (simp_all add: feature_paths_def resource_paths_def feature_elems_def resource_elems_def path_of_def Let_def)

definition good_elems :: "string list \<times> string \<Rightarrow> bool" where
  "good_elems x \<longleftrightarrow> list_all (\<lambda>e. plain_elem e \<and> \<not> file_elem e) (fst x) \<and> plain_elem (snd x) \<and> file_elem (snd x)"

lemma path_of_shape: "good_elems x \<Longrightarrow> plain_rel (path_of x) \<and> file_shaped (path_of x)"
  unfolding path_of_def
  by (intro conjI plain_rel_join file_shaped_join) (auto simp: good_elems_def list_all_iff)

lemma word_dir: "is_word w \<Longrightarrow> plain_elem w \<and> \<not> file_elem w"
  using word_plain [of w]
  by (auto simp: plain_word_def plain_elem_def file_elem_def is_word_def char_class_defs code_def)

lemma literal_elems:
  "plain_elem ''internal''" "plain_elem ''features''" "plain_elem ''queries''" "plain_elem ''db''" "plain_elem ''migrations''"
  "plain_elem ''api''" "plain_elem ''platform''" "plain_elem ''httpapi''" "plain_elem ''frontend''" "plain_elem ''src''"
  "plain_elem ''lib''" "plain_elem ''routes''" "plain_elem ''(app)''" "plain_elem ''new''" "plain_elem ''[id]''" "plain_elem ''edit''"
  "plain_elem ''README.md''" "plain_elem ''domain.go''" "plain_elem ''usecase.go''" "plain_elem ''sqlc.yaml''"
  "plain_elem ''api.ts''" "plain_elem ''+page.svelte''"
  by (simp_all add: plain_elem_def)

lemma literal_dirs:
  "\<not> file_elem ''internal''" "\<not> file_elem ''features''" "\<not> file_elem ''queries''" "\<not> file_elem ''db''" "\<not> file_elem ''migrations''"
  "\<not> file_elem ''api''" "\<not> file_elem ''platform''" "\<not> file_elem ''httpapi''" "\<not> file_elem ''frontend''" "\<not> file_elem ''src''"
  "\<not> file_elem ''lib''" "\<not> file_elem ''routes''" "\<not> file_elem ''(app)''" "\<not> file_elem ''new''" "\<not> file_elem ''[id]''" "\<not> file_elem ''edit''"
  by (simp_all add: file_elem_def)

lemma literal_files:
  "file_elem ''README.md''" "file_elem ''domain.go''" "file_elem ''usecase.go''" "file_elem ''sqlc.yaml''"
  "file_elem ''api.ts''" "file_elem ''+page.svelte''"
  by (simp_all add: file_elem_def)

text \<open>A file name that ends in a literal extension.\<close>

definition is_ext :: "string \<Rightarrow> bool" where
  "is_ext r \<longleftrightarrow> CHR ''/'' \<notin> set r \<and> CHR ''.'' \<in> set r \<and> 3 \<le> length r \<and> take 2 (rev r) \<notin> {''es'', ''gn''}"

lemma word_file:
  assumes "CHR ''/'' \<notin> set w" and "is_ext r"
  shows "plain_elem (w @ r) \<and> file_elem (w @ r)"
proof -
  define x where "x = w @ r"
  have "3 \<le> length x" "take 2 (rev x) \<notin> {''es'', ''gn''}" "CHR ''.'' \<in> set x" "CHR ''/'' \<notin> set x"
    using assms by (simp_all add: x_def is_ext_def)
  note x = this
  have "x \<noteq> ''.nise''" "x \<noteq> ''project.inlang''" "x \<noteq> []" "x \<noteq> ''.''" "x \<noteq> ''..''"
    by (rule notI, use x(1,2) in simp)+
  then have "plain_elem x \<and> file_elem x" using x(3,4) by (simp add: plain_elem_def file_elem_def)
  then show ?thesis unfolding x_def .
qed

lemma exts:
  "is_ext ''_test.go''" "is_ext ''.sql''" "is_ext ''.yaml''" "is_ext ''.go''" "is_ext ''_integration_test.go''"
  "is_ext ''Form.svelte''" "is_ext ''Form.browser.test.ts''"
  by (simp_all add: is_ext_def)

lemma feature_good: "is_word s \<Longrightarrow> x \<in> set (feature_elems s) \<Longrightarrow> good_elems x"
  using word_dir [of s] word_plain [of s] word_file [of s, OF _ exts(1)]
  by (auto simp: feature_elems_def good_elems_def literal_elems literal_dirs literal_files plain_word_def Let_def)

lemma resource_good:
  assumes "is_word s" "is_word p" "plain_word c" "CHR ''/'' \<notin> set m"
  shows "list_all good_elems (resource_elems s p c m)"
proof -
  have n: "CHR ''/'' \<notin> set s" "CHR ''/'' \<notin> set (m @ ''_'' @ p)" "CHR ''/'' \<notin> set c"
    using assms word_plain by (auto simp: plain_word_def)
  have "list_all good_elems (feature_elems s)" using feature_good assms(1) by (simp add: list_all_iff)
  moreover note word_dir [OF assms(1)] word_dir [OF assms(2)] exts [THEN word_file [OF n(1)]] word_file [OF n(2) exts(2)]
    exts [THEN word_file [OF n(3)]]
  ultimately show ?thesis
    unfolding resource_elems_def Let_def by (simp add: good_elems_def literal_elems literal_dirs literal_files)
qed

section \<open>The plan\<close>

definition slice_sources :: "string \<Rightarrow> (string \<times> string) list" where
  "slice_sources kind = (if kind = KindResource then resourceTemplates else featureTemplates)"

definition slice_paths :: "slice_options \<Rightarrow> string list" where
  "slice_paths opts =
     (let s = S_Name opts in
      if S_Kind opts = KindResource
      then resource_paths s (Pluralize s) (upper_first s) (pad5_int (S_NextMigration opts))
      else feature_paths s)"

definition slice_options_ok :: "slice_options \<Rightarrow> bool" where
  "slice_options_ok opts \<longleftrightarrow> canonical_name (S_Name opts) \<and> S_ModulePath opts \<noteq> [] \<and>
     S_Kind opts \<in> {KindFeature, KindResource} \<and> (S_Kind opts = KindResource \<longrightarrow> 1 \<le> S_NextMigration opts)"

text \<open>What the rendering has to provide: the templates are embedded and their texts render.\<close>

definition slice_renders :: "engine \<Rightarrow> embedded \<Rightarrow> (string \<times> string) list \<Rightarrow> templateData \<Rightarrow> bool" where
  "slice_renders eng emb ts d \<longleftrightarrow>
     list_all (\<lambda>t. case emb (slice_root @ ''/'' @ fst t) of None \<Rightarrow> False | Some src \<Rightarrow> eng (fst t) src d \<noteq> None) ts"

lemma slice_render_Inr: "slice_render eng name src d = Inr c \<longleftrightarrow> (\<exists>raw. eng name src d = Some raw \<and> c = slice_normalize raw)"
  by (auto simp: slice_render_def slice_renderString_def split: option.splits)

lemma render_slice_paths:
  assumes "field_engine eng" and "map (fill d) (map snd ts) = map Some ps"
  shows "render_slice eng emb d ts = Inr fs \<Longrightarrow> map Path fs = ps \<and> list_all (\<lambda>f. FOwner f = OwnerApp) fs"
    and "slice_renders eng emb ts d \<Longrightarrow> \<exists>fs. render_slice eng emb d ts = Inr fs"
proof -
  have "(render_slice eng emb d ts = Inr fs \<longrightarrow> map Path fs = ps \<and> list_all (\<lambda>f. FOwner f = OwnerApp) fs) \<and>
      (slice_renders eng emb ts d \<longrightarrow> (\<exists>fs. render_slice eng emb d ts = Inr fs))"
    using assms(2)
  proof (induction ts arbitrary: ps fs)
    case (Cons t ts)
    obtain tm out where t: "t = (tm, out)" by fastforce
    with Cons.prems obtain p ps' where p: "ps = p # ps'" "fill d out = Some p" "map (fill d) (map snd ts) = map Some ps'"
      by auto
    have "slice_renderString eng (tm @ '' (output path)'') out d = Inr p"
      using assms(1) p(2) by (simp add: slice_renderString_def field_engine_def)
    then show ?case
      using Cons.IH [OF p(3)] p(1)
      by (auto simp: t slice_renders_def slice_render_Inr slice_render_def slice_renderString_def split: option.splits sum.splits)
  qed (auto simp: slice_renders_def)
  then show "render_slice eng emb d ts = Inr fs \<Longrightarrow> map Path fs = ps \<and> list_all (\<lambda>f. FOwner f = OwnerApp) fs"
    and "slice_renders eng emb ts d \<Longrightarrow> \<exists>fs. render_slice eng emb d ts = Inr fs" by blast+
qed

definition names_of :: "string \<Rightarrow> Names" where
  "names_of s =
     \<lparr>Singular = s, Plural = Pluralize s, Type = upper_first s, Collection = upper_first s @ ''Collection'',
      Title = upper_first s, TitlePlural = upper_first (Pluralize s), Component = upper_first s\<rparr>"

lemma NewNames_iff: "NewNames s = Inr n \<longleftrightarrow> canonical_name s \<and> n = names_of s"
  by (auto simp: NewNames_def names_of_def canonical_name_def Let_def)

lemma slice_outputs:
  "map (fill (slice_fields (slice_data_of opts (names_of (S_Name opts))))) (map snd (slice_sources (S_Kind opts))) =
     map Some (slice_paths opts)"
  using feature_outputs resource_outputs
  by (simp add: slice_sources_def slice_paths_def slice_data_of_def names_of_def Let_def del: map_map)

lemma slice_paths_distinct: "distinct (slice_paths opts)"
  using resource_distinct [of "S_Name opts"] by (auto simp: slice_paths_def Let_def resource_paths_def)

lemma slice_paths_shape:
  assumes "slice_options_ok opts" and "p \<in> set (slice_paths opts)"
  shows "plain_rel p \<and> file_shaped p"
proof -
  let ?s = "S_Name opts"
  have w: "is_word ?s" "is_word (Pluralize ?s)" "plain_word (upper_first ?s)"
    using assms(1) canonical_word Pluralize_word upper_first_plain by (auto simp: slice_options_ok_def)
  have m: "CHR ''/'' \<notin> set (pad5_int (S_NextMigration opts))" if "S_Kind opts = KindResource"
    using that assms(1) pad5_int_plain [of "S_NextMigration opts"]
    by (auto simp: slice_options_ok_def list_all_iff is_digit_def code_def)
  obtain x where "good_elems x" "p = path_of x"
    using assms(2) feature_good [OF w(1)] resource_good [OF w m]
    by (auto simp: slice_paths_def slice_elems Let_def list_all_iff split: if_splits)
  then show ?thesis using path_of_shape by simp
qed

lemma NewPlan_cases:
  assumes "NewPlan eng emb opts = Inr plan"
  shows "slice_options_ok opts \<and> (\<exists>rendered.
    render_slice eng emb (slice_fields (slice_data_of opts (names_of (S_Name opts)))) (slice_sources (S_Kind opts)) = Inr rendered \<and>
    Files plan = sort_key Path rendered \<and> Insertions plan = insertions (slice_data_of opts (names_of (S_Name opts))) \<and>
    Commands plan = commands (S_Kind opts) \<and> P_Names plan = names_of (S_Name opts))"
  using assms
  by (auto simp: NewPlan_def NewNames_iff slice_options_ok_def slice_sources_def Let_def split: sum.splits if_splits option.splits)

lemma NewPlan_files:
  assumes "field_engine eng" and "NewPlan eng emb opts = Inr plan"
  shows "set (map Path (Files plan)) = set (slice_paths opts)" "sorted_wrt (<) (map Path (Files plan))"
    "distinct (map Path (Files plan))" "\<forall>f\<in>set (Files plan). plain_rel (Path f) \<and> file_shaped (Path f) \<and> FOwner f = OwnerApp"
proof -
  obtain rendered where r: "slice_options_ok opts"
      "render_slice eng emb (slice_fields (slice_data_of opts (names_of (S_Name opts)))) (slice_sources (S_Kind opts)) = Inr rendered"
      "Files plan = sort_key Path rendered"
    using NewPlan_cases [OF assms(2)] by blast
  have p: "map Path rendered = slice_paths opts" "list_all (\<lambda>f. FOwner f = OwnerApp) rendered"
    using render_slice_paths(1) [OF assms(1) slice_outputs r(2)] by blast+
  show s: "set (map Path (Files plan)) = set (slice_paths opts)" by (simp add: r(3) p(1) [symmetric])
  show d: "distinct (map Path (Files plan))"
    using slice_paths_distinct [of opts] unfolding p(1) [symmetric] r(3) by (simp add: distinct_map)
  then show "sorted_wrt (<) (map Path (Files plan))" using r(3) by (simp add: strict_sorted_iff)
  show "\<forall>f\<in>set (Files plan). plain_rel (Path f) \<and> file_shaped (Path f) \<and> FOwner f = OwnerApp"
    using slice_paths_shape [OF r(1)] s p(2) by (auto simp: r(3) list_all_iff)
qed

lemma NewPlan_total:
  assumes "field_engine eng" and "slice_options_ok opts"
    and "slice_renders eng emb (slice_sources (S_Kind opts)) (slice_fields (slice_data_of opts (names_of (S_Name opts))))"
  shows "\<exists>plan. NewPlan eng emb opts = Inr plan"
proof -
  obtain rendered where r:
    "render_slice eng emb (slice_fields (slice_data_of opts (names_of (S_Name opts)))) (slice_sources (S_Kind opts)) = Inr rendered"
    using render_slice_paths(2) [OF assms(1) slice_outputs assms(3)] by blast
  have "adjacent_duplicate (sort_key Path rendered) = None"
    using render_slice_paths(1) [OF assms(1) slice_outputs r] slice_paths_distinct [of opts] by (simp add: adjacent_distinct)
  then show ?thesis
    using assms(2) r NewNames_iff [of "S_Name opts" "names_of (S_Name opts)"]
    by (auto simp: NewPlan_def slice_options_ok_def slice_sources_def Let_def)
qed

section \<open>What a successful run leaves\<close>

fun walked :: "string list \<Rightarrow> string list \<Rightarrow> string list" where
  "walked cur [] = []"
| "walked cur (p # ps) = of_elems (cur @ [p]) # walked (cur @ [p]) ps"

lemma walked_snoc: "walked cur (ps @ [x]) = walked cur ps @ [of_elems (cur @ ps @ [x])]"
  by (induction ps arbitrary: cur) auto

lemma walked_dirs: "set (walked [] es) = set (dirs_of es)"
  by (induction es rule: rev_induct) (auto simp: walked_snoc dirs_of_def)

lemma file_dirs:
  assumes "plain_rel p"
  obtains es where "\<forall>e\<in>set es. plain_elem e" "Dir p = of_elems es" "set (walked [] es) = ancestors p"
    "chain (Dir p) = insert ''.'' (ancestors p)" "split_on (CHR ''/'') (Dir p) = (if es = [] then [''.''] else es)"
proof -
  obtain es where es: "es \<noteq> []" "\<forall>e\<in>set es. plain_elem e" "p = join ''/'' es" "split_on (CHR ''/'') p = es"
    using plain_relE [OF assms] by metis
  let ?d = "butlast es"
  have d: "\<forall>e\<in>set ?d. plain_elem e" using es(2) by (auto dest: in_set_butlastD)
  have D: "Dir p = of_elems ?d" using Dir_of_elems [OF es(1,2)] es(3) by simp
  have a: "set (dirs_of ?d) = ancestors p" using dirs_of_ancestors [OF es(1,2)] es(3) by simp
  show ?thesis
  proof (rule that [OF d D])
    show "set (walked [] ?d) = ancestors p" using a walked_dirs by simp
    show "chain (Dir p) = insert ''.'' (ancestors p)" using chain_of_elems(1) [OF d] a D by simp
    show "split_on (CHR ''/'') (Dir p) = (if ?d = [] then [''.''] else ?d)"
      using of_elems_plain(4) [of ?d] d D by (simp add: of_elems_def)
  qed
qed

lemma makeDirs_made:
  assumes "\<forall>x\<in>set parts. plain_elem x" and "makeDirs e cur parts t = (None, t')"
  shows "t' q = (if t q = None \<and> q \<in> set (walked cur parts) then Some (DirN DirMode) else t q)"
  using assms
proof (induction parts arbitrary: cur t)
  case (Cons part parts)
  let ?p = "of_elems (cur @ [part])"
  let ?t1 = "t(?p \<mapsto> DirN (DirMode AND NOT (umask e)))"
  have part: "\<not> (part = ''.'' \<or> part = [])" using Cons.prems(1) by (auto simp: plain_elem_def)
  show ?case
  proof (cases "t ?p")
    case (Some node)
    then have "makeDirs e (cur @ [part]) parts t = (None, t')"
      using Cons.prems(2) part by (auto simp: Let_def split: if_splits)
    then show ?thesis using Cons.IH Cons.prems(1) Some by auto
  next
    case None
    then obtain t2 where t2: "chmod e ?p DirMode ?t1 = Inr t2" "makeDirs e (cur @ [part]) parts t2 = (None, t')"
      using Cons.prems(2) part by (auto simp: Let_def split: if_splits sum.splits)
    have "t2 = t(?p \<mapsto> DirN DirMode)" using t2(1) by (auto simp: chmod_def split: if_splits)
    then show ?thesis using Cons.IH [OF _ t2(2)] Cons.prems(1) None by auto
  qed
qed simp

lemma makeDirs_ok:
  assumes "all_carried e" and "\<forall>x\<in>set cur \<union> set parts. plain_elem x" and "is_dir t (of_elems cur)"
    and "\<forall>q\<in>set (walked cur parts). \<not> is_file t q"
  shows "\<exists>t'. makeDirs e cur parts t = (None, t') \<and> is_dir t' (of_elems (cur @ parts))"
  using assms(2-4)
proof (induction parts arbitrary: cur t)
  case (Cons part parts)
  let ?p = "of_elems (cur @ [part])"
  have part: "\<not> (part = ''.'' \<or> part = [])" using Cons.prems(1) by (auto simp: plain_elem_def)
  have dir: "Dir ?p = of_elems cur"
    using Dir_of_elems [of "cur @ [part]"] Cons.prems(1) by (simp add: of_elems_def)
  have next_ok: "\<exists>t'. makeDirs e (cur @ [part]) parts u = (None, t') \<and> is_dir t' (of_elems ((cur @ [part]) @ parts))"
    if "is_dir u ?p" "\<forall>q\<in>set (walked (cur @ [part]) parts). \<not> is_file u q" for u
    using Cons.IH [OF _ that] Cons.prems(1) by auto
  show ?case
  proof (cases "t ?p")
    case (Some node)
    then have "is_dir t ?p" using Cons.prems(3) by (cases node) (auto simp: is_dir_def is_file_def)
    then show ?thesis using next_ok [of t] Cons.prems(3) Some part assms(1) by (auto simp: Let_def all_carried_def)
  next
    case None
    let ?u = "t(?p \<mapsto> DirN DirMode)"
    have "\<forall>q\<in>set (walked (cur @ [part]) parts). \<not> is_file ?u q" using Cons.prems(3) by (auto simp: is_file_def)
    moreover have "is_dir ?u ?p" by (simp add: is_dir_def)
    ultimately show ?thesis
      using next_ok [of ?u] None part assms(1) Cons.prems(2) dir by (auto simp: Let_def all_carried_def chmod_def)
  qed
qed simp

text \<open>One file: its missing directories, then the file.\<close>

lemma makeDirs_file:
  assumes "plain_rel p" and "makeDirs e [] (split_on (CHR ''/'') (Dir p)) t = (None, t')"
  shows "t' q = (if t q = None \<and> q \<in> ancestors p then Some (DirN DirMode) else t q)"
proof -
  obtain es where es: "\<forall>e\<in>set es. plain_elem e" "set (walked [] es) = ancestors p"
    "split_on (CHR ''/'') (Dir p) = (if es = [] then [''.''] else es)"
    using file_dirs [OF assms(1)] by metis
  then have "makeDirs e [] es t = (None, t')" using assms(2) by (auto split: if_splits)
  from makeDirs_made [OF es(1) this, of q] es(2) show ?thesis by simp
qed

lemma makeDirs_file_ok:
  assumes "all_carried e" and "plain_rel p" and "is_dir t ''.''" and "\<forall>q\<in>ancestors p. \<not> is_file t q"
  shows "\<exists>t'. makeDirs e [] (split_on (CHR ''/'') (Dir p)) t = (None, t') \<and> is_dir t' (Dir p)"
proof -
  obtain es where es: "\<forall>e\<in>set es. plain_elem e" "Dir p = of_elems es" "set (walked [] es) = ancestors p"
    "split_on (CHR ''/'') (Dir p) = (if es = [] then [''.''] else es)"
    by (rule file_dirs [OF assms(2)])
  have "is_dir t (of_elems [])" using assms(3) by (simp add: of_elems_def)
  moreover have "\<forall>x\<in>set [] \<union> set es. plain_elem x" "\<forall>q\<in>set (walked [] es). \<not> is_file t q"
    using es(1,3) assms(4) by simp_all
  ultimately obtain t' where "makeDirs e [] es t = (None, t')" "is_dir t' (Dir p)"
    using makeDirs_ok [OF assms(1), of "[]" es t] es(2) by auto
  then show ?thesis using es(4) by (cases "es = []") simp_all
qed

lemma create_file_made:
  "create_file e kept f t = (None, t') \<Longrightarrow> t (Path f) = None \<and> t' = t(Path f \<mapsto> FileN FileMode (Content f))"
  by (auto simp: create_file_def Let_def split: if_splits)

lemma write_slice_exact:
  assumes "\<forall>f\<in>set fs. plain_rel (Path f)" and "write_slice e kept fs w t = (None, w', t')"
  shows "w' = w @ map Path fs \<and> (\<forall>f\<in>set fs. t (Path f) = None \<and> t' (Path f) = Some (FileN FileMode (Content f))) \<and>
    (\<forall>q. q \<notin> Path ` set fs \<longrightarrow>
      t' q = (if t q = None \<and> (\<exists>f\<in>set fs. q \<in> ancestors (Path f)) then Some (DirN DirMode) else t q))"
  using assms
proof (induction fs arbitrary: w t)
  case (Cons f fs)
  then obtain t1 t2 where m: "makeDirs e [] (split_on (CHR ''/'') (Dir (Path f))) t = (None, t1)"
    and c: "create_file e kept f t1 = (None, t2)" and r: "write_slice e kept fs (w @ [Path f]) t2 = (None, w', t')"
    by (auto split: prod.splits option.splits)
  have t1: "t1 q = (if t q = None \<and> q \<in> ancestors (Path f) then Some (DirN DirMode) else t q)" for q
    using makeDirs_file [OF _ m] Cons.prems(1) by simp
  note t2 = create_file_made [OF c] and ih = Cons.IH [OF _ r]
  have "t' (Path f) = Some (FileN FileMode (Content f))" using write_slice_keeps [OF r, of "Path f"] t2 by simp
  moreover have "t (Path f) = None" using t2 t1 [of "Path f"] by (auto split: if_splits)
  moreover have "t (Path g) = None" if "g \<in> set fs" for g
    using ih that Cons.prems(1) t2 t1 [of "Path g"] by (auto split: if_splits)
  ultimately show ?case using ih t2 t1 Cons.prems(1) by auto
qed simp

lemma write_slice_ok:
  assumes "all_carried e" and "is_dir t ''.''" and "\<forall>f\<in>set fs. plain_rel (Path f) \<and> t (Path f) = None"
    and "distinct (map Path fs)" and "\<forall>f\<in>set fs. \<forall>q\<in>ancestors (Path f). \<not> is_file t q \<and> q \<notin> Path ` set fs"
  shows "\<exists>w' t'. write_slice e kept fs w t = (None, w', t')"
  using assms(2-5)
proof (induction fs arbitrary: w t)
  case (Cons f fs)
  have p: "plain_rel (Path f)" using Cons.prems by simp
  obtain t1 where m: "makeDirs e [] (split_on (CHR ''/'') (Dir (Path f))) t = (None, t1)" "is_dir t1 (Dir (Path f))"
    using makeDirs_file_ok [OF assms(1) p, of t] Cons.prems by auto
  have t1: "t1 q = (if t q = None \<and> q \<in> ancestors (Path f) then Some (DirN DirMode) else t q)" for q
    using makeDirs_file [OF p m(1)] .
  let ?t2 = "t1(Path f \<mapsto> FileN FileMode (Content f))"
  have "Path f \<notin> ancestors (Path f)" using Cons.prems(4) by auto
  then have c: "create_file e kept f t1 = (None, ?t2)"
    using assms(1) m(2) t1 [of "Path f"] Cons.prems(2) by (simp add: create_file_def all_carried_def)
  have "''.'' \<noteq> Path f" using Cons.prems(1,2) by (auto simp: is_dir_def)
  then have "is_dir ?t2 ''.''" using Cons.prems(1) t1 [of "''.''"] by (auto simp: is_dir_def)
  moreover have "\<forall>g\<in>set fs. plain_rel (Path g) \<and> ?t2 (Path g) = None"
    using Cons.prems(2,3,4) t1 by (auto simp: image_iff)
  moreover have "\<forall>g\<in>set fs. \<forall>q\<in>ancestors (Path g). \<not> is_file ?t2 q \<and> q \<notin> Path ` set fs"
    using Cons.prems(4) t1 by (auto simp: is_file_def)
  moreover have "distinct (map Path fs)" using Cons.prems(3) by simp
  ultimately have "\<exists>w' t'. write_slice e kept fs (w @ [Path f]) ?t2 = (None, w', t')"
    by (intro Cons.IH [of ?t2 "w @ [Path f]"])
  then show ?case using m(1) c by simp
qed simp

lemma existing_paths_none:
  assumes "all_carried e" and "\<forall>f\<in>set fs. plain_rel (Path f) \<and> t (Path f) = None \<and> (\<forall>q\<in>ancestors (Path f). \<not> is_file t q)"
    and "is_dir t ''.''"
  shows "existing_paths e t fs = Inr []"
  using assms(2)
proof (induction fs)
  case (Cons f fs)
  then have p: "plain_rel (Path f)" by simp
  have "set (above (Path f)) = insert ''.'' (ancestors (Path f))"
    by (rule file_dirs [OF p]) (simp add: above_def chain_def)
  moreover have "\<not> is_file t ''.''" using assms(3) by (auto simp: is_dir_def is_file_def)
  ultimately have "\<not> list_ex (is_file t) (above (Path f))" using Cons.prems by (auto simp: list_ex_iff)
  then have "stat_path e t (Path f) = Some Not_exist" using Cons.prems assms(1) by (simp add: stat_path_def all_carried_def)
  then show ?case using Cons by simp
qed simp

lemma generateRun_Created:
  assumes "generateRun eng emb e kept race migrations wd kind args t = (Created kind' name plan, t')"
  obtains arg root mp n where "args = [arg]" "wd = Some root" "kind' = kind" "ValidateResourceName arg = Inr name"
    "ModulePathOf e t = Inr mp" "(if kind = KindResource then NextMigrationVersion migrations else Inr 0) = Inr n"
    "NewPlan eng emb \<lparr>S_Kind = kind, S_Name = name, S_ModulePath = mp, S_AppName = Base (Clean root), S_NextMigration = n\<rparr> = Inr plan"
    "write_slice e kept (Files plan) [] (race t) = (None, map Path (Files plan), t') \<or> \<not> field_engine eng"
proof -
  from assms obtain arg root where a: "args = [arg]" "wd = Some root" "kind' = kind" "ValidateResourceName arg = Inr name"
    and g: "generateSlice eng emb e kept race migrations root name kind t = (Inr plan, t')"
    by (auto simp: generateRun_def renderGenerateError_def split: list.splits sum.splits option.splits prod.splits slice_error.splits)
  from g obtain mp n w where p: "ModulePathOf e t = Inr mp" "(if kind = KindResource then NextMigrationVersion migrations else Inr 0) = Inr n"
    "NewPlan eng emb \<lparr>S_Kind = kind, S_Name = name, S_ModulePath = mp, S_AppName = Base (Clean root), S_NextMigration = n\<rparr> = Inr plan"
    and w: "slice_Write e kept race plan t = (None, w, t')"
    unfolding generateSlice_def by (auto split: sum.splits prod.splits option.splits)
  from w have w': "write_slice e kept (Files plan) [] (race t) = (None, w, t')"
    by (auto simp: slice_Write_def split: sum.splits if_splits)
  have "w = map Path (Files plan)" if "field_engine eng"
    using write_slice_exact [OF _ w'] NewPlan_files(4) [OF that p(3)] by auto
  with that [OF a p] w' show ?thesis by blast
qed

section \<open>A run succeeds\<close>

lemma Fields_words: "w \<in> set (Fields s) \<Longrightarrow> w \<noteq> []"
proof (induction s rule: Fields.induct)
  case (1 s)
  obtain v r where v: "span_word (trim_left s) = (v, r)" by fastforce
  have "v \<noteq> []" if "trim_left s \<noteq> []"
    using v that trim_left_facts [of s] by (cases "trim_left s") (auto split: prod.splits)
  then show ?case
    using 1(1) [OF refl _ refl v [symmetric]] 1(2) v
    by (subst (asm) (2) Fields.simps) (auto simp: Let_def split: if_splits)
qed

lemma module_line_word: "module_line ls = Some m \<Longrightarrow> m \<noteq> []"
proof (induction ls)
  case (Cons raw ls)
  then show ?case using Fields_words [of m "trim_space raw"]
    by (auto split: list.splits if_splits)
qed simp

lemma ModulePathOf_word: "ModulePathOf e t = Inr m \<Longrightarrow> m \<noteq> []"
  by (auto simp: ModulePathOf_def split: sum.splits option.splits dest: module_line_word)

definition slice_request :: "string \<Rightarrow> string \<Rightarrow> string \<Rightarrow> string \<Rightarrow> int \<Rightarrow> slice_options" where
  "slice_request kind name mp root n =
     \<lparr>S_Kind = kind, S_Name = name, S_ModulePath = mp, S_AppName = Base (Clean root), S_NextMigration = n\<rparr>"

text \<open>What has to hold of the project: its paths are free and no file stands where a directory is needed.\<close>

definition room_for :: "slice_options \<Rightarrow> tree \<Rightarrow> bool" where
  "room_for opts t \<longleftrightarrow> is_dir t ''.'' \<and> (\<forall>p\<in>set (slice_paths opts). t p = None \<and> (\<forall>q\<in>ancestors p. \<not> is_file t q))"

lemma generate_succeeds:
  assumes "field_engine eng" and "all_carried e" and "race t = t"
    and "ValidateResourceName arg = Inr name" and "ModulePathOf e t = Inr mp"
    and "kind = KindFeature \<and> n = 0 \<or> kind = KindResource \<and> NextMigrationVersion migrations = Inr n \<and> 1 \<le> n"
    and "slice_renders eng emb (slice_sources kind) (slice_fields (slice_data_of (slice_request kind name mp root n) (names_of name)))"
    and "room_for (slice_request kind name mp root n) t"
  shows "\<exists>plan t'. generateRun eng emb e kept race migrations (Some root) kind [arg] t = (Created kind name plan, t') \<and>
    set (map Path (Files plan)) = set (slice_paths (slice_request kind name mp root n)) \<and> distinct (map Path (Files plan)) \<and>
    length (Files plan) = (if kind = KindFeature then 4 else 18)"
proof -
  let ?o = "slice_request kind name mp root n"
  have ok: "slice_options_ok ?o"
    using ValidateResourceName_canonical [OF assms(4)] ModulePathOf_word [OF assms(5)] assms(6)
    by (auto simp: slice_options_ok_def slice_request_def KindFeature_def KindResource_def)
  have o: "S_Kind ?o = kind" "S_Name ?o = name" by (simp_all add: slice_request_def)
  obtain plan where plan: "NewPlan eng emb ?o = Inr plan"
    using NewPlan_total [OF assms(1) ok] assms(7) by (auto simp: o)
  note files = NewPlan_files [OF assms(1) plan]
  have mem: "Path f \<in> set (slice_paths ?o)" if "f \<in> set (Files plan)" for f using files(1) that by auto
  have room: "is_dir t ''.''" "\<forall>f\<in>set (Files plan). plain_rel (Path f) \<and> t (Path f) = None \<and> (\<forall>q\<in>ancestors (Path f). \<not> is_file t q)"
    using assms(8) files(4) mem by (auto simp: room_for_def)
  have "\<forall>f\<in>set (Files plan). Path f \<notin> project_dirs (Files plan)" using files_not_dirs files(4) by blast
  then have "\<forall>f\<in>set (Files plan). \<forall>q\<in>ancestors (Path f). \<not> is_file t q \<and> q \<notin> Path ` set (Files plan)"
    using room(2) by (auto simp: project_dirs_def)
  then obtain w t' where "write_slice e kept (Files plan) [] t = (None, w, t')"
    using write_slice_ok [OF assms(2) room(1) _ files(3), of kept "[]"] room(2) by blast
  then have "slice_Write e kept race plan t = (None, w, t')"
    using existing_paths_none [OF assms(2) room(2,1)] assms(3) by (simp add: slice_Write_def)
  then have "generateRun eng emb e kept race migrations (Some root) kind [arg] t = (Created kind name plan, t')"
    using assms(4-6) plan
    by (auto simp: generateRun_def generateSlice_def slice_request_def KindFeature_def KindResource_def)
  moreover have "length (Files plan) = length (slice_paths ?o)"
    using files(1,3) slice_paths_distinct [of ?o] by (metis distinct_card length_map)
  ultimately show ?thesis
    using files(1,3) assms(6)
    by (auto simp: slice_paths_def resource_paths_def feature_paths_def Let_def o KindFeature_def KindResource_def)
qed

definition sample_env :: env where
  "sample_env = \<lparr>umask = 0x3F, carried = (\<lambda>_. True)\<rparr>"

definition sample_project :: tree where
  "sample_project = [''.'' \<mapsto> DirN DirMode, ''go.mod'' \<mapsto> FileN FileMode ''module shop'']"

definition sample_request :: slice_options where
  "sample_request = slice_request KindFeature ''invoice'' ''shop'' ''/work/shop'' 0"

lemma sample_name: "ValidateResourceName ''Invoice'' = Inr ''invoice''"
proof -
  have "map lower_char ''Invoice'' = ''invoice''" by code_simp
  then show ?thesis
    by (simp add: ValidateResourceName_def maxResourceNameLen_def resourceNameRE_def conc_class_star reservedResourceNames_def
        char_class_defs code_def Let_def)
qed

lemma sample_module: "ModulePathOf sample_env sample_project = Inr ''shop''"
proof -
  have "module_line [''module shop''] = Some ''shop''" by code_simp
  then show ?thesis by (simp add: ModulePathOf_def read_file_def sample_env_def sample_project_def)
qed

lemma sample_room: "room_for sample_request sample_project"
  by (auto simp: room_for_def sample_request_def slice_request_def slice_paths_def feature_paths_def Let_def
      KindFeature_def KindResource_def sample_project_def is_dir_def is_file_def ancestors_def downs.simps split: if_splits)

lemma sample_renders: "slice_renders fill_engine (\<lambda>_. Some ''x'') ts d"
  by (auto simp: slice_renders_def fill_engine_def list_all_iff split: option.splits)

lemmas sample_ready = fill_engine_ok(1) sample_name sample_module sample_renders sample_room [unfolded sample_request_def]

lemma sample_carried: "all_carried sample_env"
  by (simp add: all_carried_def sample_env_def)



lemma sample_generate:
  "\<exists>plan t'. generateRun fill_engine (\<lambda>_. Some ''x'') sample_env (\<lambda>_. 0) id None (Some ''/work/shop'') KindFeature
     [''Invoice''] sample_project = (Created KindFeature ''invoice'' plan, t') \<and>
     set (map Path (Files plan)) = set (feature_paths ''invoice'')"
  using generate_succeeds [OF fill_engine_ok(1) sample_carried _ sample_name sample_module _ sample_renders
      sample_room [unfolded sample_request_def], of id None "\<lambda>_. 0"]
  by (auto simp: slice_paths_def slice_request_def KindFeature_def KindResource_def Let_def)

text \<open>
  C17: A run of \<open>nise generate\<close> never changes, truncates or removes an entry that exists: whatever the
  arguments, whichever call fails, and whatever other processes did between the check of the plan's paths
  and its writing, either the tree is exactly as it was or every entry present when the writing began has
  the content and the mode it had.
\<close>

theorem generate_keeps_existing:
  assumes "generateRun eng emb e kept race migrations wd kind args t = (report, t')"
  shows "t' = t \<or> (\<forall>q. race t q \<noteq> None \<longrightarrow> t' q = race t q)"
  using assms generateSlice_keeps [of eng emb e kept race migrations _ _ kind t]
  by (auto simp: generateRun_def split: list.splits sum.splits option.splits prod.splits)

theorem generate_keeps_existing_witness:
  "snd (generateRun fill_engine (\<lambda>_. Some ''x'') sample_env (\<lambda>_. 0) id None (Some ''/work/shop'') KindFeature
     [''Invoice''] sample_project) ''go.mod'' = Some (FileN FileMode ''module shop'')"
proof -
  obtain r t' where run: "generateRun fill_engine (\<lambda>_. Some ''x'') sample_env (\<lambda>_. 0) id None (Some ''/work/shop'') KindFeature
     [''Invoice''] sample_project = (r, t')" by fastforce
  from generate_keeps_existing [OF run] have "t' ''go.mod'' = sample_project ''go.mod''"
    by (auto simp: sample_project_def)
  then show ?thesis unfolding run by (simp add: sample_project_def)
qed

text \<open>
  C34: A run of \<open>nise generate\<close> that reports success has written its plan and nothing else, whatever the
  umask and whatever other processes did in between: every planned path was free and now holds its rendered
  content with mode 0644; every directory that was missing above one has mode 0755, and a directory that
  was already there keeps its mode; every other entry is as it was when the writing began.
\<close>

theorem generate_exact:
  assumes "field_engine eng"
    and "generateRun eng emb e kept race migrations wd kind args t = (Created kind' name plan, t')"
  shows "kind' = kind \<and> (\<exists>arg. args = [arg] \<and> ValidateResourceName arg = Inr name) \<and>
    (\<forall>f\<in>set (Files plan). race t (Path f) = None \<and> t' (Path f) = Some (FileN FileMode (Content f)) \<and> FOwner f = OwnerApp) \<and>
    (\<forall>q. q \<notin> Path ` set (Files plan) \<longrightarrow>
      t' q = (if race t q = None \<and> (\<exists>f\<in>set (Files plan). q \<in> ancestors (Path f)) then Some (DirN DirMode) else race t q))"
proof -
  from assms(2) obtain arg root mp n where r: "args = [arg]" "kind' = kind" "ValidateResourceName arg = Inr name"
    "NewPlan eng emb \<lparr>S_Kind = kind, S_Name = name, S_ModulePath = mp, S_AppName = Base (Clean root), S_NextMigration = n\<rparr> = Inr plan"
    "write_slice e kept (Files plan) [] (race t) = (None, map Path (Files plan), t') \<or> \<not> field_engine eng"
    by (rule generateRun_Created) blast
  have p: "\<forall>f\<in>set (Files plan). plain_rel (Path f) \<and> file_shaped (Path f) \<and> FOwner f = OwnerApp"
    using NewPlan_files(4) [OF assms(1) r(4)] .
  have "write_slice e kept (Files plan) [] (race t) = (None, map Path (Files plan), t')" using r(5) assms(1) by blast
  with p write_slice_exact [of "Files plan" e kept "[]" "race t" "map Path (Files plan)" t'] r(1-3) show ?thesis by auto
qed

theorem generate_exact_witness:
  "\<exists>plan t'. generateRun fill_engine (\<lambda>_. Some ''x'') sample_env (\<lambda>_. 0) id None (Some ''/work/shop'') KindFeature
     [''Invoice''] sample_project = (Created KindFeature ''invoice'' plan, t') \<and>
     is_file t' ''internal/features/invoice/domain.go'' \<and> t' ''go.mod'' = Some (FileN FileMode ''module shop'')"
proof -
  obtain plan t' where run: "generateRun fill_engine (\<lambda>_. Some ''x'') sample_env (\<lambda>_. 0) id None (Some ''/work/shop'') KindFeature
       [''Invoice''] sample_project = (Created KindFeature ''invoice'' plan, t')"
    and paths: "set (map Path (Files plan)) = set (feature_paths ''invoice'')"
    using sample_generate by blast
  note ex = generate_exact [OF fill_engine_ok(1) run]
  have "''internal/features/invoice/domain.go'' \<in> Path ` set (Files plan)" "''go.mod'' \<notin> Path ` set (Files plan)"
    using paths by (simp_all add: feature_paths_def)
  then have "is_file t' ''internal/features/invoice/domain.go''" "t' ''go.mod'' = Some (FileN FileMode ''module shop'')"
    using ex by (auto simp: is_file_def sample_project_def)
  then show ?thesis using run by blast
qed

text \<open>
  When a path appears between the check and the writing, the run stops at it with the same refusal as a
  collision found by the check, although the files before it are written.
\<close>

definition late_plan :: slice_plan where
  "late_plan = \<lparr>Files = [\<lparr>Path = ''a.go'', Content = ''x'', FOwner = OwnerApp\<rparr>, \<lparr>Path = ''b.go'', Content = ''y'', FOwner = OwnerApp\<rparr>],
     Insertions = [], Commands = [], P_Names = names_of ''a''\<rparr>"

lemma late_collision:
  "slice_Write sample_env kept (\<lambda>t. t(''b.go'' \<mapsto> FileN FileMode ''z'')) late_plan sample_project =
     (Some (Exists [''b.go'']), [''a.go''],
      sample_project(''b.go'' \<mapsto> FileN FileMode ''z'', ''a.go'' \<mapsto> FileN FileMode ''x''))"
proof -
  have d: "Dir ''a.go'' = ''.''" "Dir ''b.go'' = ''.''"
    using Dir_of_elems [of "[''a.go'']"] Dir_of_elems [of "[''b.go'']"] by (simp_all add: plain_elem_def of_elems_def)
  have "stat_path sample_env sample_project p = Some Not_exist" if "p \<in> {''a.go'', ''b.go''}" for p
    using that by (auto simp: stat_path_def sample_env_def sample_project_def above_def d path_elems_def prefixes_of_def is_file_def of_elems_def)
  then show ?thesis
    by (simp add: slice_Write_def late_plan_def d create_file_def sample_env_def sample_project_def is_dir_def Let_def)
qed

section \<open>What is left to do by hand\<close>

text \<open>
  A plan always lists the seven edits of a resource: the version is padded to five digits, so it is never
  empty, and the test for a plain feature never holds.  A feature is told to merge an OpenAPI fragment that
  is not one of its files.
\<close>

lemma feature_gets_resource_insertions:
  assumes "field_engine eng" and "NewPlan eng emb opts = Inr plan" and "S_Kind opts = KindFeature"
  shows "map I_File (Insertions plan) =
      [''internal/platform/authorization/catalog.go'', ''internal/app/app.go'', ''internal/app/app.go'',
       ''api/openapi.yaml'', ''internal/platform/httpapi/api.go'', ''internal/app/app.go'',
       ''internal/platform/httpapi/api_test.go'']"
    "''api/'' @ S_Name opts @ ''.yaml'' \<notin> set (map Path (Files plan))" "Commands plan = []"
proof -
  have c: "Insertions plan = insertions (slice_data_of opts (names_of (S_Name opts)))" "Commands plan = commands (S_Kind opts)"
    using NewPlan_cases [OF assms(2)] by blast+
  have "pad5_int i \<noteq> []" for i by (simp add: pad5_int_def pad5_def show_nat_not_Nil)
  then show "map I_File (Insertions plan) =
      [''internal/platform/authorization/catalog.go'', ''internal/app/app.go'', ''internal/app/app.go'',
       ''api/openapi.yaml'', ''internal/platform/httpapi/api.go'', ''internal/app/app.go'',
       ''internal/platform/httpapi/api_test.go'']"
    unfolding c(1) by (simp add: insertions_def slice_data_of_def shared_insertions_def resource_insertions_def Let_def)
  show "''api/'' @ S_Name opts @ ''.yaml'' \<notin> set (map Path (Files plan))"
    using NewPlan_files(1) [OF assms(1,2)] assms(3)
    by (simp add: slice_paths_def feature_paths_def Let_def KindFeature_def KindResource_def)
  show "Commands plan = []" using c assms(3) by (auto simp: commands_def KindFeature_def KindResource_def)
qed

section \<open>Migration numbers\<close>

definition numbers :: "(string \<times> bool) list \<Rightarrow> int set" where
  "numbers ents = {v. \<exists>ent\<in>set ents. migration_number ent = Some v}"

lemma numbers_finite [simp]: "finite (numbers ents)"
proof -
  have "numbers ents \<subseteq> (\<lambda>ent. the (migration_number ent)) ` set ents"
  proof
    fix v assume "v \<in> numbers ents"
    then obtain ent where "ent \<in> set ents" "migration_number ent = Some v" by (auto simp: numbers_def)
    then show "v \<in> (\<lambda>ent. the (migration_number ent)) ` set ents" by (intro image_eqI [of _ _ ent]) simp_all
  qed
  then show ?thesis by (rule finite_subset) simp
qed

lemma highest_Max: "highest_of ents = Max (insert 0 (numbers ents))"
proof -
  have "foldl (\<lambda>h ent. case migration_number ent of None \<Rightarrow> h | Some v \<Rightarrow> if v > h then v else h) b ents =
      Max (insert b (numbers ents))" for b
  proof (induction ents arbitrary: b)
    case (Cons ent ents)
    show ?case
    proof (cases "migration_number ent")
      case None
      then have "numbers (ent # ents) = numbers ents" by (auto simp: numbers_def)
      then show ?thesis using Cons None by simp
    next
      case (Some v)
      have n: "numbers (ent # ents) = insert v (numbers ents)" using Some by (auto simp: numbers_def)
      have "Max (insert b (insert v (numbers ents))) = Max (insert (max b v) (numbers ents))"
        by (cases "numbers ents = {}") (simp_all add: max.assoc)
      then show ?thesis using Cons Some n by (simp add: max_def)
    qed
  qed (simp add: numbers_def)
  then show ?thesis by (simp add: highest_of_def)
qed

lemma atoi_range: "atoi s = Some v \<Longrightarrow> v < 9223372036854775808"
  by (auto simp: atoi_def Let_def split: if_splits)

lemma numbers_range: "v \<in> numbers ents \<Longrightarrow> v < 9223372036854775808"
  by (auto simp: numbers_def migration_number_def split: if_splits option.splits dest: atoi_range)

lemma digits_val_zeros: "digits_val (replicate k (CHR ''0'') @ s) = digits_val s"
  by (induction k) (simp_all add: digits_val_def digit_val_def code_def)

lemma atoi_pad5: "0 \<le> i \<Longrightarrow> i < 2 ^ 63 \<Longrightarrow> atoi (pad5_int i) = Some i"
  using pad5_int_plain [of i] by (subst atoi_digits) (simp_all add: pad5_int_def pad5_def digits_val_zeros nat_less_iff)

text \<open>
  C40: Migrations are numbered without a gap: when the next version is \<open>n\<close> and the migration of a resource
  planned as \<open>n\<close> has been added to \<open>db/migrations\<close>, wherever it sorts, the next version is \<open>n + 1\<close>; the
  file name and the reader of file names agree for every number, past five digits too.
\<close>

theorem migration_numbers_advance:
  assumes "NextMigrationVersion (Some ents) = Inr n" and "1 \<le> n" and "n < 2 ^ 63 - 1"
    and "set ents' = insert (pad5_int n @ ''_'' @ Pluralize s @ ''.sql'', False) (set ents)"
  shows "NextMigrationVersion (Some ents') = Inr (n + 1)"
proof -
  define h where "h = Max (insert 0 (numbers ents))"
  have h: "0 \<le> h" "h < 2 ^ 63" using numbers_range by (simp_all add: h_def)
  have w: "n = wrap64 (h + 1)" using assms(1) by (auto simp: NextMigrationVersion_def highest_Max h_def split: if_splits)
  have "h + 1 \<noteq> 2 ^ 63"
  proof
    assume "h + 1 = 2 ^ 63"
    then show False using w assms(2) by (simp add: wrap64_def)
  qed
  then have n: "n = h + 1" using h w wrap64_id [of "h + 1"] by simp
  have "CHR ''_'' \<notin> set (pad5_int n)"
    using pad5_int_plain [of n] assms(2) by (auto simp: list_all_iff is_digit_def code_def)
  then have "migration_number (pad5_int n @ ''_'' @ Pluralize s @ ''.sql'', False) = Some n"
    using atoi_pad5 [of n] assms(2,3) by (simp add: migration_number_def has_suffix_def cut_append)
  then have "numbers ents' = insert n (numbers ents)" using assms(4) by (auto simp: numbers_def)
  moreover have "Max (insert 0 (insert n (numbers ents))) = max n h"
    unfolding h_def by (subst insert_commute) (simp del: Max_insert add: Max_insert [of "insert 0 (numbers ents)"])
  ultimately have "highest_of ents' = n" using n by (simp add: highest_Max)
  then show ?thesis using assms(2,3) wrap64_id [of "n + 1"] by (simp add: NextMigrationVersion_def)
qed

definition sample_migrations :: "(string \<times> bool) list" where
  "sample_migrations = [(''00001_users.sql'', False)]"

lemma sample_highest: "highest_of sample_migrations = 1"
proof -
  have "atoi ''00001'' = Some 1" by (simp add: atoi_def digits_val_def digit_val_def is_digit_def code_def)
  moreover have "cut (CHR ''_'') ''00001_users.sql'' = Some (''00001'', ''users.sql'')" by simp
  ultimately show ?thesis by (simp add: sample_migrations_def highest_of_def migration_number_def has_suffix_def)
qed

theorem migration_numbers_advance_witness:
  "NextMigrationVersion (Some sample_migrations) = Inr 2 \<and>
   NextMigrationVersion (Some ((pad5_int 2 @ ''_'' @ Pluralize ''invoice'' @ ''.sql'', False) # sample_migrations)) = Inr 3"
proof -
  have "NextMigrationVersion (Some sample_migrations) = Inr 2" by (simp add: NextMigrationVersion_def sample_highest wrap64_id)
  then show ?thesis
    using migration_numbers_advance [of sample_migrations 2
        "(pad5_int 2 @ ''_'' @ Pluralize ''invoice'' @ ''.sql'', False) # sample_migrations" "''invoice''"]
    by (simp only: list.set) simp
qed

end
