(* ===== verification/Spec2Isabelle.thy ===== *)
theory Spec2Isabelle
  imports Session Authz Workbench_Authz Forwarded Report Password Transaction Health Lifecycle Config Reservation_Listing Resource_Laws Secure_Middleware Log_Text Cursor_Laws Totp Upgrade_Laws Feature_Laws
begin

text \<open>
  \<^bold>\<open>Nise & Go: a verification of the runtime, the reference application and the generator.\<close>

  The repository has three kinds of Go code.  The \<^emph>\<open>runtime\<close> (\<open>runtime/\<close>, \<open>modules/totp\<close>) is
  what a generated application links: sessions, permissions, cursors, passwords, transactions, health,
  process lifecycle, configuration, security headers, logging.  The \<^emph>\<open>reference application\<close>
  (\<open>examples/reference/app\<close>) is one application built on it, with reservations and resources as its
  features.  The \<^emph>\<open>tool\<close> (\<open>internal/\<close>, \<open>cmd/nise\<close>) plans and writes applications, upgrades them,
  and adds slices to them.  The theories follow that division; each opens with the files it models.

  \<^bold>\<open>Foundations.\<close>

  \<^item> \<open>Prelude\<close>: bytes, strings, \<open>strconv\<close>, 64-bit arithmetic, times and durations, and the collections
    \<open>go_str\<close>, \<open>go_time\<close> and \<open>codec_laws\<close> of lemmas the component proofs share.
  \<^item> \<open>Encodings\<close>, \<open>Base32\<close>, \<open>Hashes\<close>, \<open>Netip\<close>, \<open>Utf8\<close>, \<open>Json\<close>, \<open>Json_Value\<close>, \<open>Regex\<close>: what the
    code uses of the standard library.  The locales \<open>byte_codec\<close>, \<open>strict_codec\<close> and \<open>mac\<close> state what the
    clients rely on and are interpreted on the codecs and on HMAC over executable SHA-256 and SHA-1.
  \<^item> \<open>Framing\<close>: the length-prefixed encoding under the cursor fingerprint, with the locale \<open>framing\<close>
    interpreted on byte strings, texts and parameters.
  \<^item> \<open>Project_Tree\<close>: lexical paths and a file tree with modes.  A call on it may fail: the record \<open>env\<close>
    has the umask and, for each system call, whether it is carried out, and every theorem about writing
    holds for every \<open>env\<close> unless it says otherwise.

  \<^bold>\<open>Runtime.\<close>

  \<^item> \<open>Session\<close> (\<open>runtime/session\<close>): tokens, digests, the idle and absolute lifetimes, freshness, CSRF
    tokens, cookies.  \<open>Parse\<close> accepts exactly the canonical tokens; the verdict on a session only gets more
    severe with time; exactly which 64-bit durations \<open>NewLifetime\<close> accepts.
  \<^item> \<open>Authz\<close> (\<open>runtime/authz\<close>): permissions, roles and the closed catalog.  The locale
    \<open>permission_algebra\<close> carries the set laws; granting is exact, and so is what a catalog accepts.
  \<^item> \<open>Forwarded\<close> (\<open>runtime/forwarded\<close>): a client cannot influence the resolved request past the declared
    proxies.
  \<^item> \<open>Cursor\<close>, \<open>Cursor_Laws\<close>, \<open>Report\<close> (\<open>runtime/pagination\<close>): key rings, the signed codec, page
    requests; acceptance is exactly authenticity for this query before expiry, issued cursors read back
    across rotation, and report offsets do not wrap.
  \<^item> \<open>Password\<close> (\<open>runtime/password\<close>), \<open>Totp\<close> (\<open>modules/totp\<close>): stored hashes verify under every policy
    that accepts their parameters; a one-time code is accepted exactly within the drift, and the step
    reported with it is the latest one, so that refusing that step refuses every replay.
  \<^item> \<open>Transaction\<close> (\<open>runtime/transaction\<close>): a begun transaction ends exactly once, whatever the callback
    and the driver do, panics included.
  \<^item> \<open>Health\<close>, \<open>Lifecycle\<close>, \<open>Config\<close>: the prober and the readiness gate, the component group and the
    worker as step relations over interleavings, and the loader with its recorded failures.
  \<^item> \<open>Csp\<close>, \<open>Secure\<close>, \<open>Secure_Laws\<close>, \<open>Secure_Middleware\<close> (\<open>runtime/secure\<close>): every weakening of a
    policy is recorded, the policy value reads back, and it reaches every header block a handler sends.
  \<^item> \<open>Logging\<close>, \<open>Log_Text\<close> (\<open>runtime/logging\<close>): redaction is exact at any depth, and a value under a
    denied key has no influence on the line written.

  \<^bold>\<open>Reference application.\<close>

  \<^item> \<open>Workbench_Authz\<close>: the declared catalog and the reauthentication matrix.
  \<^item> \<open>Reservation\<close>, \<open>Reservation_Safety\<close>, \<open>Reservation_Commands\<close>, \<open>Reservation_Listing\<close>: the use case
    over its SQL queries (a query is a function on the table with its constraints).  Any sequence of
    commands keeps the constraints and moves each reservation only along its state machine; each command
    refines its contract; following the cursors visits everything once.
  \<^item> \<open>Resource\<close>, \<open>Resource_Laws\<close>: the same for resources, with isolation between organizations.
  \<^item> \<open>Paging\<close>: the client that follows cursors, once, in the locale \<open>keyset_listing\<close>, interpreted on both
    listings.

  \<^bold>\<open>Tool.\<close>

  \<^item> \<open>Naming\<close>, \<open>Recipe\<close>, \<open>Agents_File\<close>, \<open>Versions\<close>, \<open>Manifest\<close>: the validators (equal to a reference
    set of names), the recipe and its canonical document (typed decoding, round trip), \<open>AGENTS.md\<close> and the
    architecture map with their hashes, the pinned versions, and the table of templates.
  \<^item> \<open>Generator\<close>, \<open>Generator_Laws\<close>, \<open>Generator_Write\<close> (\<open>internal/generator\<close>): a plan exists for every
    valid selection and has no colliding paths; a successful run has written the plan and nothing else.
  \<^item> \<open>Dependencies\<close>, \<open>Upgrade\<close>, \<open>Upgrade_Laws\<close> (\<open>internal/upgrade\<close>): the line rewrites of the manifests,
    the chain of migrations, planning and applying.  Application-owned files survive however an upgrade
    ends, a finished one leaves the planned content, and a failed one has already recorded its target.
  \<^item> \<open>Feature\<close>, \<open>Feature_Write\<close>, \<open>Feature_Laws\<close> (\<open>internal/generator/feature\<close>, \<open>internal/cli/generate.go\<close>,
    \<open>generatefeature.go\<close>): names, templates, insertions, the exclusive writer and the command.  A run never
    changes an entry it did not create, also when other processes change the tree between its check and its
    writing; a successful run has written its plan and nothing else; it succeeds for every accepted name;
    migrations are numbered without a gap.

  \<^bold>\<open>Parameters and hypotheses.\<close>  Code outside the repository is an argument.  The key-derivation function of
  \<open>Password\<close>, the random source (\<open>rand_source\<close>), the case mapping of non-ASCII text, the database driver,
  the transaction runner of a tenant, the handlers behind a middleware and the HTTP writer are functions with
  named hypotheses (\<open>transactional\<close>, \<open>fills\<close> and the like).  The template engine \<open>eng\<close> and the embedded
  templates \<open>emb\<close> are functions too: \<open>field_engine\<close> says that a text of literals and string fields renders
  by putting the fields in place, and \<open>templates_render\<close> and \<open>slice_renders\<close> that the embedded templates
  render.  Each theorem with such a hypothesis has a witness at a concrete function that satisfies it.

  \<^bold>\<open>Integers, bounds and fuel.\<close>  Durations are 64-bit words, or integers with \<open>wrap64\<close> at each operation the
  source does not bound.  Loops are structural or have a measure, except three with a bound: the JSON reader
  gets twice the length of its input and one step more (\<open>read_json_bound\<close>: a larger bound changes nothing);
  the walk from a file to the root gets the length of the path, which has more bytes than elements
  (\<open>planDirectories_reference\<close>); the chain of migrations has the code's own bound, one round more than the
  table has entries, which \<open>Upgrade_Laws\<close> shows to find every chain there is.

  \<^bold>\<open>What modelling showed.\<close>  Where the code departs from its comments or documents, the model follows the
  code and a lemma shows the departure: \<open>NewLifetime\<close> accepts a touch interval whose double wraps; the
  recipe is written before the other files of an upgrade; \<open>insideProject\<close> accepts the parent directory; a
  requirement on one line is not moved, and moving a package drops the blank lines after it; the resource
  cursor is cut at its first separator; a plain feature is told to merge an OpenAPI fragment it does not
  have; a collision that appears after the check is reported as nothing written.

  \<^bold>\<open>Not modelled.\<close>  Metrics and tracing (atomic updates of floating-point cells), the JSON log handler
  (it delegates to \<open>log/slog\<close>), the password benchmark (it measures time), the HTTP handlers and the assembly
  of the reference application (translation to generated types that are not in the repository), command
  dispatch, help and terminal output apart from \<open>nise generate\<close>, the development supervisor, the project
  checks, the doctor, the release feed and the release tooling (processes, sockets, network and installed
  tools), and the templates, which are data.
\<close>

end
